(* ===== verification/Prelude.thy ===== *)
theory Prelude
  imports Main "HOL-Library.Word" "HOL-Library.AList" "HOL-Library.Sublist"
begin

unbundle bit_operations_syntax

text \<open>
  Shared vocabulary of the development: Rust's machine integers as words, the
  saturating and checked operations of the standard library, big-endian byte
  strings, slice copies and the \<open>?\<close> operator on results.

  Unsigned integers are words, so \<open>+\<close>, \<open>-\<close> and \<open>*\<close> wrap around as they do in the
  workspace's release profile (no \<open>overflow-checks\<close>), and \<open><\<close>, \<open>div\<close>, \<open>mod\<close> are
  unsigned. Lengths and indices of vectors (\<open>usize\<close>) are natural numbers.
\<close>

section \<open>Machine integers and byte strings\<close>

type_synonym u8 = "8 word"
type_synonym u16 = "16 word"
type_synonym u32 = "32 word"
type_synonym u64 = "64 word"
type_synonym bytes = "u8 list"
type_synonym hash32 = bytes
type_synonym address = bytes

text \<open>The simp rules that move word arithmetic to the natural numbers.\<close>

named_theorems to_nat
named_theorems byte_simps

definition sat_add :: "'a::len word \<Rightarrow> 'a word \<Rightarrow> 'a word" where
  "sat_add a b = (if unat a + unat b < 2 ^ LENGTH('a) then a + b else - 1)"

definition sat_sub :: "'a::len word \<Rightarrow> 'a word \<Rightarrow> 'a word" where
  "sat_sub a b = (if a < b then 0 else a - b)"

definition sat_mul :: "'a::len word \<Rightarrow> 'a word \<Rightarrow> 'a word" where
  "sat_mul a b = (if unat a * unat b < 2 ^ LENGTH('a) then a * b else - 1)"

definition checked_add :: "'a::len word \<Rightarrow> 'a word \<Rightarrow> 'a word option" where
  "checked_add a b = (if unat a + unat b < 2 ^ LENGTH('a) then Some (a + b) else None)"

definition checked_sub :: "'a::len word \<Rightarrow> 'a word \<Rightarrow> 'a word option" where
  "checked_sub a b = (if a < b then None else Some (a - b))"

definition div_ceil :: "'a::len word \<Rightarrow> 'a word \<Rightarrow> 'a word" where
  "div_ceil a b = (if a mod b = 0 then a div b else a div b + 1)"

lemma unat_minus_1_word [to_nat]: "unat (- 1 :: 'a::len word) = 2 ^ LENGTH('a) - 1"
  by (simp add: unsigned_minus_1_eq_mask mask_eq_exp_minus_1)

lemma unat_plus_1: "n \<noteq> - 1 \<Longrightarrow> unat (n + 1) = Suc (unat n)" for n :: "'a::len word"
  by (metis add.commute eq_neg_iff_add_eq_0 unatSuc)

lemma unat_Suc_less: "n \<noteq> - 1 \<Longrightarrow> Suc (unat n) < 2 ^ LENGTH('a)" for n :: "'a::len word"
proof -
  assume "n \<noteq> - 1"
  moreover have "unat (n + 1) < 2 ^ LENGTH('a)" by simp
  ultimately show ?thesis using unat_plus_1 [of n] by simp
qed

lemma sat_add_0 [simp]: "sat_add 0 x = x"
  by (simp add: sat_add_def)

lemma sat_sub_0 [simp]: "sat_sub x 0 = x"
  by (simp add: sat_sub_def)

lemma unat_sat_add [to_nat]:
  "unat (sat_add a b) = min (unat a + unat b) (2 ^ LENGTH('a) - 1)" for a b :: "'a::len word"
  by (auto simp: sat_add_def unat_word_ariths unat_minus_1_word)

lemma unat_sat_sub [to_nat]: "unat (sat_sub a b) = unat a - unat b" for a b :: "'a::len word"
  by (auto simp: sat_sub_def word_less_nat_alt unat_sub_if_size)

lemma unat_sat_mul [to_nat]:
  "unat (sat_mul a b) = min (unat a * unat b) (2 ^ LENGTH('a) - 1)" for a b :: "'a::len word"
  by (auto simp: sat_mul_def unat_word_ariths unat_minus_1_word)

lemma checked_add_Some [to_nat]:
  "checked_add a b = Some c \<longleftrightarrow> unat c = unat a + unat b" for a b c :: "'a::len word"
proof -
  have "unat c < 2 ^ LENGTH('a)" by simp
  then show ?thesis
    unfolding checked_add_def by (auto simp: unat_word_ariths word_unat_eq_iff simp del: unsigned_less)
qed

lemma unat_div_ceil_le_iff [to_nat]:
  "unat (div_ceil a b) \<le> k \<longleftrightarrow> unat a \<le> k * unat b" if "b \<noteq> 0" for a b :: "'a::len word"
proof -
  define q r where "q = unat a div unat b" and "r = unat a mod unat b"
  have b: "0 < unat b" using that by (simp add: unat_gt_0)
  have a: "unat a = q * unat b + r" and r: "r < unat b"
    using b by (simp_all add: q_def r_def)
  have zero: "a mod b = 0 \<longleftrightarrow> r = 0"
    unfolding r_def by (metis unat_mod_distrib unat_eq_zero)
  have "q * 1 \<le> q * unat b" using b by (intro mult_le_mono2) simp
  moreover have "unat a < 2 ^ LENGTH('a)" by simp
  ultimately have q1: "q + 1 < 2 ^ LENGTH('a)" if "r \<noteq> 0"
    using a that by linarith
  have "unat (div_ceil a b) = (if r = 0 then q else q + 1)"
    using q1 by (auto simp: div_ceil_def zero unat_div_distrib unat_word_ariths q_def)
  moreover have "q \<le> k \<longleftrightarrow> q * unat b \<le> k * unat b" using b by simp
  moreover have "q + 1 \<le> k \<longleftrightarrow> q * unat b + r \<le> k * unat b" if "r \<noteq> 0"
  proof
    assume "q + 1 \<le> k"
    then have "(q + 1) * unat b \<le> k * unat b" by (rule mult_le_mono1)
    with r show "q * unat b + r \<le> k * unat b" by simp
  next
    assume *: "q * unat b + r \<le> k * unat b"
    show "q + 1 \<le> k"
    proof (rule ccontr)
      assume "\<not> q + 1 \<le> k"
      then have "k * unat b \<le> q * unat b" by (intro mult_le_mono1) simp
      with * that show False by simp
    qed
  qed
  ultimately show ?thesis by (auto simp: a)
qed

section \<open>Byte strings\<close>

text \<open>
  \<open>to_be_bytes\<close> and \<open>from_be_bytes\<close> of the integer types: the width in bytes is an
  argument, the value a natural number.
\<close>

fun to_be :: "nat \<Rightarrow> nat \<Rightarrow> bytes" where
  "to_be 0 v = []"
| "to_be (Suc n) v = to_be n (v div 256) @ [word_of_nat v]"

definition from_be :: "bytes \<Rightarrow> nat" where
  "from_be bs = foldl (\<lambda>acc b. acc * 256 + unat b) 0 bs"

lemma length_to_be [simp]: "length (to_be n v) = n"
  by (induction n arbitrary: v) auto

lemma from_be_Nil [simp]: "from_be [] = 0"
  by (simp add: from_be_def)

lemma from_be_snoc [simp]: "from_be (bs @ [b]) = from_be bs * 256 + unat b"
  by (simp add: from_be_def)

lemma from_to_be [simp]: "from_be (to_be n v) = v mod 256 ^ n"
proof (induction n arbitrary: v)
  case (Suc n)
  have "v mod (256 * 256 ^ n) = 256 * (v div 256 mod 256 ^ n) + v mod 256"
    by (rule mod_mult2_eq)
  with Suc show ?case by (simp add: unat_of_nat mult.commute)
qed simp

lemma from_be_less: "from_be bs < 256 ^ length bs"
proof (induction bs rule: rev_induct)
  case (snoc b bs)
  have "unat b < 2 ^ 8" using unsigned_less [of b] by simp
  with snoc show ?case by simp
qed simp

lemma to_from_be: "to_be (length bs) (from_be bs) = bs"
proof (induction bs rule: rev_induct)
  case (snoc b bs)
  have "unat b < 2 ^ 8" using unsigned_less [of b] by simp
  then have "(from_be bs * 256 + unat b) div 256 = from_be bs" by simp
  moreover have "(256 :: u8) = 0" by simp
  then have "word_of_nat (from_be bs * 256 + unat b) = b"
    by (simp only: of_nat_add of_nat_mult of_nat_numeral mult_zero_right add_0 of_nat_unat ucast_id)
  ultimately show ?case using snoc by simp
qed simp

lemma from_be_append: "from_be (xs @ ys) = from_be xs * 256 ^ length ys + from_be ys"
proof (induction ys rule: rev_induct)
  case (snoc y ys)
  have "from_be (xs @ ys @ [y]) = from_be (xs @ ys) * 256 + unat y"
    using from_be_snoc [of "xs @ ys" y] by simp
  then show ?case using snoc by (simp add: algebra_simps)
qed simp

lemma from_be_zeros: "from_be (replicate n 0) = 0"
proof (induction n)
  case (Suc n)
  have "replicate (Suc n) (0 :: u8) = replicate n 0 @ [0]" by (simp add: replicate_append_same)
  then show ?case using Suc by simp
qed simp

lemma drop_to_be: "drop k (to_be (k + n) v) = to_be n v"
  by (induction n arbitrary: v) simp_all

text \<open>\<open>dst[pos..pos + src.len()].copy_from_slice(src)\<close>.\<close>

definition write_at :: "nat \<Rightarrow> 'a list \<Rightarrow> 'a list \<Rightarrow> 'a list" where
  "write_at pos src dst = take pos dst @ src @ drop (pos + length src) dst"

lemma length_write_at [simp]:
  "pos + length src \<le> length dst \<Longrightarrow> length (write_at pos src dst) = length dst"
  by (simp add: write_at_def)

text \<open>\<open>src[from..to]\<close>.\<close>

definition slice :: "nat \<Rightarrow> nat \<Rightarrow> 'a list \<Rightarrow> 'a list" where
  "slice i j xs = take (j - i) (drop i xs)"

lemma length_slice [simp]: "j \<le> length xs \<Longrightarrow> length (slice i j xs) = j - i"
  by (simp add: slice_def)

lemma slice_all [simp]: "slice 0 (length xs) xs = xs"
  by (simp add: slice_def)

lemma nth_slice: "k < j - i \<Longrightarrow> j \<le> length xs \<Longrightarrow> slice i j xs ! k = xs ! (i + k)"
  by (simp add: slice_def)

lemma slice_slice: "j \<le> n - m \<Longrightarrow> n \<le> length xs \<Longrightarrow> slice i j (slice m n xs) = slice (m + i) (m + j) xs"
  by (auto simp: slice_def drop_take min_def add.commute)

lemma write_at_skip:
  "length a \<le> p \<Longrightarrow> write_at p src (a @ rest) = a @ write_at (p - length a) src rest"
  by (simp add: write_at_def)

lemma write_at_here: "length b = length src \<Longrightarrow> write_at 0 src (b @ rest) = src @ rest"
  by (simp add: write_at_def)

lemma update_eq_write_at: "i < length out \<Longrightarrow> out[i := v] = write_at i [v] out"
  by (simp add: write_at_def upd_conv_take_nth_drop)

lemma drop_slice: "i \<le> j \<Longrightarrow> drop i xs = slice i j xs @ drop j xs"
  by (metis append_take_drop_id drop_drop le_add_diff_inverse2 slice_def)

lemma write_at_skip_Cons: "0 < p \<Longrightarrow> write_at p src (x # rest) = x # write_at (p - 1) src rest"
  by (cases p) (simp_all add: write_at_def)

lemma write_at_0: "write_at 0 src dst = src @ drop (length src) dst"
  by (simp add: write_at_def)

lemma u8_eqI:
  fixes x y :: u8
  assumes "bit x 0 = bit y 0" "bit x 1 = bit y 1" "bit x 2 = bit y 2" "bit x 3 = bit y 3"
    "bit x 4 = bit y 4" "bit x 5 = bit y 5" "bit x 6 = bit y 6" "bit x 7 = bit y 7"
  shows "x = y"
proof (rule bit_word_eqI)
  fix n assume "n < LENGTH(8)"
  then consider "n = 0" | "n = 1" | "n = 2" | "n = 3" | "n = 4" | "n = 5" | "n = 6" | "n = 7"
    by (auto simp: less_Suc_eq numeral_eq_Suc)
  then show "bit x n = bit y n" using assms by cases auto
qed

lemma slice_Suc: "i < length xs \<Longrightarrow> [xs ! i] = slice i (Suc i) xs"
  by (simp add: slice_def take_Suc_conv_app_nth hd_drop_conv_nth take_Suc)

lemma slice_join: "i \<le> j \<Longrightarrow> j \<le> k \<Longrightarrow> slice i j xs @ slice j k xs = slice i k xs"
  using take_add [of "j - i" "k - j" "drop i xs"] by (simp add: slice_def)

lemma slice_join': "i \<le> j \<Longrightarrow> j \<le> k \<Longrightarrow> slice i j xs @ slice j k xs @ ys = slice i k xs @ ys"
  by (metis append_assoc slice_join)

lemma all_less_Suc: "(\<forall>j<Suc k. P j) \<longleftrightarrow> P 0 \<and> (\<forall>j<k. P (Suc j))"
  by (auto simp: less_Suc_eq_0_disj)

lemma write_at_write_at:
  "p + length a + length b \<le> length dst \<Longrightarrow>
   write_at (p + length a) b (write_at p a dst) = write_at p (a @ b) dst"
  by (simp add: write_at_def ac_simps)

lemma nth_of_slice:
  "slice i j xs = b \<Longrightarrow> k < j - i \<Longrightarrow> j \<le> length xs \<Longrightarrow> xs ! (i + k) = b ! k"
  using nth_slice by metis

section \<open>Results\<close>

text \<open>
  A \<open>Result<T, E>\<close> is a sum with the error on the left. \<open>and_then\<close> is the \<open>?\<close>
  operator followed by the rest of the function.
\<close>

definition and_then :: "'e + 'a \<Rightarrow> ('a \<Rightarrow> 'e + 'b) \<Rightarrow> 'e + 'b" where
  "and_then r f = (case r of Inl e \<Rightarrow> Inl e | Inr a \<Rightarrow> f a)"

lemma and_then_simps [simp]:
  "and_then (Inl e) f = Inl e"
  "and_then (Inr a) f = f a"
  by (simp_all add: and_then_def)

lemma and_then_Inr_iff:
  "and_then r f = Inr b \<longleftrightarrow> (\<exists>a. r = Inr a \<and> f a = Inr b)"
  by (cases r) auto

definition ok_or :: "'e \<Rightarrow> 'a option \<Rightarrow> 'e + 'a" where
  "ok_or e x = (case x of None \<Rightarrow> Inl e | Some a \<Rightarrow> Inr a)"

lemma ok_or_simps [simp]:
  "ok_or e None = Inl e"
  "ok_or e (Some a) = Inr a"
  by (simp_all add: ok_or_def)

definition map_err :: "('e \<Rightarrow> 'f) \<Rightarrow> 'e + 'a \<Rightarrow> 'f + 'a" where
  "map_err g r = (case r of Inl e \<Rightarrow> Inl (g e) | Inr a \<Rightarrow> Inr a)"

lemma map_err_simps [simp]:
  "map_err g (Inl e) = Inl (g e)"
  "map_err g (Inr a) = Inr a"
  by (simp_all add: map_err_def)

lemma map_err_and_then:
  "map_err h (and_then r f) = and_then (map_err h r) (\<lambda>x. map_err h (f x))"
  by (cases r) simp_all

end
