(* ===== verification/Frames.thy ===== *)
theory Frames
  imports Prelude
begin

text \<open>
  Channel frames and their wire format
  (\<open>src/crates/consensus/protocol/src/frame.rs\<close>): the record, its encoder and
  decoder, and the parser of a batcher transaction, a version byte followed by one
  or more frames. The lemmas show that the parser inverts the encoder, what the
  parser accepts, and which of its error branches can be taken.
\<close>

section \<open>The frame and its encoding\<close>

definition DERIVATION_VERSION_0 :: u8 where
  "DERIVATION_VERSION_0 = 0"

definition BLOB_MAX_DATA_SIZE :: nat where
  "BLOB_MAX_DATA_SIZE = (4 * 31 + 3) * 1024 - 4"

definition ENCODED_OVERHEAD :: nat where
  "ENCODED_OVERHEAD = 16 + 2 + 4 + 1"

definition FRAME_OVERHEAD_ESTIMATE :: nat where
  "FRAME_OVERHEAD_ESTIMATE = 200"

definition FRAME_MAX_LEN :: nat where
  "FRAME_MAX_LEN = 1000000"

datatype frame_decoding_error =
    FrameDataTooLarge nat
  | FrameDataTooShort nat
  | InvalidId
  | InvalidNumber
  | InvalidDataLength

datatype frame_parse_error =
    FrameDecodingError frame_decoding_error
  | NoFrames
  | UnsupportedVersion
  | DataLengthMismatch
  | NoFramesDecoded

record frame =
  frame_id :: bytes
  frame_number :: u16
  frame_data :: bytes
  frame_is_last :: bool

text \<open>\<open>Frame::encode_into\<close>: the length field is \<open>self.data.len() as u32\<close>, which truncates.\<close>

definition encode_into :: "frame \<Rightarrow> bytes \<Rightarrow> bytes" where
  "encode_into f encoded =
     encoded @ frame_id f @ to_be 2 (unat (frame_number f))
       @ to_be 4 (length (frame_data f) mod 2 ^ 32) @ frame_data f
       @ [if frame_is_last f then 1 else 0]"

definition frame_encode :: "frame \<Rightarrow> bytes" where
  "frame_encode f = encode_into f []"

definition encoded_len :: "frame \<Rightarrow> nat" where
  "encoded_len f = ENCODED_OVERHEAD + length (frame_data f)"

definition frame_size :: "frame \<Rightarrow> nat" where
  "frame_size f = length (frame_data f) + FRAME_OVERHEAD_ESTIMATE"

text \<open>
  \<open>Frame::decode\<close>. The three \<open>try_into\<close> conversions cannot fail after the length
  check, their slices have the width of the array they convert to.
\<close>

definition frame_decode :: "bytes \<Rightarrow> frame_decoding_error + (nat \<times> frame)" where
  "frame_decode encoded =
     (if length encoded < ENCODED_OVERHEAD then Inl (FrameDataTooShort (length encoded))
      else let
        fid = slice 0 16 encoded;
        number = word_of_nat (from_be (slice 16 18 encoded));
        data_len = from_be (slice 18 22 encoded)
      in if data_len > FRAME_MAX_LEN \<or> data_len \<ge> length encoded - (ENCODED_OVERHEAD - 1)
         then Inl (FrameDataTooLarge data_len)
         else Inr (ENCODED_OVERHEAD + data_len,
                   \<lparr>frame_id = fid, frame_number = number,
                    frame_data = slice 22 (22 + data_len) encoded,
                    frame_is_last = (encoded ! (22 + data_len) = 1)\<rparr>))"

lemma frame_decode_progress: "frame_decode bs = Inr (n, f) \<Longrightarrow> 0 < n"
  by (auto simp: frame_decode_def ENCODED_OVERHEAD_def Let_def split: if_splits)

text \<open>The \<open>while offset < data.len()\<close> loop of \<open>Frame::parse_frames\<close>.\<close>

function parse_loop ::
    "bytes \<Rightarrow> nat \<Rightarrow> frame list \<Rightarrow> frame_parse_error + (nat \<times> frame list)" where
  "parse_loop data offset frames =
     (if offset < length data then
        (case frame_decode (drop offset data) of
           Inl e \<Rightarrow> Inl (FrameDecodingError e)
         | Inr (frame_length, frame) \<Rightarrow>
             parse_loop data (offset + frame_length) (frames @ [frame]))
      else Inr (offset, frames))"
  by pat_completeness auto
termination
  by (relation "measure (\<lambda>(data, offset, frames). length data - offset)")
     (auto dest: frame_decode_progress)

declare parse_loop.simps [simp del]

definition parse_frames :: "bytes \<Rightarrow> frame_parse_error + frame list" where
  "parse_frames encoded =
     (if encoded = [] then Inl NoFrames
      else if hd encoded \<noteq> DERIVATION_VERSION_0 then Inl UnsupportedVersion
      else let data = tl encoded in
        and_then (parse_loop data 0 []) (\<lambda>(offset, frames).
          if offset \<noteq> length data then Inl DataLengthMismatch
          else if frames = [] then Inl NoFramesDecoded
          else Inr frames))"

section \<open>Well-formed frames\<close>

text \<open>
  What the Rust types and the decoder guarantee: the id is a \<open>[u8; 16]\<close> and the
  payload respects \<open>Frame::MAX_LEN\<close>.
\<close>

definition frame_wf :: "frame \<Rightarrow> bool" where
  "frame_wf f \<longleftrightarrow> length (frame_id f) = 16 \<and> length (frame_data f) \<le> FRAME_MAX_LEN"

lemma length_frame_encode:
  "length (frame_id f) = 16 \<Longrightarrow> length (frame_encode f) = encoded_len f"
  by (simp add: frame_encode_def encode_into_def encoded_len_def ENCODED_OVERHEAD_def)

lemma frame_decode_encode:
  assumes "frame_wf f"
  shows "frame_decode (frame_encode f @ rest) = Inr (encoded_len f, f)"
proof -
  let ?d = "frame_data f" and ?id = "frame_id f"
  let ?enc = "?id @ to_be 2 (unat (frame_number f)) @ to_be 4 (length ?d mod 2 ^ 32) @ ?d
                @ (if frame_is_last f then 1 else 0) # rest"
  have enc: "frame_encode f @ rest = ?enc"
    by (simp add: frame_encode_def encode_into_def)
  have idl: "length ?id = 16" and dl: "length ?d \<le> 1000000"
    using assms by (simp_all add: frame_wf_def FRAME_MAX_LEN_def)
  have s1: "slice 0 16 ?enc = ?id" using idl by (simp add: slice_def)
  have s2: "slice 16 18 ?enc = to_be 2 (unat (frame_number f))"
    using idl by (simp add: slice_def)
  have s3: "slice 18 22 ?enc = to_be 4 (length ?d mod 2 ^ 32)"
    using idl by (simp add: slice_def)
  have s4: "slice 22 (22 + length ?d) ?enc = ?d"
    using idl by (simp add: slice_def)
  have s5: "?enc ! (22 + length ?d) = (if frame_is_last f then 1 else 0)"
    using idl by (simp add: nth_append)
  have num: "word_of_nat (from_be (to_be 2 (unat (frame_number f)))) = frame_number f"
  proof -
    have "unat (frame_number f) < 65536" using unsigned_less [of "frame_number f"] by simp
    then show ?thesis by simp
  qed
  have len: "from_be (to_be 4 (length ?d mod 2 ^ 32)) = length ?d"
    using dl by simp
  show ?thesis
    unfolding enc frame_decode_def Let_def s1 s2 s3 num len s4 s5
    using idl dl by (simp add: ENCODED_OVERHEAD_def encoded_len_def FRAME_MAX_LEN_def)
qed

lemma frame_decode_Inr:
  assumes "frame_decode bs = Inr (n, f)"
  shows "frame_wf f" and "n = encoded_len f" and "n \<le> length bs"
proof -
  let ?len = "from_be (slice 18 22 bs)"
  from assms have l: "23 \<le> length bs" "?len \<le> FRAME_MAX_LEN" "?len < length bs - 22"
    and n: "n = 23 + ?len"
    and f: "f = \<lparr>frame_id = slice 0 16 bs, frame_number = word_of_nat (from_be (slice 16 18 bs)),
                 frame_data = slice 22 (22 + ?len) bs,
                 frame_is_last = (bs ! (22 + ?len) = 1)\<rparr>"
    by (auto simp: frame_decode_def ENCODED_OVERHEAD_def Let_def split: if_splits)
  from l f show "frame_wf f" by (simp add: frame_wf_def)
  from l f n show "n = encoded_len f" by (simp add: encoded_len_def ENCODED_OVERHEAD_def)
  from l n show "n \<le> length bs" by simp
qed

section \<open>Parsing a batcher transaction\<close>

lemma parse_loop_encode:
  assumes "list_all frame_wf fs"
  shows "parse_loop (pre @ concat (map frame_encode fs)) (length pre) acc =
         Inr (length (pre @ concat (map frame_encode fs)), acc @ fs)"
  using assms
proof (induction fs arbitrary: pre acc)
  case Nil
  then show ?case by (simp add: parse_loop.simps)
next
  case (Cons f fs)
  have wf: "frame_wf f" and wfs: "list_all frame_wf fs" using Cons.prems by auto
  have len: "length (frame_encode f) = encoded_len f"
    using wf by (simp add: frame_wf_def length_frame_encode)
  then have "frame_encode f \<noteq> []" and "0 < encoded_len f"
    by (auto simp: encoded_len_def ENCODED_OVERHEAD_def)
  moreover have "frame_decode (frame_encode f @ concat (map frame_encode fs)) = Inr (encoded_len f, f)"
    by (rule frame_decode_encode [OF wf])
  ultimately show ?case
    using Cons.IH [OF wfs, of "pre @ frame_encode f" "acc @ [f]"] len
    by (subst parse_loop.simps) simp
qed

lemma parse_loop_Inr:
  assumes "parse_loop data offset frames = Inr (ofs, fs)" and "offset \<le> length data"
  shows "ofs = length data \<and>
    (\<exists>gs. fs = frames @ gs \<and> list_all frame_wf gs \<and>
          length data = offset + sum_list (map encoded_len gs))"
  using assms
proof (induction data offset frames rule: parse_loop.induct)
  case (1 data offset frames)
  show ?case
  proof (cases "offset < length data")
    case False
    with "1.prems" show ?thesis by (auto simp: parse_loop.simps [of data offset frames])
  next
    case True
    with "1.prems"(1) obtain n f where dec: "frame_decode (drop offset data) = Inr (n, f)"
      and rest: "parse_loop data (offset + n) (frames @ [f]) = Inr (ofs, fs)"
      by (auto simp: parse_loop.simps [of data offset frames] split: sum.splits)
    from frame_decode_Inr [OF dec] True
    have wf: "frame_wf f" and n: "n = encoded_len f" and le: "offset + n \<le> length data"
      by simp_all
    from "1.IH" [OF True dec refl rest le] obtain gs where
      "ofs = length data" "fs = frames @ f # gs" "list_all frame_wf gs"
      "length data = offset + n + sum_list (map encoded_len gs)" by auto
    with wf n show ?thesis by (intro conjI exI [of _ "f # gs"]) simp_all
  qed
qed

lemma parse_loop_Inl:
  "parse_loop data offset frames = Inl e \<Longrightarrow> \<exists>d. e = FrameDecodingError d"
proof (induction data offset frames rule: parse_loop.induct)
  case (1 data offset frames)
  from "1.prems" show ?case
    by (auto simp: parse_loop.simps [of data offset frames] split: if_splits sum.splits
        intro: "1.IH")
qed

text \<open>
  C17. Parsing inverts packing: for every non-empty list of frames that fit the wire
  format, the version byte followed by their encodings parses back to exactly these
  frames, in order, whatever their number and payloads.
\<close>

theorem parse_frames_encode:
  assumes "list_all frame_wf fs" and "fs \<noteq> []"
  shows "parse_frames (DERIVATION_VERSION_0 # concat (map frame_encode fs)) = Inr fs"
  using parse_loop_encode [OF assms(1), of "[]" "[]"] assms(2)
  by (simp add: parse_frames_def)

theorem parse_frames_encode_witness:
  "parse_frames (DERIVATION_VERSION_0 #
     concat (map frame_encode
       [\<lparr>frame_id = replicate 16 7, frame_number = 0, frame_data = [1, 2], frame_is_last = False\<rparr>,
        \<lparr>frame_id = replicate 16 7, frame_number = 1, frame_data = [], frame_is_last = True\<rparr>])) =
   Inr [\<lparr>frame_id = replicate 16 7, frame_number = 0, frame_data = [1, 2], frame_is_last = False\<rparr>,
        \<lparr>frame_id = replicate 16 7, frame_number = 1, frame_data = [], frame_is_last = True\<rparr>]"
  by (rule parse_frames_encode) (simp_all add: frame_wf_def FRAME_MAX_LEN_def)

text \<open>
  C22. What the parser accepts: the result is never empty, every frame has a 16-byte
  id and a payload within \<open>Frame::MAX_LEN\<close>, the frames account for every input byte
  (no leftover data), and re-encoding them gives a transaction with the same frames.
\<close>

theorem parse_frames_sound:
  assumes "parse_frames bs = Inr fs"
  shows "fs \<noteq> [] \<and> list_all frame_wf fs \<and> length bs = 1 + sum_list (map encoded_len fs) \<and>
         parse_frames (DERIVATION_VERSION_0 # concat (map frame_encode fs)) = Inr fs"
proof -
  from assms have bs: "bs \<noteq> []" and ne: "fs \<noteq> []"
    and loop: "parse_loop (tl bs) 0 [] = Inr (length (tl bs), fs)"
    by (auto simp: parse_frames_def Let_def and_then_Inr_iff split: if_splits)
  from parse_loop_Inr [OF loop]
  have wf: "list_all frame_wf fs" and len: "length (tl bs) = sum_list (map encoded_len fs)"
    by auto
  have "parse_loop (concat (map frame_encode fs)) 0 [] =
        Inr (length (concat (map frame_encode fs)), fs)"
    using parse_loop_encode [OF wf, of "[]" "[]"] by simp
  with bs ne wf len show ?thesis
    by (cases bs) (simp_all add: parse_frames_def)
qed

theorem parse_frames_sound_witness:
  "let f = \<lparr>frame_id = replicate 16 0, frame_number = 3, frame_data = [9], frame_is_last = False\<rparr>
   in parse_frames (0 # replicate 16 0 @ [0, 3, 0, 0, 0, 1, 9, 2]) = Inr [f] \<and>
      parse_frames (DERIVATION_VERSION_0 # concat (map frame_encode [f])) = Inr [f]"
proof -
  have *: "parse_frames (0 # replicate 16 0 @ [0, 3, 0, 0, 0, 1, 9, 2]) =
    Inr [\<lparr>frame_id = replicate 16 0, frame_number = 3, frame_data = [9], frame_is_last = False\<rparr>]"
    by (simp add: parse_frames_def DERIVATION_VERSION_0_def parse_loop.simps frame_decode_def
        ENCODED_OVERHEAD_def FRAME_MAX_LEN_def slice_def from_be_def Let_def nth_append)
  from parse_frames_sound [OF this] * show ?thesis by (simp add: Let_def)
qed

text \<open>
  The error branches: the length-mismatch error after the loop cannot occur,
  since a decoded frame never extends past the data, and \<open>NoFramesDecoded\<close> is the
  answer to exactly one input, a lone version byte.
\<close>

theorem parse_frames_errors:
  "parse_frames bs \<noteq> Inl DataLengthMismatch \<and>
   (parse_frames bs = Inl NoFramesDecoded \<longleftrightarrow> bs = [DERIVATION_VERSION_0])"
proof (cases "bs \<noteq> [] \<and> hd bs = DERIVATION_VERSION_0")
  case False
  then show ?thesis by (auto simp: parse_frames_def)
next
  case True
  show ?thesis
  proof (cases "parse_loop (tl bs) 0 []")
    case (Inl e)
    then have "tl bs \<noteq> []" by (auto simp: parse_loop.simps [of "[]"])
    moreover have "e \<noteq> DataLengthMismatch \<and> e \<noteq> NoFramesDecoded"
      using parse_loop_Inl [OF Inl] by auto
    ultimately show ?thesis using True Inl by (auto simp: parse_frames_def)
  next
    case (Inr r)
    then obtain ofs fs where r: "parse_loop (tl bs) 0 [] = Inr (ofs, fs)" by (cases r) auto
    from parse_loop_Inr [OF r] have "ofs = length (tl bs)"
      and "length (tl bs) = sum_list (map encoded_len fs)" by auto
    then have "fs = [] \<longleftrightarrow> length (tl bs) = 0"
      by (cases fs) (simp_all add: encoded_len_def ENCODED_OVERHEAD_def)
    then have "fs = [] \<longleftrightarrow> tl bs = []" by (simp only: length_0_conv)
    with True r \<open>ofs = length (tl bs)\<close> show ?thesis
      by (cases bs) (auto simp: parse_frames_def)
  qed
qed

end
