(* ===== verification/Blobs.thy ===== *)
theory Blobs
  imports Frames
begin

text \<open>
  The EIP-4844 blob codec: the batcher's encoder and decoder
  (\<open>src/crates/batcher/blobs/src/encoder.rs\<close>, \<open>decoder.rs\<close>) and the derivation
  pipeline's own decoder (\<open>src/crates/consensus/derive/src/sources/blob_data.rs\<close>).
  A blob is the list of its 131072 bytes. The lemmas show that decoding inverts
  encoding and that the two decoders agree on every blob.
\<close>

section \<open>Encoder\<close>

datatype blob_encode_error = DataTooLarge nat

definition BYTES_PER_BLOB :: nat where
  "BYTES_PER_BLOB = 131072"

definition BLOB_ENCODING_VERSION :: u8 where
  "BLOB_ENCODING_VERSION = 0"

definition BLOB_ENCODING_ROUNDS :: nat where
  "BLOB_ENCODING_ROUNDS = 1024"

text \<open>The four high bytes that carry the bytes \<open>x\<close>, \<open>y\<close>, \<open>z\<close> of a round in 6-bit chunks.\<close>

definition high0 :: "u8 \<Rightarrow> u8" where
  "high0 x = x AND 0x3F"

definition high1 :: "u8 \<Rightarrow> u8 \<Rightarrow> u8" where
  "high1 x y = push_bit 4 (drop_bit 6 x AND 0x03) OR (y AND 0x0F)"

definition high2 :: "u8 \<Rightarrow> u8" where
  "high2 z = z AND 0x3F"

definition high3 :: "u8 \<Rightarrow> u8 \<Rightarrow> u8" where
  "high3 y z = (drop_bit 4 y AND 0x0F) OR push_bit 4 (drop_bit 6 z AND 0x03)"

text \<open>Round 0: version, length and a 27-byte first payload share field element 0.\<close>

definition encode_round0 :: "nat \<Rightarrow> bytes \<Rightarrow> bytes \<Rightarrow> bytes" where
  "encode_round0 data_len input out =
     (let len_be = to_be 4 (data_len mod 2 ^ 32);
          out = out[1 := BLOB_ENCODING_VERSION];
          out = out[2 := len_be ! 1];
          out = out[3 := len_be ! 2];
          out = out[4 := len_be ! 3];
          out = write_at 5 (slice 0 27 input) out;
          x = input ! 27;
          out = write_at 33 (slice 28 59 input) out;
          y = input ! 59;
          out = write_at 65 (slice 60 91 input) out;
          z = input ! 91;
          out = write_at 97 (slice 92 123 input) out;
          out = out[0 := high0 x];
          out = out[32 := high1 x y];
          out = out[64 := high2 z];
          out = out[96 := high3 y z]
      in out)"

text \<open>One later round: 127 input bytes at \<open>ipos\<close> become 128 blob bytes at \<open>blob_pos\<close>.\<close>

definition encode_round :: "bytes \<Rightarrow> nat \<Rightarrow> nat \<Rightarrow> bytes \<Rightarrow> bytes" where
  "encode_round input ipos blob_pos out =
     (let out = write_at (blob_pos + 1) (slice ipos (ipos + 31) input) out;
          x = input ! (ipos + 31);
          out = write_at (blob_pos + 33) (slice (ipos + 32) (ipos + 63) input) out;
          y = input ! (ipos + 63);
          out = write_at (blob_pos + 65) (slice (ipos + 64) (ipos + 95) input) out;
          z = input ! (ipos + 95);
          out = write_at (blob_pos + 97) (slice (ipos + 96) (ipos + 127) input) out;
          out = out[blob_pos := high0 x];
          out = out[blob_pos + 32 := high1 x y];
          out = out[blob_pos + 64 := high2 z];
          out = out[blob_pos + 96 := high3 y z]
      in out)"

fun encode_rounds :: "nat \<Rightarrow> nat \<Rightarrow> bytes \<Rightarrow> nat \<Rightarrow> nat \<Rightarrow> bytes \<Rightarrow> bytes" where
  "encode_rounds 0 data_len input ipos blob_pos out = out"
| "encode_rounds (Suc n) data_len input ipos blob_pos out =
     (if ipos \<ge> data_len then out
      else encode_rounds n data_len input (ipos + 127) (blob_pos + 128)
             (encode_round input ipos blob_pos out))"

definition blob_encode :: "bytes \<Rightarrow> blob_encode_error + bytes" where
  "blob_encode data =
     (if length data > BLOB_MAX_DATA_SIZE then Inl (DataTooLarge (length data))
      else let
        input = write_at 0 data (replicate BLOB_MAX_DATA_SIZE 0);
        out = encode_round0 (length data) input (replicate BYTES_PER_BLOB 0)
      in Inr (encode_rounds (BLOB_ENCODING_ROUNDS - 1) (length data) input 123 128 out))"

text \<open>\<open>BlobEncoder::encode_packed\<close>: the version byte and several frames in one blob.\<close>

definition encode_packed :: "frame list \<Rightarrow> blob_encode_error + bytes" where
  "encode_packed frames =
     blob_encode (DERIVATION_VERSION_0 # concat (map frame_encode frames))"

section \<open>The batcher's decoder\<close>

datatype blob_decode_error =
    InvalidFieldElement nat
  | InvalidEncodingVersion u8
  | InvalidLength nat
  | NonZeroPadding nat

definition decode_field_element ::
    "bytes \<Rightarrow> nat \<Rightarrow> nat \<Rightarrow> bytes \<Rightarrow> blob_decode_error + (u8 \<times> nat \<times> nat \<times> bytes)" where
  "decode_field_element data output_pos input_pos output =
     (if data ! input_pos AND 0xC0 \<noteq> 0 then Inl (InvalidFieldElement input_pos)
      else Inr (data ! input_pos, output_pos + 32, input_pos + 32,
                write_at output_pos (slice (input_pos + 1) (input_pos + 32) data) output))"

text \<open>The loop over the entries of \<open>encoded_byte\<close>: \<open>k\<close> field elements in turn.\<close>

fun decode_field_elements ::
    "nat \<Rightarrow> bytes \<Rightarrow> nat \<Rightarrow> nat \<Rightarrow> bytes \<Rightarrow> blob_decode_error + (bytes \<times> nat \<times> nat \<times> bytes)" where
  "decode_field_elements 0 data output_pos input_pos output = Inr ([], output_pos, input_pos, output)"
| "decode_field_elements (Suc k) data output_pos input_pos output =
     and_then (decode_field_element data output_pos input_pos output) (\<lambda>(enc, opos, ipos, out).
       and_then (decode_field_elements k data opos ipos out) (\<lambda>(encs, opos, ipos, out).
         Inr (enc # encs, opos, ipos, out)))"

definition reassemble_bytes :: "nat \<Rightarrow> bytes \<Rightarrow> bytes \<Rightarrow> nat \<times> bytes" where
  "reassemble_bytes output_pos e output =
     (let output_pos = output_pos - 1;
          x = (e ! 0 AND 0x3F) OR push_bit 2 (e ! 1 AND 0x30);
          y = (e ! 1 AND 0x0F) OR push_bit 4 (e ! 3 AND 0x0F);
          z = (e ! 2 AND 0x3F) OR push_bit 2 (e ! 3 AND 0x30);
          output = output[output_pos - 32 := z];
          output = output[output_pos - 32 * 2 := y];
          output = output[output_pos - 32 * 3 := x]
      in (output_pos, output))"

fun decode_rounds ::
    "nat \<Rightarrow> nat \<Rightarrow> bytes \<Rightarrow> nat \<Rightarrow> nat \<Rightarrow> bytes \<Rightarrow> blob_decode_error + (nat \<times> nat \<times> bytes)" where
  "decode_rounds 0 len data output_pos input_pos output = Inr (output_pos, input_pos, output)"
| "decode_rounds (Suc n) len data output_pos input_pos output =
     (if output_pos \<ge> len then Inr (output_pos, input_pos, output)
      else and_then (decode_field_elements 4 data output_pos input_pos output)
        (\<lambda>(encs, opos, ipos, out).
          let (opos, out) = reassemble_bytes opos encs out
          in decode_rounds n len data opos ipos out))"

text \<open>The first non-zero byte at or after \<open>start\<close>, as the \<open>skip\<close> loops look for it.\<close>

definition first_nonzero :: "bytes \<Rightarrow> nat \<Rightarrow> nat option" where
  "first_nonzero xs start = find (\<lambda>i. xs ! i \<noteq> 0) [start..<length xs]"

definition blob_decode :: "bytes \<Rightarrow> blob_decode_error + bytes" where
  "blob_decode data =
     (if data ! 1 \<noteq> 0 then Inl (InvalidEncodingVersion (data ! 1))
      else let len = from_be [0, data ! 2, data ! 3, data ! 4] in
        if len > BLOB_MAX_DATA_SIZE then Inl (InvalidLength len)
        else let output = write_at 0 (slice 5 32 data) (replicate BLOB_MAX_DATA_SIZE 0) in
          and_then (decode_field_elements 3 data 28 32 output) (\<lambda>(encs, opos, ipos, out).
            let (opos, out) = reassemble_bytes opos (data ! 0 # encs) out in
            and_then (decode_rounds (BLOB_ENCODING_ROUNDS - 1) len data opos ipos out)
              (\<lambda>(opos, ipos, out).
                case first_nonzero out len of
                  Some i \<Rightarrow> Inl (NonZeroPadding i)
                | None \<Rightarrow>
                    (case first_nonzero data ipos of
                       Some i \<Rightarrow> Inl (NonZeroPadding i)
                     | None \<Rightarrow> Inr (take len out)))))"

section \<open>The derivation pipeline's decoder\<close>

datatype blob_decoding_error =
    BlobInvalidFieldElement
  | BlobInvalidEncodingVersion
  | BlobInvalidLength
  | BlobMissingData

record blob_data =
  bd_data :: "bytes option"
  bd_calldata :: "bytes option"

definition bd_decode_field_element ::
    "blob_data \<Rightarrow> nat \<Rightarrow> nat \<Rightarrow> bytes \<Rightarrow> blob_decoding_error + (u8 \<times> nat \<times> nat \<times> bytes)" where
  "bd_decode_field_element self output_pos input_pos output =
     (case bd_data self of
        None \<Rightarrow> Inl BlobMissingData
      | Some data \<Rightarrow>
          if data ! input_pos AND 0xC0 \<noteq> 0 then Inl BlobInvalidFieldElement
          else Inr (data ! input_pos, output_pos + 32, input_pos + 32,
                    write_at output_pos (slice (input_pos + 1) (input_pos + 32) data) output))"

fun bd_decode_field_elements ::
    "nat \<Rightarrow> blob_data \<Rightarrow> nat \<Rightarrow> nat \<Rightarrow> bytes \<Rightarrow> blob_decoding_error + (bytes \<times> nat \<times> nat \<times> bytes)" where
  "bd_decode_field_elements 0 self output_pos input_pos output =
     Inr ([], output_pos, input_pos, output)"
| "bd_decode_field_elements (Suc k) self output_pos input_pos output =
     and_then (bd_decode_field_element self output_pos input_pos output) (\<lambda>(enc, opos, ipos, out).
       and_then (bd_decode_field_elements k self opos ipos out) (\<lambda>(encs, opos, ipos, out).
         Inr (enc # encs, opos, ipos, out)))"

fun bd_decode_rounds ::
    "nat \<Rightarrow> nat \<Rightarrow> blob_data \<Rightarrow> nat \<Rightarrow> nat \<Rightarrow> bytes \<Rightarrow> blob_decoding_error + (nat \<times> nat \<times> bytes)" where
  "bd_decode_rounds 0 len self output_pos input_pos output = Inr (output_pos, input_pos, output)"
| "bd_decode_rounds (Suc n) len self output_pos input_pos output =
     (if output_pos \<ge> len then Inr (output_pos, input_pos, output)
      else and_then (bd_decode_field_elements 4 self output_pos input_pos output)
        (\<lambda>(encs, opos, ipos, out).
          let (opos, out) = reassemble_bytes opos encs out
          in bd_decode_rounds n len self opos ipos out))"

definition blob_data_decode :: "blob_data \<Rightarrow> blob_decoding_error + bytes" where
  "blob_data_decode self =
     (case bd_data self of
        None \<Rightarrow> Inl BlobMissingData
      | Some data \<Rightarrow>
          if data ! 1 \<noteq> BLOB_ENCODING_VERSION then Inl BlobInvalidEncodingVersion
          else let len = from_be [0, data ! 2, data ! 3, data ! 4] in
            if len > BLOB_MAX_DATA_SIZE then Inl BlobInvalidLength
            else let output = write_at 0 (slice 5 32 data) (replicate BLOB_MAX_DATA_SIZE 0) in
              and_then (bd_decode_field_elements 3 self 28 32 output) (\<lambda>(encs, opos, ipos, out).
                let (opos, out) = reassemble_bytes opos (data ! 0 # encs) out in
                and_then (bd_decode_rounds (BLOB_ENCODING_ROUNDS - 1) len self opos ipos out)
                  (\<lambda>(opos, ipos, out).
                    if \<not> list_all (\<lambda>b. b = 0) (drop len out) then Inl BlobInvalidFieldElement
                    else if \<not> list_all (\<lambda>i. data ! i = 0) [ipos..<BYTES_PER_BLOB]
                    then Inl BlobInvalidFieldElement
                    else Inr (take len out))))"

section \<open>Reference definitions\<close>

text \<open>
  What a round does, as a function from its 127 (123) input bytes to its 128 blob bytes
  and back; how many rounds run for \<open>len\<close> bytes; and how the error enums correspond.
\<close>

definition enc_block :: "bytes \<Rightarrow> bytes" where
  "enc_block c = (let x = c ! 31; y = c ! 63; z = c ! 95 in
     [high0 x] @ slice 0 31 c @ [high1 x y] @ slice 32 63 c @ [high2 z] @ slice 64 95 c @ [high3 y z] @ slice 96 127 c)"

definition enc_block0 :: "nat \<Rightarrow> bytes \<Rightarrow> bytes" where
  "enc_block0 n c =
     (let x = c ! 27; y = c ! 59; z = c ! 91; len_be = to_be 4 (n mod 2 ^ 32) in
     [high0 x, BLOB_ENCODING_VERSION, len_be ! 1, len_be ! 2, len_be ! 3] @ slice 0 27 c @ [high1 x y] @ slice 28 59 c
       @ [high2 z] @ slice 60 91 c @ [high3 y z] @ slice 92 123 c)"

definition dec_block :: "bytes \<Rightarrow> bytes" where
  "dec_block b =
     (let e0 = b ! 0; e1 = b ! 32; e2 = b ! 64; e3 = b ! 96 in
       slice 1 32 b @ [(e0 AND 0x3F) OR push_bit 2 (e1 AND 0x30)]
       @ slice 33 64 b @ [(e1 AND 0x0F) OR push_bit 4 (e3 AND 0x0F)]
       @ slice 65 96 b @ [(e2 AND 0x3F) OR push_bit 2 (e3 AND 0x30)] @ slice 97 128 b)"

definition high_ok :: "u8 \<Rightarrow> bool" where "high_ok b \<longleftrightarrow> b AND 0xC0 = 0"

definition dec_block0 :: "bytes \<Rightarrow> bytes" where
  "dec_block0 b =
     (let e0 = b ! 0; e1 = b ! 32; e2 = b ! 64; e3 = b ! 96 in
       slice 5 32 b @ [(e0 AND 0x3F) OR push_bit 2 (e1 AND 0x30)]
       @ slice 33 64 b @ [(e1 AND 0x0F) OR push_bit 4 (e3 AND 0x0F)]
       @ slice 65 96 b @ [(e2 AND 0x3F) OR push_bit 2 (e3 AND 0x30)] @ slice 97 128 b)"

fun rounds :: "nat \<Rightarrow> nat \<Rightarrow> nat \<Rightarrow> nat" where
  "rounds 0 pos len = 0"
| "rounds (Suc n) pos len = (if pos \<ge> len then 0 else Suc (rounds n (pos + 127) len))"

definition pad_input :: "bytes \<Rightarrow> bytes" where
  "pad_input data = data @ replicate (BLOB_MAX_DATA_SIZE - length data) 0"

fun to_blob_decoding_error :: "blob_decode_error \<Rightarrow> blob_decoding_error" where
  "to_blob_decoding_error (InvalidFieldElement i) = BlobInvalidFieldElement"
| "to_blob_decoding_error (InvalidEncodingVersion v) = BlobInvalidEncodingVersion"
| "to_blob_decoding_error (InvalidLength n) = BlobInvalidLength"
| "to_blob_decoding_error (NonZeroPadding i) = BlobInvalidFieldElement"

section \<open>Lemmas\<close>

lemma length_enc_block[simp]: "length c = 127 \<Longrightarrow> length (enc_block c) = 128"
  by (simp add: enc_block_def Let_def)

lemma split_block:
  assumes "pos + 128 \<le> length out"
  obtains pre b0 b1 b2 b3 b4 b5 b6 b7 post where
    "out = pre @ b0 @ b1 @ b2 @ b3 @ b4 @ b5 @ b6 @ b7 @ post" "length pre = pos"
    "length b0 = 1" "length b1 = 31" "length b2 = 1" "length b3 = 31"
    "length b4 = 1" "length b5 = 31" "length b6 = 1" "length b7 = 31"
proof -
  let ?s = "\<lambda>i j. slice (pos + i) (pos + j) out"
  have d: "drop (pos + i) out = ?s i j @ drop (pos + j) out" if "i \<le> j" for i j
    using that by (intro drop_slice) simp
  have "out = take pos out @ drop (pos + 0) out" by simp
  also have "drop (pos + 0) out = ?s 0 1 @ ?s 1 32 @ ?s 32 33 @ ?s 33 64 @ ?s 64 65 @ ?s 65 96
     @ ?s 96 97 @ ?s 97 128 @ drop (pos + 128) out"
    using d [of 0 1] d [of 1 32] d [of 32 33] d [of 33 64] d [of 64 65] d [of 65 96]
        d [of 96 97] d [of 97 128] by simp
  finally have "out = take pos out @ ?s 0 1 @ ?s 1 32 @ ?s 32 33 @ ?s 33 64 @ ?s 64 65 @ ?s 65 96
     @ ?s 96 97 @ ?s 97 128 @ drop (pos + 128) out" .
  with that [of "take pos out" "?s 0 1" "?s 1 32" "?s 32 33" "?s 33 64" "?s 64 65" "?s 65 96"
     "?s 96 97" "?s 97 128" "drop (pos + 128) out"] assms show ?thesis by simp
qed

lemmas write_simps = update_eq_write_at write_at_skip write_at_skip_Cons write_at_0 slice_slice nth_slice

lemma encode_round_eq:
  assumes "ipos + 127 \<le> length input" "pos + 128 \<le> length out"
  shows "encode_round input ipos pos out = write_at pos (enc_block (slice ipos (ipos + 127) input)) out"
  using assms(2)
proof (rule split_block)
  fix pre b0 b1 b2 b3 b4 b5 b6 b7 post
  assume *: "out = pre @ b0 @ b1 @ b2 @ b3 @ b4 @ b5 @ b6 @ b7 @ post" "length pre = pos"
    "length b0 = 1" "length b1 = 31" "length b2 = 1" "length b3 = 31"
    "length b4 = 1" "length b5 = 31" "length b6 = 1" "length b7 = 31"
  show ?thesis
    using assms(1) unfolding * by (simp add: * encode_round_def Let_def enc_block_def write_simps)
qed

lemma encode_round0_eq:
  assumes "123 \<le> length input" "128 \<le> length out"
  shows "encode_round0 n input out = write_at 0 (enc_block0 n (slice 0 123 input)) out"
proof (rule split_block [of 0 out])
  show "0 + 128 \<le> length out" using assms by simp
  fix pre b0 b1 b2 b3 b4 b5 b6 b7 post
  assume *: "out = pre @ b0 @ b1 @ b2 @ b3 @ b4 @ b5 @ b6 @ b7 @ post" "length pre = 0"
    "length b0 = 1" "length b1 = 31" "length b2 = 1" "length b3 = 31"
    "length b4 = 1" "length b5 = 31" "length b6 = 1" "length b7 = 31"
  then have "length b1 = 1 + (1 + (1 + (1 + 27)))" by simp
  then obtain c1 c2 c3 c4 c5 where b1: "b1 = [c1, c2, c3, c4] @ c5" "length c5 = 27"
    by (auto simp: length_Suc_conv numeral_eq_Suc)
  show ?thesis
    using assms(1) unfolding * b1 by (simp add: * b1 encode_round0_def Let_def enc_block0_def write_simps)
qed

lemma decode_field_elements_eq:
  assumes "high_ok (data ! ipos)" "high_ok (data ! (ipos + 32))" "high_ok (data ! (ipos + 64))"
  shows "decode_field_elements 3 data opos ipos out =
     Inr ([data ! ipos, data ! (ipos + 32), data ! (ipos + 64)], opos + 96, ipos + 96,
       write_at (opos + 64) (slice (ipos + 65) (ipos + 96) data)
         (write_at (opos + 32) (slice (ipos + 33) (ipos + 64) data) (write_at opos (slice (ipos + 1) (ipos + 32) data) out)))"
  using assms by (simp add: decode_field_element_def numeral_3_eq_3 high_ok_def add.commute)

lemma decode_field_elements_4:
  assumes "high_ok (data ! ipos)" "high_ok (data ! (ipos + 32))" "high_ok (data ! (ipos + 64))" "high_ok (data ! (ipos + 96))"
  shows "decode_field_elements 4 data opos ipos out =
     Inr ([data ! ipos, data ! (ipos + 32), data ! (ipos + 64), data ! (ipos + 96)], opos + 128, ipos + 128,
       write_at (opos + 96) (slice (ipos + 97) (ipos + 128) data)
       (write_at (opos + 64) (slice (ipos + 65) (ipos + 96) data)
         (write_at (opos + 32) (slice (ipos + 33) (ipos + 64) data) (write_at opos (slice (ipos + 1) (ipos + 32) data) out))))"
proof -
  have step: "decode_field_elements 4 data opos ipos out =
      and_then (decode_field_element data opos ipos out) (\<lambda>(enc, opos, ipos, out).
       and_then (decode_field_elements 3 data opos ipos out) (\<lambda>(encs, opos, ipos, out).
         Inr (enc # encs, opos, ipos, out)))"
    using decode_field_elements.simps(2) [of 3 data opos ipos out] by simp
  have "decode_field_elements 3 data (opos + 32) (ipos + 32) w =
     Inr ([data ! (ipos + 32), data ! (ipos + 64), data ! (ipos + 96)], opos + 128, ipos + 128,
       write_at (opos + 96) (slice (ipos + 97) (ipos + 128) data)
       (write_at (opos + 64) (slice (ipos + 65) (ipos + 96) data)
         (write_at (opos + 32) (slice (ipos + 33) (ipos + 64) data) w)))" for w
    using decode_field_elements_eq [of data "ipos + 32" "opos + 32" w] assms by (simp add: add.commute)
  then show ?thesis using assms by (simp add: step decode_field_element_def high_ok_def)
qed

lemma split_out:
  assumes "pos + (n + 96) \<le> length out"
  obtains pre c0 c1 c2 c3 c4 c5 c6 post where
    "out = pre @ c0 @ c1 @ c2 @ c3 @ c4 @ c5 @ c6 @ post" "length pre = pos"
    "length c0 = n" "length c1 = 1" "length c2 = 31" "length c3 = 1"
    "length c4 = 31" "length c5 = 1" "length c6 = 31"
proof -
  let ?s = "\<lambda>i j. slice (pos + i) (pos + j) out"
  have d: "drop (pos + i) out = ?s i j @ drop (pos + j) out" if "i \<le> j" for i j
    using that by (intro drop_slice) simp
  have "out = take pos out @ drop (pos + 0) out" by simp
  also have "drop (pos + 0) out = ?s 0 n @ ?s n (n + 1) @ ?s (n + 1) (n + 32) @ ?s (n + 32) (n + 33) 
    @ ?s (n + 33) (n + 64) @ ?s (n + 64) (n + 65) @ ?s (n + 65) (n + 96) @ drop (pos + (n + 96)) out"
    using d [of 0 n] d [of n "n + 1"] d [of "n + 1" "n + 32"] d [of "n + 32" "n + 33"]
      d [of "n + 33" "n + 64"] d [of "n + 64" "n + 65"] d [of "n + 65" "n + 96"] by simp
  finally show ?thesis using assms by (intro that) (assumption, simp_all)
qed

lemma decode_round_eq:
  assumes "ipos + 128 \<le> length data" "opos + 127 \<le> length out"
    "high_ok (data ! ipos)" "high_ok (data ! (ipos + 32))" "high_ok (data ! (ipos + 64))" "high_ok (data ! (ipos + 96))"
  shows "and_then (decode_field_elements 4 data opos ipos out)
        (\<lambda>(encs, opos, ipos, out).
          let (opos, out) = reassemble_bytes opos encs out
          in f opos ipos out) = f (opos + 127) (ipos + 128) (write_at opos (dec_block (slice ipos (ipos + 128) data)) out)"
proof (rule split_out [of opos 31 out])
  show "opos + (31 + 96) \<le> length out" using assms by simp
  fix pre c0 c1 c2 c3 c4 c5 c6 post
  assume *: "out = pre @ c0 @ c1 @ c2 @ c3 @ c4 @ c5 @ c6 @ post" "length pre = opos"
    "length c0 = 31" "length c1 = 1" "length c2 = 31" "length c3 = 1"
    "length c4 = 31" "length c5 = 1" "length c6 = 31"
  show ?thesis
    using assms(1) unfolding decode_field_elements_4 [OF assms(3-6)] unfolding *
    by (simp add: * reassemble_bytes_def Let_def dec_block_def write_simps add.commute)
qed

lemma decode_round0_eq:
  assumes "128 \<le> length data" "123 \<le> length out"
    "high_ok (data ! 32)" "high_ok (data ! 64)" "high_ok (data ! 96)"
  shows "and_then (decode_field_elements 3 data 28 32 (write_at 0 (slice 5 32 data) out))
        (\<lambda>(encs, opos, ipos, out).
          let (opos, out) = reassemble_bytes opos (data ! 0 # encs) out
          in f opos ipos out) = f 123 128 (write_at 0 (dec_block0 (slice 0 128 data)) out)"
proof (rule split_out [of 0 27 out])
  show "0 + (27 + 96) \<le> length out" using assms by simp
  fix pre c0 c1 c2 c3 c4 c5 c6 post
  assume *: "out = pre @ c0 @ c1 @ c2 @ c3 @ c4 @ c5 @ c6 @ post" "length pre = 0"
    "length c0 = 27" "length c1 = 1" "length c2 = 31" "length c3 = 1"
    "length c4 = 31" "length c5 = 1" "length c6 = 31"
  have "decode_field_elements 3 data 28 32 w = 
     Inr ([data ! 32, data ! 64, data ! 96], 124, 128,
       write_at 92 (slice 97 128 data)
         (write_at 60 (slice 65 96 data) (write_at 28 (slice 33 64 data) w)))" for w
   using decode_field_elements_eq [of data 32 28 w] assms(3-5) by simp
  then show ?thesis
    using assms(1) unfolding *
    by (simp add: * reassemble_bytes_def Let_def dec_block0_def write_simps)
qed

lemma high_bytes_decode:
  "(high0 x AND 0x3F) OR push_bit 2 (high1 x y AND 0x30) = x"
  "(high1 x y AND 0x0F) OR push_bit 4 (high3 y z AND 0x0F) = y"
  "(high2 z AND 0x3F) OR push_bit 2 (high3 y z AND 0x30) = z"
  by (rule u8_eqI; simp add: high0_def high1_def high2_def high3_def bit_simps)+

lemma high_bytes_ok:
  "high_ok (high0 x)" "high_ok (high1 x y)" "high_ok (high2 z)" "high_ok (high3 y z)"
  unfolding high_ok_def
  by (rule u8_eqI; simp add: high0_def high1_def high2_def high3_def bit_simps)+

lemma dec_enc_block: assumes "length c = 127" shows "dec_block (enc_block c) = c"
proof -
  have s: "slice 1 32 (enc_block c) = slice 0 31 c" "slice 33 64 (enc_block c) = slice 32 63 c"
    "slice 65 96 (enc_block c) = slice 64 95 c" "slice 97 128 (enc_block c) = slice 96 127 c"
    using assms by (simp_all add: slice_def enc_block_def Let_def)
  have n: "enc_block c ! 0 = high0 (c ! 31)" "enc_block c ! 32 = high1 (c ! 31) (c ! 63)"
    "enc_block c ! 64 = high2 (c ! 95)" "enc_block c ! 96 = high3 (c ! 63) (c ! 95)"
    using assms by (simp_all add: enc_block_def Let_def nth_append)
  have "dec_block (enc_block c) = slice 0 31 c @ [c ! 31] @ slice 32 63 c @ [c ! 63] @ slice 64 95 c @ [c ! 95] @ slice 96 127 c"
    unfolding dec_block_def Let_def s n high_bytes_decode ..
  also have "\<dots> = slice 0 127 c"
    using assms by (simp add: slice_Suc slice_join slice_join')
  also have "\<dots> = c" using assms by (simp add: slice_def)
  finally show ?thesis .
qed

lemma dec_enc_block0: assumes "length c = 123" shows "dec_block0 (enc_block0 n c) = c"
proof -
  have s: "slice 5 32 (enc_block0 n c) = slice 0 27 c" "slice 33 64 (enc_block0 n c) = slice 28 59 c"
    "slice 65 96 (enc_block0 n c) = slice 60 91 c" "slice 97 128 (enc_block0 n c) = slice 92 123 c"
    using assms by (simp_all add: slice_def enc_block0_def Let_def)
  have n: "enc_block0 n c ! 0 = high0 (c ! 27)" "enc_block0 n c ! 32 = high1 (c ! 27) (c ! 59)"
    "enc_block0 n c ! 64 = high2 (c ! 91)" "enc_block0 n c ! 96 = high3 (c ! 59) (c ! 91)"
    using assms by (simp_all add: enc_block0_def Let_def nth_append)
  have "dec_block0 (enc_block0 n c) = slice 0 27 c @ [c ! 27] @ slice 28 59 c @ [c ! 59] @ slice 60 91 c @ [c ! 91] @ slice 92 123 c"
    unfolding dec_block0_def Let_def s n high_bytes_decode ..
  also have "\<dots> = slice 0 123 c"
    using assms by (simp add: slice_Suc slice_join slice_join')
  also have "\<dots> = c" using assms by (simp add: slice_def)
  finally show ?thesis .
qed

lemma rounds_le: "rounds n pos len \<le> n"
  by (induction n arbitrary: pos) auto

lemma rounds_enough: "len \<le> pos + 127 * n \<Longrightarrow> len \<le> pos + 127 * rounds n pos len"
proof (induction n arbitrary: pos)
  case (Suc n)
  then show ?case using Suc.IH [of "pos + 127"] by (simp add: algebra_simps)
qed simp

lemma encode_rounds_spec:
  assumes "ipos + 127 * n \<le> length input" "pos + 128 * n \<le> length out"
  shows "length (encode_rounds n len input ipos pos out) = length out \<and>
    take pos (encode_rounds n len input ipos pos out) = take pos out \<and>
    drop (pos + 128 * rounds n ipos len) (encode_rounds n len input ipos pos out) =
      drop (pos + 128 * rounds n ipos len) out \<and>
    (\<forall>j<rounds n ipos len.
       slice (pos + 128 * j) (pos + 128 * j + 128) (encode_rounds n len input ipos pos out) =
       enc_block (slice (ipos + 127 * j) (ipos + 127 * j + 127) input))"
  using assms
proof (induction n arbitrary: ipos pos out)
  case (Suc n)
  show ?case
  proof (cases "ipos \<ge> len")
    case False
    define blk where "blk = enc_block (slice ipos (ipos + 127) input)"
    define out' where "out' = write_at pos blk out"
    define res where "res = encode_rounds n len input (ipos + 127) (pos + 128) out'"
    define k where "k = rounds n (ipos + 127) len"
    have bl: "length blk = 128" using Suc.prems by (simp add: blk_def)
    have ol: "length out' = length out" using Suc.prems bl by (simp add: out'_def)
    have IH: "length res = length out' \<and> take (pos + 128) res = take (pos + 128) out' \<and>
       drop (pos + 128 + 128 * k) res = drop (pos + 128 + 128 * k) out' \<and>
       (\<forall>j<k. slice (pos + 128 + 128 * j) (pos + 128 + 128 * j + 128) res =
             enc_block (slice (ipos + 127 + 127 * j) (ipos + 127 + 127 * j + 127) input))"
      unfolding res_def k_def using Suc.prems ol by (intro Suc.IH) simp_all
    have eq: "encode_rounds (Suc n) len input ipos pos out = res" "rounds (Suc n) ipos len = Suc k"
      using False Suc.prems by (simp_all add: res_def k_def out'_def blk_def encode_round_eq)
    have t: "take (pos + 128) out' = take pos out @ blk"
      using Suc.prems bl by (simp add: out'_def write_at_def)
    have 1: "take pos res = take pos out"
    proof -
      have "take pos res = take pos (take (pos + 128) res)" by simp
      also have "\<dots> = take pos (take pos out @ blk)" using IH t by simp
      also have "\<dots> = take pos out" using Suc.prems by simp
      finally show ?thesis .
    qed
    have "slice pos (pos + 128) res = blk"
    proof -
      have "slice pos (pos + 128) res = drop pos (take (pos + 128) res)"
        by (simp add: slice_def drop_take)
      also have "\<dots> = blk" using IH t Suc.prems by simp
      finally show ?thesis .
    qed
    moreover have "drop (pos + 128 * Suc k) out' = drop (pos + 128 * Suc k) out"
      using bl Suc.prems by (simp add: out'_def write_at_def ac_simps)
    ultimately show ?thesis
      unfolding eq using IH ol 1 by (simp add: all_less_Suc blk_def algebra_simps)
  qed simp
qed simp

lemma high_ok_enc_block:
  assumes "length c = 127"
  shows "high_ok (enc_block c ! 0)" "high_ok (enc_block c ! 32)" "high_ok (enc_block c ! 64)"
    "high_ok (enc_block c ! 96)"
  using assms by (simp_all add: enc_block_def Let_def nth_append high_bytes_ok)

lemma high_ok_enc_block0:
  assumes "length c = 123"
  shows "high_ok (enc_block0 n c ! 32)" "high_ok (enc_block0 n c ! 64)" "high_ok (enc_block0 n c ! 96)"
  using assms by (simp_all add: enc_block0_def Let_def nth_append high_bytes_ok)

lemma decode_rounds_spec:
  assumes "ipos + 128 * n \<le> length data" "opos + 127 * n \<le> length out"
    "opos + 127 * n \<le> length input"
    "\<forall>j<rounds n opos len. slice (ipos + 128 * j) (ipos + 128 * j + 128) data =
       enc_block (slice (opos + 127 * j) (opos + 127 * j + 127) input)"
  shows "decode_rounds n len data opos ipos out =
    Inr (opos + 127 * rounds n opos len, ipos + 128 * rounds n opos len,
         write_at opos (slice opos (opos + 127 * rounds n opos len) input) out)"
  using assms
proof (induction n arbitrary: opos ipos out)
  case 0
  then show ?case by (simp add: write_at_def slice_def)
next
  case (Suc n)
  show ?case
  proof (cases "opos \<ge> len")
    case True
    then show ?thesis by (simp add: write_at_def slice_def)
  next
    case False
    let ?c = "slice opos (opos + 127) input" and ?k = "rounds n (opos + 127) len"
    have blk: "slice ipos (ipos + 128) data = enc_block ?c"
      and rest: "\<forall>j<?k. slice (ipos + 128 + 128 * j) (ipos + 128 + 128 * j + 128) data =
        enc_block (slice (opos + 127 + 127 * j) (opos + 127 + 127 * j + 127) input)"
      using Suc.prems(4) False by (simp_all add: all_less_Suc algebra_simps)
    have cl: "length ?c = 127" using Suc.prems by simp
    have ok: "high_ok (data ! ipos)" "high_ok (data ! (ipos + 32))" "high_ok (data ! (ipos + 64))"
      "high_ok (data ! (ipos + 96))"
      using nth_of_slice [OF blk, of 0] nth_of_slice [OF blk, of 32] nth_of_slice [OF blk, of 64]
        nth_of_slice [OF blk, of 96] Suc.prems(1) high_ok_enc_block [OF cl] by simp_all
    have le: "?k \<le> n" by (rule rounds_le)
    have "decode_rounds (Suc n) len data opos ipos out =
        decode_rounds n len data (opos + 127) (ipos + 128) (write_at opos ?c out)"
      using False decode_round_eq [of ipos data opos out "decode_rounds n len data"] ok Suc.prems
        blk dec_enc_block [OF cl] by simp
    also have "\<dots> = Inr (opos + 127 + 127 * ?k, ipos + 128 + 128 * ?k,
       write_at (opos + 127) (slice (opos + 127) (opos + 127 + 127 * ?k) input) (write_at opos ?c out))"
      using Suc.prems rest cl by (intro Suc.IH) simp_all
    also have "write_at (opos + 127) (slice (opos + 127) (opos + 127 + 127 * ?k) input) (write_at opos ?c out)
        = write_at opos (?c @ slice (opos + 127) (opos + 127 + 127 * ?k) input) out"
      using write_at_write_at [of opos ?c "slice (opos + 127) (opos + 127 + 127 * ?k) input" out]
        cl Suc.prems le by simp
    also have "?c @ slice (opos + 127) (opos + 127 + 127 * ?k) input = slice opos (opos + 127 + 127 * ?k) input"
      by (rule slice_join) simp_all
    finally show ?thesis using False by (simp add: algebra_simps)
  qed
qed

lemma first_nonzero_None: "first_nonzero xs start = None \<longleftrightarrow> (\<forall>i. start \<le> i \<and> i < length xs \<longrightarrow> xs ! i = 0)"
  by (auto simp: first_nonzero_def find_None_iff)

lemma first_nonzero_zeros:
  assumes "drop start xs = replicate k 0" shows "first_nonzero xs start = None"
  unfolding first_nonzero_None
proof (intro allI impI)
  fix i assume "start \<le> i \<and> i < length xs"
  then have "xs ! i = drop start xs ! (i - start)" "i - start < length (drop start xs)" by auto
  then show "xs ! i = 0" using assms by simp
qed

lemma to_be_4:
  "to_be 4 v = [word_of_nat (v div 256 div 256 div 256), word_of_nat (v div 256 div 256),
     word_of_nat (v div 256), word_of_nat v]"
proof -
  have "4 = Suc (Suc (Suc (Suc 0)))" by simp
  then show ?thesis by (simp only: to_be.simps append.simps)
qed

lemma len_bytes:
  assumes "n < 16777216"
  shows "from_be [0, to_be 4 n ! 1, to_be 4 n ! 2, to_be 4 n ! 3] = n"
proof -
  have "n div 256 div 256 div 256 = 0" using assms by (simp add: div_mult2_eq [symmetric])
  then have "[0, to_be 4 n ! 1, to_be 4 n ! 2, to_be 4 n ! 3] = to_be 4 n"
    by (simp add: to_be_4)
  then show ?thesis using assms by simp
qed

lemma blob_encode_spec:
  assumes n: "length data \<le> BLOB_MAX_DATA_SIZE"
  defines "input \<equiv> pad_input data" and "k \<equiv> rounds 1023 123 (length data)"
  obtains b where "blob_encode data = Inr b" "length b = BYTES_PER_BLOB"
    "slice 0 128 b = enc_block0 (length data) (slice 0 123 input)"
    "drop (128 + 128 * k) b = replicate (BYTES_PER_BLOB - (128 + 128 * k)) 0"
    "\<forall>j<k. slice (128 + 128 * j) (128 + 128 * j + 128) b =
       enc_block (slice (123 + 127 * j) (123 + 127 * j + 127) input)"
proof -
  define out where "out = write_at 0 (enc_block0 (length data) (slice 0 123 input)) (replicate BYTES_PER_BLOB 0)"
  define b where "b = encode_rounds 1023 (length data) input 123 128 out"
  have il: "length input = 130044" using n by (simp add: input_def pad_input_def BLOB_MAX_DATA_SIZE_def)
  have e0: "length (enc_block0 (length data) (slice 0 123 input)) = 128"
    using il by (simp add: enc_block0_def Let_def)
  have ol: "length out = 131072" using e0 by (simp add: out_def BYTES_PER_BLOB_def)
  have s: "length b = length out \<and> take 128 b = take 128 out \<and>
    drop (128 + 128 * k) b = drop (128 + 128 * k) out \<and>
    (\<forall>j<k. slice (128 + 128 * j) (128 + 128 * j + 128) b =
       enc_block (slice (123 + 127 * j) (123 + 127 * j + 127) input))"
    unfolding b_def k_def by (rule encode_rounds_spec) (simp_all add: il ol)
  have input: "write_at 0 data (replicate BLOB_MAX_DATA_SIZE 0) = input"
    by (simp add: input_def pad_input_def write_at_def)
  have out: "encode_round0 (length data) input (replicate BYTES_PER_BLOB 0) = out"
    using il unfolding out_def by (intro encode_round0_eq) (simp_all add: BYTES_PER_BLOB_def)
  have "blob_encode data = Inr b"
    using n unfolding blob_encode_def Let_def input out by (simp add: b_def BLOB_ENCODING_ROUNDS_def)
  moreover have "slice 0 128 b = enc_block0 (length data) (slice 0 123 input)"
    using s e0 by (simp add: slice_def out_def write_at_def)
  moreover have "drop (128 + 128 * k) out = replicate (BYTES_PER_BLOB - (128 + 128 * k)) 0"
    using e0 by (simp add: out_def write_at_def BYTES_PER_BLOB_def)
  ultimately show thesis using s ol by (intro that [of b]) (simp_all add: BYTES_PER_BLOB_def)
qed

lemma enc_block0_header:
  assumes "n \<le> BLOB_MAX_DATA_SIZE" "length c = 123"
  shows "enc_block0 n c ! 1 = 0" "from_be [0, enc_block0 n c ! 2, enc_block0 n c ! 3, enc_block0 n c ! 4] = n"
  using assms len_bytes [of n]
  by (simp_all add: enc_block0_def Let_def nth_append BLOB_ENCODING_VERSION_def BLOB_MAX_DATA_SIZE_def)

lemma blob_decode_round0:
  assumes "b ! 1 = 0" "from_be [0, b ! 2, b ! 3, b ! 4] = n" "n \<le> BLOB_MAX_DATA_SIZE" "length b = BYTES_PER_BLOB"
    "high_ok (b ! 32)" "high_ok (b ! 64)" "high_ok (b ! 96)"
  shows "blob_decode b =
    and_then (decode_rounds (BLOB_ENCODING_ROUNDS - 1) n b 123 128
        (write_at 0 (dec_block0 (slice 0 128 b)) (replicate BLOB_MAX_DATA_SIZE 0)))
      (\<lambda>(opos, ipos, out).
         case first_nonzero out n of
           Some i \<Rightarrow> Inl (NonZeroPadding i)
         | None \<Rightarrow>
             (case first_nonzero b ipos of
                Some i \<Rightarrow> Inl (NonZeroPadding i)
              | None \<Rightarrow> Inr (take n out)))"
    (is "_ = and_then (_ _ _ _ _ _ ?w) ?fin")
  using decode_round0_eq [of b "replicate BLOB_MAX_DATA_SIZE 0"
      "\<lambda>opos ipos out. and_then (decode_rounds (BLOB_ENCODING_ROUNDS - 1) n b opos ipos out) ?fin"] assms
  by (simp add: blob_decode_def BYTES_PER_BLOB_def BLOB_MAX_DATA_SIZE_def Let_def)

lemma decoded_rounds_eq_input:
  assumes "length data \<le> BLOB_MAX_DATA_SIZE"
  defines "k \<equiv> rounds 1023 123 (length data)"
  shows "write_at 123 (slice 123 (123 + 127 * k) (pad_input data))
      (write_at 0 (slice 0 123 (pad_input data)) (replicate BLOB_MAX_DATA_SIZE 0)) = pad_input data"
proof -
  let ?in = "pad_input data" and ?z = "replicate BLOB_MAX_DATA_SIZE (0::u8)"
  let ?c = "slice 0 123 ?in"
  have il: "length ?in = 130044" using assms by (simp add: pad_input_def BLOB_MAX_DATA_SIZE_def)
  have kl: "k \<le> 1023" unfolding k_def by (rule rounds_le)
  have ke: "length data \<le> 123 + 127 * k"
    using assms unfolding k_def by (intro rounds_enough) (simp add: BLOB_MAX_DATA_SIZE_def)
  have "write_at 123 (slice 123 (123 + 127 * k) ?in) (write_at 0 ?c ?z) =
      write_at 0 (?c @ slice 123 (123 + 127 * k) ?in) ?z"
    using write_at_write_at [of 0 ?c "slice 123 (123 + 127 * k) ?in" ?z] kl il
    by (simp add: BLOB_MAX_DATA_SIZE_def)
  also have "?c @ slice 123 (123 + 127 * k) ?in = take (123 + 127 * k) ?in"
    using slice_join [of 0 123 "123 + 127 * k" ?in] by (simp add: slice_def)
  also have "write_at 0 (take (123 + 127 * k) ?in) ?z = take (123 + 127 * k) ?in @ drop (123 + 127 * k) ?in"
    using ke kl il by (simp add: write_at_def pad_input_def BLOB_MAX_DATA_SIZE_def)
  finally show ?thesis by simp
qed

lemma blob_roundtrip:
  assumes "length data \<le> BLOB_MAX_DATA_SIZE"
  shows "\<exists>b. blob_encode data = Inr b \<and> length b = BYTES_PER_BLOB \<and> blob_decode b = Inr data"
  using assms
proof (rule blob_encode_spec)
  let ?k = "rounds 1023 123 (length data)" and ?in = "pad_input data"
  let ?c = "slice 0 123 ?in" and ?z = "replicate BLOB_MAX_DATA_SIZE (0::u8)"
  fix b
  assume enc: "blob_encode data = Inr b" and bl: "length b = BYTES_PER_BLOB"
    and s0: "slice 0 128 b = enc_block0 (length data) ?c"
    and rest: "drop (128 + 128 * ?k) b = replicate (BYTES_PER_BLOB - (128 + 128 * ?k)) 0"
    and sj: "\<forall>j<?k. slice (128 + 128 * j) (128 + 128 * j + 128) b =
       enc_block (slice (123 + 127 * j) (123 + 127 * j + 127) ?in)"
  have il: "length ?in = 130044" using assms by (simp add: pad_input_def BLOB_MAX_DATA_SIZE_def)
  have cl: "length ?c = 123" using il by simp
  have nb: "b ! i = enc_block0 (length data) ?c ! i" if "i < 128" for i
    using nth_of_slice [OF s0, of i] that bl by (simp add: BYTES_PER_BLOB_def)
  have dec: "decode_rounds (BLOB_ENCODING_ROUNDS - 1) (length data) b 123 128 (write_at 0 ?c ?z) =
     Inr (123 + 127 * ?k, 128 + 128 * ?k, ?in)"
    using bl il cl sj decode_rounds_spec [of 128 1023 b 123 "write_at 0 ?c ?z" ?in "length data"]
    unfolding decoded_rounds_eq_input [OF assms] BLOB_ENCODING_ROUNDS_def
    by (simp add: BYTES_PER_BLOB_def BLOB_MAX_DATA_SIZE_def)
  have "blob_decode b = Inr data"
    using blob_decode_round0 [of b "length data"] assms bl enc_block0_header [OF assms cl]
      high_ok_enc_block0 [OF cl, of "length data"] first_nonzero_zeros [OF rest]
      first_nonzero_zeros [of "length data" ?in "BLOB_MAX_DATA_SIZE - length data"]
    unfolding s0 dec_enc_block0 [OF cl] dec
    by (simp add: nb) (simp add: pad_input_def)
  with enc bl show ?thesis by blast
qed

lemma bd_decode_field_elements_eq:
  "bd_data self = Some b \<Longrightarrow> bd_decode_field_elements k self opos ipos out =
     map_err to_blob_decoding_error (decode_field_elements k b opos ipos out)"
  by (induction k arbitrary: opos ipos out)
     (simp_all add: bd_decode_field_element_def decode_field_element_def map_err_and_then split_def)

lemma bd_decode_rounds_eq:
  "bd_data self = Some b \<Longrightarrow> bd_decode_rounds n len self opos ipos out =
     map_err to_blob_decoding_error (decode_rounds n len b opos ipos out)"
  by (induction n arbitrary: opos ipos out)
     (simp_all add: bd_decode_field_elements_eq map_err_and_then split_def Let_def del: decode_field_elements.simps bd_decode_field_elements.simps)

lemma first_nonzero_list_all:
  "first_nonzero xs start = None \<longleftrightarrow> list_all (\<lambda>b. b = 0) (drop start xs)"
  unfolding first_nonzero_None list_all_length
proof safe
  fix i
  assume a: "\<forall>n<length (drop start xs). drop start xs ! n = 0" and i: "start \<le> i" "i < length xs"
  then show "xs ! i = 0" using a [rule_format, of "i - start"] by simp
qed simp

lemma blob_data_decode_eq:
  assumes "length b = BYTES_PER_BLOB" "bd_data self = Some b"
  shows "blob_data_decode self = map_err to_blob_decoding_error (blob_decode b)"
proof -
  have 1: "list_all (\<lambda>i. b ! i = 0) [ipos..<BYTES_PER_BLOB] \<longleftrightarrow> first_nonzero b ipos = None" for ipos
    using assms(1) by (auto simp: list_all_iff first_nonzero_None)
  have 2: "map_err to_blob_decoding_error (case a of Some i \<Rightarrow> Inl (NonZeroPadding i)
        | None \<Rightarrow> (case c of Some i \<Rightarrow> Inl (NonZeroPadding i) | None \<Rightarrow> Inr v)) =
      (if a \<noteq> None then Inl BlobInvalidFieldElement
       else if c \<noteq> None then Inl BlobInvalidFieldElement else Inr v)" for a c and v :: bytes
    by (auto split: option.splits)
  have 3: "and_then x (\<lambda>p. if a p then l else if \<not> list_all (\<lambda>i. b ! i = 0) [fst (snd p)..<BYTES_PER_BLOB] then l' else r p)
     = and_then x (\<lambda>p. if a p then l else if first_nonzero b (fst (snd p)) \<noteq> None then l' else r p)" 
    for x :: "blob_decoding_error + 'x \<times> nat \<times> 'y" and a l l' and r :: "_ \<Rightarrow> blob_decoding_error + bytes"
    unfolding 1 ..
  show ?thesis
    unfolding blob_data_decode_def blob_decode_def Let_def split_def first_nonzero_list_all [symmetric]
    by (simp add: assms(2) bd_decode_field_elements_eq bd_decode_rounds_eq map_err_and_then
        BLOB_ENCODING_VERSION_def split_def 3 2 del: not_None_eq)
qed

section \<open>Properties\<close>

text \<open>
  C16. Blob round trip: every payload of at most \<open>BLOB_MAX_DATA_SIZE\<close> bytes is encoded
  into a blob of 131072 bytes from which both the batcher's decoder and the derivation
  pipeline's decoder recover exactly the payload.
\<close>
theorem blob_encode_decode:
  assumes "length data \<le> BLOB_MAX_DATA_SIZE"
  shows "\<exists>b. blob_encode data = Inr b \<and> length b = BYTES_PER_BLOB \<and> blob_decode b = Inr data \<and>
    blob_data_decode \<lparr>bd_data = Some b, bd_calldata = cd\<rparr> = Inr data"
  using blob_roundtrip [OF assms] blob_data_decode_eq by fastforce

theorem blob_encode_decode_witness:
  "length [1, 2, 0xFF :: u8] \<le> BLOB_MAX_DATA_SIZE \<and>
   (\<exists>b. blob_encode [1, 2, 0xFF] = Inr b \<and> length b = BYTES_PER_BLOB \<and>
     blob_decode b = Inr [1, 2, 0xFF] \<and>
     blob_data_decode \<lparr>bd_data = Some b, bd_calldata = None\<rparr> = Inr [1, 2, 0xFF])"
  using blob_encode_decode [of "[1, 2, 0xFF]" None] by (simp add: BLOB_MAX_DATA_SIZE_def)

text \<open>
  C23. The two independent blob decoders agree on every blob: the pipeline's decoder
  succeeds exactly when the batcher's does, with the same bytes, and otherwise fails with
  the corresponding error.
\<close>
theorem blob_decoders_agree:
  assumes "length b = BYTES_PER_BLOB"
  shows "blob_data_decode \<lparr>bd_data = Some b, bd_calldata = cd\<rparr> =
    map_err to_blob_decoding_error (blob_decode b)"
  using assms by (intro blob_data_decode_eq) simp_all

theorem blob_decoders_agree_witness:
  "length (replicate BYTES_PER_BLOB (1 :: u8)) = BYTES_PER_BLOB \<and>
   blob_data_decode \<lparr>bd_data = Some (replicate BYTES_PER_BLOB 1), bd_calldata = None\<rparr> =
     map_err to_blob_decoding_error (blob_decode (replicate BYTES_PER_BLOB 1)) \<and>
   blob_decode (replicate BYTES_PER_BLOB 1) = Inl (InvalidEncodingVersion 1)"
  using blob_decoders_agree [of "replicate BYTES_PER_BLOB 1" None]
  by (simp add: blob_decode_def BYTES_PER_BLOB_def)

end
