(* ===== verification/Upgrades.thy ===== *)
theory Upgrades
  imports Prelude
begin

text \<open>
  Network upgrades (\<open>src/crates/common/genesis/src/chain/upgrade.rs\<close>): the enumeration
  of upgrades with its execution and contract ladders, the activation schedule of a chain,
  runtime activation overrides and the versioned registry that holds them per chain. The
  process-global registry behind a lock is an explicit map from chain ids to entries that
  every reader takes and every writer returns; each operation runs under one lock and is
  one step. The lemmas give the laws of the schedule's accessors, the effect of overrides,
  what the active upgrade of a timestamp is, and the invariants of the registry under
  every sequence of operations.
\<close>

section \<open>The upgrades\<close>

datatype base_upgrade =
    Bedrock | Regolith | Canyon | Delta | Ecotone | Fjord | Granite | Holocene
  | PectraBlobSchedule | Isthmus | Jovian | Azul | Beryl | Cobalt | Denim | Everest | Zenith

text \<open>The declaration order, which the derived \<open>Ord\<close> and every \<open>BTreeMap\<close> iteration follow.\<close>

definition BASE_UPGRADES :: "base_upgrade list" where
  "BASE_UPGRADES =
     [Bedrock, Regolith, Canyon, Delta, Ecotone, Fjord, Granite, Holocene, PectraBlobSchedule,
      Isthmus, Jovian, Azul, Beryl, Cobalt, Denim, Everest, Zenith]"

fun upgrade_idx :: "base_upgrade \<Rightarrow> nat" where
  "upgrade_idx Bedrock = 0" | "upgrade_idx Regolith = 1" | "upgrade_idx Canyon = 2"
| "upgrade_idx Delta = 3" | "upgrade_idx Ecotone = 4" | "upgrade_idx Fjord = 5"
| "upgrade_idx Granite = 6" | "upgrade_idx Holocene = 7" | "upgrade_idx PectraBlobSchedule = 8"
| "upgrade_idx Isthmus = 9" | "upgrade_idx Jovian = 10" | "upgrade_idx Azul = 11"
| "upgrade_idx Beryl = 12" | "upgrade_idx Cobalt = 13" | "upgrade_idx Denim = 14"
| "upgrade_idx Everest = 15" | "upgrade_idx Zenith = 16"

lemma upgrade_idx_inj: "upgrade_idx a = upgrade_idx b \<Longrightarrow> a = b"
  by (cases a; cases b; simp)

instantiation base_upgrade :: linorder
begin

definition less_eq_base_upgrade :: "base_upgrade \<Rightarrow> base_upgrade \<Rightarrow> bool" where
  "less_eq_base_upgrade a b \<longleftrightarrow> upgrade_idx a \<le> upgrade_idx b"

definition less_base_upgrade :: "base_upgrade \<Rightarrow> base_upgrade \<Rightarrow> bool" where
  "less_base_upgrade a b \<longleftrightarrow> upgrade_idx a < upgrade_idx b"

instance
  by standard (auto simp: less_eq_base_upgrade_def less_base_upgrade_def dest: upgrade_idx_inj)

end

definition LATEST :: base_upgrade where
  "LATEST = Beryl"

definition EXECUTION_VARIANTS :: "base_upgrade list" where
  "EXECUTION_VARIANTS =
     [Bedrock, Regolith, Canyon, Ecotone, Fjord, Granite, Holocene, Isthmus, Jovian, Azul,
      Beryl, Cobalt, Denim, Everest]"

definition CONTRACT_VARIANTS :: "base_upgrade list" where
  "CONTRACT_VARIANTS =
     [Regolith, Canyon, Delta, Ecotone, Fjord, Granite, Holocene, PectraBlobSchedule, Isthmus,
      Jovian, Azul, Beryl, Cobalt, Denim, Everest]"

fun execution_idx :: "base_upgrade \<Rightarrow> nat option" where
  "execution_idx Bedrock = Some 0" | "execution_idx Regolith = Some 1"
| "execution_idx Canyon = Some 2" | "execution_idx Ecotone = Some 3"
| "execution_idx Fjord = Some 4" | "execution_idx Granite = Some 5"
| "execution_idx Holocene = Some 6" | "execution_idx Isthmus = Some 7"
| "execution_idx Jovian = Some 8" | "execution_idx Azul = Some 9"
| "execution_idx Beryl = Some 10" | "execution_idx Cobalt = Some 11"
| "execution_idx Denim = Some 12" | "execution_idx Everest = Some 13"
| "execution_idx Delta = None" | "execution_idx PectraBlobSchedule = None"
| "execution_idx Zenith = None"

definition is_execution :: "base_upgrade \<Rightarrow> bool" where
  "is_execution u \<longleftrightarrow> execution_idx u \<noteq> None"

definition is_contract_backed :: "base_upgrade \<Rightarrow> bool" where
  "is_contract_backed u \<longleftrightarrow> \<not> (u = Bedrock \<or> u = Zenith)"

fun contract_id :: "base_upgrade \<Rightarrow> string" where
  "contract_id Bedrock = ''bedrock''"
| "contract_id Regolith = ''regolith''"
| "contract_id Canyon = ''canyon''"
| "contract_id Delta = ''delta''"
| "contract_id Ecotone = ''ecotone''"
| "contract_id Fjord = ''fjord''"
| "contract_id Granite = ''granite''"
| "contract_id Holocene = ''holocene''"
| "contract_id PectraBlobSchedule = ''pectra_blob_schedule''"
| "contract_id Isthmus = ''isthmus''"
| "contract_id Jovian = ''jovian''"
| "contract_id Azul = ''azul''"
| "contract_id Beryl = ''beryl''"
| "contract_id Cobalt = ''cobalt''"
| "contract_id Denim = ''denim''"
| "contract_id Everest = ''everest''"
| "contract_id Zenith = ''zenith''"

text \<open>\<open>u8::is_ascii_whitespace\<close>: space, tab, line feed, form feed, carriage return.\<close>

definition is_ascii_whitespace :: "char \<Rightarrow> bool" where
  "is_ascii_whitespace c \<longleftrightarrow> (of_char c :: nat) \<in> {32, 9, 10, 12, 13}"

definition to_ascii_lowercase :: "char \<Rightarrow> char" where
  "to_ascii_lowercase c =
     (let n = of_char c :: nat in if 65 \<le> n \<and> n \<le> 90 then char_of (n + 32) else c)"

definition normalized_hardfork_id :: "string \<Rightarrow> string" where
  "normalized_hardfork_id upgrade_id =
     map to_ascii_lowercase
       (filter (\<lambda>b. \<not> is_ascii_whitespace b \<and> \<not> (b = CHR ''_'' \<or> b = CHR ''-'')) upgrade_id)"

definition from_contract_fork_name :: "string \<Rightarrow> base_upgrade option" where
  "from_contract_fork_name name =
     (let n = normalized_hardfork_id name in
      if n = ''regolith'' then Some Regolith
      else if n = ''shanghai'' \<or> n = ''canyon'' then Some Canyon
      else if n = ''delta'' then Some Delta
      else if n = ''cancun'' \<or> n = ''ecotone'' then Some Ecotone
      else if n = ''fjord'' then Some Fjord
      else if n = ''granite'' then Some Granite
      else if n = ''holocene'' then Some Holocene
      else if n = ''pectrablobschedule'' then Some PectraBlobSchedule
      else if n = ''prague'' \<or> n = ''isthmus'' then Some Isthmus
      else if n = ''jovian'' then Some Jovian
      else if n = ''osaka'' \<or> n = ''azul'' \<or> n = ''baseazul'' \<or> n = ''v1'' then Some Azul
      else if n = ''beryl'' \<or> n = ''baseberyl'' \<or> n = ''v2'' then Some Beryl
      else if n = ''cobalt'' \<or> n = ''basecobalt'' \<or> n = ''v3'' then Some Cobalt
      else if n = ''denim'' \<or> n = ''basedenim'' then Some Denim
      else if n = ''everest'' \<or> n = ''baseeverest'' then Some Everest
      else None)"

section \<open>Activations and overrides\<close>

datatype upgrade_activation = Never | Timestamp u64

fun from_timestamp :: "u64 option \<Rightarrow> upgrade_activation" where
  "from_timestamp (Some t) = Timestamp t"
| "from_timestamp None = Never"

fun timestamp :: "upgrade_activation \<Rightarrow> u64 option" where
  "timestamp Never = None"
| "timestamp (Timestamp t) = Some t"

type_synonym overrides = "base_upgrade \<rightharpoonup> upgrade_activation"

definition overrides_is_empty :: "overrides \<Rightarrow> bool" where
  "overrides_is_empty o' \<longleftrightarrow> list_all (\<lambda>u. o' u = None) BASE_UPGRADES"

definition overrides_activation :: "overrides \<Rightarrow> base_upgrade \<Rightarrow> upgrade_activation option" where
  "overrides_activation o' u = o' u"

definition overrides_remove :: "base_upgrade \<Rightarrow> overrides \<Rightarrow> bool \<times> overrides" where
  "overrides_remove u o' = (o' u \<noteq> None, o'(u := None))"

definition overrides_set :: "base_upgrade \<Rightarrow> upgrade_activation \<Rightarrow> overrides \<Rightarrow> overrides" where
  "overrides_set u a o' = (if u = Zenith then o' else o'(u \<mapsto> a))"

section \<open>The registry\<close>

record registry_entry =
  re_overrides :: overrides
  re_last_updated :: "u64 option"

type_synonym registry = "u64 \<rightharpoonup> registry_entry"

definition registry_entry_default :: registry_entry where
  "registry_entry_default = \<lparr>re_overrides = Map.empty, re_last_updated = None\<rparr>"

definition registry_activation ::
    "registry \<Rightarrow> u64 \<Rightarrow> base_upgrade \<Rightarrow> upgrade_activation option" where
  "registry_activation reg chain u =
     Option.bind (reg chain) (\<lambda>e. overrides_activation (re_overrides e) u)"

definition registry_overrides :: "registry \<Rightarrow> u64 \<Rightarrow> overrides option" where
  "registry_overrides reg chain = map_option re_overrides (reg chain)"

definition last_updated_block_number :: "registry \<Rightarrow> u64 \<Rightarrow> u64 option" where
  "last_updated_block_number reg chain = Option.bind (reg chain) re_last_updated"

definition replace_overrides ::
    "u64 \<Rightarrow> u64 \<Rightarrow> overrides \<Rightarrow> registry \<Rightarrow> bool \<times> registry" where
  "replace_overrides chain l1_block_number o' reg =
     (if (case last_updated_block_number reg chain of
            None \<Rightarrow> False | Some last_updated \<Rightarrow> l1_block_number < last_updated)
      then (False, reg)
      else (True, reg(chain \<mapsto> \<lparr>re_overrides = o', re_last_updated = Some l1_block_number\<rparr>)))"

definition clear_chain :: "u64 \<Rightarrow> registry \<Rightarrow> registry" where
  "clear_chain chain reg = reg(chain := None)"

definition remove_activation_override :: "u64 \<Rightarrow> base_upgrade \<Rightarrow> registry \<Rightarrow> bool \<times> registry" where
  "remove_activation_override chain u reg =
     (case reg chain of
        None \<Rightarrow> (False, reg)
      | Some e \<Rightarrow>
          (let (removed, o') = overrides_remove u (re_overrides e)
           in (removed, reg(chain \<mapsto> e\<lparr>re_overrides := o'\<rparr>))))"

definition registry_set_activation ::
    "u64 \<Rightarrow> base_upgrade \<Rightarrow> upgrade_activation \<Rightarrow> registry \<Rightarrow> registry" where
  "registry_set_activation chain u a reg =
     (let e = (case reg chain of None \<Rightarrow> registry_entry_default | Some e \<Rightarrow> e)
      in reg(chain \<mapsto> e\<lparr>re_overrides := overrides_set u a (re_overrides e)\<rparr>))"

section \<open>The schedule of a chain\<close>

record base_upgrade_config =
  buc_azul :: "u64 option"
  buc_beryl :: "u64 option"
  buc_cobalt :: "u64 option"
  buc_denim :: "u64 option"
  buc_everest :: "u64 option"
  buc_zenith :: "u64 option"

definition base_upgrade_config_default :: base_upgrade_config where
  "base_upgrade_config_default =
     \<lparr>buc_azul = None, buc_beryl = None, buc_cobalt = None, buc_denim = None,
      buc_everest = None, buc_zenith = None\<rparr>"

definition base_upgrade_config_is_empty :: "base_upgrade_config \<Rightarrow> bool" where
  "base_upgrade_config_is_empty c \<longleftrightarrow>
     buc_azul c = None \<and> buc_beryl c = None \<and> buc_cobalt c = None \<and> buc_denim c = None \<and>
     buc_everest c = None \<and> buc_zenith c = None"

record upgrade_config =
  uc_regolith_time :: "u64 option"
  uc_canyon_time :: "u64 option"
  uc_delta_time :: "u64 option"
  uc_ecotone_time :: "u64 option"
  uc_fjord_time :: "u64 option"
  uc_granite_time :: "u64 option"
  uc_holocene_time :: "u64 option"
  uc_pectra_blob_schedule_time :: "u64 option"
  uc_isthmus_time :: "u64 option"
  uc_jovian_time :: "u64 option"
  uc_base :: base_upgrade_config

definition BASE_MAINNET :: upgrade_config where
  "BASE_MAINNET =
     \<lparr>uc_regolith_time = Some 1686789347, uc_canyon_time = Some 1704992401,
      uc_delta_time = Some 1708560000, uc_ecotone_time = Some 1710374401,
      uc_fjord_time = Some 1720627201, uc_granite_time = Some 1726070401,
      uc_holocene_time = Some 1736445601, uc_pectra_blob_schedule_time = None,
      uc_isthmus_time = Some 1746806401, uc_jovian_time = Some 1764691201,
      uc_base = \<lparr>buc_azul = Some 1779991200, buc_beryl = Some 1782410400,
                 buc_cobalt = Some 1790791200, buc_denim = Some 1793901600,
                 buc_everest = None, buc_zenith = None\<rparr>\<rparr>"

definition BASE_SEPOLIA :: upgrade_config where
  "BASE_SEPOLIA =
     \<lparr>uc_regolith_time = Some 1695768288, uc_canyon_time = Some 1699981200,
      uc_delta_time = Some 1703203200, uc_ecotone_time = Some 1708534800,
      uc_fjord_time = Some 1716998400, uc_granite_time = Some 1723478400,
      uc_holocene_time = Some 1732633200, uc_pectra_blob_schedule_time = Some 1742486400,
      uc_isthmus_time = Some 1744905600, uc_jovian_time = Some 1763568001,
      uc_base = \<lparr>buc_azul = Some 1776708000, buc_beryl = Some 1781805600,
                 buc_cobalt = Some 1790186400, buc_denim = Some 1792605600,
                 buc_everest = None, buc_zenith = None\<rparr>\<rparr>"

definition for_chain_id :: "u64 \<Rightarrow> upgrade_config option" where
  "for_chain_id chain_id =
     (if chain_id = 8453 then Some BASE_MAINNET
      else if chain_id = 84532 then Some BASE_SEPOLIA
      else None)"

definition clear_activation_timestamps :: "upgrade_config \<Rightarrow> upgrade_config" where
  "clear_activation_timestamps c =
     c\<lparr>uc_regolith_time := None, uc_canyon_time := None, uc_delta_time := None,
       uc_ecotone_time := None, uc_fjord_time := None, uc_granite_time := None,
       uc_holocene_time := None, uc_pectra_blob_schedule_time := None,
       uc_isthmus_time := None, uc_jovian_time := None,
       uc_base := base_upgrade_config_default\<rparr>"

fun clear_activation_timestamp :: "base_upgrade \<Rightarrow> upgrade_config \<Rightarrow> upgrade_config" where
  "clear_activation_timestamp Bedrock c = c"
| "clear_activation_timestamp Regolith c = c\<lparr>uc_regolith_time := None\<rparr>"
| "clear_activation_timestamp Canyon c = c\<lparr>uc_canyon_time := None\<rparr>"
| "clear_activation_timestamp Delta c = c\<lparr>uc_delta_time := None\<rparr>"
| "clear_activation_timestamp Ecotone c = c\<lparr>uc_ecotone_time := None\<rparr>"
| "clear_activation_timestamp Fjord c = c\<lparr>uc_fjord_time := None\<rparr>"
| "clear_activation_timestamp Granite c = c\<lparr>uc_granite_time := None\<rparr>"
| "clear_activation_timestamp Holocene c = c\<lparr>uc_holocene_time := None\<rparr>"
| "clear_activation_timestamp PectraBlobSchedule c = c\<lparr>uc_pectra_blob_schedule_time := None\<rparr>"
| "clear_activation_timestamp Isthmus c = c\<lparr>uc_isthmus_time := None\<rparr>"
| "clear_activation_timestamp Jovian c = c\<lparr>uc_jovian_time := None\<rparr>"
| "clear_activation_timestamp Azul c = c\<lparr>uc_base := (uc_base c)\<lparr>buc_azul := None\<rparr>\<rparr>"
| "clear_activation_timestamp Beryl c = c\<lparr>uc_base := (uc_base c)\<lparr>buc_beryl := None\<rparr>\<rparr>"
| "clear_activation_timestamp Cobalt c = c\<lparr>uc_base := (uc_base c)\<lparr>buc_cobalt := None\<rparr>\<rparr>"
| "clear_activation_timestamp Denim c = c\<lparr>uc_base := (uc_base c)\<lparr>buc_denim := None\<rparr>\<rparr>"
| "clear_activation_timestamp Everest c = c\<lparr>uc_base := (uc_base c)\<lparr>buc_everest := None\<rparr>\<rparr>"
| "clear_activation_timestamp Zenith c = c\<lparr>uc_base := (uc_base c)\<lparr>buc_zenith := None\<rparr>\<rparr>"

fun set_activation_timestamp :: "base_upgrade \<Rightarrow> u64 \<Rightarrow> upgrade_config \<Rightarrow> upgrade_config" where
  "set_activation_timestamp Bedrock t c = c"
| "set_activation_timestamp Regolith t c = c\<lparr>uc_regolith_time := Some t\<rparr>"
| "set_activation_timestamp Canyon t c = c\<lparr>uc_canyon_time := Some t\<rparr>"
| "set_activation_timestamp Delta t c = c\<lparr>uc_delta_time := Some t\<rparr>"
| "set_activation_timestamp Ecotone t c = c\<lparr>uc_ecotone_time := Some t\<rparr>"
| "set_activation_timestamp Fjord t c = c\<lparr>uc_fjord_time := Some t\<rparr>"
| "set_activation_timestamp Granite t c = c\<lparr>uc_granite_time := Some t\<rparr>"
| "set_activation_timestamp Holocene t c = c\<lparr>uc_holocene_time := Some t\<rparr>"
| "set_activation_timestamp PectraBlobSchedule t c = c\<lparr>uc_pectra_blob_schedule_time := Some t\<rparr>"
| "set_activation_timestamp Isthmus t c = c\<lparr>uc_isthmus_time := Some t\<rparr>"
| "set_activation_timestamp Jovian t c = c\<lparr>uc_jovian_time := Some t\<rparr>"
| "set_activation_timestamp Azul t c = c\<lparr>uc_base := (uc_base c)\<lparr>buc_azul := Some t\<rparr>\<rparr>"
| "set_activation_timestamp Beryl t c = c\<lparr>uc_base := (uc_base c)\<lparr>buc_beryl := Some t\<rparr>\<rparr>"
| "set_activation_timestamp Cobalt t c = c\<lparr>uc_base := (uc_base c)\<lparr>buc_cobalt := Some t\<rparr>\<rparr>"
| "set_activation_timestamp Denim t c = c\<lparr>uc_base := (uc_base c)\<lparr>buc_denim := Some t\<rparr>\<rparr>"
| "set_activation_timestamp Everest t c = c\<lparr>uc_base := (uc_base c)\<lparr>buc_everest := Some t\<rparr>\<rparr>"
| "set_activation_timestamp Zenith t c = c\<lparr>uc_base := (uc_base c)\<lparr>buc_zenith := Some t\<rparr>\<rparr>"

fun set_activation :: "base_upgrade \<Rightarrow> upgrade_activation \<Rightarrow> upgrade_config \<Rightarrow> upgrade_config" where
  "set_activation u Never c = clear_activation_timestamp u c"
| "set_activation u (Timestamp t) c = set_activation_timestamp u t c"

definition apply_activation_overrides :: "overrides \<Rightarrow> upgrade_config \<Rightarrow> upgrade_config" where
  "apply_activation_overrides o' c =
     foldl (\<lambda>c u. case o' u of None \<Rightarrow> c | Some a \<Rightarrow> set_activation u a c) c BASE_UPGRADES"

fun activation_slot :: "upgrade_config \<Rightarrow> base_upgrade \<Rightarrow> u64 option" where
  "activation_slot c Bedrock = None"
| "activation_slot c Regolith = uc_regolith_time c"
| "activation_slot c Canyon = uc_canyon_time c"
| "activation_slot c Delta = uc_delta_time c"
| "activation_slot c Ecotone = uc_ecotone_time c"
| "activation_slot c Fjord = uc_fjord_time c"
| "activation_slot c Granite = uc_granite_time c"
| "activation_slot c Holocene = uc_holocene_time c"
| "activation_slot c PectraBlobSchedule = uc_pectra_blob_schedule_time c"
| "activation_slot c Isthmus = uc_isthmus_time c"
| "activation_slot c Jovian = uc_jovian_time c"
| "activation_slot c Azul = buc_azul (uc_base c)"
| "activation_slot c Beryl = buc_beryl (uc_base c)"
| "activation_slot c Cobalt = buc_cobalt (uc_base c)"
| "activation_slot c Denim = buc_denim (uc_base c)"
| "activation_slot c Everest = buc_everest (uc_base c)"
| "activation_slot c Zenith = buc_zenith (uc_base c)"

definition activation :: "upgrade_config \<Rightarrow> base_upgrade \<Rightarrow> upgrade_activation" where
  "activation c u = from_timestamp (activation_slot c u)"

definition activation_timestamp :: "upgrade_config \<Rightarrow> base_upgrade \<Rightarrow> u64 option" where
  "activation_timestamp c u = timestamp (activation c u)"

definition upgrade_config_iter :: "upgrade_config \<Rightarrow> (base_upgrade \<times> u64 option) list" where
  "upgrade_config_iter c = map (\<lambda>u. (u, activation_timestamp c u)) CONTRACT_VARIANTS"

definition from_chain_and_timestamp :: "registry \<Rightarrow> u64 \<Rightarrow> u64 \<Rightarrow> base_upgrade option" where
  "from_chain_and_timestamp reg chain_id ts =
     Option.bind (for_chain_id chain_id) (\<lambda>config.
       let config = (case registry_overrides reg chain_id of
                       None \<Rightarrow> config
                     | Some o' \<Rightarrow> apply_activation_overrides o' config)
       in find (\<lambda>u. u = Bedrock \<or>
                  (case activation_timestamp config u of None \<Rightarrow> False | Some a \<Rightarrow> ts \<ge> a))
            (rev EXECUTION_VARIANTS))"

section \<open>Registry operations as steps\<close>

text \<open>One public writer of the registry; \<open>set_activation_timestamp\<close> and
  \<open>clear_activation_timestamp\<close> are \<open>SetActivation\<close> with the two activations.\<close>

datatype registry_op =
    ReplaceOverrides u64 u64 overrides
  | ClearChain u64
  | RemoveActivationOverride u64 base_upgrade
  | SetActivation u64 base_upgrade upgrade_activation

fun registry_step :: "registry_op \<Rightarrow> registry \<Rightarrow> registry" where
  "registry_step (ReplaceOverrides chain n o') reg = snd (replace_overrides chain n o' reg)"
| "registry_step (ClearChain chain) reg = clear_chain chain reg"
| "registry_step (RemoveActivationOverride chain u) reg = snd (remove_activation_override chain u reg)"
| "registry_step (SetActivation chain u a) reg = registry_set_activation chain u a reg"

definition registry_run :: "registry_op list \<Rightarrow> registry \<Rightarrow> registry" where
  "registry_run ops reg = foldl (\<lambda>r op. registry_step op r) reg ops"

section \<open>Specification of the active upgrade\<close>

definition chain_schedule :: "registry \<Rightarrow> u64 \<Rightarrow> upgrade_config option" where
  "chain_schedule reg chain_id = map_option (\<lambda>c.
     case registry_overrides reg chain_id of None \<Rightarrow> c | Some o' \<Rightarrow> apply_activation_overrides o' c) (for_chain_id chain_id)"

definition active_at :: "upgrade_config \<Rightarrow> u64 \<Rightarrow> base_upgrade \<Rightarrow> bool" where
  "active_at c ts u \<longleftrightarrow> u \<in> set EXECUTION_VARIANTS \<and> (u = Bedrock \<or> (\<exists>a. activation_slot c u = Some a \<and> a \<le> ts))"

section \<open>Lemmas\<close>

lemma set_BASE_UPGRADES [simp]: "set BASE_UPGRADES = UNIV"
  by (auto simp: BASE_UPGRADES_def) (metis base_upgrade.exhaust)

lemma sorted_BASE_UPGRADES: "sorted_wrt (<) BASE_UPGRADES"
  by (simp add: BASE_UPGRADES_def less_base_upgrade_def)

lemma distinct_BASE_UPGRADES [simp]: "distinct BASE_UPGRADES"
  by (simp add: BASE_UPGRADES_def)

lemma timestamp_from_timestamp [simp]: "timestamp (from_timestamp t) = t"
  by (cases t) simp_all

lemma activation_timestamp_slot [simp]: "activation_timestamp c u = activation_slot c u"
  by (simp add: activation_timestamp_def activation_def)

lemma slot_set:
  "activation_slot (set_activation u a c) v =
     (if u = v \<and> u \<noteq> Bedrock then timestamp a else activation_slot c v)"
  by (cases a; cases u; cases v; simp)

lemma slot_apply_fold:
  "distinct us \<Longrightarrow> activation_slot
     (foldl (\<lambda>c u. case o' u of None \<Rightarrow> c | Some a \<Rightarrow> set_activation u a c) c us) v =
   (if v \<in> set us \<and> v \<noteq> Bedrock \<and> o' v \<noteq> None then timestamp (the (o' v)) else activation_slot c v)"
  by (induction us arbitrary: c) (auto simp: slot_set split: option.splits)

lemma slot_apply:
  "activation_slot (apply_activation_overrides o' c) v =
     (if v = Bedrock then None else case o' v of Some a \<Rightarrow> timestamp a | None \<Rightarrow> activation_slot c v)"
  by (auto simp: apply_activation_overrides_def slot_apply_fold split: option.splits)

lemma find_rev_sorted:
  fixes P :: "'a::linorder \<Rightarrow> bool"
  assumes "sorted_wrt (<) xs"
  shows "find P (rev xs) = Some x \<longleftrightarrow> x \<in> set xs \<and> P x \<and> (\<forall>y \<in> set xs. P y \<longrightarrow> y \<le> x)"
  using assms
proof (induction xs rule: rev_induct)
  case (snoc a xs)
  then have lt: "\<forall>y \<in> set xs. y < a" and IH: "find P (rev xs) = Some x \<longleftrightarrow>
      x \<in> set xs \<and> P x \<and> (\<forall>y \<in> set xs. P y \<longrightarrow> y \<le> x)"
    by (auto simp: sorted_wrt_append)
  show ?case
  proof (cases "P a")
    case True
    then show ?thesis using lt by (auto simp: order.strict_iff_order)
  next
    case False
    then show ?thesis using IH by auto
  qed
qed simp

lemma sorted_EXECUTION_VARIANTS: "sorted_wrt (<) EXECUTION_VARIANTS"
  by (simp add: EXECUTION_VARIANTS_def less_base_upgrade_def)

lemma from_chain_and_timestamp_iff:
  "from_chain_and_timestamp reg chain_id ts = Some u \<longleftrightarrow>
     (\<exists>c. chain_schedule reg chain_id = Some c \<and> active_at c ts u \<and> (\<forall>v. active_at c ts v \<longrightarrow> v \<le> u))"
proof (cases "for_chain_id chain_id")
  case (Some c)
  let ?c = "case registry_overrides reg chain_id of None \<Rightarrow> c | Some o' \<Rightarrow> apply_activation_overrides o' c"
  have p: "(v = Bedrock \<or> (case activation_timestamp ?c v of None \<Rightarrow> False | Some a \<Rightarrow> ts \<ge> a)) \<longleftrightarrow>
      v = Bedrock \<or> (\<exists>a. activation_slot ?c v = Some a \<and> a \<le> ts)" for v
    unfolding activation_timestamp_slot by (cases "activation_slot ?c v") simp_all
  show ?thesis
    using Some unfolding from_chain_and_timestamp_def Let_def chain_schedule_def active_at_def
    by (simp add: p find_rev_sorted [OF sorted_EXECUTION_VARIANTS] del: activation_timestamp_slot) blast
qed (simp add: from_chain_and_timestamp_def chain_schedule_def)

lemma from_chain_mono:
  assumes "from_chain_and_timestamp reg chain_id ts = Some u" "ts \<le> ts'"
  shows "\<exists>u'. from_chain_and_timestamp reg chain_id ts' = Some u' \<and> u \<le> u'"
proof -
  obtain c where c: "chain_schedule reg chain_id = Some c" "active_at c ts u"
    using assms by (auto simp: from_chain_and_timestamp_iff)
  let ?A = "{v. active_at c ts' v}"
  have fin: "finite ?A" by (rule finite_subset [of _ "set EXECUTION_VARIANTS"]) (auto simp: active_at_def)
  have u: "u \<in> ?A" using c(2) assms(2) by (auto simp: active_at_def)
  then have "Max ?A \<in> ?A" "u \<le> Max ?A" "\<forall>v. active_at c ts' v \<longrightarrow> v \<le> Max ?A"
    using fin Max_in [OF fin] by auto
  then show ?thesis using c(1) by (auto simp: from_chain_and_timestamp_iff)
qed

lemma from_timestamp_timestamp [simp]: "from_timestamp (timestamp a) = a"
  by (cases a) simp_all

lemmas registry_defs = replace_overrides_def clear_chain_def remove_activation_override_def
  registry_set_activation_def last_updated_block_number_def registry_activation_def
  overrides_activation_def overrides_remove_def overrides_set_def registry_entry_default_def

lemma registry_step_last_updated:
  assumes "op \<noteq> ClearChain chain" "last_updated_block_number reg chain = Some n"
  shows "\<exists>m. last_updated_block_number (registry_step op reg) chain = Some m \<and> n \<le> m"
  using assms
  by (cases op) (auto simp: registry_defs Let_def split: if_splits option.splits)

lemma registry_step_zenith:
  assumes "\<forall>chain n o'. op = ReplaceOverrides chain n o' \<longrightarrow> o' Zenith = None"
    "\<forall>chain. registry_activation reg chain Zenith = None"
  shows "registry_activation (registry_step op reg) chain Zenith = None"
proof -
  have "re_overrides e Zenith = None" if "reg c = Some e" for c e
    using assms(2) [rule_format, of c] that by (simp add: registry_defs)
  then show ?thesis
    using assms(1)
    by (cases op; cases "reg chain")
       (auto simp: registry_defs Let_def split: if_splits option.splits)
qed

lemma registry_run_Nil [simp]: "registry_run [] reg = reg"
  by (simp add: registry_run_def)

lemma registry_run_Cons [simp]: "registry_run (op # ops) reg = registry_run ops (registry_step op reg)"
  by (simp add: registry_run_def)

section \<open>Properties\<close>

text \<open>
  Overrides: applying a set of overrides to a schedule gives each overridden upgrade
  exactly its override and leaves every other upgrade as it was; Bedrock has no timestamp
  slot and stays unscheduled.
\<close>
theorem apply_overrides_effect:
  "activation (apply_activation_overrides o' c) u =
     (if u = Bedrock then Never
      else case o' u of Some a \<Rightarrow> a | None \<Rightarrow> activation c u)"
  by (simp add: activation_def slot_apply split: option.splits)

text \<open>
  The active upgrade of a chain at a timestamp is the latest upgrade of the execution
  ladder whose activation, after the runtime overrides, is not after the timestamp, and it
  never goes back as the timestamp grows.
\<close>
theorem active_upgrade_is_latest:
  assumes "from_chain_and_timestamp reg chain_id ts = Some u"
  shows "(\<exists>c. chain_schedule reg chain_id = Some c \<and> active_at c ts u \<and>
      (\<forall>v. active_at c ts v \<longrightarrow> v \<le> u)) \<and>
    (\<forall>ts' \<ge> ts. \<exists>u'. from_chain_and_timestamp reg chain_id ts' = Some u' \<and> u \<le> u')"
  using assms from_chain_and_timestamp_iff from_chain_mono by blast

theorem active_upgrade_is_latest_witness:
  "from_chain_and_timestamp Map.empty 8453 1782410400 = Some Beryl \<and>
   (\<exists>c. chain_schedule Map.empty 8453 = Some c \<and> active_at c 1782410400 Beryl \<and>
      (\<forall>v. active_at c 1782410400 v \<longrightarrow> v \<le> Beryl)) \<and>
   (\<exists>u'. from_chain_and_timestamp Map.empty 8453 1999999999 = Some u' \<and> Beryl \<le> u')"
proof -
  have "from_chain_and_timestamp Map.empty 8453 1782410400 = Some Beryl"
    by (simp add: from_chain_and_timestamp_def for_chain_id_def registry_overrides_def
        BASE_MAINNET_def EXECUTION_VARIANTS_def)
  with active_upgrade_is_latest [OF this] show ?thesis by simp
qed

text \<open>
  The registry's watermark never goes back: as long as a chain is not cleared, no
  sequence of registry operations lowers the L1 block number of its last applied schedule,
  so a stale schedule never replaces a newer one.
\<close>
theorem registry_watermark_monotone:
  assumes "ClearChain chain \<notin> set ops" "last_updated_block_number reg chain = Some n"
  shows "\<exists>m. last_updated_block_number (registry_run ops reg) chain = Some m \<and> n \<le> m"
  using assms
proof (induction ops arbitrary: reg n)
  case (Cons op ops)
  then obtain m where "last_updated_block_number (registry_step op reg) chain = Some m" "n \<le> m"
    using registry_step_last_updated [of op chain reg n] by auto
  then show ?case using Cons.IH [of "registry_step op reg" m] Cons.prems by (auto intro: order_trans)
qed simp

theorem registry_watermark_monotone_witness:
  "ClearChain 1 \<notin> set [ReplaceOverrides 1 3 Map.empty, SetActivation 1 Azul Never, ReplaceOverrides 1 9 Map.empty] \<and>
   last_updated_block_number (Map.empty(1 \<mapsto> \<lparr>re_overrides = Map.empty, re_last_updated = Some 5\<rparr>)) 1 = Some 5 \<and>
   (\<exists>m. last_updated_block_number
      (registry_run [ReplaceOverrides 1 3 Map.empty, SetActivation 1 Azul Never, ReplaceOverrides 1 9 Map.empty]
        (Map.empty(1 \<mapsto> \<lparr>re_overrides = Map.empty, re_last_updated = Some 5\<rparr>))) 1 = Some m \<and> 5 \<le> m)"
  using registry_watermark_monotone [of 1 "[ReplaceOverrides 1 3 Map.empty, SetActivation 1 Azul Never,
      ReplaceOverrides 1 9 Map.empty]" "Map.empty(1 \<mapsto> \<lparr>re_overrides = Map.empty, re_last_updated = Some 5\<rparr>)" 5]
  by (simp add: last_updated_block_number_def)

text \<open>
  Zenith is out of reach of the upgrade signal: starting from the empty registry, no
  sequence of operations whose replaced override sets leave Zenith out ever gives Zenith a
  runtime activation, whatever \<open>set_activation\<close> is called with.
\<close>
theorem zenith_never_overridden:
  assumes "\<forall>chain n o'. ReplaceOverrides chain n o' \<in> set ops \<longrightarrow> o' Zenith = None"
  shows "registry_activation (registry_run ops Map.empty) chain Zenith = None"
proof -
  have "\<forall>chain. registry_activation reg chain Zenith = None \<Longrightarrow>
      registry_activation (registry_run ops reg) chain Zenith = None" for reg
    using assms
  proof (induction ops arbitrary: reg)
    case (Cons op ops)
    have "\<forall>chain. registry_activation (registry_step op reg) chain Zenith = None"
      using registry_step_zenith [of op reg] Cons.prems by auto
    then show ?case using Cons.IH [of "registry_step op reg"] Cons.prems(2) by auto
  qed simp
  then show ?thesis by (simp add: registry_activation_def)
qed

theorem zenith_never_overridden_witness:
  "registry_activation (registry_run [SetActivation 1 Zenith (Timestamp 5),
      ReplaceOverrides 1 7 [Azul \<mapsto> Never]] Map.empty) 1 Zenith = None"
  by (rule zenith_never_overridden) simp

text \<open>
  Contract ids: every contract-backed upgrade is recovered from its contract id, and
  the ids of the two other upgrades (Bedrock, Zenith) resolve to nothing.
\<close>
theorem contract_id_roundtrip:
  "from_contract_fork_name (contract_id u) = (if is_contract_backed u then Some u else None)"
  by (cases u; simp add: from_contract_fork_name_def normalized_hardfork_id_def is_ascii_whitespace_def
     to_ascii_lowercase_def is_contract_backed_def Let_def)

end
