(* ===== verification/Blocks.thy ===== *)
theory Blocks
  imports Prelude
begin

text \<open>
  Block references shared by the protocol and the derivation pipeline:
  \<open>BlockNumHash\<close>, \<open>BlockInfo\<close> and \<open>L2BlockInfo\<close>
  (\<open>src/crates/consensus/protocol/src/block.rs\<close>), the chain genesis
  (\<open>src/crates/common/genesis/src/genesis.rs\<close>) and the system configuration
  (\<open>src/crates/common/genesis/src/system/config.rs\<close>). Hashes and addresses are the
  lists of their bytes.
\<close>

section \<open>Block references\<close>

definition B256_ZERO :: hash32 where
  "B256_ZERO = replicate 32 0"

record block_num_hash =
  bnh_number :: u64
  bnh_hash :: hash32

record block_info =
  bi_hash :: hash32
  bi_number :: u64
  bi_parent_hash :: hash32
  bi_timestamp :: u64

definition block_info_new :: "hash32 \<Rightarrow> u64 \<Rightarrow> hash32 \<Rightarrow> u64 \<Rightarrow> block_info" where
  "block_info_new h n p t =
     \<lparr>bi_hash = h, bi_number = n, bi_parent_hash = p, bi_timestamp = t\<rparr>"

definition block_info_default :: block_info where
  "block_info_default = block_info_new B256_ZERO 0 B256_ZERO 0"

definition block_info_id :: "block_info \<Rightarrow> block_num_hash" where
  "block_info_id b = \<lparr>bnh_number = bi_number b, bnh_hash = bi_hash b\<rparr>"

definition is_parent_of :: "block_info \<Rightarrow> block_info \<Rightarrow> bool" where
  "is_parent_of self block \<longleftrightarrow>
     bi_number self + 1 = bi_number block \<and> bi_hash self = bi_parent_hash block"

record l2_block_info =
  l2_block :: block_info
  l2_l1_origin :: block_num_hash
  l2_seq_num :: u64

definition l2_block_info_new :: "block_info \<Rightarrow> block_num_hash \<Rightarrow> u64 \<Rightarrow> l2_block_info" where
  "l2_block_info_new b orig s = \<lparr>l2_block = b, l2_l1_origin = orig, l2_seq_num = s\<rparr>"

section \<open>Genesis\<close>

record system_config =
  sc_batcher_address :: address
  sc_overhead :: "256 word"
  sc_scalar :: "256 word"
  sc_gas_limit :: u64
  sc_base_fee_scalar :: "u64 option"
  sc_blob_base_fee_scalar :: "u64 option"
  sc_eip1559_denominator :: "u32 option"
  sc_eip1559_elasticity :: "u32 option"
  sc_operator_fee_scalar :: "u32 option"
  sc_operator_fee_constant :: "u64 option"
  sc_min_base_fee :: "u64 option"
  sc_da_footprint_gas_scalar :: "u16 option"

record chain_genesis =
  gen_l1 :: block_num_hash
  gen_l2 :: block_num_hash
  gen_l2_time :: u64
  gen_system_config :: "system_config option"

definition block_info_from_l2_genesis :: "chain_genesis \<Rightarrow> block_info" where
  "block_info_from_l2_genesis g =
     block_info_new (bnh_hash (gen_l2 g)) (bnh_number (gen_l2 g)) B256_ZERO (gen_l2_time g)"

definition l2_from_l2_genesis :: "chain_genesis \<Rightarrow> l2_block_info" where
  "l2_from_l2_genesis g = l2_block_info_new (block_info_from_l2_genesis g) (gen_l1 g) 0"

lemma is_parent_of_number:
  "is_parent_of a b \<Longrightarrow> bi_number a \<noteq> - 1 \<Longrightarrow> unat (bi_number b) = Suc (unat (bi_number a))"
  unfolding is_parent_of_def by (metis unatSuc Suc_eq_plus1 add.commute add_eq_0_iff eq_neg_iff_add_eq_0)

end
