(* ===== verification/Rollup_Config.thy ===== *)
theory Rollup_Config
  imports Upgrades Blocks
begin

text \<open>
  The rollup configuration (\<open>src/crates/common/genesis/src/rollup.rs\<close>, \<open>params.rs\<close>) and the
  Denim timestamp schedule (\<open>schedule.rs\<close>). Every reader that consults the runtime upgrade
  registry takes it as its first argument. The lemmas relate the runtime view to the
  materialised configuration and describe the deterministic block timestamps.
\<close>

section \<open>Denim timestamp schedule\<close>

text \<open>\<open>legacy_block_interval\<close> is a \<open>NonZeroU64\<close>; \<open>schedule_wf\<close> below says so.\<close>

record denim_schedule =
  ds_genesis_block_number :: u64
  ds_genesis_timestamp :: u64
  ds_legacy_block_interval :: u64
  ds_denim_activation_timestamp :: u64

definition DENIM_BLOCK_INTERVAL_MILLIS :: u64 where
  "DENIM_BLOCK_INTERVAL_MILLIS = 200"

definition ds_denim_activation_block_number :: "denim_schedule \<Rightarrow> u64" where
  "ds_denim_activation_block_number s =
     div_ceil (sat_sub (ds_denim_activation_timestamp s) (ds_genesis_timestamp s))
       (ds_legacy_block_interval s)"

definition is_denim_active_at_block :: "denim_schedule \<Rightarrow> u64 \<Rightarrow> bool" where
  "is_denim_active_at_block s block_number \<longleftrightarrow>
     sat_sub block_number (ds_genesis_block_number s) \<ge> ds_denim_activation_block_number s"

definition block_timestamp_millis :: "denim_schedule \<Rightarrow> u64 \<Rightarrow> u64" where
  "block_timestamp_millis s block_number =
     (let blocks_since_genesis = sat_sub block_number (ds_genesis_block_number s);
          legacy_seconds = sat_add (ds_genesis_timestamp s)
            (sat_mul blocks_since_genesis (ds_legacy_block_interval s));
          legacy_millis = sat_mul legacy_seconds 1000;
          denim_activation_block = ds_denim_activation_block_number s
      in if blocks_since_genesis < denim_activation_block then legacy_millis
         else let denim_activation_millis =
           sat_mul (sat_add (ds_genesis_timestamp s)
             (sat_mul denim_activation_block (ds_legacy_block_interval s))) 1000
         in sat_add denim_activation_millis
              (sat_mul (sat_sub blocks_since_genesis denim_activation_block)
                 DENIM_BLOCK_INTERVAL_MILLIS))"

definition block_timestamp_parts :: "denim_schedule \<Rightarrow> u64 \<Rightarrow> u64 \<times> u16" where
  "block_timestamp_parts s block_number =
     (let millis = block_timestamp_millis s block_number in (millis div 1000, ucast (millis mod 1000)))"

section \<open>The configuration\<close>

record fee_config =
  fc_eip1559_elasticity :: u64
  fc_eip1559_denominator :: u64
  fc_eip1559_denominator_canyon :: u64

definition fee_config_base_mainnet :: fee_config where
  "fee_config_base_mainnet =
     \<lparr>fc_eip1559_elasticity = 6, fc_eip1559_denominator = 50, fc_eip1559_denominator_canyon = 250\<rparr>"

record rollup_config =
  rc_genesis :: chain_genesis
  rc_block_time :: u64
  rc_max_sequencer_drift :: u64
  rc_seq_window_size :: u64
  rc_channel_timeout :: u64
  rc_granite_channel_timeout :: u64
  rc_l1_chain_id :: u64
  rc_l2_chain_id :: u64
  rc_upgrades :: upgrade_config
  rc_batch_inbox_address :: address
  rc_deposit_contract_address :: address
  rc_l1_system_config_address :: address
  rc_protocol_versions_address :: address
  rc_blobs_enabled_l1_timestamp :: "u64 option"
  rc_chain_op_config :: fee_config

definition MAX_RLP_BYTES_PER_CHANNEL_BEDROCK :: u64 where
  "MAX_RLP_BYTES_PER_CHANNEL_BEDROCK = 10000000"

definition MAX_RLP_BYTES_PER_CHANNEL_FJORD :: u64 where
  "MAX_RLP_BYTES_PER_CHANNEL_FJORD = 100000000"

definition FJORD_MAX_SEQUENCER_DRIFT :: u64 where
  "FJORD_MAX_SEQUENCER_DRIFT = 1800"

definition DENIM_MAX_SEQUENCER_DRIFT :: u64 where
  "DENIM_MAX_SEQUENCER_DRIFT = 6 * 60 * 60"

definition GRANITE_CHANNEL_TIMEOUT :: u64 where
  "GRANITE_CHANNEL_TIMEOUT = 50"

definition ADDRESS_ZERO :: address where
  "ADDRESS_ZERO = replicate 20 0"

definition upgrade_config_default :: upgrade_config where
  "upgrade_config_default =
     \<lparr>uc_regolith_time = None, uc_canyon_time = None, uc_delta_time = None, uc_ecotone_time = None,
      uc_fjord_time = None, uc_granite_time = None, uc_holocene_time = None,
      uc_pectra_blob_schedule_time = None, uc_isthmus_time = None, uc_jovian_time = None,
      uc_base = base_upgrade_config_default\<rparr>"

definition chain_genesis_default :: chain_genesis where
  "chain_genesis_default =
     \<lparr>gen_l1 = \<lparr>bnh_number = 0, bnh_hash = B256_ZERO\<rparr>, gen_l2 = \<lparr>bnh_number = 0, bnh_hash = B256_ZERO\<rparr>,
      gen_l2_time = 0, gen_system_config = None\<rparr>"

definition rollup_config_default :: rollup_config where
  "rollup_config_default =
     \<lparr>rc_genesis = chain_genesis_default, rc_block_time = 0, rc_max_sequencer_drift = 0,
      rc_seq_window_size = 0, rc_channel_timeout = 0,
      rc_granite_channel_timeout = GRANITE_CHANNEL_TIMEOUT, rc_l1_chain_id = 0, rc_l2_chain_id = 0,
      rc_upgrades = upgrade_config_default, rc_batch_inbox_address = ADDRESS_ZERO,
      rc_deposit_contract_address = ADDRESS_ZERO, rc_l1_system_config_address = ADDRESS_ZERO,
      rc_protocol_versions_address = ADDRESS_ZERO, rc_blobs_enabled_l1_timestamp = None,
      rc_chain_op_config = fee_config_base_mainnet\<rparr>"

section \<open>Upgrade activation\<close>

definition cfg_upgrade_activation ::
    "registry \<Rightarrow> rollup_config \<Rightarrow> base_upgrade \<Rightarrow> upgrade_activation" where
  "cfg_upgrade_activation reg cfg u =
     (case registry_activation reg (rc_l2_chain_id cfg) u of
        Some a \<Rightarrow> a
      | None \<Rightarrow> activation (rc_upgrades cfg) u)"

definition upgrade_activation_timestamp ::
    "registry \<Rightarrow> rollup_config \<Rightarrow> base_upgrade \<Rightarrow> u64 option" where
  "upgrade_activation_timestamp reg cfg u = timestamp (cfg_upgrade_activation reg cfg u)"

definition apply_runtime_upgrade_overrides :: "registry \<Rightarrow> rollup_config \<Rightarrow> rollup_config" where
  "apply_runtime_upgrade_overrides reg cfg =
     (case registry_overrides reg (rc_l2_chain_id cfg) of
        Some o' \<Rightarrow> cfg\<lparr>rc_upgrades := apply_activation_overrides o' (rc_upgrades cfg)\<rparr>
      | None \<Rightarrow> cfg)"

definition with_runtime_upgrade_overrides :: "registry \<Rightarrow> rollup_config \<Rightarrow> rollup_config" where
  "with_runtime_upgrade_overrides reg cfg = apply_runtime_upgrade_overrides reg cfg"

definition clear_upgrade_activation_timestamps :: "rollup_config \<Rightarrow> rollup_config" where
  "clear_upgrade_activation_timestamps cfg =
     cfg\<lparr>rc_upgrades := clear_activation_timestamps (rc_upgrades cfg)\<rparr>"

definition clear_upgrade_activation_timestamp :: "base_upgrade \<Rightarrow> rollup_config \<Rightarrow> rollup_config" where
  "clear_upgrade_activation_timestamp u cfg =
     cfg\<lparr>rc_upgrades := clear_activation_timestamp u (rc_upgrades cfg)\<rparr>"

definition set_upgrade_activation_timestamp ::
    "base_upgrade \<Rightarrow> u64 \<Rightarrow> rollup_config \<Rightarrow> rollup_config" where
  "set_upgrade_activation_timestamp u t cfg =
     cfg\<lparr>rc_upgrades := set_activation_timestamp u t (rc_upgrades cfg)\<rparr>"

fun apply_upgrade_activation ::
    "base_upgrade \<Rightarrow> upgrade_activation \<Rightarrow> rollup_config \<Rightarrow> rollup_config" where
  "apply_upgrade_activation u (Timestamp t) cfg = set_upgrade_activation_timestamp u t cfg"
| "apply_upgrade_activation u Never cfg = clear_upgrade_activation_timestamp u cfg"

text \<open>\<open>UpgradeActivationSink::apply_activation\<close> for the configuration.\<close>

definition sink_apply_activation ::
    "base_upgrade \<Rightarrow> upgrade_activation \<Rightarrow> rollup_config \<Rightarrow> bool \<times> rollup_config" where
  "sink_apply_activation u a cfg =
     (if u = Zenith then (False, cfg) else (True, apply_upgrade_activation u a cfg))"

text \<open>The methods the macro \<open>rollup_fork_methods\<close> generates.\<close>

definition fork_active :: "registry \<Rightarrow> rollup_config \<Rightarrow> base_upgrade \<Rightarrow> u64 \<Rightarrow> bool" where
  "fork_active reg cfg u t =
     (case upgrade_activation_timestamp reg cfg u of None \<Rightarrow> False | Some a \<Rightarrow> t \<ge> a)"

definition is_jovian_active :: "registry \<Rightarrow> rollup_config \<Rightarrow> u64 \<Rightarrow> bool" where
  "is_jovian_active reg cfg t \<longleftrightarrow> fork_active reg cfg Jovian t"

definition is_isthmus_active :: "registry \<Rightarrow> rollup_config \<Rightarrow> u64 \<Rightarrow> bool" where
  "is_isthmus_active reg cfg t \<longleftrightarrow> fork_active reg cfg Isthmus t \<or> is_jovian_active reg cfg t"

definition is_holocene_active :: "registry \<Rightarrow> rollup_config \<Rightarrow> u64 \<Rightarrow> bool" where
  "is_holocene_active reg cfg t \<longleftrightarrow> fork_active reg cfg Holocene t \<or> is_isthmus_active reg cfg t"

definition is_granite_active :: "registry \<Rightarrow> rollup_config \<Rightarrow> u64 \<Rightarrow> bool" where
  "is_granite_active reg cfg t \<longleftrightarrow> fork_active reg cfg Granite t \<or> is_holocene_active reg cfg t"

definition is_fjord_active :: "registry \<Rightarrow> rollup_config \<Rightarrow> u64 \<Rightarrow> bool" where
  "is_fjord_active reg cfg t \<longleftrightarrow> fork_active reg cfg Fjord t \<or> is_granite_active reg cfg t"

definition is_ecotone_active :: "registry \<Rightarrow> rollup_config \<Rightarrow> u64 \<Rightarrow> bool" where
  "is_ecotone_active reg cfg t \<longleftrightarrow> fork_active reg cfg Ecotone t \<or> is_fjord_active reg cfg t"

definition is_delta_active :: "registry \<Rightarrow> rollup_config \<Rightarrow> u64 \<Rightarrow> bool" where
  "is_delta_active reg cfg t \<longleftrightarrow> fork_active reg cfg Delta t \<or> is_ecotone_active reg cfg t"

definition is_canyon_active :: "registry \<Rightarrow> rollup_config \<Rightarrow> u64 \<Rightarrow> bool" where
  "is_canyon_active reg cfg t \<longleftrightarrow> fork_active reg cfg Canyon t \<or> is_delta_active reg cfg t"

definition is_regolith_active :: "registry \<Rightarrow> rollup_config \<Rightarrow> u64 \<Rightarrow> bool" where
  "is_regolith_active reg cfg t \<longleftrightarrow> fork_active reg cfg Regolith t \<or> is_canyon_active reg cfg t"

definition is_pectra_blob_schedule_active :: "registry \<Rightarrow> rollup_config \<Rightarrow> u64 \<Rightarrow> bool" where
  "is_pectra_blob_schedule_active reg cfg t \<longleftrightarrow> fork_active reg cfg PectraBlobSchedule t"

definition is_base_azul_active :: "registry \<Rightarrow> rollup_config \<Rightarrow> u64 \<Rightarrow> bool" where
  "is_base_azul_active reg cfg t \<longleftrightarrow> fork_active reg cfg Azul t"

definition is_beryl_active :: "registry \<Rightarrow> rollup_config \<Rightarrow> u64 \<Rightarrow> bool" where
  "is_beryl_active reg cfg t \<longleftrightarrow> fork_active reg cfg Beryl t"

definition is_cobalt_active :: "registry \<Rightarrow> rollup_config \<Rightarrow> u64 \<Rightarrow> bool" where
  "is_cobalt_active reg cfg t \<longleftrightarrow> fork_active reg cfg Cobalt t"

definition is_denim_active :: "registry \<Rightarrow> rollup_config \<Rightarrow> u64 \<Rightarrow> bool" where
  "is_denim_active reg cfg t \<longleftrightarrow> fork_active reg cfg Denim t"

definition is_everest_active :: "registry \<Rightarrow> rollup_config \<Rightarrow> u64 \<Rightarrow> bool" where
  "is_everest_active reg cfg t \<longleftrightarrow> fork_active reg cfg Everest t"

definition is_zenith_active :: "registry \<Rightarrow> rollup_config \<Rightarrow> u64 \<Rightarrow> bool" where
  "is_zenith_active reg cfg t \<longleftrightarrow> fork_active reg cfg Zenith t"

definition is_first_regolith_block :: "registry \<Rightarrow> rollup_config \<Rightarrow> u64 \<Rightarrow> u64 \<Rightarrow> bool" where
  "is_first_regolith_block reg cfg t parent_t \<longleftrightarrow>
     is_regolith_active reg cfg t \<and> \<not> is_regolith_active reg cfg parent_t"

definition is_first_canyon_block :: "registry \<Rightarrow> rollup_config \<Rightarrow> u64 \<Rightarrow> u64 \<Rightarrow> bool" where
  "is_first_canyon_block reg cfg t parent_t \<longleftrightarrow>
     is_canyon_active reg cfg t \<and> \<not> is_canyon_active reg cfg parent_t"

definition is_first_delta_block :: "registry \<Rightarrow> rollup_config \<Rightarrow> u64 \<Rightarrow> u64 \<Rightarrow> bool" where
  "is_first_delta_block reg cfg t parent_t \<longleftrightarrow>
     is_delta_active reg cfg t \<and> \<not> is_delta_active reg cfg parent_t"

definition is_first_ecotone_block :: "registry \<Rightarrow> rollup_config \<Rightarrow> u64 \<Rightarrow> u64 \<Rightarrow> bool" where
  "is_first_ecotone_block reg cfg t parent_t \<longleftrightarrow>
     is_ecotone_active reg cfg t \<and> \<not> is_ecotone_active reg cfg parent_t"

definition is_first_fjord_block :: "registry \<Rightarrow> rollup_config \<Rightarrow> u64 \<Rightarrow> u64 \<Rightarrow> bool" where
  "is_first_fjord_block reg cfg t parent_t \<longleftrightarrow>
     is_fjord_active reg cfg t \<and> \<not> is_fjord_active reg cfg parent_t"

definition is_first_granite_block :: "registry \<Rightarrow> rollup_config \<Rightarrow> u64 \<Rightarrow> u64 \<Rightarrow> bool" where
  "is_first_granite_block reg cfg t parent_t \<longleftrightarrow>
     is_granite_active reg cfg t \<and> \<not> is_granite_active reg cfg parent_t"

definition is_first_holocene_block :: "registry \<Rightarrow> rollup_config \<Rightarrow> u64 \<Rightarrow> u64 \<Rightarrow> bool" where
  "is_first_holocene_block reg cfg t parent_t \<longleftrightarrow>
     is_holocene_active reg cfg t \<and> \<not> is_holocene_active reg cfg parent_t"

definition is_first_pectra_blob_schedule_block :: "registry \<Rightarrow> rollup_config \<Rightarrow> u64 \<Rightarrow> u64 \<Rightarrow> bool" where
  "is_first_pectra_blob_schedule_block reg cfg t parent_t \<longleftrightarrow>
     is_pectra_blob_schedule_active reg cfg t \<and> \<not> is_pectra_blob_schedule_active reg cfg parent_t"

definition is_first_isthmus_block :: "registry \<Rightarrow> rollup_config \<Rightarrow> u64 \<Rightarrow> u64 \<Rightarrow> bool" where
  "is_first_isthmus_block reg cfg t parent_t \<longleftrightarrow>
     is_isthmus_active reg cfg t \<and> \<not> is_isthmus_active reg cfg parent_t"

definition is_first_jovian_block :: "registry \<Rightarrow> rollup_config \<Rightarrow> u64 \<Rightarrow> u64 \<Rightarrow> bool" where
  "is_first_jovian_block reg cfg t parent_t \<longleftrightarrow>
     is_jovian_active reg cfg t \<and> \<not> is_jovian_active reg cfg parent_t"

definition is_first_base_azul_block :: "registry \<Rightarrow> rollup_config \<Rightarrow> u64 \<Rightarrow> u64 \<Rightarrow> bool" where
  "is_first_base_azul_block reg cfg t parent_t \<longleftrightarrow>
     is_base_azul_active reg cfg t \<and> \<not> is_base_azul_active reg cfg parent_t"

definition is_first_beryl_block :: "registry \<Rightarrow> rollup_config \<Rightarrow> u64 \<Rightarrow> u64 \<Rightarrow> bool" where
  "is_first_beryl_block reg cfg t parent_t \<longleftrightarrow>
     is_beryl_active reg cfg t \<and> \<not> is_beryl_active reg cfg parent_t"

definition is_first_cobalt_block :: "registry \<Rightarrow> rollup_config \<Rightarrow> u64 \<Rightarrow> u64 \<Rightarrow> bool" where
  "is_first_cobalt_block reg cfg t parent_t \<longleftrightarrow>
     is_cobalt_active reg cfg t \<and> \<not> is_cobalt_active reg cfg parent_t"

definition is_first_denim_block :: "registry \<Rightarrow> rollup_config \<Rightarrow> u64 \<Rightarrow> u64 \<Rightarrow> bool" where
  "is_first_denim_block reg cfg t parent_t \<longleftrightarrow>
     is_denim_active reg cfg t \<and> \<not> is_denim_active reg cfg parent_t"

definition is_first_everest_block :: "registry \<Rightarrow> rollup_config \<Rightarrow> u64 \<Rightarrow> u64 \<Rightarrow> bool" where
  "is_first_everest_block reg cfg t parent_t \<longleftrightarrow>
     is_everest_active reg cfg t \<and> \<not> is_everest_active reg cfg parent_t"

definition is_first_zenith_block :: "registry \<Rightarrow> rollup_config \<Rightarrow> u64 \<Rightarrow> u64 \<Rightarrow> bool" where
  "is_first_zenith_block reg cfg t parent_t \<longleftrightarrow>
     is_zenith_active reg cfg t \<and> \<not> is_zenith_active reg cfg parent_t"

section \<open>Derived parameters\<close>

definition max_sequencer_drift :: "registry \<Rightarrow> rollup_config \<Rightarrow> u64 \<Rightarrow> u64" where
  "max_sequencer_drift reg cfg t =
     (if is_denim_active reg cfg t then DENIM_MAX_SEQUENCER_DRIFT
      else if is_fjord_active reg cfg t then FJORD_MAX_SEQUENCER_DRIFT
      else rc_max_sequencer_drift cfg)"

definition max_rlp_bytes_per_channel :: "registry \<Rightarrow> rollup_config \<Rightarrow> u64 \<Rightarrow> u64" where
  "max_rlp_bytes_per_channel reg cfg t =
     (if is_fjord_active reg cfg t then MAX_RLP_BYTES_PER_CHANNEL_FJORD
      else MAX_RLP_BYTES_PER_CHANNEL_BEDROCK)"

definition channel_timeout :: "registry \<Rightarrow> rollup_config \<Rightarrow> u64 \<Rightarrow> u64" where
  "channel_timeout reg cfg t =
     (if is_granite_active reg cfg t then rc_granite_channel_timeout cfg else rc_channel_timeout cfg)"

definition denim_timestamp_schedule :: "registry \<Rightarrow> rollup_config \<Rightarrow> denim_schedule option" where
  "denim_timestamp_schedule reg cfg =
     (if rc_block_time cfg = 0 then None
      else case upgrade_activation_timestamp reg cfg Denim of
        None \<Rightarrow> None
      | Some d \<Rightarrow> Some \<lparr>ds_genesis_block_number = bnh_number (gen_l2 (rc_genesis cfg)),
                        ds_genesis_timestamp = gen_l2_time (rc_genesis cfg),
                        ds_legacy_block_interval = rc_block_time cfg,
                        ds_denim_activation_timestamp = d\<rparr>)"

definition denim_activation_block_number :: "registry \<Rightarrow> rollup_config \<Rightarrow> u64 option" where
  "denim_activation_block_number reg cfg =
     map_option ds_denim_activation_block_number (denim_timestamp_schedule reg cfg)"

definition zenith_activation_block_number :: "registry \<Rightarrow> rollup_config \<Rightarrow> u64 option" where
  "zenith_activation_block_number reg cfg =
     (case upgrade_activation_timestamp reg cfg Zenith of
        None \<Rightarrow> None
      | Some z \<Rightarrow>
          if rc_block_time cfg = 0 then None
          else Some (div_ceil (sat_sub z (gen_l2_time (rc_genesis cfg))) (rc_block_time cfg)))"

definition l2_block_timestamp_millis :: "registry \<Rightarrow> rollup_config \<Rightarrow> u64 \<Rightarrow> u64" where
  "l2_block_timestamp_millis reg cfg block_number =
     (case denim_timestamp_schedule reg cfg of
        Some s \<Rightarrow> block_timestamp_millis s block_number
      | None \<Rightarrow>
          sat_mul (sat_add (gen_l2_time (rc_genesis cfg))
            (sat_mul (sat_sub block_number (bnh_number (gen_l2 (rc_genesis cfg)))) (rc_block_time cfg)))
            1000)"

definition l2_block_timestamp :: "registry \<Rightarrow> rollup_config \<Rightarrow> u64 \<Rightarrow> u64" where
  "l2_block_timestamp reg cfg block_number = l2_block_timestamp_millis reg cfg block_number div 1000"

definition l2_block_timestamp_parts :: "registry \<Rightarrow> rollup_config \<Rightarrow> u64 \<Rightarrow> u64 \<times> u16" where
  "l2_block_timestamp_parts reg cfg block_number =
     (let full_millis = l2_block_timestamp_millis reg cfg block_number
      in (full_millis div 1000, ucast (full_millis mod 1000)))"

text \<open>The division panics when the block time is zero: \<open>None\<close>.\<close>

definition block_number_lower_bound_from_timestamp :: "rollup_config \<Rightarrow> u64 \<Rightarrow> u64 option" where
  "block_number_lower_bound_from_timestamp cfg t =
     (if rc_block_time cfg = 0 then None
      else Some (sat_sub t (gen_l2_time (rc_genesis cfg)) div rc_block_time cfg))"

definition check_ecotone_l1_system_config_scalar :: "bytes \<Rightarrow> string + unit" where
  "check_ecotone_l1_system_config_scalar scalar =
     (if scalar ! 0 = 0 then
        (if slice 1 28 scalar \<noteq> replicate 27 0 then Inl ''Bedrock scalar padding not empty''
         else Inr ())
      else if scalar ! 0 = 1 then
        (if slice 1 24 scalar \<noteq> replicate 23 0 then Inl ''Invalid version 1 scalar padding''
         else Inr ())
      else Inl ''Unrecognized scalar version'')"

section \<open>Ideal timestamps\<close>

text \<open>
  The timestamps without saturation, over the natural numbers, by the offset of a block
  from genesis.
\<close>

definition schedule_wf :: "denim_schedule \<Rightarrow> bool" where
  "schedule_wf s \<longleftrightarrow> ds_legacy_block_interval s \<noteq> 0"

definition ideal_millis :: "denim_schedule \<Rightarrow> nat \<Rightarrow> nat" where
  "ideal_millis s k =
     (let g = unat (ds_genesis_timestamp s); bt = unat (ds_legacy_block_interval s);
          a = unat (ds_denim_activation_block_number s)
      in if k < a then (g + k * bt) * 1000 else (g + a * bt) * 1000 + (k - a) * 200)"

definition block_offset :: "denim_schedule \<Rightarrow> u64 \<Rightarrow> nat" where
  "block_offset s n = unat n - unat (ds_genesis_block_number s)"

section \<open>Lemmas\<close>

lemma unat_legacy_millis:
  "unat (sat_mul (sat_add g (sat_mul k b)) 1000 :: u64) =
     min ((unat g + unat k * unat b) * 1000) (2 ^ 64 - 1)"
  by (auto simp: to_nat min_def)

lemma unat_denim_millis:
  "unat (sat_add x (sat_mul (sat_sub k a) 200) :: u64) =
     min (unat x + (unat k - unat a) * 200) (2 ^ 64 - 1)"
  by (simp add: to_nat min_def)

lemma min_add_min: "min (min x m + y) m = min (x + y) m" for x y m :: nat
  by (simp add: min_def)

lemma unat_block_timestamp_millis:
  "unat (block_timestamp_millis s n) = min (ideal_millis s (block_offset s n)) (2 ^ 64 - 1)"
proof -
  have off: "unat (sat_sub n (ds_genesis_block_number s)) = block_offset s n"
    by (simp add: unat_sat_sub block_offset_def)
  show ?thesis
    unfolding block_timestamp_millis_def Let_def ideal_millis_def DENIM_BLOCK_INTERVAL_MILLIS_def
    by (simp only: if_distrib [of unat] unat_legacy_millis unat_denim_millis off word_less_nat_alt
        min_add_min if_distrib [of "\<lambda>x. min x _"])
qed

lemma ideal_millis_Suc:
  "ideal_millis s (Suc k) = ideal_millis s k +
     (if unat (ds_denim_activation_block_number s) \<le> k then 200
      else unat (ds_legacy_block_interval s) * 1000)"
proof -
  define a where "a = unat (ds_denim_activation_block_number s)"
  consider "Suc k < a" | "Suc k = a" | "a \<le> k" by linarith
  then show ?thesis
    by cases (auto simp: ideal_millis_def Let_def algebra_simps Suc_diff_le simp flip: a_def)
qed

lemma ideal_millis_mono: "j \<le> k \<Longrightarrow> ideal_millis s j \<le> ideal_millis s k"
  by (rule lift_Suc_mono_le) (simp_all add: ideal_millis_Suc)

lemma block_timestamp_millis_mono:
  assumes "n \<le> m" shows "block_timestamp_millis s n \<le> block_timestamp_millis s m"
proof -
  have "block_offset s n \<le> block_offset s m"
    using assms by (simp add: block_offset_def word_le_nat_alt diff_le_mono)
  from ideal_millis_mono [OF this, of s] show ?thesis
    unfolding word_le_nat_alt unat_block_timestamp_millis by (rule min.mono) simp
qed

lemma activation_block_iff:
  assumes "schedule_wf s"
  shows "unat (ds_denim_activation_block_number s) \<le> k \<longleftrightarrow>
    unat (ds_denim_activation_timestamp s) \<le> unat (ds_genesis_timestamp s) + k * unat (ds_legacy_block_interval s)"
  using assms
  by (auto simp: ds_denim_activation_block_number_def schedule_wf_def unat_div_ceil_le_iff unat_sat_sub)

lemma is_denim_active_at_block_iff:
  "is_denim_active_at_block s n \<longleftrightarrow> unat (ds_denim_activation_block_number s) \<le> block_offset s n"
  by (simp add: is_denim_active_at_block_def word_le_nat_alt unat_sat_sub block_offset_def)

lemma ideal_seconds_denim:
  assumes "schedule_wf s"
  shows "unat (ds_denim_activation_timestamp s) \<le> ideal_millis s k div 1000 \<longleftrightarrow>
    unat (ds_denim_activation_block_number s) \<le> k"
proof (cases "unat (ds_denim_activation_block_number s) \<le> k")
  case True
  let ?a = "unat (ds_denim_activation_block_number s)"
  let ?s = "unat (ds_genesis_timestamp s) + ?a * unat (ds_legacy_block_interval s)"
  have "unat (ds_denim_activation_timestamp s) \<le> ?s"
    using activation_block_iff [OF assms, of ?a] by simp
  also have "?s = ?s * 1000 div 1000" by simp
  also have "\<dots> \<le> ideal_millis s k div 1000"
    using True by (intro div_le_mono) (simp add: ideal_millis_def Let_def)
  finally show ?thesis using True by simp
next
  case False
  then have "ideal_millis s k div 1000 = unat (ds_genesis_timestamp s) + k * unat (ds_legacy_block_interval s)"
    by (simp add: ideal_millis_def Let_def)
  then show ?thesis using activation_block_iff [OF assms, of k] False by simp
qed

lemma upgrade_timestamp_materialised:
  "u \<noteq> Bedrock \<Longrightarrow> upgrade_activation_timestamp reg cfg u =
     upgrade_activation_timestamp Map.empty (with_runtime_upgrade_overrides reg cfg) u"
  by (auto simp: upgrade_activation_timestamp_def cfg_upgrade_activation_def registry_activation_def
      overrides_activation_def
      with_runtime_upgrade_overrides_def apply_runtime_upgrade_overrides_def registry_overrides_def
      activation_def slot_apply split: option.splits)

lemma with_runtime_simps [simp]:
  "rc_genesis (with_runtime_upgrade_overrides reg cfg) = rc_genesis cfg"
  "rc_block_time (with_runtime_upgrade_overrides reg cfg) = rc_block_time cfg"
  "rc_l2_chain_id (with_runtime_upgrade_overrides reg cfg) = rc_l2_chain_id cfg"
  "rc_max_sequencer_drift (with_runtime_upgrade_overrides reg cfg) = rc_max_sequencer_drift cfg"
  "rc_channel_timeout (with_runtime_upgrade_overrides reg cfg) = rc_channel_timeout cfg"
  "rc_granite_channel_timeout (with_runtime_upgrade_overrides reg cfg) = rc_granite_channel_timeout cfg"
  by (simp_all add: with_runtime_upgrade_overrides_def apply_runtime_upgrade_overrides_def split: option.split)

lemma fork_active_materialised:
  "u \<noteq> Bedrock \<Longrightarrow> fork_active reg cfg u t =
     fork_active Map.empty (with_runtime_upgrade_overrides reg cfg) u t"
  by (simp add: fork_active_def upgrade_timestamp_materialised [of u reg cfg])

lemma denim_schedule_materialised:
  "denim_timestamp_schedule reg cfg =
     denim_timestamp_schedule Map.empty (with_runtime_upgrade_overrides reg cfg)"
  using upgrade_timestamp_materialised [of Denim reg cfg] by (simp add: denim_timestamp_schedule_def split: option.split)

lemma bedrock_not_materialised:
  "upgrade_activation_timestamp Map.empty (with_runtime_upgrade_overrides reg cfg) Bedrock =
     upgrade_activation_timestamp Map.empty cfg Bedrock"
  by (simp add: upgrade_activation_timestamp_def cfg_upgrade_activation_def registry_activation_def activation_def)

lemmas fork_defs = is_fjord_active_def is_granite_active_def is_holocene_active_def
  is_isthmus_active_def is_jovian_active_def is_denim_active_def

lemmas fork_queries = fork_defs is_regolith_active_def is_canyon_active_def is_delta_active_def is_ecotone_active_def
  is_pectra_blob_schedule_active_def is_base_azul_active_def is_beryl_active_def is_cobalt_active_def
  is_everest_active_def is_zenith_active_def

section \<open>Properties\<close>

text \<open>
  C25. The runtime view of a configuration equals the configuration with the overrides
  written into it: the activation time of every upgrade but Bedrock, each of the sixteen
  fork queries, and the block timestamps, channel timeouts, sequencer drift and channel size
  limits computed through the registry are those of the materialised configuration read
  without any registry. For Bedrock, which has no fork query, the materialised configuration
  has the time of the configuration itself, so an override of it is not carried over.
\<close>
theorem runtime_view_materialised:
  fixes reg :: registry and cfg :: rollup_config
  defines "m \<equiv> with_runtime_upgrade_overrides reg cfg"
  shows "(\<forall>u. upgrade_activation_timestamp Map.empty m u =
      (if u = Bedrock then upgrade_activation_timestamp Map.empty cfg u else upgrade_activation_timestamp reg cfg u)) \<and>
    (\<forall>is_active \<in> {is_regolith_active, is_canyon_active, is_delta_active, is_ecotone_active, is_fjord_active,
        is_granite_active, is_holocene_active, is_pectra_blob_schedule_active, is_isthmus_active, is_jovian_active,
        is_base_azul_active, is_beryl_active, is_cobalt_active, is_denim_active, is_everest_active, is_zenith_active}.
      is_active Map.empty m t = is_active reg cfg t) \<and>
    l2_block_timestamp_millis Map.empty m n = l2_block_timestamp_millis reg cfg n \<and>
    channel_timeout Map.empty m t = channel_timeout reg cfg t \<and>
    max_sequencer_drift Map.empty m t = max_sequencer_drift reg cfg t \<and>
    max_rlp_bytes_per_channel Map.empty m t = max_rlp_bytes_per_channel reg cfg t"
proof -
  have fork: "fork_active Map.empty m u t = fork_active reg cfg u t" if "u \<noteq> Bedrock" for u
    using fork_active_materialised [OF that, of reg cfg t] by (simp add: m_def)
  have "upgrade_activation_timestamp Map.empty m Bedrock = upgrade_activation_timestamp Map.empty cfg Bedrock"
    by (simp add: m_def bedrock_not_materialised)
  moreover have "upgrade_activation_timestamp Map.empty m u = upgrade_activation_timestamp reg cfg u" if "u \<noteq> Bedrock" for u
    using upgrade_timestamp_materialised [OF that, of reg cfg] by (simp add: m_def)
  moreover have "l2_block_timestamp_millis Map.empty m n = l2_block_timestamp_millis reg cfg n"
    using denim_schedule_materialised [of reg cfg]
    by (simp add: l2_block_timestamp_millis_def m_def split: option.split)
  ultimately show ?thesis
    by (simp add: fork_queries fork channel_timeout_def max_sequencer_drift_def max_rlp_bytes_per_channel_def)
      (simp add: m_def)
qed

theorem runtime_view_materialised_witness:
  fixes reg cfg m
  defines "reg \<equiv> [1 \<mapsto> \<lparr>re_overrides = [Canyon \<mapsto> Timestamp 5, Fjord \<mapsto> Never], re_last_updated = None\<rparr>]"
    and "cfg \<equiv> rollup_config_default\<lparr>rc_l2_chain_id := 1, rc_upgrades := upgrade_config_default\<lparr>uc_fjord_time := Some 0\<rparr>\<rparr>"
    and "m \<equiv> with_runtime_upgrade_overrides reg cfg"
  shows "is_canyon_active Map.empty m 7 \<and> \<not> is_canyon_active Map.empty m 4 \<and> \<not> is_fjord_active Map.empty m 7 \<and>
    is_fjord_active Map.empty cfg 7"
proof -
  have "fork_active reg cfg u t = (u = Canyon \<and> 5 \<le> t)" for u t
    by (cases u) (simp_all add: fork_active_def upgrade_activation_timestamp_def cfg_upgrade_activation_def
        registry_activation_def overrides_activation_def activation_def reg_def cfg_def rollup_config_default_def
        upgrade_config_default_def base_upgrade_config_default_def)
  then have "is_canyon_active reg cfg 7" "\<not> is_canyon_active reg cfg 4" "\<not> is_fjord_active reg cfg 7"
    by (simp_all add: fork_queries)
  moreover have "is_fjord_active Map.empty cfg 7"
    by (simp add: is_fjord_active_def fork_active_def upgrade_activation_timestamp_def cfg_upgrade_activation_def
        registry_activation_def activation_def cfg_def upgrade_config_default_def)
  ultimately show ?thesis
    using runtime_view_materialised [of reg cfg 7 0] runtime_view_materialised [of reg cfg 4 0]
    by (simp add: m_def)
qed

text \<open>
  C21. Block cadence: as long as the timestamp does not saturate, the block after block
  \<open>n\<close> comes 200 milliseconds later when \<open>n\<close> is in the Denim schedule and one legacy
  interval later before it, with no gap at the transition.
\<close>
theorem denim_cadence:
  assumes "ds_genesis_block_number s \<le> n" "n \<noteq> - 1"
    "ideal_millis s (block_offset s (n + 1)) < 2 ^ 64"
  shows "unat (block_timestamp_millis s (n + 1)) =
    unat (block_timestamp_millis s n) +
    (if is_denim_active_at_block s n then 200 else unat (ds_legacy_block_interval s) * 1000)"
proof -
  have "unat (n + 1) = Suc (unat n)"
    using assms(2) by (metis add.commute eq_neg_iff_add_eq_0 unatSuc)
  then have off: "block_offset s (n + 1) = Suc (block_offset s n)"
    using assms(1) by (simp add: block_offset_def word_le_nat_alt Suc_diff_le)
  then have "ideal_millis s (block_offset s n) < 2 ^ 64"
    using assms(3) ideal_millis_mono [of "block_offset s n" "Suc (block_offset s n)" s] by simp
  then show ?thesis
    using assms(3) off
    by (simp add: unat_block_timestamp_millis is_denim_active_at_block_iff ideal_millis_Suc min_def)
qed

theorem denim_cadence_witness:
  fixes s
  defines "s \<equiv> \<lparr>ds_genesis_block_number = 10, ds_genesis_timestamp = 100,
    ds_legacy_block_interval = 2, ds_denim_activation_timestamp = 103\<rparr>"
  shows "unat (block_timestamp_millis s 12) = 104000 \<and>
    unat (block_timestamp_millis s (12 + 1)) = unat (block_timestamp_millis s 12) + 200"
proof -
  have a: "ds_denim_activation_block_number s = 2"
    by (simp add: s_def ds_denim_activation_block_number_def div_ceil_def sat_sub_def)
  have "is_denim_active_at_block s 12"
    by (simp add: is_denim_active_at_block_def a) (simp add: s_def sat_sub_def)
  moreover have "unat (block_timestamp_millis s (12 + 1)) = unat (block_timestamp_millis s 12) +
    (if is_denim_active_at_block s 12 then 200 else unat (ds_legacy_block_interval s) * 1000)"
    by (rule denim_cadence) (simp_all add: block_offset_def ideal_millis_def Let_def a, simp_all add: s_def)
  moreover have "unat (block_timestamp_millis s 12) = 104000"
    by (simp add: unat_block_timestamp_millis block_offset_def ideal_millis_def Let_def a) (simp add: s_def)
  ultimately show ?thesis by simp
qed

text \<open>
  Fork predicate by timestamp and by block number agree: absent saturation, Denim is
  active at the timestamp the configuration gives a block exactly when the block is in the
  Denim part of the schedule, although activation is rounded up to a legacy slot.
\<close>
theorem denim_active_by_block:
  assumes "denim_timestamp_schedule reg cfg = Some s"
    "ideal_millis s (block_offset s n) < 2 ^ 64"
  shows "is_denim_active reg cfg (l2_block_timestamp reg cfg n) \<longleftrightarrow> is_denim_active_at_block s n"
proof -
  have wf: "schedule_wf s" and d: "upgrade_activation_timestamp reg cfg Denim = Some (ds_denim_activation_timestamp s)"
    using assms(1) by (auto simp: denim_timestamp_schedule_def schedule_wf_def split: if_splits option.splits)
  have "unat (l2_block_timestamp reg cfg n) = ideal_millis s (block_offset s n) div 1000"
    using assms by (simp add: l2_block_timestamp_def l2_block_timestamp_millis_def unat_div_distrib
        unat_block_timestamp_millis)
  then show ?thesis
    using ideal_seconds_denim [OF wf]
    by (simp add: is_denim_active_def fork_active_def d word_le_nat_alt is_denim_active_at_block_iff)
qed

theorem denim_active_by_block_witness:
  fixes cfg s
  defines "cfg \<equiv> rollup_config_default\<lparr>rc_block_time := 2,
      rc_upgrades := set_activation_timestamp Denim 103 upgrade_config_default\<rparr>"
    and "s \<equiv> \<lparr>ds_genesis_block_number = 0, ds_genesis_timestamp = 0,
      ds_legacy_block_interval = 2, ds_denim_activation_timestamp = 103\<rparr>"
  shows "denim_timestamp_schedule Map.empty cfg = Some s \<and>
    is_denim_active Map.empty cfg (l2_block_timestamp Map.empty cfg 52) = is_denim_active_at_block s 52 \<and>
    is_denim_active_at_block s 52"
proof -
  have s: "denim_timestamp_schedule Map.empty cfg = Some s"
    by (simp add: cfg_def s_def denim_timestamp_schedule_def rollup_config_default_def
        upgrade_activation_timestamp_def cfg_upgrade_activation_def registry_activation_def activation_def
        upgrade_config_default_def base_upgrade_config_default_def chain_genesis_default_def)
  have a: "ds_denim_activation_block_number s = 52"
    by (simp add: s_def ds_denim_activation_block_number_def div_ceil_def sat_sub_def)
  have "ideal_millis s (block_offset s 52) < 2 ^ 64"
    by (simp add: block_offset_def ideal_millis_def Let_def a) (simp add: s_def)
  then show ?thesis
    using s denim_active_by_block [OF s]
    by (simp add: is_denim_active_at_block_def a sat_sub_def) (simp add: s_def)
qed

end
