(* ===== verification/L1_Info.thy ===== *)
theory L1_Info
  imports Rollup_Config
begin

text \<open>
  The L1 block info transaction that opens every L2 block
  (\<open>src/crates/common/consensus/src/info/\<close>): its four formats (Bedrock, Ecotone, Isthmus,
  Jovian), their calldata codecs, the choice of the format for a new block, and
  \<open>L2BlockInfo::from_block_and_genesis\<close> (\<open>src/crates/consensus/protocol/src/block.rs\<close>), which
  reads it back. Header hashing, the blob parameters of the L1 chain and the blob fee
  formula are third-party code and arguments of the definitions. The lemmas show that the
  decoder inverts the encoder on everything the node builds.
\<close>

section \<open>Formats\<close>

type_synonym u128 = "128 word"
type_synonym u256 = "256 word"

datatype decode_error =
    MissingSelector
  | InvalidSelector
  | InvalidBedrockLength nat nat
  | InvalidEcotoneLength nat nat
  | InvalidIsthmusLength nat nat
  | InvalidJovianLength nat nat

datatype block_info_error =
    L1BlobBaseFeeScalar | BaseFeeScalar | Eip1559Denominator | Eip1559Elasticity
  | OperatorFeeScalar | OperatorFeeConstant

record bedrock_base =
  bb_number :: u64
  bb_time :: u64
  bb_base_fee :: u64
  bb_block_hash :: hash32
  bb_sequence_number :: u64
  bb_batcher_address :: address

record info_bedrock =
  ib_base :: bedrock_base
  ib_l1_fee_overhead :: u256
  ib_l1_fee_scalar :: u256

record ecotone_base =
  eb_base :: bedrock_base
  eb_blob_base_fee :: u128
  eb_blob_base_fee_scalar :: u32
  eb_base_fee_scalar :: u32

record info_ecotone =
  ie_base :: ecotone_base
  ie_empty_scalars :: bool
  ie_l1_fee_overhead :: u256

record info_isthmus =
  ii_base :: ecotone_base
  ii_operator_fee_scalar :: u32
  ii_operator_fee_constant :: u64

record info_jovian =
  ij_base :: info_isthmus
  ij_da_footprint_gas_scalar :: u16

datatype l1_block_info_tx =
    InfoBedrock info_bedrock
  | InfoEcotone info_ecotone
  | InfoIsthmus info_isthmus
  | InfoJovian info_jovian

definition BEDROCK_TX_LEN :: nat where
  "BEDROCK_TX_LEN = 4 + 32 * 8"

definition BEDROCK_SELECTOR :: bytes where
  "BEDROCK_SELECTOR = [0x01, 0x5d, 0x8e, 0xb9]"

definition ECOTONE_TX_LEN :: nat where
  "ECOTONE_TX_LEN = 4 + 32 * 5"

definition ECOTONE_SELECTOR :: bytes where
  "ECOTONE_SELECTOR = [0x44, 0x0a, 0x5e, 0x20]"

definition ISTHMUS_TX_LEN :: nat where
  "ISTHMUS_TX_LEN = 4 + 32 * 5 + 4 + 8"

definition ISTHMUS_SELECTOR :: bytes where
  "ISTHMUS_SELECTOR = [0x09, 0x89, 0x99, 0xbe]"

definition JOVIAN_TX_LEN :: nat where
  "JOVIAN_TX_LEN = 4 + 32 * 5 + 4 + 8 + 2"

definition JOVIAN_SELECTOR :: bytes where
  "JOVIAN_SELECTOR = [0x3d, 0xb6, 0xbe, 0x2b]"

definition DEFAULT_DA_FOOTPRINT_GAS_SCALAR :: u16 where
  "DEFAULT_DA_FOOTPRINT_GAS_SCALAR = 400"

definition ECOTONE_L1_SCALAR :: u8 where
  "ECOTONE_L1_SCALAR = 1"

section \<open>Calldata codecs\<close>

text \<open>\<open>uN::from_be_bytes\<close> of a slice, and \<open>Address::into_word\<close>.\<close>

definition word_at :: "nat \<Rightarrow> nat \<Rightarrow> bytes \<Rightarrow> 'a::len word" where
  "word_at i j r = word_of_nat (from_be (slice i j r))"

definition into_word :: "address \<Rightarrow> bytes" where
  "into_word a = replicate 12 0 @ a"

definition bedrock_encode_calldata :: "info_bedrock \<Rightarrow> bytes" where
  "bedrock_encode_calldata x =
     (let b = ib_base x in
      BEDROCK_SELECTOR @ to_be 32 (unat (bb_number b)) @ to_be 32 (unat (bb_time b))
        @ to_be 32 (unat (bb_base_fee b)) @ bb_block_hash b
        @ to_be 32 (unat (bb_sequence_number b)) @ into_word (bb_batcher_address b)
        @ to_be 32 (unat (ib_l1_fee_overhead x)) @ to_be 32 (unat (ib_l1_fee_scalar x)))"

definition bedrock_decode_calldata :: "bytes \<Rightarrow> decode_error + info_bedrock" where
  "bedrock_decode_calldata r =
     (if length r \<noteq> BEDROCK_TX_LEN then Inl (InvalidBedrockLength BEDROCK_TX_LEN (length r))
      else Inr \<lparr>ib_base = \<lparr>bb_number = word_at 28 36 r, bb_time = word_at 60 68 r,
                          bb_base_fee = word_at 92 100 r, bb_block_hash = slice 100 132 r,
                          bb_sequence_number = word_at 156 164 r,
                          bb_batcher_address = slice 176 196 r\<rparr>,
                ib_l1_fee_overhead = word_at 196 228 r,
                ib_l1_fee_scalar = word_at 228 260 r\<rparr>)"

definition ecotone_base_encode :: "ecotone_base \<Rightarrow> bytes" where
  "ecotone_base_encode x =
     (let b = eb_base x in
      to_be 4 (unat (eb_base_fee_scalar x)) @ to_be 4 (unat (eb_blob_base_fee_scalar x))
        @ to_be 8 (unat (bb_sequence_number b)) @ to_be 8 (unat (bb_time b))
        @ to_be 8 (unat (bb_number b)) @ to_be 32 (unat (bb_base_fee b))
        @ to_be 32 (unat (eb_blob_base_fee x)) @ bb_block_hash b
        @ into_word (bb_batcher_address b))"

definition ecotone_base_decode :: "bytes \<Rightarrow> ecotone_base" where
  "ecotone_base_decode r =
     \<lparr>eb_base = \<lparr>bb_number = word_at 28 36 r, bb_time = word_at 20 28 r,
                 bb_base_fee = word_at 60 68 r, bb_block_hash = slice 100 132 r,
                 bb_sequence_number = word_at 12 20 r, bb_batcher_address = slice 144 164 r\<rparr>,
      eb_blob_base_fee = word_at 84 100 r,
      eb_blob_base_fee_scalar = word_at 8 12 r,
      eb_base_fee_scalar = word_at 4 8 r\<rparr>"

definition ecotone_encode_calldata :: "info_ecotone \<Rightarrow> bytes" where
  "ecotone_encode_calldata x = ECOTONE_SELECTOR @ ecotone_base_encode (ie_base x)"

definition ecotone_decode_calldata :: "bytes \<Rightarrow> decode_error + info_ecotone" where
  "ecotone_decode_calldata r =
     (if length r \<noteq> ECOTONE_TX_LEN then Inl (InvalidEcotoneLength ECOTONE_TX_LEN (length r))
      else Inr \<lparr>ie_base = ecotone_base_decode r, ie_empty_scalars = False, ie_l1_fee_overhead = 0\<rparr>)"

definition isthmus_encode_body :: "info_isthmus \<Rightarrow> bytes" where
  "isthmus_encode_body x =
     ecotone_base_encode (ii_base x) @ to_be 4 (unat (ii_operator_fee_scalar x))
       @ to_be 8 (unat (ii_operator_fee_constant x))"

definition isthmus_encode_calldata :: "info_isthmus \<Rightarrow> bytes" where
  "isthmus_encode_calldata x = ISTHMUS_SELECTOR @ isthmus_encode_body x"

definition isthmus_decode_body :: "bytes \<Rightarrow> decode_error + info_isthmus" where
  "isthmus_decode_body r =
     Inr \<lparr>ii_base = ecotone_base_decode r, ii_operator_fee_scalar = word_at 164 168 r,
          ii_operator_fee_constant = word_at 168 176 r\<rparr>"

definition isthmus_decode_calldata :: "bytes \<Rightarrow> decode_error + info_isthmus" where
  "isthmus_decode_calldata r =
     (if length r \<noteq> ISTHMUS_TX_LEN then Inl (InvalidIsthmusLength ISTHMUS_TX_LEN (length r))
      else isthmus_decode_body r)"

definition jovian_encode_calldata :: "info_jovian \<Rightarrow> bytes" where
  "jovian_encode_calldata x =
     JOVIAN_SELECTOR @ isthmus_encode_body (ij_base x)
       @ to_be 2 (unat (ij_da_footprint_gas_scalar x))"

definition jovian_decode_body :: "bytes \<Rightarrow> decode_error + info_jovian" where
  "jovian_decode_body r =
     and_then (isthmus_decode_body r) (\<lambda>base.
       let scalar = word_at 176 178 r;
           scalar = (if scalar = 0 then DEFAULT_DA_FOOTPRINT_GAS_SCALAR else scalar)
       in Inr \<lparr>ij_base = base, ij_da_footprint_gas_scalar = scalar\<rparr>)"

definition jovian_decode_calldata :: "bytes \<Rightarrow> decode_error + info_jovian" where
  "jovian_decode_calldata r =
     (if length r \<noteq> JOVIAN_TX_LEN then Inl (InvalidJovianLength JOVIAN_TX_LEN (length r))
      else jovian_decode_body r)"

fun encode_calldata :: "l1_block_info_tx \<Rightarrow> bytes" where
  "encode_calldata (InfoBedrock x) = bedrock_encode_calldata x"
| "encode_calldata (InfoEcotone x) = ecotone_encode_calldata x"
| "encode_calldata (InfoIsthmus x) = isthmus_encode_calldata x"
| "encode_calldata (InfoJovian x) = jovian_encode_calldata x"

definition decode_calldata :: "bytes \<Rightarrow> decode_error + l1_block_info_tx" where
  "decode_calldata r =
     (if length r < 4 then Inl MissingSelector
      else let selector = slice 0 4 r in
        if selector = BEDROCK_SELECTOR then
          and_then (bedrock_decode_calldata r) (Inr \<circ> InfoBedrock)
        else if selector = ECOTONE_SELECTOR then
          and_then (ecotone_decode_calldata r) (Inr \<circ> InfoEcotone)
        else if selector = ISTHMUS_SELECTOR then
          and_then (isthmus_decode_calldata r) (Inr \<circ> InfoIsthmus)
        else if selector = JOVIAN_SELECTOR then
          and_then (jovian_decode_calldata r) (Inr \<circ> InfoJovian)
        else Inl InvalidSelector)"

section \<open>Accessors\<close>

fun info_bedrock_base :: "l1_block_info_tx \<Rightarrow> bedrock_base" where
  "info_bedrock_base (InfoBedrock x) = ib_base x"
| "info_bedrock_base (InfoEcotone x) = eb_base (ie_base x)"
| "info_bedrock_base (InfoIsthmus x) = eb_base (ii_base x)"
| "info_bedrock_base (InfoJovian x) = eb_base (ii_base (ij_base x))"

definition info_id :: "l1_block_info_tx \<Rightarrow> block_num_hash" where
  "info_id x = \<lparr>bnh_number = bb_number (info_bedrock_base x),
                bnh_hash = bb_block_hash (info_bedrock_base x)\<rparr>"

definition info_sequence_number :: "l1_block_info_tx \<Rightarrow> u64" where
  "info_sequence_number x = bb_sequence_number (info_bedrock_base x)"

definition info_block_hash :: "l1_block_info_tx \<Rightarrow> hash32" where
  "info_block_hash x = bb_block_hash (info_bedrock_base x)"

definition info_batcher_address :: "l1_block_info_tx \<Rightarrow> address" where
  "info_batcher_address x = bb_batcher_address (info_bedrock_base x)"

definition info_time :: "l1_block_info_tx \<Rightarrow> u64" where
  "info_time x = bb_time (info_bedrock_base x)"

definition info_l1_base_fee :: "l1_block_info_tx \<Rightarrow> u256" where
  "info_l1_base_fee x = ucast (bb_base_fee (info_bedrock_base x))"

fun info_empty_scalars :: "l1_block_info_tx \<Rightarrow> bool" where
  "info_empty_scalars (InfoEcotone x) = ie_empty_scalars x"
| "info_empty_scalars _ = False"

fun info_operator_fee_scalar :: "l1_block_info_tx \<Rightarrow> u32" where
  "info_operator_fee_scalar (InfoJovian x) = ii_operator_fee_scalar (ij_base x)"
| "info_operator_fee_scalar (InfoIsthmus x) = ii_operator_fee_scalar x"
| "info_operator_fee_scalar _ = 0"

fun info_operator_fee_constant :: "l1_block_info_tx \<Rightarrow> u64" where
  "info_operator_fee_constant (InfoJovian x) = ii_operator_fee_constant (ij_base x)"
| "info_operator_fee_constant (InfoIsthmus x) = ii_operator_fee_constant x"
| "info_operator_fee_constant _ = 0"

fun info_da_footprint :: "l1_block_info_tx \<Rightarrow> u16 option" where
  "info_da_footprint (InfoJovian x) = Some (ij_da_footprint_gas_scalar x)"
| "info_da_footprint _ = None"

fun info_l1_fee_scalar :: "l1_block_info_tx \<Rightarrow> u256" where
  "info_l1_fee_scalar (InfoBedrock x) = ib_l1_fee_scalar x"
| "info_l1_fee_scalar (InfoEcotone x) = ucast (eb_base_fee_scalar (ie_base x))"
| "info_l1_fee_scalar (InfoIsthmus x) = ucast (eb_base_fee_scalar (ii_base x))"
| "info_l1_fee_scalar (InfoJovian x) = ucast (eb_base_fee_scalar (ii_base (ij_base x)))"

fun info_blob_base_fee :: "l1_block_info_tx \<Rightarrow> u256" where
  "info_blob_base_fee (InfoBedrock x) = 0"
| "info_blob_base_fee (InfoEcotone x) = ucast (eb_blob_base_fee (ie_base x))"
| "info_blob_base_fee (InfoIsthmus x) = ucast (eb_blob_base_fee (ii_base x))"
| "info_blob_base_fee (InfoJovian x) = ucast (eb_blob_base_fee (ii_base (ij_base x)))"

fun info_blob_base_fee_scalar :: "l1_block_info_tx \<Rightarrow> u256" where
  "info_blob_base_fee_scalar (InfoBedrock x) = 0"
| "info_blob_base_fee_scalar (InfoEcotone x) = ucast (eb_blob_base_fee_scalar (ie_base x))"
| "info_blob_base_fee_scalar (InfoIsthmus x) = ucast (eb_blob_base_fee_scalar (ii_base x))"
| "info_blob_base_fee_scalar (InfoJovian x) = ucast (eb_blob_base_fee_scalar (ii_base (ij_base x)))"

fun info_l1_fee_overhead :: "l1_block_info_tx \<Rightarrow> u256" where
  "info_l1_fee_overhead (InfoBedrock x) = ib_l1_fee_overhead x"
| "info_l1_fee_overhead (InfoEcotone x) = ie_l1_fee_overhead x"
| "info_l1_fee_overhead _ = 0"

definition eb_with_sequence_number :: "u64 \<Rightarrow> ecotone_base \<Rightarrow> ecotone_base" where
  "eb_with_sequence_number s x = x\<lparr>eb_base := (eb_base x)\<lparr>bb_sequence_number := s\<rparr>\<rparr>"

fun with_sequence_number :: "u64 \<Rightarrow> l1_block_info_tx \<Rightarrow> l1_block_info_tx" where
  "with_sequence_number s (InfoBedrock x) =
     InfoBedrock (x\<lparr>ib_base := (ib_base x)\<lparr>bb_sequence_number := s\<rparr>\<rparr>)"
| "with_sequence_number s (InfoEcotone x) =
     InfoEcotone (x\<lparr>ie_base := eb_with_sequence_number s (ie_base x)\<rparr>)"
| "with_sequence_number s (InfoIsthmus x) =
     InfoIsthmus (x\<lparr>ii_base := eb_with_sequence_number s (ii_base x)\<rparr>)"
| "with_sequence_number s (InfoJovian x) =
     InfoJovian (x\<lparr>ij_base := (ij_base x)\<lparr>ii_base := eb_with_sequence_number s (ii_base (ij_base x))\<rparr>\<rparr>)"

section \<open>Building the transaction\<close>

text \<open>
  The L1 side of \<open>try_new\<close>, third-party code: the header's fields and hash, the blob
  parameters the L1 configuration schedules for a timestamp, its Osaka and Prague times
  and the blob fee of the header under given parameters.
\<close>

record l1_header =
  lh_number :: u64
  lh_timestamp :: u64
  lh_base_fee_per_gas :: "u64 option"
  lh_hash :: hash32

record 'bp l1_chain_config =
  lc_scheduled_params :: "u64 \<Rightarrow> 'bp option"
  lc_osaka_time :: "u64 option"
  lc_prague_time :: "u64 option"
  lc_osaka :: 'bp
  lc_prague :: 'bp
  lc_cancun :: 'bp
  lc_blob_fee :: "l1_header \<Rightarrow> 'bp \<Rightarrow> u128 option"

definition time_reached :: "u64 option \<Rightarrow> u64 \<Rightarrow> bool" where
  "time_reached t now = (case t of None \<Rightarrow> False | Some t \<Rightarrow> t \<le> now)"

definition blob_fee_config ::
    "registry \<Rightarrow> rollup_config \<Rightarrow> 'bp l1_chain_config \<Rightarrow> u64 \<Rightarrow> 'bp" where
  "blob_fee_config reg cfg l1_config t =
     (case lc_scheduled_params l1_config t of
        Some p \<Rightarrow> p
      | None \<Rightarrow>
          if time_reached (lc_osaka_time l1_config) t then lc_osaka l1_config
          else if time_reached (lc_prague_time l1_config) t \<and>
               (upgrade_activation_timestamp reg cfg PectraBlobSchedule = None \<or>
                is_pectra_blob_schedule_active reg cfg t)
          then lc_prague l1_config
          else lc_cancun l1_config)"

definition try_new ::
    "registry \<Rightarrow> rollup_config \<Rightarrow> 'bp l1_chain_config \<Rightarrow> system_config \<Rightarrow> u64 \<Rightarrow> l1_header
     \<Rightarrow> u64 \<Rightarrow> u64 \<Rightarrow> block_info_error + l1_block_info_tx" where
  "try_new reg cfg l1_config sys sequence_number header l2_parent_block_time l2_block_time =
     (let base_fee = (case lh_base_fee_per_gas header of None \<Rightarrow> 0 | Some f \<Rightarrow> f);
          base = \<lparr>bb_number = lh_number header, bb_time = lh_timestamp header,
                  bb_base_fee = base_fee, bb_block_hash = lh_hash header,
                  bb_sequence_number = sequence_number,
                  bb_batcher_address = sc_batcher_address sys\<rparr> in
      if \<not> is_ecotone_active reg cfg l2_block_time \<or>
         is_first_ecotone_block reg cfg l2_block_time l2_parent_block_time
      then Inr (InfoBedrock \<lparr>ib_base = base, ib_l1_fee_overhead = sc_overhead sys,
                            ib_l1_fee_scalar = sc_scalar sys\<rparr>)
      else let
        scalar = to_be 32 (unat (sc_scalar sys));
        blob_base_fee_scalar =
          (if scalar ! 0 = ECOTONE_L1_SCALAR then word_at 24 28 scalar else 0);
        base_fee_scalar = word_at 28 32 scalar;
        params = blob_fee_config reg cfg l1_config (lh_timestamp header);
        blob_base_fee = (case lc_blob_fee l1_config header params of None \<Rightarrow> 1 | Some f \<Rightarrow> f);
        eb = \<lparr>eb_base = base, eb_blob_base_fee = blob_base_fee,
              eb_blob_base_fee_scalar = blob_base_fee_scalar,
              eb_base_fee_scalar = base_fee_scalar\<rparr>;
        operator_fee_scalar = (case sc_operator_fee_scalar sys of None \<Rightarrow> 0 | Some s \<Rightarrow> s);
        operator_fee_constant = (case sc_operator_fee_constant sys of None \<Rightarrow> 0 | Some s \<Rightarrow> s);
        isthmus = \<lparr>ii_base = eb, ii_operator_fee_scalar = operator_fee_scalar,
                   ii_operator_fee_constant = operator_fee_constant\<rparr>
      in if is_jovian_active reg cfg l2_block_time \<and>
            \<not> is_first_jovian_block reg cfg l2_block_time l2_parent_block_time
         then let
           da = (case sc_da_footprint_gas_scalar sys of
                   None \<Rightarrow> DEFAULT_DA_FOOTPRINT_GAS_SCALAR | Some s \<Rightarrow> s);
           da = (if da = 0 then DEFAULT_DA_FOOTPRINT_GAS_SCALAR else da)
         in Inr (InfoJovian \<lparr>ij_base = isthmus, ij_da_footprint_gas_scalar = da\<rparr>)
         else if is_isthmus_active reg cfg l2_block_time \<and>
                 \<not> is_first_isthmus_block reg cfg l2_block_time l2_parent_block_time
         then Inr (InfoIsthmus isthmus)
         else Inr (InfoEcotone \<lparr>ie_base = eb, ie_empty_scalars = False, ie_l1_fee_overhead = 0\<rparr>))"

section \<open>L2 block references from blocks\<close>

text \<open>
  What \<open>from_block_and_genesis\<close> and the span batch checks read of an L2 block: the
  reference of its header and, per transaction, the type byte, the EIP-2718 encoding and the
  input of a deposit.
\<close>

record op_tx =
  tx_type :: u8
  tx_is_deposit :: bool
  tx_encoded :: bytes
  tx_input :: bytes

record op_block =
  ob_info :: block_info
  ob_transactions :: "op_tx list"

datatype from_block_error =
    InvalidGenesisHash
  | MissingL1InfoDeposit hash32
  | FirstTxNonDeposit u8
  | BlockInfoDecodeError decode_error

definition from_block_and_genesis ::
    "op_block \<Rightarrow> chain_genesis \<Rightarrow> from_block_error + l2_block_info" where
  "from_block_and_genesis block genesis =
     (let bi = ob_info block in
      if bi_number bi = bnh_number (gen_l2 genesis) then
        (if bi_hash bi \<noteq> bnh_hash (gen_l2 genesis) then Inl InvalidGenesisHash
         else Inr \<lparr>l2_block = bi, l2_l1_origin = gen_l1 genesis, l2_seq_num = 0\<rparr>)
      else case ob_transactions block of
        [] \<Rightarrow> Inl (MissingL1InfoDeposit (bi_hash bi))
      | tx # _ \<Rightarrow>
          if \<not> tx_is_deposit tx then Inl (FirstTxNonDeposit (tx_type tx))
          else and_then (map_err BlockInfoDecodeError (decode_calldata (tx_input tx))) (\<lambda>info.
            Inr \<lparr>l2_block = bi, l2_l1_origin = info_id info,
                 l2_seq_num = info_sequence_number info\<rparr>))"

section \<open>Well-formed info\<close>

text \<open>
  The fixed-size arrays have their length, and the fields the calldata does not carry have
  the values the decoder restores.
\<close>

fun info_wf :: "l1_block_info_tx \<Rightarrow> bool" where
  "info_wf (InfoBedrock x) \<longleftrightarrow>
     length (bb_block_hash (ib_base x)) = 32 \<and> length (bb_batcher_address (ib_base x)) = 20"
| "info_wf (InfoEcotone x) \<longleftrightarrow>
     length (bb_block_hash (eb_base (ie_base x))) = 32 \<and>
     length (bb_batcher_address (eb_base (ie_base x))) = 20 \<and>
     \<not> ie_empty_scalars x \<and> ie_l1_fee_overhead x = 0"
| "info_wf (InfoIsthmus x) \<longleftrightarrow>
     length (bb_block_hash (eb_base (ii_base x))) = 32 \<and>
     length (bb_batcher_address (eb_base (ii_base x))) = 20"
| "info_wf (InfoJovian x) \<longleftrightarrow>
     length (bb_block_hash (eb_base (ii_base (ij_base x)))) = 32 \<and>
     length (bb_batcher_address (eb_base (ii_base (ij_base x)))) = 20 \<and>
     ij_da_footprint_gas_scalar x \<noteq> 0"

section \<open>Lemmas\<close>

lemma take_to_be: "take n (to_be n v) = to_be n v"
  by simp

lemma slice_append_left: "j \<le> length a \<Longrightarrow> slice i j (a @ b) = slice i j a"
  by (cases "i \<le> j") (simp_all add: slice_def)

lemma slice_append_right: "length a \<le> i \<Longrightarrow> slice i j (a @ b) = slice (i - length a) (j - length a) b"
  by (simp add: slice_def)

lemma slice_to_be:
  "n \<le> k \<Longrightarrow> slice (k - n) k (to_be k v) = to_be n v"
  using drop_to_be [of "k - n" n v] by (simp add: slice_def)

lemma slice_to_be_num:
  "slice 24 32 (to_be 32 v) = to_be 8 v" "slice 16 32 (to_be 32 v) = to_be 16 v"
  "slice 0 4 (to_be 4 v) = to_be 4 v" "slice 0 8 (to_be 8 v) = to_be 8 v"
  "slice 0 32 (to_be 32 v) = to_be 32 v" "slice 0 2 (to_be 2 v) = to_be 2 v"
  using slice_to_be [of 8 32 v] slice_to_be [of 16 32 v] slice_to_be [of 4 4 v]
    slice_to_be [of 8 8 v] slice_to_be [of 32 32 v] slice_to_be [of 2 2 v] by simp_all

lemma word_of_be:
  fixes x :: "'a::len word"
  assumes "2 ^ LENGTH('a) \<le> (256::nat) ^ n"
  shows "word_of_nat (from_be (to_be n (unat x))) = x"
proof -
  have "unat x < 256 ^ n" using assms unsigned_less [where w = x] by (metis order_less_le_trans)
  then show ?thesis by simp
qed

lemma slice_replicate_append: "length b = n \<Longrightarrow> slice k (k + n) (replicate k (0::u8) @ b) = b"
  by (simp add: slice_def)
lemma slice_into_word: "length a = 20 \<Longrightarrow> slice 12 32 (into_word a) = a"
  by (simp add: into_word_def slice_def)
lemma length_into_word: "length a = 20 \<Longrightarrow> length (into_word a) = 32"
  by (simp add: into_word_def)
lemma slice_whole: "length a = n \<Longrightarrow> slice 0 n a = a"
  by (simp add: slice_def)

lemmas codec_simps = slice_append_left slice_append_right slice_to_be_num slice_into_word length_into_word
  word_at_def word_of_be slice_whole

lemma length_selectors [simp]:
  "length BEDROCK_SELECTOR = 4" "length ECOTONE_SELECTOR = 4" "length ISTHMUS_SELECTOR = 4"
  "length JOVIAN_SELECTOR = 4"
  by (simp_all add: BEDROCK_SELECTOR_def ECOTONE_SELECTOR_def ISTHMUS_SELECTOR_def JOVIAN_SELECTOR_def)

lemma bedrock_roundtrip:
  assumes "length (bb_block_hash (ib_base x)) = 32" "length (bb_batcher_address (ib_base x)) = 20"
  shows "bedrock_decode_calldata (bedrock_encode_calldata x) = Inr x"
  using assms by (simp add: bedrock_decode_calldata_def bedrock_encode_calldata_def BEDROCK_TX_LEN_def
     Let_def codec_simps del: from_to_be)

lemma ecotone_base_roundtrip:
  assumes "length (bb_block_hash (eb_base x)) = 32" "length (bb_batcher_address (eb_base x)) = 20" "length sel = 4"
  shows "ecotone_base_decode (sel @ ecotone_base_encode x @ rest) = x"
  using assms by (simp add: ecotone_base_decode_def ecotone_base_encode_def Let_def codec_simps del: from_to_be)

lemma length_ecotone_base_encode:
  assumes "length (bb_block_hash (eb_base x)) = 32" "length (bb_batcher_address (eb_base x)) = 20"
  shows "length (ecotone_base_encode x) = 160"
  using assms by (simp add: ecotone_base_encode_def Let_def length_into_word)

lemma ecotone_roundtrip:
  assumes "info_wf (InfoEcotone x)"
  shows "ecotone_decode_calldata (ecotone_encode_calldata x) = Inr x"
  using assms ecotone_base_roundtrip [of "ie_base x" ECOTONE_SELECTOR "[]"]
  by (simp add: ecotone_decode_calldata_def ecotone_encode_calldata_def ECOTONE_TX_LEN_def length_ecotone_base_encode)

lemma isthmus_body_roundtrip:
  assumes "info_wf (InfoIsthmus x)" "length sel = 4"
  shows "isthmus_decode_body (sel @ isthmus_encode_body x @ rest) = Inr x"
  using assms ecotone_base_roundtrip [of "ii_base x" sel]
  by (simp add: isthmus_decode_body_def isthmus_encode_body_def length_ecotone_base_encode codec_simps
      del: from_to_be)

lemma isthmus_roundtrip:
  assumes "info_wf (InfoIsthmus x)"
  shows "isthmus_decode_calldata (isthmus_encode_calldata x) = Inr x"
  using assms isthmus_body_roundtrip [OF assms, of ISTHMUS_SELECTOR "[]"]
  by (simp add: isthmus_decode_calldata_def isthmus_encode_calldata_def ISTHMUS_TX_LEN_def
      isthmus_encode_body_def length_ecotone_base_encode)

lemma jovian_roundtrip:
  assumes "info_wf (InfoJovian x)"
  shows "jovian_decode_calldata (jovian_encode_calldata x) = Inr x"
proof -
  have wf: "info_wf (InfoIsthmus (ij_base x))" using assms by simp
  have len: "length (isthmus_encode_body (ij_base x)) = 172"
    using assms by (simp add: isthmus_encode_body_def length_ecotone_base_encode)
  show ?thesis
    using assms isthmus_body_roundtrip [OF wf, of JOVIAN_SELECTOR]
    by (simp add: jovian_decode_calldata_def jovian_decode_body_def jovian_encode_calldata_def
        JOVIAN_TX_LEN_def len codec_simps Let_def del: from_to_be)
qed

lemma calldata_roundtrip:
  assumes "info_wf x" shows "decode_calldata (encode_calldata x) = Inr x"
proof (cases x)
  case (InfoBedrock y)
  then show ?thesis using assms bedrock_roundtrip [of y]
    by (simp add: decode_calldata_def bedrock_encode_calldata_def Let_def codec_simps)
next
  case (InfoEcotone y)
  then show ?thesis using assms ecotone_roundtrip [of y]
    by (simp add: decode_calldata_def ecotone_encode_calldata_def Let_def codec_simps)
       (simp add: BEDROCK_SELECTOR_def ECOTONE_SELECTOR_def)
next
  case (InfoIsthmus y)
  then show ?thesis using assms isthmus_roundtrip [of y]
    by (simp add: decode_calldata_def isthmus_encode_calldata_def Let_def codec_simps)
       (simp add: BEDROCK_SELECTOR_def ECOTONE_SELECTOR_def ISTHMUS_SELECTOR_def)
next
  case (InfoJovian y)
  then show ?thesis using assms jovian_roundtrip [of y]
    by (simp add: decode_calldata_def jovian_encode_calldata_def Let_def codec_simps)
       (simp add: BEDROCK_SELECTOR_def ECOTONE_SELECTOR_def ISTHMUS_SELECTOR_def JOVIAN_SELECTOR_def)
qed

lemma try_new_wf:
  assumes "length (lh_hash h) = 32" "length (sc_batcher_address sys) = 20"
    "try_new reg cfg l1 sys s h pt t = Inr x"
  shows "info_wf x \<and> info_id x = \<lparr>bnh_number = lh_number h, bnh_hash = lh_hash h\<rparr> \<and> info_sequence_number x = s"
  using assms by (auto simp: try_new_def Let_def info_id_def info_sequence_number_def
      DEFAULT_DA_FOOTPRINT_GAS_SCALAR_def split: if_splits)

lemma try_new_total: "\<exists>x. try_new reg cfg l1 sys s h pt t = Inr x"
  by (auto simp: try_new_def Let_def)

lemma decode_calldata_wf: "decode_calldata r = Inr x \<Longrightarrow> info_wf x"
  by (auto simp: decode_calldata_def bedrock_decode_calldata_def ecotone_decode_calldata_def
      isthmus_decode_calldata_def jovian_decode_calldata_def isthmus_decode_body_def
      jovian_decode_body_def ecotone_base_decode_def BEDROCK_TX_LEN_def ECOTONE_TX_LEN_def
      ISTHMUS_TX_LEN_def JOVIAN_TX_LEN_def DEFAULT_DA_FOOTPRINT_GAS_SCALAR_def Let_def
      and_then_Inr_iff split: if_splits)

section \<open>Properties\<close>

text \<open>
  C20. L1 origin recovery: for every configuration, system configuration and L1 header, the
  info transaction is built without error, its calldata decodes to the same transaction, and
  a block that carries it as its first deposit yields exactly the header's number and hash
  as L1 origin and the sequence number the block was built with.
\<close>
theorem l1_origin_recovered:
  assumes "length (lh_hash h) = 32" "length (sc_batcher_address sys) = 20"
    "bi_number bi \<noteq> bnh_number (gen_l2 genesis)"
  shows "\<exists>x. try_new reg cfg l1 sys s h pt t = Inr x \<and> decode_calldata (encode_calldata x) = Inr x \<and>
    from_block_and_genesis
      \<lparr>ob_info = bi, ob_transactions =
         \<lparr>tx_type = ty, tx_is_deposit = True, tx_encoded = enc, tx_input = encode_calldata x\<rparr> # txs\<rparr>
      genesis =
    Inr \<lparr>l2_block = bi, l2_l1_origin = \<lparr>bnh_number = lh_number h, bnh_hash = lh_hash h\<rparr>, l2_seq_num = s\<rparr>"
proof -
  obtain x where x: "try_new reg cfg l1 sys s h pt t = Inr x" using try_new_total by blast
  note wf = try_new_wf [OF assms(1,2) x]
  then show ?thesis
    using x assms(3) calldata_roundtrip [of x] by (auto simp: from_block_and_genesis_def Let_def)
qed

theorem l1_origin_recovered_witness:
  fixes h sys l1 bi
  defines "h \<equiv> \<lparr>lh_number = 7, lh_timestamp = 99, lh_base_fee_per_gas = Some 5, lh_hash = replicate 32 3\<rparr>"
    and "sys \<equiv> \<lparr>sc_batcher_address = replicate 20 1, sc_overhead = 0, sc_scalar = 4, sc_gas_limit = 1,
      sc_base_fee_scalar = None, sc_blob_base_fee_scalar = None, sc_eip1559_denominator = None,
      sc_eip1559_elasticity = None, sc_operator_fee_scalar = None, sc_operator_fee_constant = None,
      sc_min_base_fee = None, sc_da_footprint_gas_scalar = None\<rparr>"
    and "l1 \<equiv> \<lparr>lc_scheduled_params = \<lambda>_. None, lc_osaka_time = None, lc_prague_time = None,
      lc_osaka = (), lc_prague = (), lc_cancun = (), lc_blob_fee = \<lambda>_ _. None\<rparr>"
    and "bi \<equiv> block_info_new B256_ZERO 12 B256_ZERO 100"
  shows "\<exists>x. try_new Map.empty rollup_config_default l1 sys 2 h 98 100 = Inr x \<and>
    from_block_and_genesis
      \<lparr>ob_info = bi, ob_transactions =
         [\<lparr>tx_type = 126, tx_is_deposit = True, tx_encoded = [], tx_input = encode_calldata x\<rparr>]\<rparr>
      chain_genesis_default =
    Inr \<lparr>l2_block = bi, l2_l1_origin = \<lparr>bnh_number = 7, bnh_hash = replicate 32 3\<rparr>, l2_seq_num = 2\<rparr>"
  using l1_origin_recovered [of h sys bi chain_genesis_default Map.empty rollup_config_default l1 2 98 100
      126 "[]" "[]"]
  by (auto simp: h_def sys_def bi_def block_info_new_def chain_genesis_default_def)

text \<open>
  Every calldata the decoder accepts stands for a well-formed info transaction that is
  a fixed point of encoding and decoding; in particular a zero DA footprint scalar and the
  fields Ecotone does not transmit are normalised once and for all.
\<close>
theorem decode_calldata_canonical:
  assumes "decode_calldata r = Inr x"
  shows "info_wf x \<and> decode_calldata (encode_calldata x) = Inr x"
  using decode_calldata_wf [OF assms] calldata_roundtrip by simp

theorem decode_calldata_canonical_witness:
  "\<exists>x. decode_calldata (JOVIAN_SELECTOR @ replicate 174 0) = Inr x \<and> info_wf x \<and>
     decode_calldata (encode_calldata x) = Inr x"
proof -
  have "\<exists>x. decode_calldata (JOVIAN_SELECTOR @ replicate 174 0) = Inr x"
    by (simp add: decode_calldata_def Let_def slice_append_left slice_whole jovian_decode_calldata_def
        JOVIAN_TX_LEN_def jovian_decode_body_def isthmus_decode_body_def)
       (simp add: BEDROCK_SELECTOR_def ECOTONE_SELECTOR_def ISTHMUS_SELECTOR_def JOVIAN_SELECTOR_def)
  then show ?thesis using decode_calldata_canonical by blast
qed

end
