(* ===== verification/System_Config.thy ===== *)
theory System_Config
  imports Rollup_Config
begin

text \<open>
  System configuration updates (\<open>src/crates/common/genesis/src/system\<close> and \<open>updates\<close>): the
  logs of the L1 system config contract are validated, decoded into updates and applied in
  order. The Solidity ABI decoders of the \<open>alloy_sol_types\<close> crate are a parameter. The eight
  error enums of the update types share five constructors and are one datatype here, told
  apart by the constructor of \<open>SystemConfigUpdateError\<close> that wraps them. The lemmas show that
  what the contract encodes is what is applied, that malformed logs are skipped and nothing
  else, and that Ecotone never lets in an invalid fee scalar.
\<close>

section \<open>Logs and errors\<close>

record log =
  lg_address :: address
  lg_topics :: "hash32 list"
  lg_data :: bytes

datatype eip658_value = Eip658 bool | PostState hash32

record receipt =
  rcpt_status :: eip658_value
  rcpt_logs :: "log list"

record abi =
  abi_u16 :: "bytes \<Rightarrow> u16 option"
  abi_u64 :: "bytes \<Rightarrow> u64 option"
  abi_u256 :: "bytes \<Rightarrow> 256 word option"
  abi_address :: "bytes \<Rightarrow> address option"

datatype validation_error =
    VInvalidDataLen nat nat
  | VPointerDecodingError
  | VInvalidDataPointer u64
  | VLengthDecodingError
  | VInvalidDataLength u64

datatype update_error =
    InvalidDataLen nat
  | PointerDecodingError
  | InvalidDataPointer u64
  | LengthDecodingError
  | InvalidDataLength u64
  | BatcherAddressDecodingError
  | UnsafeBlockSignerAddressDecodingError
  | OverheadDecodingError
  | ScalarDecodingError
  | MinBaseFeeDecodingError
  | DaFootprintGasScalarDecodingError
  | GasLimitDecodingError
  | EIP1559DecodingError
  | ConstantDecodingError

datatype log_processing_error =
    InvalidTopicLen nat
  | InvalidTopic
  | UnsupportedVersion hash32
  | UpdateTypeDecodingError
  | InvalidSystemConfigUpdateType u64

datatype system_config_update_error =
    LogProcessing log_processing_error
  | BatcherError update_error
  | GasConfigError update_error
  | GasLimitError update_error
  | Eip1559Error update_error
  | OperatorFeeError update_error
  | UnsafeBlockSignerError update_error
  | MinBaseFeeError update_error
  | DaFootprintGasScalarError update_error

datatype update_kind =
  KBatcher | KGasConfig | KGasLimit | KUnsafeBlockSigner | KEip1559 | KOperatorFee | KMinBaseFee |
  KDaFootprintGasScalar

datatype system_config_update =
    BatcherUpdate address
  | GasConfigUpdate "256 word option" "256 word option"
  | GasLimitUpdate u64
  | UnsafeBlockSignerUpdate address
  | Eip1559Update u32 u32
  | OperatorFeeUpdate u32 u64
  | MinBaseFeeUpdate u64
  | DaFootprintGasScalarUpdate u16

text \<open>\<open>keccak256("ConfigUpdate(uint256,uint8,bytes)")\<close> and the only event version.\<close>

definition CONFIG_UPDATE_TOPIC :: hash32 where
  "CONFIG_UPDATE_TOPIC = to_be 32 0x1d2b0bda21d56b8bd12d4f94ebacffdfb35f5e226f84b461103bb8beab6353be"

definition EVENT_VERSION_0 :: hash32 where
  "EVENT_VERSION_0 = B256_ZERO"

definition SC_DEFAULT_DA_FOOTPRINT :: u16 where
  "SC_DEFAULT_DA_FOOTPRINT = 400"

definition system_config_default :: system_config where
  "system_config_default =
     \<lparr>sc_batcher_address = ADDRESS_ZERO, sc_overhead = 0, sc_scalar = 0, sc_gas_limit = 0,
      sc_base_fee_scalar = None, sc_blob_base_fee_scalar = None, sc_eip1559_denominator = None,
      sc_eip1559_elasticity = None, sc_operator_fee_scalar = None, sc_operator_fee_constant = None,
      sc_min_base_fee = None, sc_da_footprint_gas_scalar = None\<rparr>"

section \<open>Update data\<close>

definition validate_update_data :: "abi \<Rightarrow> bytes \<Rightarrow> validation_error + bytes" where
  "validate_update_data abi data =
     (if length data \<noteq> 96 then Inl (VInvalidDataLen 96 (length data))
      else case abi_u64 abi (slice 0 32 data) of
        None \<Rightarrow> Inl VPointerDecodingError
      | Some pointer \<Rightarrow>
          if pointer \<noteq> 32 then Inl (VInvalidDataPointer pointer)
          else case abi_u64 abi (slice 32 64 data) of
            None \<Rightarrow> Inl VLengthDecodingError
          | Some len \<Rightarrow> if len \<noteq> 32 then Inl (VInvalidDataLength len) else Inr (drop 64 data))"

fun update_error_of :: "validation_error \<Rightarrow> update_error" where
  "update_error_of (VInvalidDataLen expected actual) = InvalidDataLen actual"
| "update_error_of VPointerDecodingError = PointerDecodingError"
| "update_error_of (VInvalidDataPointer p) = InvalidDataPointer p"
| "update_error_of VLengthDecodingError = LengthDecodingError"
| "update_error_of (VInvalidDataLength l) = InvalidDataLength l"

definition batcher_try_from :: "abi \<Rightarrow> log \<Rightarrow> update_error + system_config_update" where
  "batcher_try_from abi lg =
     and_then (map_err update_error_of (validate_update_data abi (lg_data lg))) (\<lambda>payload.
       case abi_address abi payload of
         None \<Rightarrow> Inl BatcherAddressDecodingError
       | Some a \<Rightarrow> Inr (BatcherUpdate a))"

definition signer_try_from :: "abi \<Rightarrow> log \<Rightarrow> update_error + system_config_update" where
  "signer_try_from abi lg =
     and_then (map_err update_error_of (validate_update_data abi (lg_data lg))) (\<lambda>payload.
       case abi_address abi payload of
         None \<Rightarrow> Inl UnsafeBlockSignerAddressDecodingError
       | Some a \<Rightarrow> Inr (UnsafeBlockSignerUpdate a))"

definition eip1559_try_from :: "abi \<Rightarrow> log \<Rightarrow> update_error + system_config_update" where
  "eip1559_try_from abi lg =
     and_then (map_err update_error_of (validate_update_data abi (lg_data lg))) (\<lambda>payload.
       case abi_u64 abi payload of
         None \<Rightarrow> Inl EIP1559DecodingError
       | Some params \<Rightarrow> Inr (Eip1559Update (ucast (drop_bit 32 params)) (ucast params)))"

definition operator_fee_try_from :: "abi \<Rightarrow> log \<Rightarrow> update_error + system_config_update" where
  "operator_fee_try_from abi lg =
     and_then (map_err update_error_of (validate_update_data abi (lg_data lg))) (\<lambda>payload.
       Inr (OperatorFeeUpdate (word_of_nat (from_be (slice 20 24 payload)))
         (word_of_nat (from_be (slice 24 32 payload)))))"

text \<open>
  The gas config, gas limit, min base fee and DA footprint updates write out the checks of
  the pointer and the length with their own expected sizes.
\<close>

definition check_pointer_length ::
    "abi \<Rightarrow> nat \<Rightarrow> u64 \<Rightarrow> bytes \<Rightarrow> (unit \<Rightarrow> update_error + 'a) \<Rightarrow> update_error + 'a" where
  "check_pointer_length abi total_len expected data k =
     (if length data \<noteq> total_len then Inl (InvalidDataLen (length data))
      else case abi_u64 abi (slice 0 32 data) of
        None \<Rightarrow> Inl PointerDecodingError
      | Some pointer \<Rightarrow>
          if pointer \<noteq> 32 then Inl (InvalidDataPointer pointer)
          else case abi_u64 abi (slice 32 64 data) of
            None \<Rightarrow> Inl LengthDecodingError
          | Some len \<Rightarrow> if len \<noteq> expected then Inl (InvalidDataLength len) else k ())"

definition gas_config_try_from :: "abi \<Rightarrow> bool \<Rightarrow> log \<Rightarrow> update_error + system_config_update" where
  "gas_config_try_from abi ecotone_active lg =
     (let data = lg_data lg in
      check_pointer_length abi 128 64 data (\<lambda>_.
        case abi_u256 abi (slice 64 96 data) of
          None \<Rightarrow> Inl OverheadDecodingError
        | Some overhead \<Rightarrow>
            case abi_u256 abi (drop 96 data) of
              None \<Rightarrow> Inl ScalarDecodingError
            | Some scalar \<Rightarrow>
                if ecotone_active \<and>
                   check_ecotone_l1_system_config_scalar (to_be 32 (unat scalar)) \<noteq> Inr ()
                then Inr (GasConfigUpdate None None)
                else Inr (GasConfigUpdate (Some scalar) (Some (if ecotone_active then 0 else overhead)))))"

definition gas_limit_try_from :: "abi \<Rightarrow> log \<Rightarrow> update_error + system_config_update" where
  "gas_limit_try_from abi lg =
     (let data = lg_data lg in
      check_pointer_length abi 96 32 data (\<lambda>_.
        case abi_u256 abi (drop 64 data) of
          None \<Rightarrow> Inl GasLimitDecodingError
        | Some gas_limit \<Rightarrow>
            if gas_limit > ucast (- 1 :: u64) then Inl GasLimitDecodingError
            else Inr (GasLimitUpdate (ucast gas_limit))))"

definition min_base_fee_try_from :: "abi \<Rightarrow> log \<Rightarrow> update_error + system_config_update" where
  "min_base_fee_try_from abi lg =
     (let data = lg_data lg in
      check_pointer_length abi 96 32 data (\<lambda>_.
        case abi_u64 abi (slice 64 96 data) of
          None \<Rightarrow> Inl MinBaseFeeDecodingError
        | Some min_base_fee \<Rightarrow> Inr (MinBaseFeeUpdate min_base_fee)))"

definition da_footprint_try_from :: "abi \<Rightarrow> log \<Rightarrow> update_error + system_config_update" where
  "da_footprint_try_from abi lg =
     (let data = lg_data lg in
      check_pointer_length abi 96 32 data (\<lambda>_.
        case abi_u16 abi (slice 64 96 data) of
          None \<Rightarrow> Inl DaFootprintGasScalarDecodingError
        | Some scalar \<Rightarrow> Inr (DaFootprintGasScalarUpdate scalar)))"

section \<open>From logs to updates\<close>

definition validate_topic :: "log \<Rightarrow> log_processing_error + unit" where
  "validate_topic lg =
     (if length (lg_topics lg) < 3 then Inl (InvalidTopicLen (length (lg_topics lg)))
      else if lg_topics lg ! 0 \<noteq> CONFIG_UPDATE_TOPIC then Inl InvalidTopic
      else Inr ())"

definition validate_version :: "log \<Rightarrow> log_processing_error + unit" where
  "validate_version lg =
     (let version = lg_topics lg ! 1 in
      if version \<noteq> EVENT_VERSION_0 then Inl (UnsupportedVersion version) else Inr ())"

definition kind_of_u64 :: "u64 \<Rightarrow> update_kind option" where
  "kind_of_u64 ty =
     (if ty = 0 then Some KBatcher
      else if ty = 1 then Some KGasConfig
      else if ty = 2 then Some KGasLimit
      else if ty = 3 then Some KUnsafeBlockSigner
      else if ty = 4 then Some KEip1559
      else if ty = 5 then Some KOperatorFee
      else if ty = 6 then Some KMinBaseFee
      else if ty = 7 then Some KDaFootprintGasScalar
      else None)"

text \<open>The last eight bytes of the topic; a topic has 32 bytes, so the slice always has eight.\<close>

definition update_type :: "log \<Rightarrow> system_config_update_error + update_kind" where
  "update_type lg =
     (if length (lg_topics lg) < 3 then Inl (LogProcessing (InvalidTopicLen (length (lg_topics lg))))
      else let topic_bytes = drop 24 (lg_topics lg ! 2) in
        if length topic_bytes \<noteq> 8 then Inl (LogProcessing UpdateTypeDecodingError)
        else let ty = word_of_nat (from_be topic_bytes) in
          case kind_of_u64 ty of
            None \<Rightarrow> Inl (LogProcessing (InvalidSystemConfigUpdateType ty))
          | Some k \<Rightarrow> Inr k)"

definition build ::
    "abi \<Rightarrow> bool \<Rightarrow> log \<Rightarrow> system_config_update_error + system_config_update" where
  "build abi ecotone_active lg =
     and_then (map_err LogProcessing (validate_topic lg)) (\<lambda>_.
     and_then (map_err LogProcessing (validate_version lg)) (\<lambda>_.
     and_then (update_type lg) (\<lambda>k.
       case k of
         KBatcher \<Rightarrow> map_err BatcherError (batcher_try_from abi lg)
       | KGasConfig \<Rightarrow> map_err GasConfigError (gas_config_try_from abi ecotone_active lg)
       | KGasLimit \<Rightarrow> map_err GasLimitError (gas_limit_try_from abi lg)
       | KEip1559 \<Rightarrow> map_err Eip1559Error (eip1559_try_from abi lg)
       | KOperatorFee \<Rightarrow> map_err OperatorFeeError (operator_fee_try_from abi lg)
       | KUnsafeBlockSigner \<Rightarrow> map_err UnsafeBlockSignerError (signer_try_from abi lg)
       | KMinBaseFee \<Rightarrow> map_err MinBaseFeeError (min_base_fee_try_from abi lg)
       | KDaFootprintGasScalar \<Rightarrow> map_err DaFootprintGasScalarError (da_footprint_try_from abi lg))))"

fun apply_update :: "system_config_update \<Rightarrow> system_config \<Rightarrow> system_config" where
  "apply_update (BatcherUpdate a) c = c\<lparr>sc_batcher_address := a\<rparr>"
| "apply_update (GasConfigUpdate scalar overhead) c =
     (let c = (case scalar of None \<Rightarrow> c | Some s \<Rightarrow> c\<lparr>sc_scalar := s\<rparr>) in
      case overhead of None \<Rightarrow> c | Some v \<Rightarrow> c\<lparr>sc_overhead := v\<rparr>)"
| "apply_update (GasLimitUpdate g) c = c\<lparr>sc_gas_limit := g\<rparr>"
| "apply_update (UnsafeBlockSignerUpdate a) c = c"
| "apply_update (Eip1559Update d e) c =
     c\<lparr>sc_eip1559_denominator := Some d, sc_eip1559_elasticity := Some e\<rparr>"
| "apply_update (OperatorFeeUpdate s k) c =
     c\<lparr>sc_operator_fee_scalar := Some s, sc_operator_fee_constant := Some k\<rparr>"
| "apply_update (MinBaseFeeUpdate f) c = c\<lparr>sc_min_base_fee := Some f\<rparr>"
| "apply_update (DaFootprintGasScalarUpdate s) c =
     c\<lparr>sc_da_footprint_gas_scalar := Some (if s = 0 then SC_DEFAULT_DA_FOOTPRINT else s)\<rparr>"

fun update_kind_of :: "system_config_update \<Rightarrow> update_kind" where
  "update_kind_of (BatcherUpdate _) = KBatcher"
| "update_kind_of (GasConfigUpdate _ _) = KGasConfig"
| "update_kind_of (GasLimitUpdate _) = KGasLimit"
| "update_kind_of (UnsafeBlockSignerUpdate _) = KUnsafeBlockSigner"
| "update_kind_of (Eip1559Update _ _) = KEip1559"
| "update_kind_of (OperatorFeeUpdate _ _) = KOperatorFee"
| "update_kind_of (MinBaseFeeUpdate _) = KMinBaseFee"
| "update_kind_of (DaFootprintGasScalarUpdate _) = KDaFootprintGasScalar"

definition process_config_update_log ::
    "abi \<Rightarrow> bool \<Rightarrow> log \<Rightarrow> system_config \<Rightarrow> (system_config_update_error + update_kind) \<times> system_config" where
  "process_config_update_log abi ecotone_active lg c =
     (case build abi ecotone_active lg of
        Inl e \<Rightarrow> (Inl e, c)
      | Inr u \<Rightarrow> (Inr (update_kind_of u), apply_update u c))"

definition config_logs :: "address \<Rightarrow> receipt list \<Rightarrow> log list" where
  "config_logs contract receipts =
     filter (\<lambda>lg. lg_address lg = contract \<and> lg_topics lg \<noteq> [] \<and> lg_topics lg ! 0 = CONFIG_UPDATE_TOPIC)
       (concat (map rcpt_logs (filter (\<lambda>r. rcpt_status r \<noteq> Eip658 False) receipts)))"

definition update_with_receipts ::
    "abi \<Rightarrow> receipt list \<Rightarrow> address \<Rightarrow> bool \<Rightarrow> system_config \<Rightarrow>
     (update_kind list \<times> system_config_update_error list) \<times> system_config" where
  "update_with_receipts abi receipts contract ecotone_active c =
     fold (\<lambda>lg ((updates, errors), c).
         case process_config_update_log abi ecotone_active lg c of
           (Inr k, c) \<Rightarrow> ((updates @ [k], errors), c)
         | (Inl e, c) \<Rightarrow> ((updates, errors @ [e]), c))
       (config_logs contract receipts) (([], []), c)"

definition eip_1559_params ::
    "registry \<Rightarrow> rollup_config \<Rightarrow> u64 \<Rightarrow> u64 \<Rightarrow> system_config \<Rightarrow> bytes option" where
  "eip_1559_params reg cfg parent_timestamp next_timestamp c =
     (let is_holocene = is_holocene_active reg cfg next_timestamp in
      if is_holocene \<and> \<not> is_holocene_active reg cfg parent_timestamp then Some (replicate 8 0)
      else if is_holocene then
        Some (to_be 4 (unat (case sc_eip1559_denominator c of None \<Rightarrow> 0 | Some d \<Rightarrow> d)) @
              to_be 4 (unat (case sc_eip1559_elasticity c of None \<Rightarrow> 0 | Some e \<Rightarrow> e)))
      else None)"

section \<open>What the contract emits\<close>

text \<open>
  The documented behaviour of the ABI decoders on one word: an integer type accepts the words
  whose value fits it, an address the words with twelve leading zero bytes.
\<close>

definition abi_ok :: "abi \<Rightarrow> bool" where
  "abi_ok abi \<longleftrightarrow> (\<forall>w. length w = 32 \<longrightarrow>
     abi_u16 abi w = (if from_be w < 2 ^ 16 then Some (word_of_nat (from_be w)) else None) \<and>
     abi_u64 abi w = (if from_be w < 2 ^ 64 then Some (word_of_nat (from_be w)) else None) \<and>
     abi_u256 abi w = Some (word_of_nat (from_be w)) \<and>
     abi_address abi w = (if take 12 w = replicate 12 0 then Some (drop 12 w) else None))"

definition std_abi :: abi where
  "std_abi =
     \<lparr>abi_u16 = (\<lambda>w. if from_be w < 2 ^ 16 then Some (word_of_nat (from_be w)) else None),
      abi_u64 = (\<lambda>w. if from_be w < 2 ^ 64 then Some (word_of_nat (from_be w)) else None),
      abi_u256 = (\<lambda>w. Some (word_of_nat (from_be w))),
      abi_address = (\<lambda>w. if take 12 w = replicate 12 0 then Some (drop 12 w) else None)\<rparr>"

text \<open>The event data of an update: offset, length and the words of the payload.\<close>

definition kind_number :: "system_config_update \<Rightarrow> nat" where
  "kind_number u =
     (case update_kind_of u of
        KBatcher \<Rightarrow> 0 | KGasConfig \<Rightarrow> 1 | KGasLimit \<Rightarrow> 2 | KUnsafeBlockSigner \<Rightarrow> 3 | KEip1559 \<Rightarrow> 4
      | KOperatorFee \<Rightarrow> 5 | KMinBaseFee \<Rightarrow> 6 | KDaFootprintGasScalar \<Rightarrow> 7)"

fun update_payload :: "system_config_update \<Rightarrow> bytes" where
  "update_payload (BatcherUpdate a) = replicate 12 0 @ a"
| "update_payload (GasConfigUpdate (Some s) (Some v)) = to_be 32 (unat v) @ to_be 32 (unat s)"
| "update_payload (GasConfigUpdate _ _) = []"
| "update_payload (GasLimitUpdate g) = to_be 32 (unat g)"
| "update_payload (UnsafeBlockSignerUpdate a) = replicate 12 0 @ a"
| "update_payload (Eip1559Update d e) = replicate 24 0 @ to_be 4 (unat d) @ to_be 4 (unat e)"
| "update_payload (OperatorFeeUpdate s k) = replicate 20 0 @ to_be 4 (unat s) @ to_be 8 (unat k)"
| "update_payload (MinBaseFeeUpdate f) = to_be 32 (unat f)"
| "update_payload (DaFootprintGasScalarUpdate s) = to_be 32 (unat s)"

definition update_log :: "address \<Rightarrow> system_config_update \<Rightarrow> log" where
  "update_log contract u =
     \<lparr>lg_address = contract,
      lg_topics = [CONFIG_UPDATE_TOPIC, B256_ZERO, to_be 32 (kind_number u)],
      lg_data = to_be 32 32 @ to_be 32 (length (update_payload u)) @ update_payload u\<rparr>"

fun update_wf :: "bool \<Rightarrow> system_config_update \<Rightarrow> bool" where
  "update_wf ecotone (BatcherUpdate a) \<longleftrightarrow> length a = 20"
| "update_wf ecotone (UnsafeBlockSignerUpdate a) \<longleftrightarrow> length a = 20"
| "update_wf ecotone (GasConfigUpdate (Some s) (Some v)) \<longleftrightarrow>
     (ecotone \<longrightarrow> v = 0 \<and> check_ecotone_l1_system_config_scalar (to_be 32 (unat s)) = Inr ())"
| "update_wf ecotone (GasConfigUpdate _ _) \<longleftrightarrow> False"
| "update_wf ecotone _ \<longleftrightarrow> True"

text \<open>The updates among build results, and the errors.\<close>

definition built :: "abi \<Rightarrow> bool \<Rightarrow> log list \<Rightarrow> system_config_update list" where
  "built abi ecotone lgs = List.map_filter (\<lambda>lg. case build abi ecotone lg of Inl _ \<Rightarrow> None | Inr u \<Rightarrow> Some u) lgs"

definition rejected :: "abi \<Rightarrow> bool \<Rightarrow> log list \<Rightarrow> system_config_update_error list" where
  "rejected abi ecotone lgs = List.map_filter (\<lambda>lg. case build abi ecotone lg of Inl e \<Rightarrow> Some e | Inr _ \<Rightarrow> None) lgs"

section \<open>Lemmas\<close>

lemma update_fold:
  "fold (\<lambda>lg ((updates, errors), c).
         case process_config_update_log abi eco lg c of
           (Inr k, c) \<Rightarrow> ((updates @ [k], errors), c)
         | (Inl e, c) \<Rightarrow> ((updates, errors @ [e]), c)) lgs ((us, es), c) =
   ((us @ map update_kind_of (built abi eco lgs), es @ rejected abi eco lgs), fold apply_update (built abi eco lgs) c)"
proof (induction lgs arbitrary: us es c)
  case (Cons lg lgs)
  then show ?case
    by (cases "build abi eco lg")
      (simp_all add: process_config_update_log_def built_def rejected_def map_filter_simps)
qed (simp add: built_def rejected_def map_filter_simps)

section \<open>Round trip\<close>

lemma abi_words:
  assumes "abi_ok abi"
  shows "n < 2 ^ 64 \<Longrightarrow> abi_u64 abi (to_be 32 n) = Some (word_of_nat n)"
    and "n < 2 ^ 16 \<Longrightarrow> abi_u16 abi (to_be 32 n) = Some (word_of_nat n)"
    and "n < 2 ^ 256 \<Longrightarrow> abi_u256 abi (to_be 32 n) = Some (word_of_nat n)"
    and "length a = 20 \<Longrightarrow> abi_address abi (replicate 12 0 @ a) = Some a"
  using assms by (simp_all add: abi_ok_def)

lemma kind_of_number: "kind_of_u64 (word_of_nat (kind_number u)) = Some (update_kind_of u)"
  by (cases u) (simp_all add: kind_number_def kind_of_u64_def)

lemma kind_number_less: "kind_number u < 8"
  by (cases u) (simp_all add: kind_number_def)

lemma update_type_log: "update_type (update_log contract u) = Inr (update_kind_of u)"
proof -
  have "drop 24 (to_be 32 (kind_number u)) = to_be 8 (kind_number u)"
    using drop_to_be [of 24 8] by simp
  moreover have "from_be (to_be 8 (kind_number u)) = kind_number u"
    using kind_number_less [of u] by simp
  ultimately show ?thesis
    using kind_of_number [of u] by (simp add: update_type_def update_log_def del: from_to_be)
qed

lemma validate_log_data:
  assumes "abi_ok abi" "length p = 32"
  shows "validate_update_data abi (to_be 32 32 @ to_be 32 32 @ p) = Inr p"
  using assms by (simp add: validate_update_data_def slice_def abi_words)

lemma check_pointer_length_ok:
  assumes "abi_ok abi" "length p < 2 ^ 64" "n = 64 + length p" "expected = word_of_nat (length p)"
  shows "check_pointer_length abi n expected (to_be 32 32 @ to_be 32 (length p) @ p) k = k ()"
  using assms by (simp add: check_pointer_length_def slice_def abi_words)

lemma pack_u32:
  fixes d e :: u32
  shows "ucast (drop_bit 32 (word_of_nat (unat d * 2 ^ 32 + unat e) :: u64)) = d"
    and "ucast (word_of_nat (unat d * 2 ^ 32 + unat e) :: u64) = e"
proof -
  have hi: "unat (ucast (drop_bit 32 (word_of_nat n :: u64)) :: u32) = n div 2 ^ 32 mod 2 ^ 32"
    and lo: "unat (ucast (word_of_nat n :: u64) :: u32) = n mod 2 ^ 32" if "n < 2 ^ 64" for n
    using that by (simp_all add: unsigned_ucast_eq drop_bit_eq_div take_bit_eq_mod unat_div
        unsigned_of_nat)
  have d: "unat d < 2 ^ 32" and e: "unat e < 2 ^ 32"
    using unsigned_less [of d, where 'a = nat] unsigned_less [of e, where 'a = nat] by simp_all
  then have less: "unat d * 2 ^ 32 + unat e < 2 ^ 64" by simp
  have "(unat d * 2 ^ 32 + unat e) div 2 ^ 32 mod 2 ^ 32 = unat d"
    "(unat d * 2 ^ 32 + unat e) mod 2 ^ 32 = unat e"
    using d e by simp_all
  then show "ucast (drop_bit 32 (word_of_nat (unat d * 2 ^ 32 + unat e) :: u64)) = d"
    and "ucast (word_of_nat (unat d * 2 ^ 32 + unat e) :: u64) = e"
    using hi [OF less] lo [OF less] by (metis unsigned_word_eqI)+
qed

lemma payload_eip1559:
  "from_be (replicate 24 0 @ to_be 4 (unat d) @ to_be 4 (unat e)) = unat d * 2 ^ 32 + unat e"
  for d e :: u32
proof -
  have "unat d < 2 ^ 32" "unat e < 2 ^ 32"
    using unsigned_less [of d, where 'a = nat] unsigned_less [of e, where 'a = nat] by simp_all
  then show ?thesis by (simp add: from_be_append from_be_zeros)
qed

lemma eip1559_log:
  assumes "abi_ok abi"
  shows "eip1559_try_from abi (update_log contract (Eip1559Update d e)) = Inr (Eip1559Update d e)"
proof -
  let ?p = "replicate 24 0 @ to_be 4 (unat d) @ to_be 4 (unat e)"
  have less: "unat d * 2 ^ 32 + unat e < 2 ^ 64"
    using unsigned_less [of d, where 'a = nat] unsigned_less [of e, where 'a = nat] by simp
  have "abi_u64 abi ?p = Some (word_of_nat (unat d * 2 ^ 32 + unat e))"
    using assms less payload_eip1559 [of d e] by (simp only: abi_ok_def) simp
  then show ?thesis
    using validate_log_data [OF assms, of ?p] pack_u32 [of d e]
    by (simp add: eip1559_try_from_def update_log_def)
qed

lemma operator_fee_log:
  assumes "abi_ok abi"
  shows "operator_fee_try_from abi (update_log contract (OperatorFeeUpdate s k)) = Inr (OperatorFeeUpdate s k)"
proof -
  let ?p = "replicate 20 0 @ to_be 4 (unat s) @ to_be 8 (unat k)"
  have "unat s < 2 ^ 32" "unat k < 2 ^ 64"
    using unsigned_less [of s, where 'a = nat] unsigned_less [of k, where 'a = nat] by simp_all
  then show ?thesis
    using validate_log_data [OF assms, of ?p]
    by (simp add: operator_fee_try_from_def update_log_def slice_def)
qed

lemma address_log:
  assumes "abi_ok abi" "length a = 20"
  shows "batcher_try_from abi (update_log contract (BatcherUpdate a)) = Inr (BatcherUpdate a)"
    and "signer_try_from abi (update_log contract (UnsafeBlockSignerUpdate a)) = Inr (UnsafeBlockSignerUpdate a)"
  using validate_log_data [OF assms(1), of "replicate 12 0 @ a"] assms abi_words(4) [OF assms]
  by (simp_all add: batcher_try_from_def signer_try_from_def update_log_def)

lemma gas_config_log:
  assumes "abi_ok abi" "update_wf eco (GasConfigUpdate (Some s) (Some v))"
  shows "gas_config_try_from abi eco (update_log contract (GasConfigUpdate (Some s) (Some v))) =
    Inr (GasConfigUpdate (Some s) (Some v))"
proof -
  have "unat s < 2 ^ 256" "unat v < 2 ^ 256"
    using unsigned_less [of s, where 'a = nat] unsigned_less [of v, where 'a = nat] by simp_all
  then show ?thesis
    using assms check_pointer_length_ok [OF assms(1), of "to_be 32 (unat v) @ to_be 32 (unat s)" 128 64]
    by (cases eco) (simp_all add: gas_config_try_from_def update_log_def slice_def abi_words)
qed

lemma word_log:
  assumes "abi_ok abi"
  shows "gas_limit_try_from abi (update_log contract (GasLimitUpdate g)) = Inr (GasLimitUpdate g)"
    and "min_base_fee_try_from abi (update_log contract (MinBaseFeeUpdate f)) = Inr (MinBaseFeeUpdate f)"
    and "da_footprint_try_from abi (update_log contract (DaFootprintGasScalarUpdate s)) =
      Inr (DaFootprintGasScalarUpdate s)"
proof -
  have less: "unat g < 2 ^ 64" "unat f < 2 ^ 64" "unat s < 2 ^ 16"
    using unsigned_less [of g, where 'a = nat] unsigned_less [of f, where 'a = nat]
      unsigned_less [of s, where 'a = nat] by simp_all
  have chk: "check_pointer_length abi 96 32 (to_be 32 32 @ to_be 32 32 @ to_be 32 n) k = k ()" for n and k :: "unit \<Rightarrow> update_error + 'x"
    using check_pointer_length_ok [OF assms, of "to_be 32 n" 96 32] by simp
  have up: "unat (ucast w :: 256 word) = unat w" for w :: u64
    using unsigned_less [of w, where 'a = nat]
    by (simp add: unsigned_ucast_eq take_bit_nat_eq_self_iff)
  have "unat g \<le> unat (- 1 :: u64)" by (simp add: word_le_nat_alt [symmetric])
  then have "\<not> (ucast g :: 256 word) > ucast (- 1 :: u64)"
    by (simp only: word_less_nat_alt up not_less)
  moreover have "ucast (ucast g :: 256 word) = g"
    by (rule unsigned_word_eqI [where 'a = nat])
      (use less in \<open>simp add: unsigned_ucast_eq [where 'a = nat] up [unfolded unsigned_ucast_eq] take_bit_nat_eq_self_iff\<close>)
  moreover have "abi_u256 abi (to_be 32 (unat g)) = Some (ucast g)"
    using abi_words(3) [OF assms, of "unat g"] less by (simp add: unsigned_of_nat)
  ultimately show "gas_limit_try_from abi (update_log contract (GasLimitUpdate g)) = Inr (GasLimitUpdate g)"
    by (simp add: gas_limit_try_from_def update_log_def chk)
  show "min_base_fee_try_from abi (update_log contract (MinBaseFeeUpdate f)) = Inr (MinBaseFeeUpdate f)"
    "da_footprint_try_from abi (update_log contract (DaFootprintGasScalarUpdate s)) =
      Inr (DaFootprintGasScalarUpdate s)"
    using less by (simp_all add: min_base_fee_try_from_def da_footprint_try_from_def update_log_def chk slice_def
        abi_words [OF assms])
qed

lemma build_update_log:
  assumes "abi_ok abi" "update_wf eco u"
  shows "build abi eco (update_log contract u) = Inr u"
proof -
  have "validate_topic (update_log contract u) = Inr ()" "validate_version (update_log contract u) = Inr ()"
    by (simp_all add: validate_topic_def validate_version_def update_log_def EVENT_VERSION_0_def)
  then have "build abi eco (update_log contract u) = (case update_kind_of u of
         KBatcher \<Rightarrow> map_err BatcherError (batcher_try_from abi (update_log contract u))
       | KGasConfig \<Rightarrow> map_err GasConfigError (gas_config_try_from abi eco (update_log contract u))
       | KGasLimit \<Rightarrow> map_err GasLimitError (gas_limit_try_from abi (update_log contract u))
       | KEip1559 \<Rightarrow> map_err Eip1559Error (eip1559_try_from abi (update_log contract u))
       | KOperatorFee \<Rightarrow> map_err OperatorFeeError (operator_fee_try_from abi (update_log contract u))
       | KUnsafeBlockSigner \<Rightarrow> map_err UnsafeBlockSignerError (signer_try_from abi (update_log contract u))
       | KMinBaseFee \<Rightarrow> map_err MinBaseFeeError (min_base_fee_try_from abi (update_log contract u))
       | KDaFootprintGasScalar \<Rightarrow> map_err DaFootprintGasScalarError (da_footprint_try_from abi (update_log contract u)))"
    by (simp add: build_def update_type_log)
  then show ?thesis
    using assms(2)
    by (cases "(eco, u)" rule: update_wf.cases)
      (simp_all add: address_log gas_config_log word_log eip1559_log operator_fee_log assms(1) del: update_wf.simps,
       auto simp: address_log gas_config_log assms(1))
qed

section \<open>Everything a receipt can announce\<close>

text \<open>
  The logs of a receipt by what they say: an update; a log of another contract or event; a
  config update event with too few topics, another version or an unknown type; and an event of a
  known type whose data has the wrong length, a wrong offset, a wrong payload length, or a payload word out of range.
\<close>

datatype config_event =
    Announces system_config_update
  | Elsewhere log
  | FewTopics "hash32 list" bytes
  | OtherVersion hash32 hash32 bytes
  | UnknownKind hash32 bytes
  | BadDataLen update_kind bytes
  | BadPointer update_kind nat bytes
  | BadLength update_kind nat bytes
  | BadWord update_kind bytes

fun kind_code :: "update_kind \<Rightarrow> nat" where
  "kind_code KBatcher = 0"
| "kind_code KGasConfig = 1"
| "kind_code KGasLimit = 2"
| "kind_code KUnsafeBlockSigner = 3"
| "kind_code KEip1559 = 4"
| "kind_code KOperatorFee = 5"
| "kind_code KMinBaseFee = 6"
| "kind_code KDaFootprintGasScalar = 7"

fun kind_error :: "update_kind \<Rightarrow> update_error \<Rightarrow> system_config_update_error" where
  "kind_error KBatcher = BatcherError"
| "kind_error KGasConfig = GasConfigError"
| "kind_error KGasLimit = GasLimitError"
| "kind_error KUnsafeBlockSigner = UnsafeBlockSignerError"
| "kind_error KEip1559 = Eip1559Error"
| "kind_error KOperatorFee = OperatorFeeError"
| "kind_error KMinBaseFee = MinBaseFeeError"
| "kind_error KDaFootprintGasScalar = DaFootprintGasScalarError"

definition payload_len :: "update_kind \<Rightarrow> nat" where
  "payload_len k = (if k = KGasConfig then 64 else 32)"

text \<open>The payload words a kind accepts, and the error for the others.\<close>

definition word_fits :: "update_kind \<Rightarrow> bytes \<Rightarrow> bool" where
  "word_fits k w \<longleftrightarrow>
     (case k of
        KBatcher \<Rightarrow> take 12 w = replicate 12 0
      | KUnsafeBlockSigner \<Rightarrow> take 12 w = replicate 12 0
      | KGasLimit \<Rightarrow> from_be w < 2 ^ 64
      | KEip1559 \<Rightarrow> from_be w < 2 ^ 64
      | KMinBaseFee \<Rightarrow> from_be w < 2 ^ 64
      | KDaFootprintGasScalar \<Rightarrow> from_be w < 2 ^ 16
      | _ \<Rightarrow> True)"

definition word_error :: "update_kind \<Rightarrow> update_error" where
  "word_error k =
     (case k of
        KBatcher \<Rightarrow> BatcherAddressDecodingError
      | KUnsafeBlockSigner \<Rightarrow> UnsafeBlockSignerAddressDecodingError
      | KGasLimit \<Rightarrow> GasLimitDecodingError
      | KEip1559 \<Rightarrow> EIP1559DecodingError
      | KMinBaseFee \<Rightarrow> MinBaseFeeDecodingError
      | _ \<Rightarrow> DaFootprintGasScalarDecodingError)"

definition kind_log :: "address \<Rightarrow> update_kind \<Rightarrow> bytes \<Rightarrow> log" where
  "kind_log contract k data =
     \<lparr>lg_address = contract, lg_topics = [CONFIG_UPDATE_TOPIC, B256_ZERO, to_be 32 (kind_code k)], lg_data = data\<rparr>"

fun event_log :: "address \<Rightarrow> config_event \<Rightarrow> log" where
  "event_log contract (Announces u) = update_log contract u"
| "event_log contract (Elsewhere lg) = lg"
| "event_log contract (FewTopics ts data) =
     \<lparr>lg_address = contract, lg_topics = CONFIG_UPDATE_TOPIC # ts, lg_data = data\<rparr>"
| "event_log contract (OtherVersion v t data) =
     \<lparr>lg_address = contract, lg_topics = [CONFIG_UPDATE_TOPIC, v, t], lg_data = data\<rparr>"
| "event_log contract (UnknownKind t data) =
     \<lparr>lg_address = contract, lg_topics = [CONFIG_UPDATE_TOPIC, B256_ZERO, t], lg_data = data\<rparr>"
| "event_log contract (BadDataLen k data) = kind_log contract k data"
| "event_log contract (BadPointer k p rest) = kind_log contract k (to_be 32 p @ rest)"
| "event_log contract (BadLength k l payload) = kind_log contract k (to_be 32 32 @ to_be 32 l @ payload)"
| "event_log contract (BadWord k w) = kind_log contract k (to_be 32 32 @ to_be 32 32 @ w)"

fun event_wf :: "address \<Rightarrow> config_event \<Rightarrow> bool" where
  "event_wf contract (Announces u) \<longleftrightarrow> update_wf False u"
| "event_wf contract (Elsewhere lg) \<longleftrightarrow>
     lg_address lg \<noteq> contract \<or> (case lg_topics lg of [] \<Rightarrow> True | t # _ \<Rightarrow> t \<noteq> CONFIG_UPDATE_TOPIC)"
| "event_wf contract (FewTopics ts data) \<longleftrightarrow> length ts < 2"
| "event_wf contract (OtherVersion v t data) \<longleftrightarrow> v \<noteq> B256_ZERO"
| "event_wf contract (UnknownKind t data) \<longleftrightarrow> length t = 32 \<and> 8 \<le> from_be (drop 24 t)"
| "event_wf contract (BadDataLen k data) \<longleftrightarrow> length data \<noteq> 64 + payload_len k"
| "event_wf contract (BadPointer k p rest) \<longleftrightarrow> p < 2 ^ 256 \<and> p \<noteq> 32 \<and> length rest = 32 + payload_len k"
| "event_wf contract (BadLength k l payload) \<longleftrightarrow> l < 2 ^ 256 \<and> l \<noteq> payload_len k \<and> length payload = payload_len k"
| "event_wf contract (BadWord k w) \<longleftrightarrow> length w = 32 \<and> \<not> word_fits k w"

text \<open>
  The update an event makes: from Ecotone on the overhead is zero, and an invalid scalar changes nothing.
  The error of a malformed event.
\<close>

fun event_update :: "bool \<Rightarrow> config_event \<Rightarrow> system_config_update option" where
  "event_update eco (Announces (GasConfigUpdate (Some s) v)) =
     Some (if eco \<and> check_ecotone_l1_system_config_scalar (to_be 32 (unat s)) \<noteq> Inr () then GasConfigUpdate None None
           else GasConfigUpdate (Some s) (if eco then Some 0 else v))"
| "event_update eco (Announces u) = Some u"
| "event_update eco _ = None"

fun event_error :: "config_event \<Rightarrow> system_config_update_error option" where
  "event_error (FewTopics ts data) = Some (LogProcessing (InvalidTopicLen (Suc (length ts))))"
| "event_error (OtherVersion v t data) = Some (LogProcessing (UnsupportedVersion v))"
| "event_error (UnknownKind t data) =
     Some (LogProcessing (InvalidSystemConfigUpdateType (word_of_nat (from_be (drop 24 t)))))"
| "event_error (BadDataLen k data) = Some (kind_error k (InvalidDataLen (length data)))"
| "event_error (BadPointer k p rest) =
     Some (kind_error k (if p < 2 ^ 64 then InvalidDataPointer (word_of_nat p) else PointerDecodingError))"
| "event_error (BadLength k l payload) =
     Some (kind_error k (if l < 2 ^ 64 then InvalidDataLength (word_of_nat l) else LengthDecodingError))"
| "event_error (BadWord k w) = Some (kind_error k (word_error k))"
| "event_error _ = None"

lemma kind_of_code: "kind_of_u64 (word_of_nat (kind_code k)) = Some k"
  by (cases k) (simp_all add: kind_of_u64_def)

lemma kind_code_less: "kind_code k < 8"
  by (cases k) simp_all

lemma kind_number_code: "kind_number u = kind_code (update_kind_of u)"
  by (cases u) (simp_all add: kind_number_def)

lemma update_log_kind:
  "update_log contract u = kind_log contract (update_kind_of u)
     (to_be 32 32 @ to_be 32 (length (update_payload u)) @ update_payload u)"
  by (simp add: update_log_def kind_log_def kind_number_code)

lemma update_type_kind: "update_type (kind_log contract k data) = Inr k"
proof -
  have "drop 24 (to_be 32 (kind_code k)) = to_be 8 (kind_code k)" using drop_to_be [of 24 8] by simp
  moreover have "from_be (to_be 8 (kind_code k)) = kind_code k" using kind_code_less [of k] by simp
  ultimately show ?thesis using kind_of_code [of k] by (simp add: update_type_def kind_log_def del: from_to_be)
qed

definition try_from_of :: "abi \<Rightarrow> bool \<Rightarrow> update_kind \<Rightarrow> log \<Rightarrow> update_error + system_config_update" where
  "try_from_of abi eco k lg =
     (case k of
        KBatcher \<Rightarrow> batcher_try_from abi lg
      | KGasConfig \<Rightarrow> gas_config_try_from abi eco lg
      | KGasLimit \<Rightarrow> gas_limit_try_from abi lg
      | KEip1559 \<Rightarrow> eip1559_try_from abi lg
      | KOperatorFee \<Rightarrow> operator_fee_try_from abi lg
      | KUnsafeBlockSigner \<Rightarrow> signer_try_from abi lg
      | KMinBaseFee \<Rightarrow> min_base_fee_try_from abi lg
      | KDaFootprintGasScalar \<Rightarrow> da_footprint_try_from abi lg)"

lemma build_kind_log:
  "build abi eco (kind_log contract k data) = map_err (kind_error k) (try_from_of abi eco k (kind_log contract k data))"
proof -
  have "validate_topic (kind_log contract k data) = Inr ()" "validate_version (kind_log contract k data) = Inr ()"
    by (simp_all add: validate_topic_def validate_version_def kind_log_def EVENT_VERSION_0_def)
  then show ?thesis by (cases k) (simp_all add: build_def update_type_kind try_from_of_def)
qed

lemmas try_from_defs = batcher_try_from_def gas_config_try_from_def gas_limit_try_from_def eip1559_try_from_def
  operator_fee_try_from_def signer_try_from_def min_base_fee_try_from_def da_footprint_try_from_def

lemma try_from_bad:
  assumes "abi_ok abi"
  shows "length data \<noteq> 64 + payload_len k \<Longrightarrow>
      try_from_of abi eco k (kind_log contract k data) = Inl (InvalidDataLen (length data))"
    and "p < 2 ^ 256 \<Longrightarrow> p \<noteq> 32 \<Longrightarrow> length rest = 32 + payload_len k \<Longrightarrow>
      try_from_of abi eco k (kind_log contract k (to_be 32 p @ rest)) =
        Inl (if p < 2 ^ 64 then InvalidDataPointer (word_of_nat p) else PointerDecodingError)"
    and "l < 2 ^ 256 \<Longrightarrow> l \<noteq> payload_len k \<Longrightarrow> length payload = payload_len k \<Longrightarrow>
      try_from_of abi eco k (kind_log contract k (to_be 32 32 @ to_be 32 l @ payload)) =
        Inl (if l < 2 ^ 64 then InvalidDataLength (word_of_nat l) else LengthDecodingError)"
proof -
  have u64: "abi_u64 abi (to_be 32 n) = (if n < 2 ^ 64 then Some (word_of_nat n) else None)" if "n < 2 ^ 256" for n
    using assms that by (simp add: abi_ok_def)
  have eq: "(word_of_nat n :: u64) = word_of_nat m \<longleftrightarrow> n = m" if "n < 2 ^ 64" "m < 2 ^ 64" for n m
    using that by (simp add: word_of_nat_eq_iff take_bit_nat_eq_self)
  note eqs = eq [of _ 32, simplified] eq [of _ 64, simplified]
  show "try_from_of abi eco k (kind_log contract k data) = Inl (InvalidDataLen (length data))"
    if "length data \<noteq> 64 + payload_len k"
    using that by (cases k) (simp_all add: try_from_of_def try_from_defs validate_update_data_def check_pointer_length_def
        kind_log_def payload_len_def)
  show "try_from_of abi eco k (kind_log contract k (to_be 32 p @ rest)) =
      Inl (if p < 2 ^ 64 then InvalidDataPointer (word_of_nat p) else PointerDecodingError)"
    if "p < 2 ^ 256" "p \<noteq> 32" "length rest = 32 + payload_len k"
    using that u64 [of p] by (cases k) (simp_all add: try_from_of_def try_from_defs validate_update_data_def
        check_pointer_length_def kind_log_def payload_len_def slice_def eqs)
  show "try_from_of abi eco k (kind_log contract k (to_be 32 32 @ to_be 32 l @ payload)) =
      Inl (if l < 2 ^ 64 then InvalidDataLength (word_of_nat l) else LengthDecodingError)"
    if "l < 2 ^ 256" "l \<noteq> payload_len k" "length payload = payload_len k"
    using that u64 [of l] u64 [of 32] by (cases k) (simp_all add: try_from_of_def try_from_defs validate_update_data_def
        check_pointer_length_def kind_log_def payload_len_def slice_def eqs)
qed

lemma from_be_word: "length w = 32 \<Longrightarrow> from_be w < 2 ^ 256"
  using from_be_less [of w] by simp

lemma try_from_bad_word:
  assumes "abi_ok abi" and "length w = 32" and "\<not> word_fits k w"
  shows "try_from_of abi eco k (kind_log contract k (to_be 32 32 @ to_be 32 32 @ w)) = Inl (word_error k)"
proof -
  have chk: "check_pointer_length abi 96 32 (to_be 32 32 @ to_be 32 32 @ w) f = f ()" for f :: "unit \<Rightarrow> update_error + 'x"
    using check_pointer_length_ok [OF assms(1), of w 96 32] assms(2) by simp
  have abi: "abi_u16 abi w = (if from_be w < 2 ^ 16 then Some (word_of_nat (from_be w)) else None)"
    "abi_u64 abi w = (if from_be w < 2 ^ 64 then Some (word_of_nat (from_be w)) else None)"
    "abi_u256 abi w = Some (word_of_nat (from_be w))"
    "abi_address abi w = (if take 12 w = replicate 12 0 then Some (drop 12 w) else None)"
    using assms(1,2) unfolding abi_ok_def by blast+
  have "unat (word_of_nat (from_be w) :: 256 word) = from_be w"
    using from_be_word [OF assms(2)] by (simp add: unsigned_of_nat take_bit_nat_eq_self)
  moreover have "unat (ucast (- 1 :: u64) :: 256 word) = 2 ^ 64 - 1"
    by (simp add: unsigned_ucast_eq unsigned_minus_1_eq_mask mask_eq_exp_minus_1 take_bit_nat_eq_self_iff)
  ultimately have big: "(word_of_nat (from_be w) :: 256 word) > ucast (- 1 :: u64)" if "\<not> from_be w < 2 ^ 64"
    using that by (simp add: word_less_nat_alt)
  show ?thesis
    using assms(2,3) validate_log_data [OF assms(1,2)] big
    by (cases k) (simp_all add: try_from_of_def try_from_defs kind_log_def chk abi word_fits_def word_error_def slice_def)
qed

lemma build_announced:
  assumes "abi_ok abi" and "update_wf False u"
  shows "\<exists>u'. event_update eco (Announces u) = Some u' \<and> build abi eco (update_log contract u) = Inr u'"
proof (cases "\<exists>s v. u = GasConfigUpdate (Some s) (Some v)")
  case True
  then obtain s v where u: "u = GasConfigUpdate (Some s) (Some v)" by blast
  have less: "unat s < 2 ^ 256" "unat v < 2 ^ 256"
    using unsigned_less [of s, where 'a = nat] unsigned_less [of v, where 'a = nat] by simp_all
  have chk: "check_pointer_length abi 128 64 (to_be 32 32 @ to_be 32 64 @ to_be 32 (unat v) @ to_be 32 (unat s)) f = f ()"
    for f :: "unit \<Rightarrow> update_error + system_config_update"
    using check_pointer_length_ok [OF assms(1), of "to_be 32 (unat v) @ to_be 32 (unat s)" 128 64 f] by simp
  have "gas_config_try_from abi eco (update_log contract u) = Inr (the (event_update eco (Announces u)))"
    using less abi_words(3) [OF assms(1), of "unat s"] abi_words(3) [OF assms(1), of "unat v"]
    by (cases eco) (simp_all add: u gas_config_try_from_def update_log_def slice_def chk)
  then show ?thesis
    unfolding update_log_kind build_kind_log by (simp add: u try_from_of_def)
next
  case False
  have e: "event_update eco (Announces u) = Some u"
    using False assms(2) by (cases "(eco, Announces u)" rule: event_update.cases) auto
  have "update_wf eco u"
    using False assms(2) by (cases "(eco, u)" rule: update_wf.cases) auto
  then show ?thesis using build_update_log [OF assms(1)] e by blast
qed

lemma event_logged:
  assumes "abi_ok abi" and "event_wf contract ev"
  defines "lg \<equiv> event_log contract ev"
  shows "case (event_update eco ev, event_error ev) of
      (Some u, _) \<Rightarrow> event_error ev = None \<and> build abi eco lg = Inr u
    | (None, Some e) \<Rightarrow> build abi eco lg = Inl e
    | (None, None) \<Rightarrow> \<not> (lg_address lg = contract \<and> lg_topics lg \<noteq> [] \<and> lg_topics lg ! 0 = CONFIG_UPDATE_TOPIC)"
proof (cases ev)
  case (Announces u)
  then show ?thesis using build_announced [OF assms(1), of u eco contract] assms(2) by (auto simp: lg_def)
next
  case (Elsewhere lg)
  then show ?thesis using assms(2) by (auto simp: lg_def neq_Nil_conv split: list.splits)
next
  case (UnknownKind t data)
  have "from_be (drop 24 t) < 2 ^ 64" using from_be_less [of "drop 24 t"] assms(2) UnknownKind by simp
  then have n: "unat (word_of_nat (from_be (drop 24 t)) :: u64) = from_be (drop 24 t)"
    by (simp add: unsigned_of_nat take_bit_nat_eq_self)
  have "kind_of_u64 (word_of_nat (from_be (drop 24 t))) = None"
  proof -
    have "(word_of_nat (from_be (drop 24 t)) :: u64) \<noteq> m" if "unat m < 8" for m
      using that n assms(2) UnknownKind by auto
    then show ?thesis by (simp add: kind_of_u64_def)
  qed
  then show ?thesis
    using assms(2) by (simp add: UnknownKind lg_def build_def validate_topic_def validate_version_def EVENT_VERSION_0_def
        update_type_def)
qed (use assms in \<open>simp_all add: build_kind_log try_from_bad try_from_bad_word\<close>,
  simp_all add: build_def validate_topic_def validate_version_def EVENT_VERSION_0_def)

lemma event_relevant:
  assumes "event_update eco ev \<noteq> None \<or> event_error ev \<noteq> None"
  shows "lg_address (event_log contract ev) = contract \<and> lg_topics (event_log contract ev) \<noteq> [] \<and>
    lg_topics (event_log contract ev) ! 0 = CONFIG_UPDATE_TOPIC"
  using assms by (cases ev) (simp_all add: update_log_def kind_log_def)

lemma events_logged:
  assumes "abi_ok abi" and "\<forall>ev \<in> set evs. event_wf contract ev"
  defines "lgs \<equiv> filter (\<lambda>lg. lg_address lg = contract \<and> lg_topics lg \<noteq> [] \<and> lg_topics lg ! 0 = CONFIG_UPDATE_TOPIC)
      (map (event_log contract) evs)"
  shows "built abi eco lgs = List.map_filter (event_update eco) evs \<and> rejected abi eco lgs = List.map_filter event_error evs"
  using assms(2) unfolding lgs_def
proof (induction evs)
  case (Cons ev evs)
  then show ?case
    using event_logged [OF assms(1), of contract ev eco] event_relevant [of eco ev contract]
    by (cases "event_update eco ev"; cases "event_error ev") (auto simp: built_def rejected_def map_filter_simps)
qed (simp add: built_def rejected_def map_filter_simps)

text \<open>The value of the last update that sets a field, or the old value.\<close>

definition latest :: "(system_config_update \<Rightarrow> 'v option) \<Rightarrow> system_config_update list \<Rightarrow> 'v \<Rightarrow> 'v" where
  "latest f us old = (case List.map_filter f (rev us) of [] \<Rightarrow> old | v # _ \<Rightarrow> v)"

lemma latest_Nil [simp]: "latest f [] old = old"
  by (simp add: latest_def map_filter_simps)

lemma latest_snoc [simp]: "latest f (us @ [u]) old = (case f u of None \<Rightarrow> latest f us old | Some v \<Rightarrow> v)"
  by (simp add: latest_def map_filter_simps split: option.split)

lemma updates_latest:
  "fold apply_update us c =
    \<lparr>sc_batcher_address = latest (\<lambda>u. case u of BatcherUpdate a \<Rightarrow> Some a | _ \<Rightarrow> None) us (sc_batcher_address c),
     sc_overhead = latest (\<lambda>u. case u of GasConfigUpdate s v \<Rightarrow> v | _ \<Rightarrow> None) us (sc_overhead c),
     sc_scalar = latest (\<lambda>u. case u of GasConfigUpdate s v \<Rightarrow> s | _ \<Rightarrow> None) us (sc_scalar c),
     sc_gas_limit = latest (\<lambda>u. case u of GasLimitUpdate g \<Rightarrow> Some g | _ \<Rightarrow> None) us (sc_gas_limit c),
     sc_base_fee_scalar = sc_base_fee_scalar c,
     sc_blob_base_fee_scalar = sc_blob_base_fee_scalar c,
     sc_eip1559_denominator =
       latest (\<lambda>u. case u of Eip1559Update d e \<Rightarrow> Some (Some d) | _ \<Rightarrow> None) us (sc_eip1559_denominator c),
     sc_eip1559_elasticity =
       latest (\<lambda>u. case u of Eip1559Update d e \<Rightarrow> Some (Some e) | _ \<Rightarrow> None) us (sc_eip1559_elasticity c),
     sc_operator_fee_scalar =
       latest (\<lambda>u. case u of OperatorFeeUpdate s k \<Rightarrow> Some (Some s) | _ \<Rightarrow> None) us (sc_operator_fee_scalar c),
     sc_operator_fee_constant =
       latest (\<lambda>u. case u of OperatorFeeUpdate s k \<Rightarrow> Some (Some k) | _ \<Rightarrow> None) us (sc_operator_fee_constant c),
     sc_min_base_fee = latest (\<lambda>u. case u of MinBaseFeeUpdate f \<Rightarrow> Some (Some f) | _ \<Rightarrow> None) us (sc_min_base_fee c),
     sc_da_footprint_gas_scalar =
       latest (\<lambda>u. case u of DaFootprintGasScalarUpdate s \<Rightarrow> Some (Some (if s = 0 then 400 else s)) | _ \<Rightarrow> None) us
         (sc_da_footprint_gas_scalar c)\<rparr>"
proof (induction us rule: rev_induct)
  case (snoc u us)
  then show ?case by (cases u) (simp_all add: SC_DEFAULT_DA_FOOTPRINT_def Let_def split: option.split)
qed simp

text \<open>
  C19. What receipts do to the system config, for receipts that hold any mixture of announcements, foreign logs and
  malformed events. The receipts that failed count for nothing. Of the others, the kinds of the announced
  updates and the errors of the malformed events are reported, each in log order, and no malformed event keeps a
  later update from being applied. Each field of the new config is the value of the last update that
  sets it, or the old value; a DA footprint scalar of zero stands for 400.
\<close>

theorem receipts_take_latest:
  fixes receipts :: "(eip658_value \<times> config_event list) list" and eco :: bool
  defines "evs \<equiv> concat (map snd (filter (\<lambda>(status, _). status \<noteq> Eip658 False) receipts))"
  defines "us \<equiv> List.map_filter (event_update eco) evs"
  assumes "abi_ok abi" and "\<forall>ev \<in> set evs. event_wf contract ev"
  shows "update_with_receipts abi
      (map (\<lambda>(status, evs). \<lparr>rcpt_status = status, rcpt_logs = map (event_log contract) evs\<rparr>) receipts) contract eco c =
    ((map update_kind_of us, List.map_filter event_error evs),
    \<lparr>sc_batcher_address = latest (\<lambda>u. case u of BatcherUpdate a \<Rightarrow> Some a | _ \<Rightarrow> None) us (sc_batcher_address c),
     sc_overhead = latest (\<lambda>u. case u of GasConfigUpdate s v \<Rightarrow> v | _ \<Rightarrow> None) us (sc_overhead c),
     sc_scalar = latest (\<lambda>u. case u of GasConfigUpdate s v \<Rightarrow> s | _ \<Rightarrow> None) us (sc_scalar c),
     sc_gas_limit = latest (\<lambda>u. case u of GasLimitUpdate g \<Rightarrow> Some g | _ \<Rightarrow> None) us (sc_gas_limit c),
     sc_base_fee_scalar = sc_base_fee_scalar c,
     sc_blob_base_fee_scalar = sc_blob_base_fee_scalar c,
     sc_eip1559_denominator =
       latest (\<lambda>u. case u of Eip1559Update d e \<Rightarrow> Some (Some d) | _ \<Rightarrow> None) us (sc_eip1559_denominator c),
     sc_eip1559_elasticity =
       latest (\<lambda>u. case u of Eip1559Update d e \<Rightarrow> Some (Some e) | _ \<Rightarrow> None) us (sc_eip1559_elasticity c),
     sc_operator_fee_scalar =
       latest (\<lambda>u. case u of OperatorFeeUpdate s k \<Rightarrow> Some (Some s) | _ \<Rightarrow> None) us (sc_operator_fee_scalar c),
     sc_operator_fee_constant =
       latest (\<lambda>u. case u of OperatorFeeUpdate s k \<Rightarrow> Some (Some k) | _ \<Rightarrow> None) us (sc_operator_fee_constant c),
     sc_min_base_fee = latest (\<lambda>u. case u of MinBaseFeeUpdate f \<Rightarrow> Some (Some f) | _ \<Rightarrow> None) us (sc_min_base_fee c),
     sc_da_footprint_gas_scalar =
       latest (\<lambda>u. case u of DaFootprintGasScalarUpdate s \<Rightarrow> Some (Some (if s = 0 then 400 else s)) | _ \<Rightarrow> None) us
         (sc_da_footprint_gas_scalar c)\<rparr>)"
proof -
  have "concat (map rcpt_logs (filter (\<lambda>r. rcpt_status r \<noteq> Eip658 False)
      (map (\<lambda>(status, evs). \<lparr>rcpt_status = status, rcpt_logs = map (event_log contract) evs\<rparr>) receipts))) =
    map (event_log contract) evs"
    unfolding evs_def by (induction receipts) auto
  then show ?thesis
    using events_logged [OF assms(3,4), of eco]
    by (simp add: update_with_receipts_def update_fold config_logs_def us_def updates_latest [symmetric])
qed

theorem receipts_take_latest_witness:
  fixes receipts
  defines "receipts \<equiv> [(Eip658 True, [Announces (GasLimitUpdate 60000000), BadPointer KGasLimit 64 (replicate 64 0),
      Announces (Eip1559Update 250 6), Elsewhere \<lparr>lg_address = [2], lg_topics = [CONFIG_UPDATE_TOPIC], lg_data = []\<rparr>]),
    (Eip658 False, [Announces (GasLimitUpdate 1)]),
    (PostState [], [FewTopics [] [], Announces (DaFootprintGasScalarUpdate 0), Announces (GasLimitUpdate 75000000)])]"
  shows "update_with_receipts std_abi
      (map (\<lambda>(status, evs). \<lparr>rcpt_status = status, rcpt_logs = map (event_log [1]) evs\<rparr>) receipts) [1] True system_config_default =
    (([KGasLimit, KEip1559, KDaFootprintGasScalar, KGasLimit],
      [GasLimitError (InvalidDataPointer 64), LogProcessing (InvalidTopicLen 1)]),
     system_config_default\<lparr>sc_gas_limit := 75000000, sc_eip1559_denominator := Some 250, sc_eip1559_elasticity := Some 6,
       sc_da_footprint_gas_scalar := Some 400\<rparr>)"
proof -
  have 1: "abi_ok std_abi" by (simp add: abi_ok_def std_abi_def)
  have 2: "\<forall>ev \<in> set (concat (map snd (filter (\<lambda>(status, _). status \<noteq> Eip658 False) receipts))). event_wf [1] ev"
    by (simp add: receipts_def payload_len_def)
  show ?thesis
    unfolding receipts_take_latest [OF 1 2, of True system_config_default]
    by (simp add: receipts_def map_filter_simps latest_def system_config_default_def)
qed



lemma and_then_Inr: "and_then r f = Inr b \<longleftrightarrow> (\<exists>a. r = Inr a \<and> f a = Inr b)"
  by (cases r) simp_all

lemma map_err_Inr: "map_err f r = Inr b \<longleftrightarrow> r = Inr b"
  by (cases r) simp_all

text \<open>Which decoder a gas config update comes from, and what it lets through once Ecotone is active.\<close>

lemma try_from_kind:
  "batcher_try_from abi lg = Inr u \<Longrightarrow> update_kind_of u = KBatcher"
  "signer_try_from abi lg = Inr u \<Longrightarrow> update_kind_of u = KUnsafeBlockSigner"
  "eip1559_try_from abi lg = Inr u \<Longrightarrow> update_kind_of u = KEip1559"
  "operator_fee_try_from abi lg = Inr u \<Longrightarrow> update_kind_of u = KOperatorFee"
  by (auto simp: batcher_try_from_def signer_try_from_def eip1559_try_from_def operator_fee_try_from_def
      and_then_Inr split: option.splits)

lemma check_pointer_length_Inr:
  "check_pointer_length abi n e data k = Inr r \<Longrightarrow> k () = Inr r"
  by (auto simp: check_pointer_length_def split: if_splits option.splits)

lemma try_from_kind':
  "gas_limit_try_from abi lg = Inr u \<Longrightarrow> update_kind_of u = KGasLimit"
  "min_base_fee_try_from abi lg = Inr u \<Longrightarrow> update_kind_of u = KMinBaseFee"
  "da_footprint_try_from abi lg = Inr u \<Longrightarrow> update_kind_of u = KDaFootprintGasScalar"
  by (auto simp: gas_limit_try_from_def min_base_fee_try_from_def da_footprint_try_from_def Let_def
      dest!: check_pointer_length_Inr split: option.splits if_splits)

lemma gas_config_kind: "gas_config_try_from abi eco lg = Inr u \<Longrightarrow> update_kind_of u = KGasConfig"
  by (auto simp: gas_config_try_from_def Let_def dest!: check_pointer_length_Inr split: option.splits if_splits)

lemma build_cases:
  assumes "build abi eco lg = Inr u"
  shows "(update_kind_of u = KBatcher \<longrightarrow> batcher_try_from abi lg = Inr u) \<and>
    (update_kind_of u = KGasConfig \<longrightarrow> gas_config_try_from abi eco lg = Inr u)"
proof -
  obtain k where k: "(case k of
         KBatcher \<Rightarrow> map_err BatcherError (batcher_try_from abi lg)
       | KGasConfig \<Rightarrow> map_err GasConfigError (gas_config_try_from abi eco lg)
       | KGasLimit \<Rightarrow> map_err GasLimitError (gas_limit_try_from abi lg)
       | KEip1559 \<Rightarrow> map_err Eip1559Error (eip1559_try_from abi lg)
       | KOperatorFee \<Rightarrow> map_err OperatorFeeError (operator_fee_try_from abi lg)
       | KUnsafeBlockSigner \<Rightarrow> map_err UnsafeBlockSignerError (signer_try_from abi lg)
       | KMinBaseFee \<Rightarrow> map_err MinBaseFeeError (min_base_fee_try_from abi lg)
       | KDaFootprintGasScalar \<Rightarrow> map_err DaFootprintGasScalarError (da_footprint_try_from abi lg)) =
      Inr u"
    using assms unfolding build_def and_then_Inr by blast
  then show ?thesis
    by (cases k) (auto simp: map_err_Inr dest!: try_from_kind try_from_kind' gas_config_kind)
qed

lemma build_gas_config:
  "build abi eco lg = Inr (GasConfigUpdate s v) \<Longrightarrow> gas_config_try_from abi eco lg = Inr (GasConfigUpdate s v)"
  using build_cases by fastforce

lemma gas_config_ecotone:
  "gas_config_try_from abi True lg = Inr (GasConfigUpdate s v) \<Longrightarrow>
     (s = None \<and> v = None) \<or>
     (\<exists>w. s = Some w \<and> v = Some 0 \<and> check_ecotone_l1_system_config_scalar (to_be 32 (unat w)) = Inr ())"
  by (auto simp: gas_config_try_from_def Let_def dest!: check_pointer_length_Inr split: option.splits if_splits)

definition ecotone_fees_ok :: "256 word \<Rightarrow> system_config \<Rightarrow> bool" where
  "ecotone_fees_ok overhead c \<longleftrightarrow>
     check_ecotone_l1_system_config_scalar (to_be 32 (unat (sc_scalar c))) = Inr () \<and>
     (sc_overhead c = overhead \<or> sc_overhead c = 0)"

lemma apply_update_ecotone:
  assumes "build abi True lg = Inr u" "ecotone_fees_ok v c"
  shows "ecotone_fees_ok v (apply_update u c)"
proof (cases u)
  case (GasConfigUpdate s v')
  then show ?thesis
    using assms gas_config_ecotone [OF build_gas_config, of abi lg s v'] by (auto simp: ecotone_fees_ok_def)
qed (use assms in \<open>simp_all add: ecotone_fees_ok_def\<close>)

text \<open>
  Once Ecotone is active no log can install an invalid fee scalar: a system config whose
  scalar has a valid Ecotone encoding keeps one through any receipts whatsoever, and the
  fee overhead is never changed to anything but zero.
\<close>

theorem ecotone_scalar_stays_valid:
  assumes "check_ecotone_l1_system_config_scalar (to_be 32 (unat (sc_scalar c))) = Inr ()"
  shows "check_ecotone_l1_system_config_scalar
      (to_be 32 (unat (sc_scalar (snd (update_with_receipts abi receipts contract True c))))) = Inr () \<and>
    sc_overhead (snd (update_with_receipts abi receipts contract True c)) \<in> {sc_overhead c, 0}"
proof -
  have "ecotone_fees_ok v (fold apply_update (built abi True lgs) c')" if "ecotone_fees_ok v c'" for v lgs c'
    using that
    by (induction lgs arbitrary: c')
      (auto simp: built_def map_filter_simps apply_update_ecotone split: sum.splits)
  from this [of "sc_overhead c" c "config_logs contract receipts"] show ?thesis
    using assms by (auto simp: update_with_receipts_def update_fold ecotone_fees_ok_def)
qed

theorem ecotone_scalar_stays_valid_witness:
  "check_ecotone_l1_system_config_scalar (to_be 32 (unat (sc_scalar system_config_default))) = Inr () \<and>
   check_ecotone_l1_system_config_scalar
     (to_be 32 (unat (sc_scalar (snd (update_with_receipts std_abi
        [\<lparr>rcpt_status = Eip658 True, rcpt_logs = [update_log [1] (GasConfigUpdate (Some 7) (Some 9))]\<rparr>]
        [1] True system_config_default))))) = Inr ()"
proof -
  have "to_be n 0 = replicate n 0" for n by (induction n) (simp_all add: replicate_append_same)
  then have "check_ecotone_l1_system_config_scalar (to_be 32 (unat (sc_scalar system_config_default))) = Inr ()"
    by (simp add: system_config_default_def check_ecotone_l1_system_config_scalar_def slice_def)
  then show ?thesis using ecotone_scalar_stays_valid by blast
qed

section \<open>The batcher address\<close>

lemma build_batcher_length:
  assumes "abi_ok abi" and "build abi eco lg = Inr (BatcherUpdate a)"
  shows "length a = 20"
proof -
  have "batcher_try_from abi lg = Inr (BatcherUpdate a)" using build_cases [OF assms(2)] by simp
  then obtain w where "validate_update_data abi (lg_data lg) = Inr w" "abi_address abi w = Some a"
    by (auto simp: batcher_try_from_def and_then_Inr map_err_Inr split: option.splits)
  moreover from this have w: "length w = 32"
    by (auto simp: validate_update_data_def split: if_splits option.splits)
  moreover have "abi_address abi w = (if take 12 w = replicate 12 0 then Some (drop 12 w) else None)"
    using assms(1) w unfolding abi_ok_def by blast
  ultimately show ?thesis by (auto split: if_splits)
qed

lemma batcher_length_kept:
  assumes "abi_ok abi" and "length (sc_batcher_address c) = 20"
  shows "length (sc_batcher_address (snd (update_with_receipts abi receipts contract eco c))) = 20"
proof -
  have "length (sc_batcher_address (fold apply_update us c)) = 20"
    if "\<forall>u\<in>set us. \<forall>a. u = BatcherUpdate a \<longrightarrow> length a = 20" "length (sc_batcher_address c) = 20" for us c
    using that
  proof (induction us arbitrary: c)
    case (Cons u us)
    then show ?case by (cases u) (auto simp: Let_def split: option.splits)
  qed simp
  moreover have "\<forall>u\<in>set (built abi eco lgs). \<forall>a. u = BatcherUpdate a \<longrightarrow> length a = 20" for lgs
    using build_batcher_length [OF assms(1)] by (auto simp: built_def map_filter_def split: sum.splits)
  ultimately show ?thesis using assms(2) by (simp add: update_with_receipts_def update_fold)
qed

end
