(* ===== verification/Batches.thy ===== *)
theory Batches
  imports L1_Info
begin

text \<open>
  Batches and their validity (\<open>src/crates/consensus/protocol/src/batch/\<close>: \<open>single.rs\<close>,
  \<open>span.rs\<close>, \<open>element.rs\<close>, \<open>validity.rs\<close>, \<open>inclusion.rs\<close>). The provider of L2 blocks that
  span checks query is third-party to this crate and a parameter: a record of two lookups
  that answer \<open>None\<close> on error. A panic of the source (a division by a zero block time, an
  index out of range) is the value \<open>None\<close> of the check. The lemmas characterise accepted
  single batches and show that verdicts do not depend on L1 blocks that arrive later.
\<close>

section \<open>Verdicts\<close>

datatype batch_drop_reason =
    FutureTimestampHolocene
  | PastTimestampPreHolocene
  | ParentHashMismatch
  | IncludedTooLate
  | EpochTooOld
  | EpochTooFarInFuture
  | EpochHashMismatch
  | SameSecondOriginChange
  | TimestampBeforeL1Origin
  | SequencerDriftOverflow
  | SequencerDriftExceeded
  | SequencerDriftNotAdoptedNextOrigin
  | EmptyTransaction
  | DepositTransaction
  | Eip7702PreIsthmus
  | Eip8130PreEverest
  | NonEmptyTransitionBlock
  | SpanBatchPreDelta
  | SpanBatchPostDenim
  | SpanBatchNoNewBlocksPreHolocene
  | SpanBatchMisalignedTimestamp
  | SpanBatchNotOverlappedExactly
  | L1OriginBeforeSafeHead
  | MissingL1Origin
  | OverlappedTxCountMismatch
  | OverlappedTxMismatch
  | L2BlockInfoExtractionFailed
  | OverlappedL1OriginMismatch

datatype batch_validity = Drop batch_drop_reason | Accept | Undecided | Future | Past

definition is_accept :: "batch_validity \<Rightarrow> bool" where
  "is_accept v \<longleftrightarrow> v = Accept"

fun is_drop :: "batch_validity \<Rightarrow> bool" where
  "is_drop (Drop r) = True"
| "is_drop _ = False"

fun drop_reason :: "batch_validity \<Rightarrow> batch_drop_reason option" where
  "drop_reason (Drop r) = Some r"
| "drop_reason _ = None"

definition is_outdated :: "batch_validity \<Rightarrow> bool" where
  "is_outdated v \<longleftrightarrow> v = Past"

definition is_future :: "batch_validity \<Rightarrow> bool" where
  "is_future v \<longleftrightarrow> v = Future"

text \<open>An early return of a verdict, or the value to go on with.\<close>

definition or_verdict :: "batch_validity + 'a \<Rightarrow> ('a \<Rightarrow> batch_validity) \<Rightarrow> batch_validity" where
  "or_verdict r f = (case r of Inl v \<Rightarrow> v | Inr a \<Rightarrow> f a)"

section \<open>Transactions of a batch\<close>

definition TX_DEPOSIT :: u8 where
  "TX_DEPOSIT = 126"

definition TX_EIP7702 :: u8 where
  "TX_EIP7702 = 4"

definition TX_EIP8130 :: u8 where
  "TX_EIP8130 = 0x79"

text \<open>The loop over the transactions at the end of both checks: the first drop reason.\<close>

fun check_transactions ::
    "registry \<Rightarrow> rollup_config \<Rightarrow> u64 \<Rightarrow> bytes list \<Rightarrow> batch_drop_reason option" where
  "check_transactions reg cfg t [] = None"
| "check_transactions reg cfg t (tx # txs) =
     (if tx = [] then Some EmptyTransaction
      else if hd tx = TX_DEPOSIT then Some DepositTransaction
      else if \<not> is_isthmus_active reg cfg t \<and> hd tx = TX_EIP7702 then Some Eip7702PreIsthmus
      else if \<not> is_everest_active reg cfg t \<and> hd tx = TX_EIP8130 then Some Eip8130PreEverest
      else check_transactions reg cfg t txs)"

section \<open>Single batches\<close>

record single_batch =
  sb_parent_hash :: hash32
  sb_epoch_num :: u64
  sb_epoch_hash :: hash32
  sb_timestamp :: u64
  sb_transactions :: "bytes list"

definition sb_epoch :: "single_batch \<Rightarrow> block_num_hash" where
  "sb_epoch b = \<lparr>bnh_number = sb_epoch_num b, bnh_hash = sb_epoch_hash b\<rparr>"

text \<open>The scheduled timestamp of the block after the safe head.\<close>

definition next_l2_timestamp :: "registry \<Rightarrow> rollup_config \<Rightarrow> l2_block_info \<Rightarrow> u64" where
  "next_l2_timestamp reg cfg safe =
     l2_block_timestamp reg cfg (sat_add (bi_number (l2_block safe)) 1)"

definition check_batch_timestamp ::
    "registry \<Rightarrow> rollup_config \<Rightarrow> single_batch \<Rightarrow> l2_block_info \<Rightarrow> block_info \<Rightarrow> batch_validity" where
  "check_batch_timestamp reg cfg b safe incl =
     (let next_timestamp = next_l2_timestamp reg cfg safe in
      if sb_timestamp b > next_timestamp then
        (if is_holocene_active reg cfg (bi_timestamp incl) then Drop FutureTimestampHolocene
         else Future)
      else if sb_timestamp b < next_timestamp then
        (if is_holocene_active reg cfg (bi_timestamp incl) then Past
         else Drop PastTimestampPreHolocene)
      else Accept)"

definition same_second :: "registry \<Rightarrow> rollup_config \<Rightarrow> single_batch \<Rightarrow> l2_block_info \<Rightarrow> bool" where
  "same_second reg cfg b safe \<longleftrightarrow>
     is_denim_active reg cfg (sb_timestamp b) \<and> sb_timestamp b = bi_timestamp (l2_block safe)"

text \<open>The L1 origin the batch claims: the current epoch or the next one.\<close>

definition single_batch_origin ::
    "single_batch \<Rightarrow> block_info \<Rightarrow> block_info list \<Rightarrow> batch_validity + block_info" where
  "single_batch_origin b epoch rest =
     (if sb_epoch_num b < bi_number epoch then Inl (Drop EpochTooOld)
      else if sb_epoch_num b = bi_number epoch then Inr epoch
      else if sb_epoch_num b = bi_number epoch + 1 then
        (case rest of [] \<Rightarrow> Inl Undecided | next # _ \<Rightarrow> Inr next)
      else Inl (Drop EpochTooFarInFuture))"

text \<open>The sequencer drift rule once \<open>max\<close> is known.\<close>

definition check_drift ::
    "single_batch \<Rightarrow> bool \<Rightarrow> u64 \<Rightarrow> block_info \<Rightarrow> block_info \<Rightarrow> block_info list
     \<Rightarrow> batch_validity + unit" where
  "check_drift b same_sec max_time batch_origin epoch rest =
     (let no_txs = (sb_transactions b = []) in
      if sb_timestamp b > max_time \<and> \<not> no_txs then Inl (Drop SequencerDriftExceeded)
      else if sb_timestamp b > max_time \<and> no_txs then
        (if bi_number epoch = bi_number batch_origin \<and> \<not> same_sec then
           (case rest of
              [] \<Rightarrow> Inl Undecided
            | next_origin # _ \<Rightarrow>
                if sb_timestamp b \<ge> bi_timestamp next_origin
                then Inl (Drop SequencerDriftNotAdoptedNextOrigin) else Inr ())
         else Inr ())
      else Inr ())"

definition check_batch_single ::
    "registry \<Rightarrow> rollup_config \<Rightarrow> single_batch \<Rightarrow> block_info list \<Rightarrow> l2_block_info \<Rightarrow> block_info
     \<Rightarrow> batch_validity" where
  "check_batch_single reg cfg b l1_blocks safe incl =
     (case l1_blocks of
        [] \<Rightarrow> Undecided
      | epoch # rest \<Rightarrow>
          let timestamp_check = check_batch_timestamp reg cfg b safe incl in
          if \<not> is_accept timestamp_check then timestamp_check
          else if sb_parent_hash b \<noteq> bi_hash (l2_block safe) then Drop ParentHashMismatch
          else if same_second reg cfg b safe \<and> sb_epoch b \<noteq> l2_l1_origin safe
            then Drop SameSecondOriginChange
          else if sb_epoch_num b + rc_seq_window_size cfg < bi_number incl then Drop IncludedTooLate
          else or_verdict (single_batch_origin b epoch rest) (\<lambda>batch_origin.
            if sb_epoch_hash b \<noteq> bi_hash batch_origin then Drop EpochHashMismatch
            else if sb_timestamp b < bi_timestamp batch_origin then Drop TimestampBeforeL1Origin
            else case checked_add (bi_timestamp batch_origin)
                        (max_sequencer_drift reg cfg (bi_timestamp batch_origin)) of
              None \<Rightarrow> Drop SequencerDriftOverflow
            | Some max_time \<Rightarrow>
                or_verdict (check_drift b (same_second reg cfg b safe) max_time batch_origin epoch rest)
                  (\<lambda>_.
                    if is_first_jovian_block reg cfg (sb_timestamp b) (bi_timestamp (l2_block safe)) \<and>
                       sb_transactions b \<noteq> []
                    then Drop NonEmptyTransitionBlock
                    else case check_transactions reg cfg (sb_timestamp b) (sb_transactions b) of
                      Some r \<Rightarrow> Drop r
                    | None \<Rightarrow> Accept)))"

section \<open>Span batches\<close>

text \<open>
  The compressed transactions a span batch caches for re-encoding (\<open>SpanBatchTransactions\<close>)
  are not part of this record: no operation below reads them.
\<close>

record span_batch_element =
  el_epoch_num :: u64
  el_timestamp :: u64
  el_transactions :: "bytes list"

definition MAX_SPAN_BATCH_ELEMENTS :: u64 where
  "MAX_SPAN_BATCH_ELEMENTS = 10000000"

definition element_of_single :: "single_batch \<Rightarrow> span_batch_element" where
  "element_of_single b =
     \<lparr>el_epoch_num = sb_epoch_num b, el_timestamp = sb_timestamp b,
      el_transactions = sb_transactions b\<rparr>"

record span_batch =
  sp_parent_check :: bytes
  sp_l1_origin_check :: bytes
  sp_genesis_timestamp :: u64
  sp_chain_id :: u64
  sp_batches :: "span_batch_element list"
  sp_origin_bits :: bytes
  sp_block_tx_counts :: "u64 list"

text \<open>The accessors panic on a span without blocks: \<open>None\<close>.\<close>

definition starting_timestamp :: "span_batch \<Rightarrow> u64 option" where
  "starting_timestamp sp = (case sp_batches sp of [] \<Rightarrow> None | e # _ \<Rightarrow> Some (el_timestamp e))"

definition final_timestamp :: "span_batch \<Rightarrow> u64 option" where
  "final_timestamp sp =
     (if sp_batches sp = [] then None else Some (el_timestamp (last (sp_batches sp))))"

definition starting_epoch_num :: "span_batch \<Rightarrow> u64 option" where
  "starting_epoch_num sp = (case sp_batches sp of [] \<Rightarrow> None | e # _ \<Rightarrow> Some (el_epoch_num e))"

definition check_origin_hash :: "span_batch \<Rightarrow> hash32 \<Rightarrow> bool" where
  "check_origin_hash sp h \<longleftrightarrow> sp_l1_origin_check sp = take 20 h"

definition check_parent_hash :: "span_batch \<Rightarrow> hash32 \<Rightarrow> bool" where
  "check_parent_hash sp h \<longleftrightarrow> sp_parent_check sp = take 20 h"

datatype span_decoding_error =
    RelativeTimestamp
  | L1OriginNumber
  | ParentCheck
  | L1OriginCheck
  | BlockCount
  | BlockTxCounts
  | TxNonces
  | TypeSignatureLenMismatch
  | InvalidTransactionType
  | InvalidTransactionData
  | InvalidAuthData
  | InvalidTransactionSignature

datatype span_batch_error =
    TooBigSpanBatchSize
  | BitfieldTooLong
  | EmptySpanBatch
  | SpanL1OriginBeforeSafeHead
  | SpanMissingL1Origin
  | SpanDecoding span_decoding_error

text \<open>\<open>iter().enumerate().find(|b| b.number == n)\<close>: the offset and the block.\<close>

fun find_origin :: "u64 \<Rightarrow> block_info list \<Rightarrow> (nat \<times> block_info) option" where
  "find_origin n [] = None"
| "find_origin n (b # bs) =
     (if bi_number b = n then Some (0, b)
      else map_option (\<lambda>(i, b). (Suc i, b)) (find_origin n bs))"

fun get_singular_batches_loop ::
    "block_info list \<Rightarrow> l2_block_info \<Rightarrow> span_batch_element list \<Rightarrow> nat
     \<Rightarrow> span_batch_error + single_batch list" where
  "get_singular_batches_loop l1_origins safe [] origin_index = Inr []"
| "get_singular_batches_loop l1_origins safe (e # es) origin_index =
     (if el_timestamp e \<le> bi_timestamp (l2_block safe)
      then get_singular_batches_loop l1_origins safe es origin_index
      else if el_epoch_num e < bnh_number (l2_l1_origin safe) then Inl SpanL1OriginBeforeSafeHead
      else case find_origin (el_epoch_num e) (drop origin_index l1_origins) of
        None \<Rightarrow> Inl SpanMissingL1Origin
      | Some (i, orig) \<Rightarrow>
          and_then (get_singular_batches_loop l1_origins safe es (origin_index + i)) (\<lambda>rest.
            Inr (\<lparr>sb_parent_hash = B256_ZERO, sb_epoch_num = el_epoch_num e,
                  sb_epoch_hash = bi_hash orig, sb_timestamp = el_timestamp e,
                  sb_transactions = el_transactions e\<rparr> # rest)))"

definition get_singular_batches ::
    "span_batch \<Rightarrow> block_info list \<Rightarrow> l2_block_info \<Rightarrow> span_batch_error + single_batch list" where
  "get_singular_batches sp l1_origins safe =
     get_singular_batches_loop l1_origins safe (sp_batches sp) 0"

subsection \<open>The provider and the prefix check\<close>

record batch_validation_provider =
  bvp_l2_block_info_by_number :: "u64 \<Rightarrow> l2_block_info option"
  bvp_block_by_number :: "u64 \<Rightarrow> op_block option"

text \<open>
  The block the span builds on: the safe head, or the L2 block before an overlap. The outer
  \<open>None\<close> is the division by a zero block time; \<open>is_multiple_of(0)\<close> holds of zero only.
\<close>

definition span_parent_block ::
    "registry \<Rightarrow> rollup_config \<Rightarrow> u64 \<Rightarrow> u64 \<Rightarrow> l2_block_info \<Rightarrow> batch_validation_provider
     \<Rightarrow> (batch_validity + l2_block_info) option" where
  "span_parent_block reg cfg starting_ts next_timestamp safe fetcher =
     (let safe_ts = bi_timestamp (l2_block safe); bt = rc_block_time cfg in
      if starting_ts < next_timestamp then
        (if starting_ts > safe_ts then Some (Inl (Drop SpanBatchMisalignedTimestamp))
         else if \<not> (if bt = 0 then safe_ts - starting_ts = 0 else (safe_ts - starting_ts) mod bt = 0)
           then Some (Inl (Drop SpanBatchNotOverlappedExactly))
         else if bt = 0 then None
         else let parent_num = bi_number (l2_block safe) - (safe_ts - starting_ts) div bt - 1 in
           (case bvp_l2_block_info_by_number fetcher parent_num of
              None \<Rightarrow> Some (Inl Undecided)
            | Some p \<Rightarrow> Some (Inr p)))
      else Some (Inr safe))"

text \<open>The loop that checks the L1 origin hash of the last block of the span.\<close>

fun check_end_origin :: "span_batch \<Rightarrow> u64 \<Rightarrow> block_info list \<Rightarrow> batch_validity + unit" where
  "check_end_origin sp end_epoch_num [] = Inl Undecided"
| "check_end_origin sp end_epoch_num (b # bs) =
     (if bi_number b = end_epoch_num then
        (if check_origin_hash sp (bi_hash b) then Inr () else Inl (Drop EpochHashMismatch))
      else check_end_origin sp end_epoch_num bs)"

text \<open>The checks against the parent block once it is known.\<close>

definition check_prefix_parent ::
    "rollup_config \<Rightarrow> span_batch \<Rightarrow> u64 \<Rightarrow> block_info list \<Rightarrow> block_info \<Rightarrow> l2_block_info
     \<Rightarrow> batch_validity \<times> l2_block_info option" where
  "check_prefix_parent cfg sp starting_epoch l1_origins incl parent_block =
     (if \<not> check_parent_hash sp (bi_hash (l2_block parent_block))
        then (Drop ParentHashMismatch, None)
      else if starting_epoch + rc_seq_window_size cfg < bi_number incl
        then (Drop IncludedTooLate, None)
      else if starting_epoch > bnh_number (l2_l1_origin parent_block) + 1
        then (Drop EpochTooFarInFuture, None)
      else (case check_end_origin sp (el_epoch_num (last (sp_batches sp))) l1_origins of
         Inl v \<Rightarrow> (v, None)
       | Inr _ \<Rightarrow>
           if starting_epoch < bnh_number (l2_l1_origin parent_block)
             then (Drop EpochTooOld, None)
           else (Accept, Some parent_block)))"

text \<open>The checks on the first block's origin and the span's timestamps, before the parent.\<close>

definition check_prefix_timestamps ::
    "registry \<Rightarrow> rollup_config \<Rightarrow> span_batch \<Rightarrow> span_batch_element \<Rightarrow> u64 \<Rightarrow> block_info
     \<Rightarrow> block_info list \<Rightarrow> block_info \<Rightarrow> batch_validity + unit" where
  "check_prefix_timestamps reg cfg sp first next_timestamp epoch rest incl =
     (if el_epoch_num first = bi_number epoch + 1 \<and> rest = [] then Inl Undecided
      else let batch_origin = (if el_epoch_num first = bi_number epoch + 1 then hd rest else epoch) in
      if \<not> is_delta_active reg cfg (bi_timestamp batch_origin) then Inl (Drop SpanBatchPreDelta)
      else if el_timestamp first > next_timestamp then
        Inl (if is_holocene_active reg cfg (bi_timestamp incl)
             then Drop FutureTimestampHolocene else Future)
      else if el_timestamp (last (sp_batches sp)) < next_timestamp then
        Inl (if is_holocene_active reg cfg (bi_timestamp incl)
             then Past else Drop SpanBatchNoNewBlocksPreHolocene)
      else Inr ())"

definition check_batch_prefix ::
    "registry \<Rightarrow> rollup_config \<Rightarrow> span_batch \<Rightarrow> block_info list \<Rightarrow> l2_block_info \<Rightarrow> block_info
     \<Rightarrow> batch_validation_provider \<Rightarrow> (batch_validity \<times> l2_block_info option) option" where
  "check_batch_prefix reg cfg sp l1_origins safe incl fetcher =
     (case l1_origins of
        [] \<Rightarrow> Some (Undecided, None)
      | epoch # rest \<Rightarrow>
          (case sp_batches sp of
             [] \<Rightarrow> Some (Undecided, None)
           | first # _ \<Rightarrow>
               let next = bi_number (l2_block safe) + 1;
                   next_timestamp = l2_block_timestamp reg cfg next in
               if is_denim_active reg cfg next_timestamp then Some (Drop SpanBatchPostDenim, None)
               else (case check_prefix_timestamps reg cfg sp first next_timestamp epoch rest incl of
                  Inl v \<Rightarrow> Some (v, None)
                | Inr _ \<Rightarrow>
                    (case span_parent_block reg cfg (el_timestamp first) next_timestamp safe fetcher of
                       None \<Rightarrow> None
                     | Some (Inl v) \<Rightarrow> Some (v, None)
                     | Some (Inr parent_block) \<Rightarrow>
                         Some (check_prefix_parent cfg sp (el_epoch_num first) l1_origins incl
                                 parent_block)))))"

subsection \<open>The full check\<close>

text \<open>
  The loop over the blocks of the span. \<open>prev\<close> is the epoch of the preceding element, \<open>None\<close>
  for the first one, whose \<open>origin_advanced\<close> is given. The result is an early verdict.
\<close>

fun span_blocks_check ::
    "registry \<Rightarrow> rollup_config \<Rightarrow> block_info list \<Rightarrow> l2_block_info \<Rightarrow> bool \<Rightarrow> u64 option
     \<Rightarrow> span_batch_element list \<Rightarrow> nat \<Rightarrow> batch_validity option" where
  "span_blocks_check reg cfg l1_blocks safe first_advanced prev [] origin_index = None"
| "span_blocks_check reg cfg l1_blocks safe first_advanced prev (e # es) origin_index =
     (if el_timestamp e \<le> bi_timestamp (l2_block safe)
      then span_blocks_check reg cfg l1_blocks safe first_advanced (Some (el_epoch_num e)) es origin_index
      else if el_epoch_num e < bnh_number (l2_l1_origin safe) then Some (Drop L1OriginBeforeSafeHead)
      else case find_origin (el_epoch_num e) (drop origin_index l1_blocks) of
        None \<Rightarrow> Some (Drop MissingL1Origin)
      | Some (offset, l1_origin) \<Rightarrow>
          let origin_index = origin_index + offset;
              origin_advanced = (case prev of None \<Rightarrow> first_advanced | Some p \<Rightarrow> el_epoch_num e > p);
              max_drift = max_sequencer_drift reg cfg (bi_timestamp l1_origin);
              drift =
                (if el_timestamp e > bi_timestamp l1_origin + max_drift then
                   (if el_transactions e = [] then
                      (if \<not> origin_advanced then
                         (if origin_index + 1 \<ge> length l1_blocks then Some Undecided
                          else if el_timestamp e \<ge> bi_timestamp (l1_blocks ! (origin_index + 1))
                          then Some (Drop SequencerDriftNotAdoptedNextOrigin) else None)
                       else None)
                    else Some (Drop SequencerDriftExceeded))
                 else None)
          in if el_timestamp e < bi_timestamp l1_origin then Some (Drop TimestampBeforeL1Origin)
             else (case drift of
                Some v \<Rightarrow> Some v
              | None \<Rightarrow>
                  (case check_transactions reg cfg (el_timestamp e) (el_transactions e) of
                     Some r \<Rightarrow> Some (Drop r)
                   | None \<Rightarrow>
                       span_blocks_check reg cfg l1_blocks safe first_advanced
                         (Some (el_epoch_num e)) es origin_index)))"

datatype check_result = Panic | Verdict batch_validity | Continue

text \<open>One overlapped block: \<open>i\<close> is its offset in the span.\<close>

definition check_overlapped_block ::
    "rollup_config \<Rightarrow> span_batch \<Rightarrow> u64 \<Rightarrow> batch_validation_provider \<Rightarrow> nat \<Rightarrow> check_result" where
  "check_overlapped_block cfg sp parent_num fetcher i =
     (case bvp_block_by_number fetcher (parent_num + word_of_nat i + 1) of
        None \<Rightarrow> Verdict Undecided
      | Some safe_block \<Rightarrow>
          if length (sp_batches sp) \<le> i then Panic
          else let e = sp_batches sp ! i;
                   batch_txs = el_transactions e;
                   txs = ob_transactions safe_block;
                   deposit_count = length (filter tx_is_deposit txs) in
            if length txs - deposit_count \<noteq> length batch_txs
              then Verdict (Drop OverlappedTxCountMismatch)
            else if \<not> list_all (\<lambda>j. tx_encoded (txs ! (j + deposit_count)) = batch_txs ! j)
                       [0..<length batch_txs]
              then Verdict (Drop OverlappedTxMismatch)
            else case from_block_and_genesis safe_block (rc_genesis cfg) of
              Inl _ \<Rightarrow> Verdict (Drop L2BlockInfoExtractionFailed)
            | Inr safe_ref \<Rightarrow>
                if bnh_number (l2_l1_origin safe_ref) \<noteq> el_epoch_num e
                then Verdict (Drop OverlappedL1OriginMismatch) else Continue)"

fun check_overlapped_blocks ::
    "rollup_config \<Rightarrow> span_batch \<Rightarrow> u64 \<Rightarrow> batch_validation_provider \<Rightarrow> nat list \<Rightarrow> check_result" where
  "check_overlapped_blocks cfg sp parent_num fetcher [] = Continue"
| "check_overlapped_blocks cfg sp parent_num fetcher (i # is) =
     (case check_overlapped_block cfg sp parent_num fetcher i of
        Continue \<Rightarrow> check_overlapped_blocks cfg sp parent_num fetcher is
      | r \<Rightarrow> r)"

definition check_batch_span ::
    "registry \<Rightarrow> rollup_config \<Rightarrow> span_batch \<Rightarrow> block_info list \<Rightarrow> l2_block_info \<Rightarrow> block_info
     \<Rightarrow> batch_validation_provider \<Rightarrow> batch_validity option" where
  "check_batch_span reg cfg sp l1_blocks safe incl fetcher =
     (case check_batch_prefix reg cfg sp l1_blocks safe incl fetcher of
        None \<Rightarrow> None
      | Some (v, parent) \<Rightarrow>
          if v \<noteq> Accept then Some v
          else case (parent, sp_batches sp) of
            (Some parent_block, first # _) \<Rightarrow>
              let first_advanced = (el_epoch_num first = bnh_number (l2_l1_origin parent_block) + 1) in
              (case span_blocks_check reg cfg l1_blocks safe first_advanced None (sp_batches sp) 0 of
                 Some v \<Rightarrow> Some v
               | None \<Rightarrow>
                   let parent_num = bi_number (l2_block parent_block) in
                   if el_timestamp first < next_l2_timestamp reg cfg safe then
                     (case check_overlapped_blocks cfg sp parent_num fetcher
                             [0..<unat (bi_number (l2_block safe) - parent_num)] of
                        Panic \<Rightarrow> None
                      | Verdict v \<Rightarrow> Some v
                      | Continue \<Rightarrow> Some Accept)
                   else Some Accept)
          | _ \<Rightarrow> None)"

section \<open>Batches with their inclusion block\<close>

datatype batch = Single single_batch | Span span_batch

fun batch_timestamp :: "batch \<Rightarrow> u64 option" where
  "batch_timestamp (Single b) = Some (sb_timestamp b)"
| "batch_timestamp (Span sp) = starting_timestamp sp"

record batch_with_inclusion =
  bw_inclusion_block :: block_info
  bw_batch :: batch

definition check_batch ::
    "registry \<Rightarrow> rollup_config \<Rightarrow> batch_with_inclusion \<Rightarrow> block_info list \<Rightarrow> l2_block_info
     \<Rightarrow> batch_validation_provider \<Rightarrow> batch_validity option" where
  "check_batch reg cfg bw l1_blocks safe fetcher =
     (case bw_batch bw of
        Single b \<Rightarrow> Some (check_batch_single reg cfg b l1_blocks safe (bw_inclusion_block bw))
      | Span sp \<Rightarrow> check_batch_span reg cfg sp l1_blocks safe (bw_inclusion_block bw) fetcher)"

section \<open>Specifications\<close>

text \<open>
  What acceptance of a single batch means, with \<open>orig\<close> the L1 block of the epoch the batch
  claims; and spans whose blocks are one block time apart, as decoding builds them.
\<close>

definition single_acceptable ::
    "registry \<Rightarrow> rollup_config \<Rightarrow> single_batch \<Rightarrow> block_info list \<Rightarrow> l2_block_info \<Rightarrow> block_info \<Rightarrow> block_info \<Rightarrow> bool" where
  "single_acceptable reg cfg b l1_blocks safe incl orig \<longleftrightarrow>
     (l1_blocks \<noteq> [] \<and>
      (sb_epoch_num b = bi_number (l1_blocks ! 0) \<and> orig = l1_blocks ! 0 \<or>
       sb_epoch_num b = bi_number (l1_blocks ! 0) + 1 \<and> bi_number (l1_blocks ! 0) < sb_epoch_num b \<and>
         1 < length l1_blocks \<and> orig = l1_blocks ! 1)) \<and>
     sb_epoch_hash b = bi_hash orig \<and>
     sb_timestamp b = next_l2_timestamp reg cfg safe \<and>
     sb_parent_hash b = bi_hash (l2_block safe) \<and>
     (same_second reg cfg b safe \<longrightarrow> sb_epoch b = l2_l1_origin safe) \<and>
     bi_number incl \<le> sb_epoch_num b + rc_seq_window_size cfg \<and>
     bi_timestamp orig \<le> sb_timestamp b \<and>
     (let drift = unat (bi_timestamp orig) + unat (max_sequencer_drift reg cfg (bi_timestamp orig)) in
       drift < 2 ^ 64 \<and>
       (drift < unat (sb_timestamp b) \<longrightarrow> sb_transactions b = [] \<and>
         (bi_number (l1_blocks ! 0) = bi_number orig \<and> \<not> same_second reg cfg b safe \<longrightarrow>
            1 < length l1_blocks \<and> sb_timestamp b < bi_timestamp (l1_blocks ! 1)))) \<and>
     (is_first_jovian_block reg cfg (sb_timestamp b) (bi_timestamp (l2_block safe)) \<longrightarrow> sb_transactions b = []) \<and>
     (\<forall>tx \<in> set (sb_transactions b). tx \<noteq> [] \<and> hd tx \<noteq> TX_DEPOSIT \<and>
        (is_isthmus_active reg cfg (sb_timestamp b) \<or> hd tx \<noteq> TX_EIP7702) \<and>
        (is_everest_active reg cfg (sb_timestamp b) \<or> hd tx \<noteq> TX_EIP8130))"

definition evenly_spaced :: "u64 \<Rightarrow> span_batch_element list \<Rightarrow> bool" where
  "evenly_spaced bt es \<longleftrightarrow> list_all (\<lambda>i. unat (el_timestamp (es ! i)) =
     unat (el_timestamp (es ! 0)) + i * unat bt) [0..<length es]"

section \<open>Lemmas\<close>

declare span_blocks_check.simps [simp del]

lemma or_verdict_simps [simp]: "or_verdict (Inl v) f = v" "or_verdict (Inr a) f = f a"
  by (simp_all add: or_verdict_def)

lemma check_transactions_None:
  "check_transactions reg cfg t txs = None \<longleftrightarrow>
     (\<forall>tx \<in> set txs. tx \<noteq> [] \<and> hd tx \<noteq> TX_DEPOSIT \<and>
        (is_isthmus_active reg cfg t \<or> hd tx \<noteq> TX_EIP7702) \<and>
        (is_everest_active reg cfg t \<or> hd tx \<noteq> TX_EIP8130))"
  by (induction txs) auto

lemma check_batch_timestamp_accept:
  "check_batch_timestamp reg cfg b safe incl = Accept \<longleftrightarrow> sb_timestamp b = next_l2_timestamp reg cfg safe"
  by (auto simp: check_batch_timestamp_def Let_def)

lemma single_batch_origin_Inr:
  "single_batch_origin b epoch rest = Inr orig \<longleftrightarrow>
     (sb_epoch_num b = bi_number epoch \<and> orig = epoch \<or>
      sb_epoch_num b = bi_number epoch + 1 \<and> bi_number epoch < sb_epoch_num b \<and> rest \<noteq> [] \<and> orig = hd rest)"
  by (auto simp: single_batch_origin_def order.strict_iff_order not_less split: list.splits)

lemma checked_add_ex:
  "(\<exists>m. checked_add x y = Some m \<and> P m) \<longleftrightarrow> unat x + unat y < 2 ^ 64 \<and> P (x + y)" for x y :: u64
  by (simp add: checked_add_def)

lemma unat_add_less: "unat x + unat y < 2 ^ 64 \<Longrightarrow> x + y < z \<longleftrightarrow> unat x + unat y < unat z" for x y z :: u64
  by (simp add: word_less_nat_alt unat_word_ariths)

lemma check_drift_Inr:
  "check_drift b ss m orig epoch rest = Inr () \<longleftrightarrow>
     (m < sb_timestamp b \<longrightarrow> sb_transactions b = [] \<and>
        (bi_number epoch = bi_number orig \<and> \<not> ss \<longrightarrow> rest \<noteq> [] \<and> sb_timestamp b < bi_timestamp (hd rest)))"
  by (auto simp: check_drift_def Let_def not_le split: list.splits)

lemma or_verdict_accept: "or_verdict r f = Accept \<longleftrightarrow> r = Inl Accept \<or> (\<exists>a. r = Inr a \<and> f a = Accept)"
  by (cases r) simp_all

lemma single_batch_origin_not_accept: "single_batch_origin b epoch rest \<noteq> Inl Accept"
  by (simp add: single_batch_origin_def split: list.splits)

lemma check_drift_not_accept: "check_drift b ss m orig epoch rest \<noteq> Inl Accept"
  by (simp add: check_drift_def Let_def split: list.splits)

lemma check_batch_single_accept_steps:
  "check_batch_single reg cfg b (epoch # rest) safe incl = Accept \<longleftrightarrow>
    (\<exists>orig. single_batch_origin b epoch rest = Inr orig \<and>
      sb_epoch_hash b = bi_hash orig \<and>
      check_batch_timestamp reg cfg b safe incl = Accept \<and>
      sb_parent_hash b = bi_hash (l2_block safe) \<and>
      (same_second reg cfg b safe \<longrightarrow> sb_epoch b = l2_l1_origin safe) \<and>
      bi_number incl \<le> sb_epoch_num b + rc_seq_window_size cfg \<and>
      bi_timestamp orig \<le> sb_timestamp b \<and>
      (\<exists>m. checked_add (bi_timestamp orig) (max_sequencer_drift reg cfg (bi_timestamp orig)) = Some m \<and>
         check_drift b (same_second reg cfg b safe) m orig epoch rest = Inr ()) \<and>
      (is_first_jovian_block reg cfg (sb_timestamp b) (bi_timestamp (l2_block safe)) \<longrightarrow>
         sb_transactions b = []) \<and>
      check_transactions reg cfg (sb_timestamp b) (sb_transactions b) = None)"
  unfolding check_batch_single_def
  by (auto simp: Let_def is_accept_def or_verdict_accept single_batch_origin_not_accept
      check_drift_not_accept not_less split: option.splits)

lemma check_batch_single_accept:
  "check_batch_single reg cfg b l1_blocks safe incl = Accept \<longleftrightarrow>
     (\<exists>orig. single_acceptable reg cfg b l1_blocks safe incl orig)"
proof (cases l1_blocks)
  case Nil
  then show ?thesis by (simp add: check_batch_single_def single_acceptable_def)
next
  case (Cons epoch rest)
  have 1: "single_batch_origin b epoch rest = Inr orig \<longleftrightarrow> l1_blocks \<noteq> [] \<and>
      (sb_epoch_num b = bi_number (l1_blocks ! 0) \<and> orig = l1_blocks ! 0 \<or>
       sb_epoch_num b = bi_number (l1_blocks ! 0) + 1 \<and> bi_number (l1_blocks ! 0) < sb_epoch_num b \<and>
         1 < length l1_blocks \<and> orig = l1_blocks ! 1)" for orig
    unfolding single_batch_origin_Inr Cons by (cases rest) auto
  have 2: "(\<exists>m. checked_add (bi_timestamp orig) (max_sequencer_drift reg cfg (bi_timestamp orig)) = Some m \<and>
         check_drift b (same_second reg cfg b safe) m orig epoch rest = Inr ()) \<longleftrightarrow>
     (let drift = unat (bi_timestamp orig) + unat (max_sequencer_drift reg cfg (bi_timestamp orig)) in
       drift < 2 ^ 64 \<and>
       (drift < unat (sb_timestamp b) \<longrightarrow> sb_transactions b = [] \<and>
         (bi_number (l1_blocks ! 0) = bi_number orig \<and> \<not> same_second reg cfg b safe \<longrightarrow>
            1 < length l1_blocks \<and> sb_timestamp b < bi_timestamp (l1_blocks ! 1))))" for orig
    unfolding checked_add_ex check_drift_Inr Let_def Cons
    by (rule conj_cong [OF refl]) (simp add: unat_add_less, cases rest, auto)
  show ?thesis
    unfolding Cons check_batch_single_accept_steps single_acceptable_def
      check_batch_timestamp_accept check_transactions_None 1 [unfolded Cons] 2 [unfolded Cons] ..
qed

lemma single_batch_origin_append:
  "single_batch_origin b epoch rest \<noteq> Inl Undecided \<Longrightarrow>
   single_batch_origin b epoch (rest @ later) = single_batch_origin b epoch rest"
  by (cases rest) (auto simp: single_batch_origin_def)

lemma check_drift_append:
  "check_drift b ss m orig epoch rest \<noteq> Inl Undecided \<Longrightarrow>
   check_drift b ss m orig epoch (rest @ later) = check_drift b ss m orig epoch rest"
  by (cases rest) (auto simp: check_drift_def Let_def)

lemma or_verdict_append:
  assumes "or_verdict r f \<noteq> Undecided" "r \<noteq> Inl Undecided \<Longrightarrow> r' = r"
    "\<And>a. r = Inr a \<Longrightarrow> f a \<noteq> Undecided \<Longrightarrow> f' a = f a"
  shows "or_verdict r' f' = or_verdict r f"
  using assms by (cases r) auto

lemma check_batch_single_stable:
  assumes "check_batch_single reg cfg b l1_blocks safe incl \<noteq> Undecided"
  shows "check_batch_single reg cfg b (l1_blocks @ later) safe incl = check_batch_single reg cfg b l1_blocks safe incl"
proof (cases l1_blocks)
  case Nil
  with assms show ?thesis by (simp add: check_batch_single_def)
next
  case (Cons epoch rest)
  have o: "or_verdict (single_batch_origin b epoch (rest @ later)) f' = or_verdict (single_batch_origin b epoch rest) f"
    if "or_verdict (single_batch_origin b epoch rest) f \<noteq> Undecided" "\<And>a. f a \<noteq> Undecided \<Longrightarrow> f' a = f a" for f f'
    using that by (intro or_verdict_append single_batch_origin_append)
  have d: "or_verdict (check_drift b ss m orig epoch (rest @ later)) f = or_verdict (check_drift b ss m orig epoch rest) f"
    if "or_verdict (check_drift b ss m orig epoch rest) f \<noteq> Undecided" for ss m orig f
    using that by (intro or_verdict_append check_drift_append) auto
  show ?thesis
    using assms unfolding Cons check_batch_single_def
    by (auto simp: Let_def intro!: o d split: option.splits if_splits)
qed

lemma check_end_origin_append:
  "check_end_origin sp n l1 \<noteq> Inl Undecided \<Longrightarrow> check_end_origin sp n (l1 @ later) = check_end_origin sp n l1"
  by (induction l1) auto

lemma check_prefix_parent_append:
  "fst (check_prefix_parent cfg sp se l1 incl p) \<noteq> Undecided \<Longrightarrow>
   check_prefix_parent cfg sp se (l1 @ later) incl p = check_prefix_parent cfg sp se l1 incl p"
  using check_end_origin_append [of sp "el_epoch_num (last (sp_batches sp))" l1 later]
  by (auto simp: check_prefix_parent_def split: if_splits sum.splits)

lemma check_prefix_timestamps_append:
  "check_prefix_timestamps reg cfg sp first nt epoch rest incl \<noteq> Inl Undecided \<Longrightarrow>
   check_prefix_timestamps reg cfg sp first nt epoch (rest @ later) incl =
     check_prefix_timestamps reg cfg sp first nt epoch rest incl"
  by (cases rest) (auto simp: check_prefix_timestamps_def Let_def)

lemma check_batch_prefix_append:
  assumes "check_batch_prefix reg cfg sp l1_blocks safe incl fetcher = Some (v, p)" "v \<noteq> Undecided"
  shows "check_batch_prefix reg cfg sp (l1_blocks @ later) safe incl fetcher = Some (v, p)"
proof (cases l1_blocks)
  case Nil
  with assms show ?thesis by (simp add: check_batch_prefix_def)
next
  case (Cons epoch rest)
  obtain first tl where sp: "sp_batches sp = first # tl"
    using assms Cons by (cases "sp_batches sp") (auto simp: check_batch_prefix_def)
  have 1: "check_prefix_timestamps reg cfg sp first nt epoch (rest @ later) incl =
       check_prefix_timestamps reg cfg sp first nt epoch rest incl"
    if "check_prefix_timestamps reg cfg sp first nt epoch rest incl \<noteq> Inl Undecided" for nt
    using that by (rule check_prefix_timestamps_append)
  have 2: "check_prefix_parent cfg sp se (epoch # rest @ later) incl p = (v, q)"
    if "check_prefix_parent cfg sp se (epoch # rest) incl p = (v, q)" for se p q
    using check_prefix_parent_append [of cfg sp se "epoch # rest" incl p later] that assms(2) by simp
  show ?thesis
    using assms unfolding Cons check_batch_prefix_def append_Cons list.case sp Let_def
    by (auto simp: 1 2 split: if_splits sum.splits option.splits)
qed

lemma find_origin_Some:
  "find_origin n bs = Some (i, b) \<Longrightarrow> i < length bs \<and> bs ! i = b \<and> bi_number b = n"
  by (induction bs arbitrary: i) (auto split: if_splits)

lemma get_singular_batches_loop_sound:
  "get_singular_batches_loop l1 safe es oi = Inr ss \<Longrightarrow>
     map element_of_single ss = filter (\<lambda>e. bi_timestamp (l2_block safe) < el_timestamp e) es \<and>
     (\<forall>s \<in> set ss. bnh_number (l2_l1_origin safe) \<le> sb_epoch_num s \<and>
        (\<exists>orig \<in> set l1. bi_number orig = sb_epoch_num s \<and> bi_hash orig = sb_epoch_hash s))"
proof (induction es arbitrary: oi ss)
  case (Cons e es)
  show ?case
  proof (cases "el_timestamp e \<le> bi_timestamp (l2_block safe)")
    case True
    then show ?thesis using Cons by simp
  next
    case False
    then obtain i orig rest where ori: "find_origin (el_epoch_num e) (drop oi l1) = Some (i, orig)"
      and rest: "get_singular_batches_loop l1 safe es (oi + i) = Inr rest"
      and ep: "bnh_number (l2_l1_origin safe) \<le> el_epoch_num e"
      and ss: "ss = \<lparr>sb_parent_hash = B256_ZERO, sb_epoch_num = el_epoch_num e,
                  sb_epoch_hash = bi_hash orig, sb_timestamp = el_timestamp e,
                  sb_transactions = el_transactions e\<rparr> # rest"
      using Cons.prems by (auto simp: and_then_Inr_iff not_less split: if_splits option.splits)
    have "orig \<in> set l1" "bi_number orig = el_epoch_num e"
      using find_origin_Some [OF ori] by (auto intro: in_set_dropD nth_mem)
    then show ?thesis
      using Cons.IH [OF rest] False ep by (auto simp: ss element_of_single_def)
  qed
qed simp

lemma span_parent_block_total:
  "rc_block_time cfg \<noteq> 0 \<Longrightarrow> span_parent_block reg cfg s n safe fetcher \<noteq> None"
  by (auto simp: span_parent_block_def Let_def split: option.splits)

lemma check_batch_prefix_total:
  "rc_block_time cfg \<noteq> 0 \<Longrightarrow> check_batch_prefix reg cfg sp l1 safe incl fetcher \<noteq> None"
  using span_parent_block_total [of cfg reg]
  by (simp add: check_batch_prefix_def Let_def del: not_None_eq split: list.split option.split sum.split)

lemma span_parent_block_overlap:
  assumes "span_parent_block reg cfg st nt safe fetcher = Some (Inr p)" "st < nt"
  shows "rc_block_time cfg \<noteq> 0 \<and> st \<le> bi_timestamp (l2_block safe) \<and>
    bvp_l2_block_info_by_number fetcher
      (bi_number (l2_block safe) - (bi_timestamp (l2_block safe) - st) div rc_block_time cfg - 1) = Some p"
  using assms by (auto simp: span_parent_block_def Let_def not_less split: if_splits option.splits)

lemma check_batch_prefix_accept:
  assumes "check_batch_prefix reg cfg sp l1 safe incl fetcher = Some (Accept, parent)"
  obtains first tl p where "sp_batches sp = first # tl" "parent = Some p"
    "span_parent_block reg cfg (el_timestamp first)
       (l2_block_timestamp reg cfg (bi_number (l2_block safe) + 1)) safe fetcher = Some (Inr p)"
    "l2_block_timestamp reg cfg (bi_number (l2_block safe) + 1) \<le> el_timestamp (last (sp_batches sp))"
proof -
  from assms obtain epoch rest where l1: "l1 = epoch # rest"
    by (cases l1) (auto simp: check_batch_prefix_def)
  from assms l1 obtain first tl where sp: "sp_batches sp = first # tl"
    by (cases "sp_batches sp") (auto simp: check_batch_prefix_def)
  let ?nt = "l2_block_timestamp reg cfg (bi_number (l2_block safe) + 1)"
  have ts: "check_prefix_timestamps reg cfg sp first ?nt epoch rest incl \<noteq> Inl Accept"
    "check_prefix_timestamps reg cfg sp first ?nt epoch rest incl = Inr () \<Longrightarrow> ?nt \<le> el_timestamp (last (sp_batches sp))"
    by (auto simp: check_prefix_timestamps_def Let_def split: if_splits)
  have sp1: "span_parent_block reg cfg s n safe fetcher \<noteq> Some (Inl Accept)" for s n
    by (auto simp: span_parent_block_def Let_def split: option.splits)
  have e: "check_end_origin sp n bs \<noteq> Inl Accept" for n bs
    by (induction bs) auto
  have pp: "check_prefix_parent cfg sp se l1 incl p = (Accept, q) \<Longrightarrow> q = Some p" for se p q
    using e by (auto simp: check_prefix_parent_def split: if_splits sum.splits)
  have den: "\<not> is_denim_active reg cfg ?nt"
    using assms by (auto simp: check_batch_prefix_def l1 sp)
  have tsr: "check_prefix_timestamps reg cfg sp first ?nt epoch rest incl = Inr ()"
    using assms ts(1) den by (cases "check_prefix_timestamps reg cfg sp first ?nt epoch rest incl")
      (auto simp: check_batch_prefix_def l1 sp)
  obtain p where p: "span_parent_block reg cfg (el_timestamp first) ?nt safe fetcher = Some (Inr p)"
    "check_prefix_parent cfg sp (el_epoch_num first) l1 incl p = (Accept, parent)"
    using assms sp1 [of "el_timestamp first" ?nt] tsr den
    by (auto simp: check_batch_prefix_def l1 sp split: option.splits sum.splits)
  show thesis
    using that [OF sp pp [OF p(2)] p(1) ts(2) [OF tsr]] .
qed

lemma check_overlapped_blocks_no_panic:
  "\<forall>i \<in> set is. i < length (sp_batches sp) \<Longrightarrow> check_overlapped_blocks cfg sp pn fetcher is \<noteq> Panic"
proof (induction "is")
  case (Cons i "is")
  then have "check_overlapped_block cfg sp pn fetcher i \<noteq> Panic"
    by (auto simp: check_overlapped_block_def Let_def split: option.splits sum.splits)
  with Cons show ?case by (auto split: check_result.split)
qed simp

lemma overlap_index_bound:
  assumes "evenly_spaced bt es" "es \<noteq> []" "bt \<noteq> 0" "el_timestamp (hd es) \<le> st" "st < el_timestamp (last es)"
    and i: "i < unat ((st - el_timestamp (hd es)) div bt + 1)"
  shows "i < length es"
proof -
  let ?d = "st - el_timestamp (hd es)"
  have d: "unat ?d = unat st - unat (el_timestamp (hd es))"
    using assms(4) by (simp add: unat_sub_if_size word_le_nat_alt)
  have "unat (?d div bt + 1) \<le> unat (?d div bt) + 1" by (simp add: unat_word_ariths)
  then have "i \<le> unat (?d div bt)" using i by linarith
  then have "i * unat bt \<le> unat ?d div unat bt * unat bt"
    unfolding unat_div_distrib by (rule mult_le_mono1)
  also have "\<dots> \<le> unat ?d" by (rule div_times_less_eq_dividend)
  finally have 1: "i * unat bt \<le> unat ?d" .
  have "unat (el_timestamp (last es)) = unat (el_timestamp (hd es)) + (length es - 1) * unat bt"
    using bspec [OF assms(1) [unfolded evenly_spaced_def list_all_iff], of "length es - 1"] assms(2)
    by (simp add: last_conv_nth hd_conv_nth)
  then have "i * unat bt < (length es - 1) * unat bt"
    using assms(4,5) d 1 unfolding word_less_nat_alt word_le_nat_alt by linarith
  then show ?thesis by auto
qed

lemma check_batch_span_no_panic:
  assumes "rc_block_time cfg \<noteq> 0" "evenly_spaced (rc_block_time cfg) (sp_batches sp)"
    "bi_number (l2_block safe) \<noteq> - 1"
    "bi_timestamp (l2_block safe) < next_l2_timestamp reg cfg safe"
    and law: "\<forall>n p. bvp_l2_block_info_by_number fetcher n = Some p \<longrightarrow> bi_number (l2_block p) = n"
  shows "check_batch_span reg cfg sp l1 safe incl fetcher \<noteq> None"
proof -
  let ?nt = "next_l2_timestamp reg cfg safe"
  have nt: "l2_block_timestamp reg cfg (bi_number (l2_block safe) + 1) = ?nt"
  proof -
    have "unat (bi_number (l2_block safe)) + 1 < 2 ^ 64"
      using unat_Suc_less [OF assms(3)] by simp
    then show ?thesis by (simp add: next_l2_timestamp_def sat_add_def)
  qed
  obtain v parent where pre: "check_batch_prefix reg cfg sp l1 safe incl fetcher = Some (v, parent)"
    using check_batch_prefix_total [OF assms(1)] by fastforce
  show ?thesis
  proof (cases "v = Accept")
    case False
    then show ?thesis by (simp add: check_batch_span_def pre)
  next
    case True
    from pre [unfolded True] obtain first tl p where sp: "sp_batches sp = first # tl" "parent = Some p"
      and par: "span_parent_block reg cfg (el_timestamp first) ?nt safe fetcher = Some (Inr p)"
      and fin: "?nt \<le> el_timestamp (last (sp_batches sp))"
      by (rule check_batch_prefix_accept) (simp add: nt)
    have "check_overlapped_blocks cfg sp (bi_number (l2_block p)) fetcher
        [0..<unat (bi_number (l2_block safe) - bi_number (l2_block p))] \<noteq> Panic"
      if lt: "el_timestamp first < ?nt"
    proof (rule check_overlapped_blocks_no_panic, safe)
      fix i assume i: "i \<in> set [0..<unat (bi_number (l2_block safe) - bi_number (l2_block p))]"
      note ov = span_parent_block_overlap [OF par lt]
      then have "bi_number (l2_block p) = bi_number (l2_block safe) -
          (bi_timestamp (l2_block safe) - el_timestamp first) div rc_block_time cfg - 1"
        using law by blast
      then have "bi_number (l2_block safe) - bi_number (l2_block p) =
          (bi_timestamp (l2_block safe) - el_timestamp first) div rc_block_time cfg + 1"
        by (simp add: algebra_simps)
      then show "i < length (sp_batches sp)"
        using overlap_index_bound [OF assms(2), of "bi_timestamp (l2_block safe)" i] ov sp i fin assms(1,4)
        by simp
    qed
    then show ?thesis
      using True by (auto simp: check_batch_span_def pre sp Let_def simp del: span_blocks_check.simps
          split: option.split check_result.split)
  qed
qed

text \<open>L1 blocks appended with numbers the span does not use change no verdict on its blocks but \<open>Undecided\<close>.\<close>

lemma find_origin_append: "n \<notin> bi_number ` set ys \<Longrightarrow> find_origin n (xs @ ys) = find_origin n xs"
proof (induction xs)
  case Nil
  then show ?case by (induction ys) auto
qed auto

lemma span_blocks_check_append:
  assumes "\<forall>e \<in> set es. el_epoch_num e \<notin> bi_number ` set later"
    and "span_blocks_check reg cfg l1 safe adv prev es oi \<noteq> Some Undecided"
  shows "span_blocks_check reg cfg (l1 @ later) safe adv prev es oi = span_blocks_check reg cfg l1 safe adv prev es oi"
  using assms
proof (induction es arbitrary: prev oi)
  case (Cons e es)
  have find: "find_origin (el_epoch_num e) (drop oi (l1 @ later)) = find_origin (el_epoch_num e) (drop oi l1)"
    unfolding drop_append by (rule find_origin_append) (use Cons.prems(1) in \<open>auto dest: in_set_dropD\<close>)
  have IH: "span_blocks_check reg cfg (l1 @ later) safe adv p es k = span_blocks_check reg cfg l1 safe adv p es k"
    if "span_blocks_check reg cfg l1 safe adv p es k \<noteq> Some Undecided" for p k
    using Cons.IH that Cons.prems(1) by simp
  show ?case
  proof (cases "el_timestamp e \<le> bi_timestamp (l2_block safe) \<or> el_epoch_num e < bnh_number (l2_l1_origin safe) \<or>
      find_origin (el_epoch_num e) (drop oi l1) = None")
    case True
    then show ?thesis
      using Cons.prems(2) find IH by (cases "el_timestamp e \<le> bi_timestamp (l2_block safe)") (auto simp: span_blocks_check.simps)
  next
    case False
    then obtain off orig where o: "find_origin (el_epoch_num e) (drop oi l1) = Some (off, orig)" by auto
    define drift where "drift l = (if el_timestamp e > bi_timestamp orig + max_sequencer_drift reg cfg (bi_timestamp orig) then
        (if el_transactions e = [] then
           (if \<not> (case prev of None \<Rightarrow> adv | Some p \<Rightarrow> el_epoch_num e > p) then
              (if oi + off + 1 \<ge> length l then Some Undecided
               else if el_timestamp e \<ge> bi_timestamp (l ! (oi + off + 1))
               then Some (Drop SequencerDriftNotAdoptedNextOrigin) else None)
            else None)
         else Some (Drop SequencerDriftExceeded))
      else None)" for l :: "block_info list"
    have eq: "span_blocks_check reg cfg l safe adv prev (e # es) oi =
      (if el_timestamp e < bi_timestamp orig then Some (Drop TimestampBeforeL1Origin)
       else case drift l of Some v \<Rightarrow> Some v
       | None \<Rightarrow> (case check_transactions reg cfg (el_timestamp e) (el_transactions e) of
           Some r \<Rightarrow> Some (Drop r)
         | None \<Rightarrow> span_blocks_check reg cfg l safe adv (Some (el_epoch_num e)) es (oi + off)))"
      if "find_origin (el_epoch_num e) (drop oi l) = Some (off, orig)" for l
      using False that by (simp add: span_blocks_check.simps(2) drift_def Let_def)
    have drift: "drift (l1 @ later) = drift l1" if "drift l1 \<noteq> Some Undecided"
      using that by (auto simp: drift_def nth_append split: if_splits)
    show ?thesis
      using Cons.prems(2) IH drift unfolding eq [OF o] eq [OF find [unfolded o]]
      by (cases "drift l1") (auto split: if_splits option.splits)
  qed
qed (simp add: span_blocks_check.simps)

lemma check_end_origin_found:
  "check_end_origin sp n l1 = Inr u \<Longrightarrow> n \<in> bi_number ` set l1"
  by (induction l1) (auto split: if_splits)

lemma check_batch_prefix_end:
  assumes "check_batch_prefix reg cfg sp l1 safe incl fetcher = Some (Accept, parent)"
  shows "el_epoch_num (last (sp_batches sp)) \<in> bi_number ` set l1"
proof -
  have e: "check_end_origin sp n bs \<noteq> Inl Accept" for n bs
    by (induction bs) auto
  have "check_prefix_timestamps reg cfg sp first nt epoch rest incl \<noteq> Inl Accept" for first nt epoch rest
    by (auto simp: check_prefix_timestamps_def Let_def)
  moreover have "span_parent_block reg cfg s n safe fetcher \<noteq> Some (Inl Accept)" for s n
    by (auto simp: span_parent_block_def Let_def split: option.splits)
  ultimately obtain se p where "check_prefix_parent cfg sp se l1 incl p = (Accept, parent)"
    using assms by (auto simp: check_batch_prefix_def Let_def split: list.splits if_splits sum.splits option.splits)
  then show ?thesis
    using e by (auto simp: check_prefix_parent_def dest: check_end_origin_found split: if_splits sum.splits)
qed

lemma check_batch_span_stable:
  assumes "check_batch_span reg cfg sp l1 safe incl fetcher = Some v" and "v \<noteq> Undecided"
    and "sorted (map el_epoch_num (sp_batches sp))" and "sorted_wrt (<) (map bi_number (l1 @ later))"
  shows "check_batch_span reg cfg sp (l1 @ later) safe incl fetcher = Some v"
proof -
  obtain w parent where pre: "check_batch_prefix reg cfg sp l1 safe incl fetcher = Some (w, parent)"
    using assms(1) by (auto simp: check_batch_span_def split: option.splits)
  have w: "w \<noteq> Undecided" using assms(1,2) pre by (auto simp: check_batch_span_def split: if_splits)
  note pre' = check_batch_prefix_append [OF pre w, of later]
  show ?thesis
  proof (cases "w = Accept")
    case False
    then show ?thesis using assms(1) pre pre' by (simp add: check_batch_span_def)
  next
    case True
    have below: "el_epoch_num e \<le> el_epoch_num (last (sp_batches sp))" if "e \<in> set (sp_batches sp)" for e
      using assms(3) that by (cases "sp_batches sp" rule: rev_cases) (auto simp: sorted_append)
    have "el_epoch_num (last (sp_batches sp)) \<in> bi_number ` set l1"
      using check_batch_prefix_end pre True by blast
    then have above: "el_epoch_num (last (sp_batches sp)) < bi_number b" if "b \<in> set later" for b
      using assms(4) that by (auto simp: sorted_wrt_append)
    have "\<forall>e \<in> set (sp_batches sp). el_epoch_num e \<notin> bi_number ` set later"
    proof (intro ballI notI)
      fix e assume e: "e \<in> set (sp_batches sp)" and "el_epoch_num e \<in> bi_number ` set later"
      then obtain b where "b \<in> set later" "el_epoch_num e = bi_number b" by blast
      then show False using below [OF e] above [of b] by simp
    qed
    note blocks = span_blocks_check_append [OF this, of reg cfg l1 safe]
    show ?thesis
      using assms(1,2) True pre pre' blocks
      by (auto simp: check_batch_span_def Let_def split: option.splits list.splits if_splits)
  qed
qed

lemma default_forks_inactive:
  "fork_active Map.empty (rollup_config_default\<lparr>rc_block_time := bt\<rparr>) u t = False"
  by (cases u) (simp_all add: fork_active_def upgrade_activation_timestamp_def cfg_upgrade_activation_def
      registry_activation_def activation_def rollup_config_default_def upgrade_config_default_def
      base_upgrade_config_default_def)

lemma default_timestamp:
  "l2_block_timestamp Map.empty (rollup_config_default\<lparr>rc_block_time := bt\<rparr>) n =
     sat_mul (sat_mul n bt) 1000 div 1000"
  by (simp add: l2_block_timestamp_def l2_block_timestamp_millis_def denim_timestamp_schedule_def
      upgrade_activation_timestamp_def cfg_upgrade_activation_def registry_activation_def activation_def
      rollup_config_default_def upgrade_config_default_def base_upgrade_config_default_def
      chain_genesis_default_def)

section \<open>Properties\<close>

text \<open>
  C13. Accepted single batches: a single batch is accepted exactly when it carries the
  scheduled next timestamp and the safe head's hash, names the current or the next L1 block
  with its right hash, was included within the sequencing window, is not before its L1
  origin, respects the sequencer drift, keeps the origin within one second after Denim, and
  has no empty, deposit, or not yet enabled transactions.
\<close>
theorem single_batch_accepted_iff:
  "check_batch_single reg cfg b l1_blocks safe incl = Accept \<longleftrightarrow>
     (\<exists>orig. single_acceptable reg cfg b l1_blocks safe incl orig)"
  by (rule check_batch_single_accept)

text \<open>
  C26. Eager and late derivation agree: the verdict on a batch, single or span, once it is not
  \<open>Undecided\<close>, stays the same however many later L1 blocks are appended to the ones it was reached
  with. For a span this takes L1 blocks in ascending order and blocks of the span whose L1 origins
  do not go back, as the decoder builds them.
\<close>
theorem verdicts_stable:
  assumes "check_batch reg cfg bw l1_blocks safe fetcher = Some v" and "v \<noteq> Undecided"
    and "\<And>sp. bw_batch bw = Span sp \<Longrightarrow>
      sorted (map el_epoch_num (sp_batches sp)) \<and> sorted_wrt (<) (map bi_number (l1_blocks @ later))"
  shows "check_batch reg cfg bw (l1_blocks @ later) safe fetcher = Some v"
proof (cases "bw_batch bw")
  case (Single b)
  then show ?thesis using assms(1,2) check_batch_single_stable by (auto simp: check_batch_def)
next
  case (Span sp)
  then show ?thesis using assms check_batch_span_stable by (auto simp: check_batch_def)
qed

theorem verdicts_stable_witness:
  fixes cfg l1 later safe b sp fetcher
  defines "cfg \<equiv> rollup_config_default\<lparr>rc_block_time := 2, rc_max_sequencer_drift := 600, rc_upgrades := upgrade_config_default\<lparr>uc_delta_time := Some 0\<rparr>\<rparr>"
    and "l1 \<equiv> block_info_default" and "later \<equiv> block_info_new B256_ZERO 1 B256_ZERO 12"
    and "safe \<equiv> l2_block_info_new block_info_default \<lparr>bnh_number = 0, bnh_hash = B256_ZERO\<rparr> 0"
    and "b \<equiv> \<lparr>sb_parent_hash = B256_ZERO, sb_epoch_num = 0, sb_epoch_hash = B256_ZERO,
      sb_timestamp = 5, sb_transactions = []\<rparr>"
    and "sp \<equiv> \<lparr>sp_parent_check = replicate 20 0, sp_l1_origin_check = replicate 20 0, sp_genesis_timestamp = 0, sp_chain_id = 0,
      sp_batches = [\<lparr>el_epoch_num = 0, el_timestamp = 2, el_transactions = [[1]]\<rparr>], sp_origin_bits = [],
      sp_block_tx_counts = []\<rparr>"
    and "fetcher \<equiv> \<lparr>bvp_l2_block_info_by_number = \<lambda>_. None, bvp_block_by_number = \<lambda>_. None\<rparr>"
  shows "check_batch Map.empty cfg \<lparr>bw_inclusion_block = l1, bw_batch = Single b\<rparr> [l1, later] safe fetcher = Some Future \<and>
    check_batch Map.empty cfg \<lparr>bw_inclusion_block = l1, bw_batch = Span sp\<rparr> [l1, later] safe fetcher = Some Accept"
proof -
  have forks: "fork_active Map.empty cfg u t = (u = Delta)" for u t
    by (cases u) (simp_all add: fork_active_def upgrade_activation_timestamp_def cfg_upgrade_activation_def
        registry_activation_def activation_def cfg_def rollup_config_default_def upgrade_config_default_def
        base_upgrade_config_default_def)
  have time: "l2_block_timestamp Map.empty cfg n = sat_mul (sat_mul n 2) 1000 div 1000" for n
    by (simp add: l2_block_timestamp_def l2_block_timestamp_millis_def denim_timestamp_schedule_def
        upgrade_activation_timestamp_def cfg_upgrade_activation_def registry_activation_def activation_def
        cfg_def rollup_config_default_def upgrade_config_default_def base_upgrade_config_default_def
        chain_genesis_default_def)
  note inactive = is_delta_active_def is_ecotone_active_def is_denim_active_def is_everest_active_def fork_defs forks
  note vals = l2_block_info_new_def block_info_default_def block_info_new_def
  have nt: "l2_block_timestamp Map.empty cfg 1 = 2" "next_l2_timestamp Map.empty cfg safe = 2"
    by (simp_all add: next_l2_timestamp_def time) (simp_all add: safe_def vals sat_add_def sat_mul_def)
  have 1: "check_batch Map.empty cfg \<lparr>bw_inclusion_block = l1, bw_batch = Single b\<rparr> [l1] safe fetcher = Some Future"
    by (simp add: check_batch_def check_batch_single_def check_batch_timestamp_def is_accept_def inactive nt)
      (simp add: b_def)
  let ?e = "\<lparr>el_epoch_num = 0, el_timestamp = 2, el_transactions = [[1]]\<rparr>"
  have e: "sp_batches sp = [?e]" by (simp add: sp_def)
  have ts: "check_prefix_timestamps Map.empty cfg sp ?e 2 l1 [] l1 = Inr ()"
    by (simp add: check_prefix_timestamps_def inactive e Let_def) (simp add: l1_def vals)
  have "check_parent_hash sp (bi_hash (l2_block safe))" "check_origin_hash sp (bi_hash l1)"
    by (simp_all add: check_parent_hash_def check_origin_hash_def sp_def safe_def l1_def vals B256_ZERO_def)
  then have pp: "check_prefix_parent cfg sp 0 [l1] l1 safe = (Accept, Some safe)"
    by (simp add: check_prefix_parent_def e) (simp add: l1_def safe_def vals cfg_def rollup_config_default_def)
  have "check_batch_prefix Map.empty cfg sp [l1] safe l1 fetcher = Some (Accept, Some safe)"
    using ts pp by (simp add: check_batch_prefix_def e)
      (simp add: safe_def vals nt inactive span_parent_block_def)
  moreover have "span_blocks_check Map.empty cfg [l1] safe False None [?e] 0 = None"
    by (simp add: span_blocks_check.simps max_sequencer_drift_def inactive)
      (simp add: l1_def safe_def vals cfg_def TX_DEPOSIT_def TX_EIP7702_def TX_EIP8130_def)
  ultimately have 2: "check_batch Map.empty cfg \<lparr>bw_inclusion_block = l1, bw_batch = Span sp\<rparr> [l1] safe fetcher = Some Accept"
    by (simp add: check_batch_def check_batch_span_def e nt) (simp add: safe_def vals)
  show ?thesis
    using verdicts_stable [OF 1, of "[later]"] verdicts_stable [OF 2, of "[later]"]
    by (simp add: e later_def l1_def vals)
qed

text \<open>
  Unrolling a span batch: the single batches are exactly the blocks of the span after
  the safe head, in order, with their timestamps, epochs and transactions, and each epoch
  hash is the hash of a known L1 block with the epoch's number, not before the safe head's
  origin.
\<close>
theorem get_singular_batches_sound:
  assumes "get_singular_batches sp l1_origins safe = Inr singles"
  shows "map element_of_single singles =
      filter (\<lambda>e. bi_timestamp (l2_block safe) < el_timestamp e) (sp_batches sp) \<and>
    (\<forall>s \<in> set singles. bnh_number (l2_l1_origin safe) \<le> sb_epoch_num s \<and>
      (\<exists>orig \<in> set l1_origins. bi_number orig = sb_epoch_num s \<and> bi_hash orig = sb_epoch_hash s))"
  using assms get_singular_batches_loop_sound unfolding get_singular_batches_def by blast

theorem get_singular_batches_sound_witness:
  fixes safe sp l1
  defines "safe \<equiv> l2_block_info_new block_info_default \<lparr>bnh_number = 0, bnh_hash = B256_ZERO\<rparr> 0"
    and "sp \<equiv> \<lparr>sp_parent_check = [], sp_l1_origin_check = [], sp_genesis_timestamp = 0, sp_chain_id = 0,
      sp_batches = [\<lparr>el_epoch_num = 1, el_timestamp = 0, el_transactions = []\<rparr>,
                    \<lparr>el_epoch_num = 1, el_timestamp = 2, el_transactions = [[9]]\<rparr>], sp_origin_bits = [],
      sp_block_tx_counts = []\<rparr>"
    and "l1 \<equiv> block_info_new [4] 1 B256_ZERO 0"
  shows "\<exists>singles. get_singular_batches sp [l1] safe = Inr singles \<and>
    map element_of_single singles = [\<lparr>el_epoch_num = 1, el_timestamp = 2, el_transactions = [[9]]\<rparr>]"
proof -
  have "\<exists>singles. get_singular_batches sp [l1] safe = Inr singles"
    by (simp add: get_singular_batches_def safe_def sp_def l1_def l2_block_info_new_def
        block_info_default_def block_info_new_def)
  then obtain singles where *: "get_singular_batches sp [l1] safe = Inr singles" ..
  show ?thesis
    using * get_singular_batches_sound [OF *]
    by (simp add: safe_def sp_def l2_block_info_new_def block_info_default_def block_info_new_def)
qed

text \<open>
  The span check never panics on decoded spans: with a positive block time, blocks one
  block time apart, a safe head before the next scheduled timestamp and a provider that
  answers with the block it was asked for, every index and division of the check is in
  range and a verdict is reached.
\<close>
theorem span_check_no_panic:
  assumes "rc_block_time cfg \<noteq> 0" "evenly_spaced (rc_block_time cfg) (sp_batches sp)"
    "bi_number (l2_block safe) \<noteq> - 1"
    "bi_timestamp (l2_block safe) < next_l2_timestamp reg cfg safe"
    "\<forall>n p. bvp_l2_block_info_by_number fetcher n = Some p \<longrightarrow> bi_number (l2_block p) = n"
  shows "\<exists>v. check_batch_span reg cfg sp l1_blocks safe incl fetcher = Some v"
  using check_batch_span_no_panic [OF assms] by simp

theorem span_check_no_panic_witness:
  fixes cfg safe sp fetcher
  defines "cfg \<equiv> rollup_config_default\<lparr>rc_block_time := 2\<rparr>"
    and "safe \<equiv> l2_block_info_new block_info_default \<lparr>bnh_number = 0, bnh_hash = B256_ZERO\<rparr> 0"
    and "sp \<equiv> \<lparr>sp_parent_check = [], sp_l1_origin_check = [], sp_genesis_timestamp = 0, sp_chain_id = 0,
      sp_batches = [\<lparr>el_epoch_num = 0, el_timestamp = 0, el_transactions = []\<rparr>,
                    \<lparr>el_epoch_num = 0, el_timestamp = 2, el_transactions = []\<rparr>], sp_origin_bits = [],
      sp_block_tx_counts = []\<rparr>"
    and "fetcher \<equiv> \<lparr>bvp_l2_block_info_by_number = \<lambda>n. Some (l2_block_info_new (block_info_new [] n [] 0)
      \<lparr>bnh_number = 0, bnh_hash = []\<rparr> 0), bvp_block_by_number = \<lambda>_. None\<rparr>"
  shows "\<exists>v. check_batch_span Map.empty cfg sp [block_info_default] safe block_info_default fetcher = Some v"
proof (rule span_check_no_panic)
  show "rc_block_time cfg \<noteq> 0" by (simp add: cfg_def)
  show "evenly_spaced (rc_block_time cfg) (sp_batches sp)"
    by (simp add: cfg_def sp_def evenly_spaced_def upt_rec)
  show "bi_number (l2_block safe) \<noteq> - 1"
    by (simp add: safe_def l2_block_info_new_def block_info_default_def block_info_new_def)
  show "bi_timestamp (l2_block safe) < next_l2_timestamp Map.empty cfg safe"
    by (simp add: next_l2_timestamp_def cfg_def default_timestamp)
       (simp add: safe_def l2_block_info_new_def block_info_default_def block_info_new_def sat_add_def sat_mul_def)
  show "\<forall>n p. bvp_l2_block_info_by_number fetcher n = Some p \<longrightarrow> bi_number (l2_block p) = n"
    by (auto simp: fetcher_def l2_block_info_new_def block_info_new_def)
qed

end
