(* ===== verification/Channels.thy ===== *)
theory Channels
  imports Frames Blocks "HOL-Library.Multiset"
begin

text \<open>
  Channels (\<open>src/crates/consensus/protocol/src/channel.rs\<close>): a channel buffers the
  frames of one channel id in any order and yields their concatenated data once the
  frames 0 to the closing one are present. The \<open>HashMap<u16, Frame>\<close> is an association
  list; nothing observes its order. The lemmas give the invariant every \<open>add_frame\<close>
  keeps and show that a complete set of frames assembles in every order of arrival.
\<close>

section \<open>The channel\<close>

definition CHANNEL_ID_LENGTH :: nat where
  "CHANNEL_ID_LENGTH = 16"

definition MAX_RLP_BYTES :: u64 where
  "MAX_RLP_BYTES = 10000000"

definition FJORD_MAX_RLP_BYTES :: u64 where
  "FJORD_MAX_RLP_BYTES = 100000000"

datatype channel_error =
    FrameIdMismatch
  | ChannelClosed
  | FrameNumberExists nat
  | FrameBeyondEndFrame nat

record channel =
  ch_id :: bytes
  ch_open_block :: block_info
  ch_estimated_size :: nat
  ch_closed :: bool
  ch_highest_frame_number :: u16
  ch_last_frame_number :: u16
  ch_inputs :: "(u16 \<times> frame) list"
  ch_highest_l1_inclusion_block :: block_info

definition channel_new :: "bytes \<Rightarrow> block_info \<Rightarrow> channel" where
  "channel_new cid open_block =
     \<lparr>ch_id = cid, ch_open_block = open_block, ch_estimated_size = 0, ch_closed = False,
      ch_highest_frame_number = 0, ch_last_frame_number = 0, ch_inputs = [],
      ch_highest_l1_inclusion_block = block_info_default\<rparr>"

definition channel_len :: "channel \<Rightarrow> nat" where
  "channel_len c = length (ch_inputs c)"

definition channel_is_empty :: "channel \<Rightarrow> bool" where
  "channel_is_empty c \<longleftrightarrow> ch_inputs c = []"

text \<open>The \<open>retain\<close> of \<open>add_frame\<close>: drops frames from the last number on and their sizes.\<close>

fun retain_below :: "u16 \<Rightarrow> (u16 \<times> frame) list \<Rightarrow> nat \<Rightarrow> (u16 \<times> frame) list \<times> nat" where
  "retain_below lim [] sz = ([], sz)"
| "retain_below lim ((i, f) # inputs) sz =
     (if i < lim then
        (let (kept, sz) = retain_below lim inputs sz in ((i, f) # kept, sz))
      else retain_below lim inputs (sz - frame_size f))"

text \<open>The update of a channel by its closing frame.\<close>

definition close_channel :: "frame \<Rightarrow> channel \<Rightarrow> channel" where
  "close_channel f c =
     (let c = c\<lparr>ch_last_frame_number := frame_number f, ch_closed := True\<rparr> in
      if ch_last_frame_number c < ch_highest_frame_number c then
        (let (inputs, sz) =
               retain_below (ch_last_frame_number c) (ch_inputs c) (ch_estimated_size c)
         in c\<lparr>ch_inputs := inputs, ch_estimated_size := sz,
              ch_highest_frame_number := ch_last_frame_number c\<rparr>)
      else c)"

definition add_frame :: "frame \<Rightarrow> block_info \<Rightarrow> channel \<Rightarrow> channel_error + channel" where
  "add_frame f l1_inclusion_block c =
     (if frame_id f \<noteq> ch_id c then Inl FrameIdMismatch
      else if frame_is_last f \<and> ch_closed c then Inl ChannelClosed
      else if map_of (ch_inputs c) (frame_number f) \<noteq> None
        then Inl (FrameNumberExists (unat (frame_number f)))
      else if ch_closed c \<and> frame_number f \<ge> ch_last_frame_number c
        then Inl (FrameBeyondEndFrame (unat (frame_number f)))
      else let
        c = (if frame_is_last f then close_channel f c else c);
        c = (if frame_number f > ch_highest_frame_number c
             then c\<lparr>ch_highest_frame_number := frame_number f\<rparr> else c);
        c = (if bi_number (ch_highest_l1_inclusion_block c) < bi_number l1_inclusion_block
             then c\<lparr>ch_highest_l1_inclusion_block := l1_inclusion_block\<rparr> else c);
        c = c\<lparr>ch_estimated_size := ch_estimated_size c + frame_size f\<rparr>
      in Inr (c\<lparr>ch_inputs := AList.update (frame_number f) f (ch_inputs c)\<rparr>))"

definition open_block_number :: "channel \<Rightarrow> u64" where
  "open_block_number c = bi_number (ch_open_block c)"

definition channel_size :: "channel \<Rightarrow> nat" where
  "channel_size c = ch_estimated_size c"

text \<open>The frame numbers \<open>0..=last_frame_number\<close>.\<close>

definition frame_numbers :: "channel \<Rightarrow> u16 list" where
  "frame_numbers c = map word_of_nat [0..<Suc (unat (ch_last_frame_number c))]"

text \<open>\<open>is_ready\<close>; the sum \<open>last_frame_number + 1\<close> is a \<open>u16\<close> before the cast to \<open>usize\<close>.\<close>

definition is_ready :: "channel \<Rightarrow> bool" where
  "is_ready c \<longleftrightarrow>
     ch_closed c \<and> channel_len c = unat (ch_last_frame_number c + 1) \<and>
     list_all (\<lambda>i. map_of (ch_inputs c) i \<noteq> None) (frame_numbers c)"

fun frame_data_loop :: "(u16 \<times> frame) list \<Rightarrow> u16 list \<Rightarrow> bytes \<Rightarrow> bytes option" where
  "frame_data_loop inputs [] data = Some data"
| "frame_data_loop inputs (i # is) data =
     (case map_of inputs i of
        None \<Rightarrow> None
      | Some f \<Rightarrow> frame_data_loop inputs is (data @ frame_data f))"

definition channel_frame_data :: "channel \<Rightarrow> bytes option" where
  "channel_frame_data c =
     (if channel_is_empty c then None else frame_data_loop (ch_inputs c) (frame_numbers c) [])"

text \<open>Frames added one after the other, stopping at the first error.\<close>

fun add_frames :: "(frame \<times> block_info) list \<Rightarrow> channel \<Rightarrow> channel_error + channel" where
  "add_frames [] c = Inr c"
| "add_frames ((f, b) # fs) c = and_then (add_frame f b c) (add_frames fs)"

section \<open>Invariant\<close>

text \<open>
  The buffered frames have distinct numbers not above the highest one, belong to the
  channel, account for the estimated size exactly, and carry \<open>is_last\<close> only as the frame
  that closed the channel, which is the highest.
\<close>

definition channel_inv :: "channel \<Rightarrow> bool" where
  "channel_inv c \<longleftrightarrow>
     distinct (map fst (ch_inputs c)) \<and>
     (\<forall>(i, f) \<in> set (ch_inputs c).
        frame_number f = i \<and> frame_id f = ch_id c \<and> i \<le> ch_highest_frame_number c) \<and>
     ch_estimated_size c = sum_list (map (frame_size \<circ> snd) (ch_inputs c)) \<and>
     (\<forall>(i, f) \<in> set (ch_inputs c).
        frame_is_last f \<longleftrightarrow> ch_closed c \<and> i = ch_last_frame_number c) \<and>
     (ch_closed c \<longrightarrow> ch_highest_frame_number c = ch_last_frame_number c \<and>
        map_of (ch_inputs c) (ch_last_frame_number c) \<noteq> None)"

text \<open>
  The effect of \<open>add_frame\<close> as one record update, the condition under which a frame is
  accepted, and complete frame sets: frames 0 to \<open>n - 1\<close> of one channel, the last one
  marked, at most 65535 of them.
\<close>

definition kept_inputs :: "frame \<Rightarrow> channel \<Rightarrow> (u16 \<times> frame) list" where
  "kept_inputs f c =
     (if frame_is_last f then filter (\<lambda>(i, f'). i < frame_number f) (ch_inputs c) else ch_inputs c)"

definition accepts :: "frame \<Rightarrow> channel \<Rightarrow> bool" where
  "accepts f c \<longleftrightarrow> frame_id f = ch_id c \<and> \<not> (frame_is_last f \<and> ch_closed c) \<and>
     map_of (ch_inputs c) (frame_number f) = None \<and>
     \<not> (ch_closed c \<and> ch_last_frame_number c \<le> frame_number f)"

definition added :: "frame \<Rightarrow> block_info \<Rightarrow> channel \<Rightarrow> channel" where
  "added f b c =
     c\<lparr>ch_estimated_size := sum_list (map (frame_size \<circ> snd) (kept_inputs f c)) + frame_size f,
       ch_closed := ch_closed c \<or> frame_is_last f,
       ch_highest_frame_number :=
         (if frame_is_last f then frame_number f
          else max (frame_number f) (ch_highest_frame_number c)),
       ch_last_frame_number :=
         (if frame_is_last f then frame_number f else ch_last_frame_number c),
       ch_inputs := kept_inputs f c @ [(frame_number f, f)],
       ch_highest_l1_inclusion_block :=
         (if bi_number (ch_highest_l1_inclusion_block c) < bi_number b then b
          else ch_highest_l1_inclusion_block c)\<rparr>"

definition complete_frames :: "bytes \<Rightarrow> frame list \<Rightarrow> bool" where
  "complete_frames cid fs \<longleftrightarrow> fs \<noteq> [] \<and> length fs \<le> 65535 \<and>
     list_all (\<lambda>(i, f). frame_id f = cid \<and> frame_number f = word_of_nat i \<and>
       frame_is_last f = (Suc i = length fs)) (zip [0..<length fs] fs)"

definition holds_frames :: "bytes \<Rightarrow> frame list \<Rightarrow> frame list \<Rightarrow> channel \<Rightarrow> bool" where
  "holds_frames cid fs ps c \<longleftrightarrow> channel_inv c \<and> ch_id c = cid \<and>
     ch_inputs c = map (\<lambda>f. (frame_number f, f)) ps \<and>
     (ch_closed c \<longleftrightarrow> (\<exists>f\<in>set ps. frame_is_last f)) \<and>
     (ch_closed c \<longrightarrow> Suc (unat (ch_last_frame_number c)) = length fs) \<and>
     Suc (unat (ch_highest_frame_number c)) \<le> length fs"

section \<open>Lemmas\<close>

lemma retain_below_inputs: "fst (retain_below lim inputs sz) = filter (\<lambda>(i, f). i < lim) inputs"
  by (induction lim inputs sz rule: retain_below.induct) (auto simp: split_def Let_def)

lemma retain_below_size:
  "sum_list (map (frame_size \<circ> snd) inputs) \<le> sz \<Longrightarrow>
   snd (retain_below lim inputs sz) + sum_list (map (frame_size \<circ> snd) inputs) =
     sz + sum_list (map (frame_size \<circ> snd) (filter (\<lambda>(i, f). i < lim) inputs))"
proof (induction lim inputs sz rule: retain_below.induct)
  case (2 lim i f inputs sz)
  then show ?case
    by (cases "i < lim") (auto simp: split_def Let_def algebra_simps)
qed simp

lemma channel_inv_new [simp]: "channel_inv (channel_new cid b)"
  by (simp add: channel_inv_def channel_new_def)

lemma update_absent: "map_of xs k = None \<Longrightarrow> AList.update k v xs = xs @ [(k, v)]"
  by (induction xs) auto

lemma filter_below_id:
  assumes "channel_inv c" "ch_highest_frame_number c \<le> n" "map_of (ch_inputs c) n = None"
  shows "filter (\<lambda>(i, f'). i < n) (ch_inputs c) = ch_inputs c"
proof (rule filter_True, safe)
  fix i f assume "(i, f) \<in> set (ch_inputs c)"
  then have "i \<le> n" "i \<noteq> n"
    using assms by (auto simp: channel_inv_def map_of_eq_None_iff image_iff)
  then show "i < n" by simp
qed

lemma close_channel_simps [simp]:
  "ch_id (close_channel f c) = ch_id c"
  "ch_open_block (close_channel f c) = ch_open_block c"
  "ch_closed (close_channel f c)"
  "ch_last_frame_number (close_channel f c) = frame_number f"
  "ch_highest_l1_inclusion_block (close_channel f c) = ch_highest_l1_inclusion_block c"
  "ch_highest_frame_number (close_channel f c) = min (frame_number f) (ch_highest_frame_number c)
    \<or> ch_highest_frame_number c \<le> frame_number f"
  by (auto simp: close_channel_def Let_def split_def min_def)

lemma close_channel_inputs:
  assumes "channel_inv c" "map_of (ch_inputs c) (frame_number f) = None"
  shows "ch_inputs (close_channel f c) = filter (\<lambda>(i, f'). i < frame_number f) (ch_inputs c)"
    "ch_estimated_size (close_channel f c) =
      sum_list (map (frame_size \<circ> snd) (filter (\<lambda>(i, f'). i < frame_number f) (ch_inputs c)))"
    "ch_highest_frame_number (close_channel f c) = min (frame_number f) (ch_highest_frame_number c)"
  using assms filter_below_id [OF assms(1) _ assms(2)]
    retain_below_size [of "ch_inputs c" "ch_estimated_size c" "frame_number f"]
  by (auto simp: close_channel_def Let_def split_def retain_below_inputs channel_inv_def min_def not_less)

lemma map_of_filter_below:
  "map_of (filter (\<lambda>(i, f'). i < (n :: u16)) xs) n = None"
  by (auto simp: map_of_eq_None_iff)

lemma add_frame_rejected: "\<not> accepts f c \<Longrightarrow> \<exists>e. add_frame f b c = Inl e"
  by (auto simp: add_frame_def accepts_def)

lemma add_frame_accepted:
  assumes inv: "channel_inv c" and acc: "accepts f c"
  shows "add_frame f b c = Inr (added f b c)"
proof -
  have a: "frame_id f = ch_id c" "map_of (ch_inputs c) (frame_number f) = None"
    "\<not> (frame_is_last f \<and> ch_closed c)" "\<not> (ch_closed c \<and> ch_last_frame_number c \<le> frame_number f)"
    using acc by (simp_all add: accepts_def)
  have sz: "ch_estimated_size c = sum_list (map (frame_size \<circ> snd) (ch_inputs c))"
    using inv by (simp add: channel_inv_def)
  note cl = close_channel_inputs [OF inv a(2)]
  show ?thesis
  proof (cases "frame_is_last f")
    case True
    show ?thesis
      using True a cl
      by (auto simp: add_frame_def added_def Let_def kept_inputs_def update_absent map_of_filter_below
          min_less_iff_disj min.absorb1 not_less intro!: channel.equality)
  next
    case False
    then show ?thesis
      using a sz
      by (auto simp: add_frame_def added_def Let_def kept_inputs_def update_absent max_def
          intro!: channel.equality)
  qed
qed

lemma add_frame_Inr:
  "channel_inv c \<Longrightarrow> add_frame f b c = Inr c' \<longleftrightarrow> accepts f c \<and> c' = added f b c"
  using add_frame_accepted add_frame_rejected by (metis Inl_Inr_False sum.inject(2))

lemma kept_inputs_set: "(i, g) \<in> set (kept_inputs f c) \<Longrightarrow> (i, g) \<in> set (ch_inputs c)"
  by (auto simp: kept_inputs_def split: if_splits)

lemma added_inv:
  assumes inv: "channel_inv c" and acc: "accepts f c"
  shows "channel_inv (added f b c)"
proof -
  have 1: "distinct (map fst (kept_inputs f c))" "frame_number f \<notin> fst ` set (kept_inputs f c)"
    using inv acc
    by (auto simp: kept_inputs_def channel_inv_def accepts_def map_of_eq_None_iff distinct_map_filter)
  have 2: "i < frame_number f" if "(i, g) \<in> set (kept_inputs f c)" "frame_is_last f" for i g
    using that by (auto simp: kept_inputs_def)
  have 3: "i \<le> ch_highest_frame_number c" "frame_number g = i" "frame_id g = ch_id c"
      "frame_is_last g \<longleftrightarrow> ch_closed c \<and> i = ch_last_frame_number c"
    if "(i, g) \<in> set (kept_inputs f c)" for i g
    using kept_inputs_set [OF that] inv by (auto simp: channel_inv_def)
  have 4: "ch_closed c \<Longrightarrow> \<not> frame_is_last f \<and> kept_inputs f c = ch_inputs c \<and>
      frame_number f < ch_last_frame_number c \<and> ch_highest_frame_number c = ch_last_frame_number c
      \<and> map_of (ch_inputs c) (ch_last_frame_number c) \<noteq> None"
    using acc inv by (auto simp: accepts_def kept_inputs_def channel_inv_def)
  have 5: "frame_id f = ch_id c" using acc by (simp add: accepts_def)
  have 6: "i \<le> max n h" if "i \<le> h" for i n h :: u16 using that by (rule max.coboundedI2)
  have "\<forall>(i, g) \<in> set (ch_inputs (added f b c)). frame_number g = i \<and>
      frame_id g = ch_id (added f b c) \<and> i \<le> ch_highest_frame_number (added f b c)"
    using 2 3 5 6 by (fastforce simp: added_def)
  moreover have "\<forall>(i, g) \<in> set (ch_inputs (added f b c)). frame_is_last g \<longleftrightarrow>
      ch_closed (added f b c) \<and> i = ch_last_frame_number (added f b c)"
    using 2 3 4 by (fastforce simp: added_def)
  moreover have "ch_closed (added f b c) \<longrightarrow>
      ch_highest_frame_number (added f b c) = ch_last_frame_number (added f b c) \<and>
      map_of (ch_inputs (added f b c)) (ch_last_frame_number (added f b c)) \<noteq> None"
    using 4 by (cases "frame_is_last f") (auto simp: added_def max_def)
  ultimately show ?thesis
    using 1 unfolding channel_inv_def by (simp add: added_def)
qed

lemma complete_frames_nth:
  assumes "complete_frames cid fs" "i < length fs"
  shows "frame_id (fs ! i) = cid" "frame_number (fs ! i) = word_of_nat i"
    "unat (frame_number (fs ! i)) = i" "frame_is_last (fs ! i) \<longleftrightarrow> Suc i = length fs"
  using assms by (auto simp: complete_frames_def list_all_length unat_of_nat)

lemma complete_frames_mem:
  assumes "complete_frames cid fs" "f \<in> set fs"
  shows "frame_id f = cid" "unat (frame_number f) < length fs" "fs ! unat (frame_number f) = f"
    "frame_is_last f \<longleftrightarrow> Suc (unat (frame_number f)) = length fs"
  using assms(2) complete_frames_nth [OF assms(1)] by (auto simp: in_set_conv_nth)

lemma complete_frames_distinct:
  assumes "complete_frames cid fs" shows "distinct fs"
  unfolding distinct_conv_nth
proof safe
  fix i j assume ij: "i < length fs" "j < length fs" "i \<noteq> j" "fs ! i = fs ! j"
  then show False using complete_frames_nth(3) [OF assms ij(1)] complete_frames_nth(3) [OF assms ij(2)] by simp
qed

lemma holds_frames_new: "fs \<noteq> [] \<Longrightarrow> holds_frames cid fs [] (channel_new cid b)"
  unfolding holds_frames_def by (cases fs) (simp_all add: channel_new_def channel_inv_def)

lemma holds_frames_add:
  assumes cf: "complete_frames cid fs" and h: "holds_frames cid fs ps c"
    and ps: "set ps \<subseteq> set fs" and f: "f \<in> set fs" "f \<notin> set ps"
  shows "\<exists>c'. add_frame f b c = Inr c' \<and> holds_frames cid fs (ps @ [f]) c'"
proof -
  note fm = complete_frames_mem [OF cf f(1)]
  have inv: "channel_inv c" and "ch_id c = cid"
    and inp: "ch_inputs c = map (\<lambda>f. (frame_number f, f)) ps"
    and cl: "ch_closed c \<longleftrightarrow> (\<exists>f\<in>set ps. frame_is_last f)"
    and last: "ch_closed c \<Longrightarrow> Suc (unat (ch_last_frame_number c)) = length fs"
    and high: "Suc (unat (ch_highest_frame_number c)) \<le> length fs"
    using h by (auto simp: holds_frames_def)
  have absent: "frame_number f \<notin> frame_number ` set ps"
  proof
    assume "frame_number f \<in> frame_number ` set ps"
    then obtain g where "g \<in> set ps" "frame_number f = frame_number g" by auto
    then show False using complete_frames_mem(3) [OF cf, of g] fm(3) ps f by auto
  qed
  have l1: "\<not> ch_closed c" if "frame_is_last f"
  proof
    assume "ch_closed c"
    then obtain g where "g \<in> set ps" "frame_is_last g" using cl by auto
    then have "unat (frame_number g) = unat (frame_number f)"
      using complete_frames_mem(4) [OF cf, of g] fm(4) that ps by auto
    then have "frame_number g = frame_number f" by (simp add: word_unat_eq_iff)
    with \<open>g \<in> set ps\<close> absent show False by (metis image_eqI)
  qed
  have l2: "frame_number f < ch_last_frame_number c" if "ch_closed c"
    using last [OF that] fm l1 that by (auto simp: word_less_nat_alt)
  have acc: "accepts f c"
    using fm(1) \<open>ch_id c = cid\<close> absent l1 l2
    by (auto simp: accepts_def inp map_of_eq_None_iff image_iff not_le)
  have "kept_inputs f c = ch_inputs c"
    using filter_below_id [OF inv, of "frame_number f"] acc high fm
    by (auto simp: kept_inputs_def accepts_def word_le_nat_alt)
  moreover have "Suc (unat (max (frame_number f) (ch_highest_frame_number c))) \<le> length fs"
    using fm(2) high by (simp add: max_def)
  ultimately have "holds_frames cid fs (ps @ [f]) (added f b c)"
    using added_inv [OF inv acc] fm(2,4) last l1 \<open>ch_id c = cid\<close>
    by (auto simp: holds_frames_def added_def inp cl)
  with add_frame_accepted [OF inv acc] show ?thesis by auto
qed

lemma holds_frames_add_frames:
  assumes "complete_frames cid fs" "holds_frames cid fs ps c"
    "set ps \<subseteq> set fs" "distinct (ps @ map fst as)" "fst ` set as \<subseteq> set fs"
  shows "\<exists>c'. add_frames as c = Inr c' \<and> holds_frames cid fs (ps @ map fst as) c'"
  using assms
proof (induction as arbitrary: ps c)
  case (Cons a as)
  obtain f b where a: "a = (f, b)" by fastforce
  obtain c1 where c1: "add_frame f b c = Inr c1" "holds_frames cid fs (ps @ [f]) c1"
    using holds_frames_add [of cid fs ps c f b] Cons.prems a by auto
  then show ?case
    using Cons.IH [of "ps @ [f]" c1] Cons.prems a by auto
qed auto

lemma holds_frames_ready:
  assumes cf: "complete_frames cid fs" and h: "holds_frames cid fs ps c"
    and ps: "set ps \<subseteq> set fs" "distinct ps"
  shows "is_ready c \<longleftrightarrow> set ps = set fs"
proof
  have len: "length fs \<le> 65535" "fs \<noteq> []" using cf by (simp_all add: complete_frames_def)
  have dfs: "distinct fs" using cf by (rule complete_frames_distinct)
  have w: "unat (ch_last_frame_number c + 1) = length fs" if "ch_closed c"
    using h len that by (simp add: holds_frames_def unat_word_ariths)
  show "set ps = set fs" if "is_ready c"
  proof -
    have "length ps = length fs"
      using that w h by (auto simp: is_ready_def channel_len_def holds_frames_def)
    then have "card (set ps) = card (set fs)" using ps dfs by (simp add: distinct_card)
    then show ?thesis using ps(1) by (simp add: card_subset_eq)
  qed
  assume eq: "set ps = set fs"
  then have leq: "length ps = length fs" using distinct_card [OF ps(2)] distinct_card [OF dfs] by simp
  have "last fs \<in> set ps" "frame_is_last (last fs)"
    using eq len complete_frames_nth(4) [OF cf, of "length fs - 1"] by (simp_all add: last_conv_nth)
  then have cl: "ch_closed c" using h by (auto simp: holds_frames_def)
  have inp: "ch_inputs c = map (\<lambda>f. (frame_number f, f)) ps"
    and n: "Suc (unat (ch_last_frame_number c)) = length fs"
    using h cl by (simp_all add: holds_frames_def)
  have "map_of (ch_inputs c) (word_of_nat i) \<noteq> None" if "i < length fs" for i
    using complete_frames_nth(2) [OF cf that] nth_mem [OF that] eq
    by (auto simp: inp map_of_eq_None_iff image_iff intro!: bexI [of _ "fs ! i"])
  then show "is_ready c"
    using cl w [OF cl] leq
    by (auto simp: is_ready_def channel_len_def inp frame_numbers_def n list_all_iff simp del: upt_Suc)
qed

lemma frame_data_loop_eq:
  assumes "\<forall>i<n. map_of inputs (word_of_nat i) = Some (fs ! i)" "n \<le> length fs"
  shows "frame_data_loop inputs (map word_of_nat [0..<n]) acc =
    Some (acc @ concat (map frame_data (take n fs)))"
proof -
  have "frame_data_loop inputs (map word_of_nat is) acc =
      Some (acc @ concat (map (\<lambda>i. frame_data (fs ! i)) is))" if "set is \<subseteq> {0..<n}" for "is" acc
    using that assms(1) by (induction "is" arbitrary: acc) auto
  moreover have "map (\<lambda>i. frame_data (fs ! i)) [0..<n] = map frame_data (take n fs)"
    using assms(2) by (intro nth_equalityI) simp_all
  ultimately show ?thesis by simp
qed

lemma holds_frames_data:
  assumes cf: "complete_frames cid fs" and h: "holds_frames cid fs ps c"
    and ps: "set ps = set fs" "distinct ps" and cl: "ch_closed c"
  shows "channel_frame_data c = Some (concat (map frame_data fs))"
proof -
  have n: "Suc (unat (ch_last_frame_number c)) = length fs" using h cl by (simp add: holds_frames_def)
  have "map_of (ch_inputs c) (word_of_nat i) = Some (fs ! i)" if "i < length fs" for i
  proof (rule map_of_is_SomeI)
    show "distinct (map fst (ch_inputs c))" using h unfolding holds_frames_def channel_inv_def by blast
    show "(word_of_nat i, fs ! i) \<in> set (ch_inputs c)"
      using complete_frames_nth(2) [OF cf that] nth_mem [OF that] ps h
      by (auto simp: holds_frames_def image_iff intro!: bexI [of _ "fs ! i"])
  qed
  then show ?thesis
    using frame_data_loop_eq [of "length fs" "ch_inputs c" fs "[]"] cf h ps
    by (auto simp: channel_frame_data_def channel_is_empty_def frame_numbers_def n holds_frames_def complete_frames_def simp del: upt_Suc)
qed

lemma frame_numbers_props:
  "distinct (frame_numbers c)" "set (frame_numbers c) = {i. i \<le> ch_last_frame_number c}"
  "length (frame_numbers c) = Suc (unat (ch_last_frame_number c))"
proof -
  have lt: "unat (ch_last_frame_number c) < 65536"
    using unsigned_less [where w = "ch_last_frame_number c"] by simp
  have inj: "inj_on (word_of_nat :: nat \<Rightarrow> u16) {0..<Suc (unat (ch_last_frame_number c))}"
  proof (rule inj_onI)
    fix x y :: nat
    assume "x \<in> {0..<Suc (unat (ch_last_frame_number c))}" "y \<in> {0..<Suc (unat (ch_last_frame_number c))}"
      and "(word_of_nat x :: u16) = word_of_nat y"
    then have "unat (word_of_nat x :: u16) = unat (word_of_nat y :: u16)" "x < 65536" "y < 65536"
      using lt by auto
    then show "x = y" by (simp add: unat_of_nat)
  qed
  then show "distinct (frame_numbers c)"
    by (simp add: frame_numbers_def distinct_map del: upt_Suc)
  show "set (frame_numbers c) = {i. i \<le> ch_last_frame_number c}"
  proof safe
    fix i assume "i \<in> set (frame_numbers c)"
    then obtain k where "i = word_of_nat k" "k \<le> unat (ch_last_frame_number c)"
      by (auto simp: frame_numbers_def less_Suc_eq_le simp del: upt_Suc)
    then show "i \<le> ch_last_frame_number c" using lt by (simp add: word_le_nat_alt unat_of_nat)
  next
    fix i assume "i \<le> ch_last_frame_number c"
    then show "i \<in> set (frame_numbers c)"
      by (auto simp: frame_numbers_def word_le_nat_alt image_iff less_Suc_eq_le simp del: upt_Suc intro!: bexI [of _ "unat i"])
  qed
  show "length (frame_numbers c) = Suc (unat (ch_last_frame_number c))"
    by (simp add: frame_numbers_def)
qed

lemma minus_1_u16: "(- 1 :: u16) = 65535"
  by simp

lemma is_ready_char:
  assumes inv: "channel_inv c"
  shows "is_ready c \<longleftrightarrow> ch_closed c \<and> ch_last_frame_number c \<noteq> - 1 \<and>
    (\<forall>i \<le> ch_last_frame_number c. map_of (ch_inputs c) i \<noteq> None)"
proof -
  let ?l = "ch_last_frame_number c"
  have all: "list_all (\<lambda>i. map_of (ch_inputs c) i \<noteq> None) (frame_numbers c) \<longleftrightarrow>
      (\<forall>i \<le> ?l. map_of (ch_inputs c) i \<noteq> None)"
    by (simp add: list_all_iff frame_numbers_props)
  have len: "channel_len c = Suc (unat ?l)"
    if "ch_closed c" "\<forall>i \<le> ?l. map_of (ch_inputs c) i \<noteq> None"
  proof -
    have "fst ` set (ch_inputs c) = {i. i \<le> ?l}"
      using inv that by (fastforce simp: channel_inv_def map_of_eq_None_iff)
    then have "set (map fst (ch_inputs c)) = set (frame_numbers c)"
      by (simp add: frame_numbers_props)
    moreover have "distinct (map fst (ch_inputs c))" using inv unfolding channel_inv_def by blast
    ultimately have "length (map fst (ch_inputs c)) = length (frame_numbers c)"
      using distinct_card frame_numbers_props(1) by metis
    then show ?thesis by (simp add: channel_len_def frame_numbers_props)
  qed
  have w: "unat (?l + 1) = (if ?l = - 1 then 0 else Suc (unat ?l))"
    using unatSuc [of ?l] by (auto simp: add.commute eq_neg_iff_add_eq_0)
  show ?thesis
    unfolding is_ready_def all w using len by auto
qed

lemma add_frames_inv: "channel_inv c \<Longrightarrow> add_frames fs c = Inr c' \<Longrightarrow> channel_inv c'"
proof (induction fs c rule: add_frames.induct)
  case (2 f b fs c)
  then obtain c1 where "add_frame f b c = Inr c1" "add_frames fs c1 = Inr c'"
    by (auto simp: and_then_Inr_iff)
  with 2 show ?case using added_inv add_frame_Inr by metis
qed simp

section \<open>Properties\<close>

text \<open>
  C24. Channel invariant: every channel reachable from a new one by accepted frames has
  distinct frame numbers up to the highest one, only frames of its own id, an estimated
  size equal to the sum of the buffered frames' sizes (so the pruning subtraction never
  underflows), and the closing frame as its highest and only last frame.
\<close>
theorem channel_invariant:
  assumes "add_frames arrivals (channel_new cid b) = Inr c"
  shows "channel_inv c"
  using assms by (rule add_frames_inv [OF channel_inv_new])

theorem channel_invariant_witness:
  "(\<exists>c. add_frames [(\<lparr>frame_id = [], frame_number = 3, frame_data = [1], frame_is_last = False\<rparr>, block_info_default),
                      (\<lparr>frame_id = [], frame_number = 1, frame_data = [2], frame_is_last = True\<rparr>, block_info_default)]
              (channel_new [] block_info_default) = Inr c \<and> channel_inv c \<and> map fst (ch_inputs c) = [1])"
  using channel_invariant [of "[(\<lparr>frame_id = [], frame_number = 3, frame_data = [1], frame_is_last = False\<rparr>, block_info_default),
     (\<lparr>frame_id = [], frame_number = 1, frame_data = [2], frame_is_last = True\<rparr>, block_info_default)]" "[]" block_info_default]
  by (simp add: add_frame_def channel_new_def close_channel_def Let_def)

text \<open>
  C10. Order independence of reassembly: the frames of a complete set, arriving in any
  order, are all accepted; the channel becomes ready exactly when the last missing frame
  arrives; and its data is the concatenation of the frames' data in frame order.
\<close>
theorem channel_assembles:
  assumes "complete_frames cid fs" and "mset (map fst arrivals) = mset fs" and "k \<le> length arrivals"
  shows "\<exists>c. add_frames (take k arrivals) (channel_new cid b) = Inr c \<and>
    (is_ready c \<longleftrightarrow> k = length arrivals) \<and>
    (k = length arrivals \<longrightarrow> channel_frame_data c = Some (concat (map frame_data fs)))"
proof -
  have "distinct fs" using assms(1) by (rule complete_frames_distinct)
  then have d: "distinct (map fst arrivals)" "fst ` set arrivals = set fs"
    using mset_eq_imp_distinct_iff [OF assms(2)] mset_eq_setD [OF assms(2)] by auto
  let ?ps = "map fst (take k arrivals)"
  have ps: "distinct ?ps" "set ?ps \<subseteq> set fs"
    using d by (auto simp: take_map [symmetric] dest: in_set_takeD)
  obtain c where c: "add_frames (take k arrivals) (channel_new cid b) = Inr c"
    "holds_frames cid fs ?ps c"
    using holds_frames_add_frames [OF assms(1), of "[]" "channel_new cid b" "take k arrivals"]
      holds_frames_new [of fs cid b] assms(1) ps by (auto simp: complete_frames_def)
  have "length ?ps = k" "length fs = length arrivals"
    using assms(3) mset_eq_length [OF assms(2)] by simp_all
  then have "set ?ps = set fs \<longleftrightarrow> k = length arrivals"
    using distinct_card [OF ps(1)] distinct_card [OF \<open>distinct fs\<close>] d(2) by (force simp: image_iff)
  then show ?thesis
    using c holds_frames_ready [OF assms(1) c(2)] holds_frames_data [OF assms(1) c(2)] ps
    by (auto simp: is_ready_def)
qed

theorem channel_assembles_witness:
  fixes a z
  defines "a \<equiv> \<lparr>frame_id = [7], frame_number = 0, frame_data = [1, 2], frame_is_last = False\<rparr>"
    and "z \<equiv> \<lparr>frame_id = [7], frame_number = 1, frame_data = [3], frame_is_last = True\<rparr>"
  shows "complete_frames [7] [a, z] \<and>
    mset (map fst [(z, block_info_default), (a, block_info_default)]) = mset [a, z] \<and>
    (\<exists>c. add_frames [(z, block_info_default), (a, block_info_default)] (channel_new [7] block_info_default)
       = Inr c \<and> is_ready c \<and> channel_frame_data c = Some [1, 2, 3])"
proof -
  have 1: "complete_frames [7] [a, z]"
    by (simp add: complete_frames_def a_def z_def upt_rec)
  have 2: "mset (map fst [(z, block_info_default), (a, block_info_default)]) = mset [a, z]" by simp
  show ?thesis
    using 1 2 channel_assembles [OF 1 2, of 2 block_info_default] by (simp add: a_def z_def)
qed

text \<open>
  C8. When a channel is ready: it is closed, holds every frame from 0 to the closing one,
  and the closing frame's number is not 65535. In that last case \<open>last_frame_number + 1\<close>
  wraps to 0 in \<open>u16\<close>, and a channel of 65536 frames is never ready although the frame
  format admits it.
\<close>
theorem is_ready_iff:
  assumes "add_frames arrivals (channel_new cid b) = Inr c"
  shows "is_ready c \<longleftrightarrow> ch_closed c \<and> ch_last_frame_number c \<noteq> 65535 \<and>
    (\<forall>i \<le> ch_last_frame_number c. map_of (ch_inputs c) i \<noteq> None)"
  using is_ready_char [OF add_frames_inv [OF channel_inv_new assms]] minus_1_u16 by simp

theorem is_ready_iff_witness:
  "\<exists>c. add_frames [(\<lparr>frame_id = [7], frame_number = 0, frame_data = [1], frame_is_last = True\<rparr>, block_info_default)]
       (channel_new [7] block_info_default) = Inr c \<and>
     (is_ready c \<longleftrightarrow> ch_closed c \<and> ch_last_frame_number c \<noteq> 65535 \<and>
       (\<forall>i \<le> ch_last_frame_number c. map_of (ch_inputs c) i \<noteq> None)) \<and> is_ready c"
  using is_ready_iff [of "[(\<lparr>frame_id = [7], frame_number = 0, frame_data = [1], frame_is_last = True\<rparr>, block_info_default)]"
      "[7]" block_info_default]
  by (simp add: add_frame_def channel_new_def close_channel_def Let_def is_ready_def channel_len_def frame_numbers_def)

end
