(* ===== verification/Span_Bits.thy ===== *)
theory Span_Bits
  imports Batches
begin

text \<open>
  The bit lists of span batches (\<open>src/crates/consensus/protocol/src/batch/bits.rs\<close>): byte strings
  read as big-endian numbers whose bit \<open>i\<close> is entry \<open>i\<close> of the list. The lemmas show that every
  operation is the operation on that number: reading, setting, the length, and the encoding at
  a fixed number of bits.
\<close>

section \<open>Failures\<close>

text \<open>A function that returns a \<open>Result\<close> and may panic: the left side of its sum.\<close>

datatype 'e failure = Panicking | Failing 'e

abbreviation fails :: "'e \<Rightarrow> 'e failure + 'a" where
  "fails e \<equiv> Inl (Failing e)"

text \<open>A checked index or \<open>expect\<close>: \<open>None\<close> panics.\<close>

definition or_panic :: "'a option \<Rightarrow> 'e failure + 'a" where
  "or_panic x = ok_or Panicking x"

lemma or_panic_simps [simp]:
  "or_panic None = Inl Panicking"
  "or_panic (Some a) = Inr a"
  by (simp_all add: or_panic_def)

definition no_panic :: "'e failure + 'a \<Rightarrow> bool" where
  "no_panic r \<longleftrightarrow> r \<noteq> Inl Panicking"

lemma no_panic_simps [simp]:
  "no_panic (Inr a)"
  "no_panic (Inl f) \<longleftrightarrow> f \<noteq> Panicking"
  "no_panic (and_then x g) \<longleftrightarrow> no_panic x \<and> (\<forall>a. x = Inr a \<longrightarrow> no_panic (g a))"
  by (auto simp: no_panic_def and_then_def split: sum.splits)

lemma no_panic_if [simp]: "no_panic (if b then x else y) \<longleftrightarrow> (if b then no_panic x else no_panic y)"
  by simp

lemma no_panic_map_err_Failing [simp]: "no_panic (map_err (\<lambda>e. Failing (f e)) r)"
  by (cases r) simp_all

lemma no_panic_ok_or_Failing [simp]: "no_panic (ok_or (Failing e) x)"
  by (cases x) simp_all

section \<open>Bits\<close>

type_synonym span_bits = bytes

definition bits_buffer_len :: "nat \<Rightarrow> nat" where
  "bits_buffer_len bit_length = bit_length div 8 + (if bit_length mod 8 \<noteq> 0 then 1 else 0)"

definition leading_zeros :: "u8 \<Rightarrow> nat" where
  "leading_zeros b = length (takeWhile (\<lambda>i. \<not> bit b i) (rev [0..<8]))"

definition count_ones :: "u8 \<Rightarrow> nat" where
  "count_ones b = length (filter (bit b) [0..<8])"

fun bits_bit_len :: "span_bits \<Rightarrow> nat" where
  "bits_bit_len [] = 0"
| "bits_bit_len (byte # bs) =
     (if byte \<noteq> 0 then (7 - leading_zeros byte) + 1 + length bs * 8 else bits_bit_len bs)"

definition bits_decode :: "nat \<Rightarrow> bytes \<Rightarrow> span_batch_error failure + (span_bits \<times> bytes)" where
  "bits_decode bit_length b =
     (let buffer_len = bits_buffer_len bit_length;
          (bits, b) =
            (if length b < buffer_len then (b @ replicate (buffer_len - length b) 0, [])
             else (take buffer_len b, drop buffer_len b))
      in if bits_bit_len bits > bit_length then fails BitfieldTooLong else Inr (bits, b))"

definition bits_encode :: "nat \<Rightarrow> span_bits \<Rightarrow> span_batch_error failure + bytes" where
  "bits_encode bit_length bits =
     (if bits_bit_len bits > bit_length then fails BitfieldTooLong
      else let buf_len = bits_buffer_len bit_length in
        if length bits > buf_len then Inl Panicking
        else Inr (replicate (buf_len - length bits) 0 @ bits))"

definition bits_get_bit :: "span_bits \<Rightarrow> nat \<Rightarrow> u8 option" where
  "bits_get_bit bits index =
     (let byte_index = index div 8; bit_index = index mod 8 in
      if byte_index < length bits
      then let byte = bits ! (length bits - byte_index - 1)
           in Some (if byte AND push_bit bit_index 1 \<noteq> 0 then 1 else 0)
      else None)"

definition resize_from_right :: "nat \<Rightarrow> bytes \<Rightarrow> bytes" where
  "resize_from_right new_size v =
     (if new_size < length v then drop (length v - new_size) v
      else if new_size > length v then replicate (new_size - length v) 0 @ v
      else v)"

definition bits_set_bit :: "nat \<Rightarrow> bool \<Rightarrow> span_bits \<Rightarrow> span_bits" where
  "bits_set_bit index value bits =
     (let byte_index = index div 8; bit_index = index mod 8;
          bits = (if byte_index \<ge> length bits then resize_from_right (byte_index + 1) bits else bits);
          pos = length bits - byte_index - 1;
          byte = bits ! pos
      in bits[pos := if value then byte OR push_bit bit_index 1 else byte AND NOT (push_bit bit_index 1)])"

section \<open>Bit lists as numbers\<close>

lemma byte_bound: "unat (b :: u8) < 256"
  using unsigned_less [of b] by simp

lemma no_bit_above:
  fixes m :: nat
  assumes "m < 2 ^ n" and "n \<le> i"
  shows "\<not> bit m i"
proof -
  have "(2 :: nat) ^ n \<le> 2 ^ i" using assms(2) by (rule power_increasing) simp
  with assms(1) have "m < 2 ^ i" by (rule less_le_trans)
  then show ?thesis by (simp add: bit_iff_odd)
qed

lemma bit_mult_256_add:
  fixes n m :: nat
  assumes "m < 256"
  shows "bit (n * 256 + m) i \<longleftrightarrow> (if i < 8 then bit m i else bit n (i - 8))"
proof -
  have m: "\<not> bit m k" if "8 \<le> k" for k
    using assms that no_bit_above [of m 8 k] by simp
  then have "push_bit 8 n AND m = 0"
    by (intro bit_eqI) (auto simp: bit_and_iff bit_push_bit_iff)
  then have "n * 256 + m = push_bit 8 n OR m"
    using disjunctive_add_eq_or [of "push_bit 8 n" m] by (simp add: push_bit_eq_mult)
  then show ?thesis using m by (auto simp: bit_or_iff bit_push_bit_iff)
qed

lemma bit_from_be:
  "bit (from_be bs) i \<longleftrightarrow> i < 8 * length bs \<and> bit (bs ! (length bs - i div 8 - 1)) (i mod 8)"
proof (induction bs arbitrary: i rule: rev_induct)
  case (snoc b bs)
  show ?case
  proof (cases "i < 8")
    case True
    then show ?thesis using byte_bound [of b] by (simp add: bit_mult_256_add bit_unsigned_iff nth_append)
  next
    case False
    then obtain j where "i = j + 8" by (metis add.commute le_Suc_ex not_less)
    moreover have "j div 8 < length bs \<longleftrightarrow> j < 8 * length bs" by auto
    moreover have "(j + 8) div 8 = Suc (j div 8)" by simp
    ultimately show ?thesis
      using snoc [of j] byte_bound [of b] by (auto simp: bit_mult_256_add nth_append)
  qed
qed simp

lemma byte_and_exp: "b AND 2 ^ k = 0 \<longleftrightarrow> \<not> bit b k" for b :: u8
  by (rule and_exp_eq_0_iff_not_bit)

lemma get_bit_from_be:
  "bits_get_bit bits i =
   (if i < 8 * length bits then Some (if bit (from_be bits) i then 1 else 0) else None)"
proof -
  have "i div 8 < length bits \<longleftrightarrow> i < 8 * length bits" by auto
  then show ?thesis by (simp add: bits_get_bit_def Let_def bit_from_be byte_and_exp)
qed

lemma length_set_bit [simp]: "length (bits_set_bit i v bits) = max (length bits) (i div 8 + 1)"
  by (simp add: bits_set_bit_def resize_from_right_def Let_def)

lemma from_be_pad [simp]: "from_be (replicate n 0 @ bs) = from_be bs"
  by (simp add: from_be_append from_be_zeros)

lemma from_be_set_bit:
  "from_be (bits_set_bit i v bits) = (if v then set_bit i (from_be bits) else unset_bit i (from_be bits))"
proof -
  define bs where "bs = (if i div 8 \<ge> length bits then resize_from_right (i div 8 + 1) bits else bits)"
  define pos where "pos = length bs - i div 8 - 1"
  have pad: "from_be bits = from_be bs" by (simp add: bs_def resize_from_right_def)
  have len: "i div 8 < length bs" by (simp add: bs_def resize_from_right_def)
  have set: "bits_set_bit i v bits =
      bs[pos := if v then bs ! pos OR 2 ^ (i mod 8) else bs ! pos AND NOT (2 ^ (i mod 8))]"
    by (simp add: bits_set_bit_def bs_def pos_def Let_def)
  have "bit (from_be (bits_set_bit i v bits)) k \<longleftrightarrow> (if k = i then v else bit (from_be bits) k)" for k
  proof (cases "k div 8 = i div 8")
    case True
    then have "k mod 8 = i mod 8 \<longleftrightarrow> k = i" by (metis div_mult_mod_eq)
    moreover have "k < 8 * length bs" using True len by linarith
    moreover have "length bs - k div 8 - 1 = pos" "pos < length bs" using True len by (auto simp: pos_def)
    ultimately show ?thesis
      unfolding pad set bit_from_be by (auto simp: bit_or_iff bit_and_iff bit_not_iff bit_exp_iff)
  next
    case False
    have "length bs - k div 8 - 1 \<noteq> pos" if "k < 8 * length bs"
    proof -
      have "k div 8 < length bs" using that by linarith
      with False len show ?thesis unfolding pos_def by linarith
    qed
    moreover have "k \<noteq> i" using False by auto
    ultimately show ?thesis unfolding pad set bit_from_be by auto
  qed
  then show ?thesis by (intro bit_eqI) (auto simp: bit_set_bit_iff bit_unset_bit_iff)
qed

lemma get_set_bit:
  "i < 8 * length bits \<or> i = j \<Longrightarrow> bits_get_bit (bits_set_bit j v bits) i =
   (if i = j then Some (if v then 1 else 0) else bits_get_bit bits i)"
  using less_le_trans [of i "8 * length bits" "8 * max (length bits) (j div 8 + 1)"]
  by (auto simp: get_bit_from_be from_be_set_bit bit_set_bit_iff bit_unset_bit_iff)

lemma takeWhile_no_bit:
  assumes "k < n" "bit b k"
  shows "\<exists>m<n. length (takeWhile (\<lambda>i. \<not> bit b i) (rev [0..<n])) = n - 1 - m \<and> bit b m \<and>
    (\<forall>j. m < j \<longrightarrow> j < n \<longrightarrow> \<not> bit b j)"
  using assms
proof (induction n)
  case (Suc n)
  show ?case
  proof (cases "bit b n")
    case False
    then have "k < n" using Suc.prems by (metis less_antisym)
    then obtain m where "m < n" "length (takeWhile (\<lambda>i. \<not> bit b i) (rev [0..<n])) = n - 1 - m" "bit b m"
      "\<forall>j. m < j \<longrightarrow> j < n \<longrightarrow> \<not> bit b j" using Suc by blast
    with False show ?thesis by (intro exI [of _ m]) (auto simp: less_Suc_eq)
  qed (auto intro: exI [of _ n])
qed simp

lemma leading_zeros_bounds:
  assumes "b \<noteq> 0"
  shows "2 ^ (7 - leading_zeros b) \<le> unat b \<and> unat b < 2 ^ (7 - leading_zeros b + 1)"
proof -
  obtain k where "k < 8" "bit b k" using assms bit_word_eqI [of b 0] by auto
  then obtain m where m: "m < 8" "leading_zeros b = 7 - m" "bit b m" "\<forall>j. m < j \<longrightarrow> j < 8 \<longrightarrow> \<not> bit b j"
    using takeWhile_no_bit [of k 8 b] by (auto simp: leading_zeros_def)
  have "unat b = take_bit (m + 1) (unat b)"
  proof (rule bit_eqI)
    fix j
    have "j < m + 1" if "bit b j"
      using m(4) that bit_imp_le_length [OF that] by (cases "m < j") auto
    then show "bit (unat b) j \<longleftrightarrow> bit (take_bit (m + 1) (unat b)) j"
      by (auto simp: bit_take_bit_iff bit_unsigned_iff)
  qed
  then have "unat b < 2 ^ (m + 1)" by (metis take_bit_nat_less_exp)
  moreover have "2 ^ m \<le> unat b"
  proof (rule ccontr)
    assume "\<not> 2 ^ m \<le> unat b"
    then have "\<not> bit (unat b) m" by (intro no_bit_above [of _ m]) auto
    with m(3) show False by (simp add: bit_unsigned_iff)
  qed
  ultimately show ?thesis using m(1,2) by simp
qed

lemma bit_len_le_iff: "bits_bit_len bs \<le> n \<longleftrightarrow> from_be bs < 2 ^ n"
proof (induction bs)
  case (Cons b bs)
  let ?l = "8 * length bs" and ?m = "7 - leading_zeros b"
  have f: "from_be (b # bs) = unat b * 2 ^ ?l + from_be bs"
    using from_be_append [of "[b]" bs] by (simp add: from_be_def power_mult)
  have r: "from_be bs < 2 ^ ?l" using from_be_less [of bs] by (simp add: power_mult)
  show ?case
  proof (cases "b = 0")
    case True
    then show ?thesis using Cons f by simp
  next
    case False
    have "2 ^ ?m \<le> unat b" "unat b + 1 \<le> 2 ^ (?m + 1)" using leading_zeros_bounds [OF False] by auto
    from this [THEN mult_le_mono1, of "2 ^ ?l"]
    have b: "2 ^ (?m + ?l) \<le> from_be (b # bs)" "from_be (b # bs) < 2 ^ (?m + 1 + ?l)"
      using r by (simp_all only: f power_add) (simp_all add: algebra_simps)
    have "from_be (b # bs) < 2 ^ n" if "?m + 1 + ?l \<le> n"
      using b(2) power_increasing [OF that, of "2 :: nat"] by linarith
    moreover have "?m + 1 + ?l \<le> n" if "from_be (b # bs) < 2 ^ n"
    proof (rule ccontr)
      assume "\<not> ?m + 1 + ?l \<le> n"
      then have "n \<le> ?m + ?l" by simp
      from power_increasing [OF this, of "2 :: nat"] b(1) that show False by linarith
    qed
    ultimately show ?thesis using False by (auto simp: mult.commute)
  qed
qed simp

lemma buffer_len_eq: "bits_buffer_len n = (n + 7) div 8"
  unfolding bits_buffer_len_def by presburger

lemma buffer_len_bounds: "n \<le> 8 * bits_buffer_len n"
  unfolding buffer_len_eq by presburger

lemma buffer_len_Suc: "bits_buffer_len (Suc n) = n div 8 + 1"
  by (simp add: buffer_len_eq)

lemma buffer_len_mono: "m \<le> n \<Longrightarrow> bits_buffer_len m \<le> bits_buffer_len n"
  by (simp add: buffer_len_eq div_le_mono)

lemma bits_encode_padded:
  assumes "length bits \<le> bits_buffer_len n" and "from_be bits < 2 ^ n"
  shows "bits_encode n bits = Inr (to_be (bits_buffer_len n) (from_be bits))"
proof -
  let ?p = "replicate (bits_buffer_len n - length bits) 0 @ bits"
  have "to_be (bits_buffer_len n) (from_be bits) = ?p"
    using to_from_be [of ?p] assms(1) by simp
  then show ?thesis using assms bit_len_le_iff [of bits n] by (simp add: bits_encode_def Let_def)
qed

lemma bits_decode_number:
  assumes "v < 2 ^ n"
  shows "bits_decode n (to_be (bits_buffer_len n) v @ rest) = Inr (to_be (bits_buffer_len n) v, rest)"
proof -
  have "(2 :: nat) ^ n \<le> 256 ^ bits_buffer_len n"
    using power_increasing [OF buffer_len_bounds [of n], of "2 :: nat"] by (simp add: power_mult)
  then have "from_be (to_be (bits_buffer_len n) v) = v" using assms by simp
  then show ?thesis
    using assms bit_len_le_iff [of "to_be (bits_buffer_len n) v" n] by (simp add: bits_decode_def Let_def)
qed

lemma bits_decode_sound:
  assumes "bits_decode n b = Inr (bits, rest)"
  shows "length bits = bits_buffer_len n" and "from_be bits < 2 ^ n"
  using assms bit_len_le_iff [of bits n]
  by (auto simp: bits_decode_def Let_def not_less split: if_splits)

lemma bits_decode_no_panic [simp]: "no_panic (bits_decode n b)"
  by (auto simp: bits_decode_def Let_def)

section \<open>Counting bits\<close>

lemma count_ones_append:
  "length (filter (bit (from_be (bs @ [b]))) [0..<8 * length (bs @ [b])]) =
   count_ones b + length (filter (bit (from_be bs)) [0..<8 * length bs])"
proof -
  have "[0..<8 + 8 * length bs] = [0..<8] @ map (\<lambda>i. i + 8) [0..<8 * length bs]"
    using upt_add_eq_append [of 0 8 "8 * length bs"] by (simp add: map_add_upt add.commute)
  moreover have "filter (bit (from_be bs * 256 + unat b)) [0..<8] = filter (bit b) [0..<8]"
    using byte_bound [of b] by (intro filter_cong) (auto simp: bit_mult_256_add bit_unsigned_iff)
  moreover have "bit (from_be bs * 256 + unat b) (i + 8) = bit (from_be bs) i" for i
    using byte_bound [of b] by (simp add: bit_mult_256_add)
  ultimately show ?thesis by (simp add: count_ones_def filter_map comp_def)
qed

lemma count_ones_sum: "sum_list (map count_ones bs) = length (filter (bit (from_be bs)) [0..<8 * length bs])"
proof (induction bs rule: rev_induct)
  case (snoc b bs)
  then show ?case using count_ones_append [of bs b] by simp
qed simp

lemma count_ones_sum_le:
  assumes "from_be bs < 2 ^ n"
  shows "sum_list (map count_ones bs) \<le> n"
proof -
  have "set (filter (bit (from_be bs)) [0..<8 * length bs]) \<subseteq> {..<n}"
  proof
    fix i assume "i \<in> set (filter (bit (from_be bs)) [0..<8 * length bs])"
    then have "bit (from_be bs) i" by simp
    moreover have "\<not> bit (from_be bs) i" if "n \<le> i"
      using assms that by (rule no_bit_above)
    ultimately show "i \<in> {..<n}" by (meson lessThan_iff not_less)
  qed
  then have "card (set (filter (bit (from_be bs)) [0..<8 * length bs])) \<le> n"
    using card_mono [of "{..<n}"] by fastforce
  moreover have "distinct (filter (bit (from_be bs)) [0..<8 * length bs])" by simp
  ultimately show ?thesis using distinct_card by (metis count_ones_sum)
qed

section \<open>Lists of bits\<close>

text \<open>A bit list at its exact length, and one that represents given entries.\<close>

definition bits_ok :: "nat \<Rightarrow> span_bits \<Rightarrow> bool" where
  "bits_ok n bits \<longleftrightarrow> length bits = bits_buffer_len n \<and> from_be bits < 2 ^ n"

definition bits_rep :: "span_bits \<Rightarrow> bool list \<Rightarrow> bool" where
  "bits_rep bits vs \<longleftrightarrow> bits_ok (length vs) bits \<and> (\<forall>i<length vs. bit (from_be bits) i = vs ! i)"

lemma bits_ok_encode: "bits_ok n bits \<Longrightarrow> bits_encode n bits = Inr bits"
  using bits_encode_padded [of bits n] to_from_be [of bits] by (simp add: bits_ok_def)

lemma bits_ok_decode: "bits_ok n bits \<Longrightarrow> bits_decode n (bits @ rest) = Inr (bits, rest)"
  using bits_decode_number [of "from_be bits" n rest] to_from_be [of bits] by (simp add: bits_ok_def)

lemma bits_decode_ok: "bits_decode n b = Inr (bits, rest) \<Longrightarrow> bits_ok n bits"
  using bits_decode_sound [of n b bits rest] by (simp add: bits_ok_def)

lemma bits_rep_Nil [simp]: "bits_rep [] []"
  by (simp add: bits_rep_def bits_ok_def buffer_len_eq)

lemma bits_rep_ok: "bits_rep bits vs \<Longrightarrow> bits_ok (length vs) bits"
  by (simp add: bits_rep_def)

lemma bits_rep_get: "bits_rep bits vs \<Longrightarrow> i < length vs \<Longrightarrow> bits_get_bit bits i = Some (if vs ! i then 1 else 0)"
  using buffer_len_bounds [of "length vs"] by (simp add: bits_rep_def bits_ok_def get_bit_from_be)

lemma bits_ok_get: "bits_ok n bits \<Longrightarrow> i < n \<Longrightarrow> \<exists>b. bits_get_bit bits i = Some b"
  using buffer_len_bounds [of n] by (simp add: bits_ok_def get_bit_from_be)

lemma bits_rep_snoc:
  assumes "bits_rep bits vs"
  shows "bits_rep (bits_set_bit (length vs) v bits) (vs @ [v])"
proof -
  let ?n = "length vs" and ?b = "bits_set_bit (length vs) v bits"
  have b: "length bits = bits_buffer_len ?n" "from_be bits < 2 ^ ?n" "\<forall>i<?n. bit (from_be bits) i = vs ! i"
    using assms by (auto simp: bits_rep_def bits_ok_def)
  have "length bits \<le> ?n div 8 + 1" using b(1) buffer_len_mono [of ?n "Suc ?n"] by (simp add: buffer_len_Suc)
  then have l: "length ?b = bits_buffer_len (Suc ?n)" by (simp add: buffer_len_Suc)
  have k: "bit (from_be ?b) i \<longleftrightarrow> (if i = ?n then v else bit (from_be bits) i)" for i
    by (auto simp: from_be_set_bit bit_set_bit_iff bit_unset_bit_iff)
  have "from_be ?b = take_bit (Suc ?n) (from_be ?b)"
  proof (rule bit_eqI)
    fix i
    have "\<not> bit (from_be bits) i" if "?n \<le> i" using b(2) that by (rule no_bit_above)
    then show "bit (from_be ?b) i \<longleftrightarrow> bit (take_bit (Suc ?n) (from_be ?b)) i"
      by (auto simp: k bit_take_bit_iff less_Suc_eq not_less [symmetric])
  qed
  then have "from_be ?b < 2 ^ Suc ?n" by (metis take_bit_nat_less_exp)
  then show ?thesis using b(3) l by (auto simp: bits_rep_def bits_ok_def k less_Suc_eq nth_append)
qed

lemma bits_rep_count:
  assumes "bits_rep bits vs"
  shows "sum_list (map count_ones bits) = length (filter id vs)"
proof -
  let ?n = "length vs" and ?m = "8 * length bits - length vs"
  have b: "?n \<le> 8 * length bits" "from_be bits < 2 ^ ?n" "\<forall>i<?n. bit (from_be bits) i = vs ! i"
    using assms buffer_len_bounds [of ?n] by (auto simp: bits_rep_def bits_ok_def)
  have "[0..<8 * length bits] = [0..<?n] @ [?n..<?n + ?m]"
    using b(1) upt_add_eq_append [of 0 ?n ?m] by simp
  moreover have "filter (bit (from_be bits)) [?n..<?n + ?m] = []"
    using no_bit_above [OF b(2)] by (auto simp: filter_empty_conv)
  moreover have "filter (bit (from_be bits)) [0..<?n] = filter (\<lambda>i. vs ! i) [0..<?n]"
    using b(3) by (intro filter_cong) auto
  moreover have "length (filter (\<lambda>i. vs ! i) [0..<?n]) = length (filter id vs)"
    by (metis (no_types, lifting) filter_cong filter_map id_comp id_def length_map map_nth)
  ultimately show ?thesis by (simp add: count_ones_sum)
qed

text \<open>
  Bit lists are numbers: reading and setting a bit are the operations on the big-endian
  value, the bit length is the least number of bits that holds it, encoding succeeds exactly
  when the value fits and then writes it at the fixed number of bytes, and decoding what was
  encoded gives the value and the rest of the input back.
\<close>

theorem span_bits_are_numbers:
  "bits_get_bit bits i = (if i < 8 * length bits then Some (if bit (from_be bits) i then 1 else 0) else None) \<and>
   from_be (bits_set_bit i v bits) = (if v then set_bit i (from_be bits) else unset_bit i (from_be bits)) \<and>
   (bits_bit_len bits \<le> n \<longleftrightarrow> from_be bits < 2 ^ n) \<and>
   (length bits \<le> bits_buffer_len n \<longrightarrow> bits_encode n bits =
      (if from_be bits < 2 ^ n then Inr (to_be (bits_buffer_len n) (from_be bits)) else fails BitfieldTooLong)) \<and>
   (from_be bits < 2 ^ n \<longrightarrow> bits_decode n (to_be (bits_buffer_len n) (from_be bits) @ rest) =
      Inr (to_be (bits_buffer_len n) (from_be bits), rest))"
proof (intro conjI impI)
  show "bits_encode n bits =
     (if from_be bits < 2 ^ n then Inr (to_be (bits_buffer_len n) (from_be bits)) else fails BitfieldTooLong)"
    if "length bits \<le> bits_buffer_len n"
    using that bits_encode_padded [of bits n] bit_len_le_iff [of bits n] by (auto simp: bits_encode_def)
qed (simp_all add: get_bit_from_be from_be_set_bit bit_len_le_iff bits_decode_number)

theorem span_bits_are_numbers_witness:
  "length [5 :: u8] \<le> bits_buffer_len 10 \<and> from_be [5] < 2 ^ 10 \<and>
   bits_encode 10 [5] = Inr [0, 5] \<and> bits_decode 10 ([0, 5] @ [9]) = Inr ([0, 5], [9])"
proof -
  have n: "bits_buffer_len 10 = 2" by (simp add: bits_buffer_len_def)
  have f: "from_be [5] = 5" by (simp add: from_be_def)
  have b: "to_be 2 5 = [0, 5]" by (simp add: numeral_2_eq_2)
  show ?thesis
    using span_bits_are_numbers [of "[5]" 0 True 10 "[9]"] unfolding n f b by simp
qed

end
