(* ===== verification/Codecs.thy ===== *)
theory Codecs
  imports Span_Bits
begin

text \<open>
  The codecs of third-party crates that batches are written with: \<open>unsigned_varint\<close> and \<open>alloy_rlp\<close>. They are
  parameters of the development, records of functions, with what the code relies on as the
  predicates \<open>varint_ok\<close> and \<open>rlp_ok\<close>. The base-128 varints and the RLP format satisfy them.
\<close>

section \<open>Third-party codecs\<close>

text \<open>\<open>unsigned_varint::encode::u64\<close> and \<open>unsigned_varint::decode::u64\<close>.\<close>

record varint =
  vi_encode :: "u64 \<Rightarrow> bytes"
  vi_decode :: "bytes \<Rightarrow> (u64 \<times> bytes) option"

definition varint_ok :: "varint \<Rightarrow> bool" where
  "varint_ok vi \<longleftrightarrow> (\<forall>n r. vi_decode vi (vi_encode vi n @ r) = Some (n, r))"

text \<open>
  \<open>alloy_rlp\<close>: headers with their list flag and payload length, byte strings, and unsigned
  integers of a width in bytes.
\<close>

record rlp =
  rlp_header_encode :: "bool \<Rightarrow> nat \<Rightarrow> bytes"
  rlp_header_decode :: "bytes \<Rightarrow> ((bool \<times> nat) \<times> bytes) option"
  rlp_header_length :: "nat \<Rightarrow> nat"
  rlp_bytes_encode :: "bytes \<Rightarrow> bytes"
  rlp_bytes_decode :: "bytes \<Rightarrow> (bytes \<times> bytes) option"
  rlp_uint_encode :: "nat \<Rightarrow> bytes"
  rlp_uint_decode :: "nat \<Rightarrow> bytes \<Rightarrow> (nat \<times> bytes) option"

definition rlp_ok :: "rlp \<Rightarrow> bool" where
  "rlp_ok rlp \<longleftrightarrow>
     (\<forall>n r. n < 2 ^ 64 \<longrightarrow> n \<le> length r \<longrightarrow>
        rlp_header_decode rlp (rlp_header_encode rlp True n @ r) = Some ((True, n), r)) \<and>
     (\<forall>n. length (rlp_header_encode rlp True n) = rlp_header_length rlp n) \<and>
     (\<forall>n. n < 2 ^ 64 \<longrightarrow> (\<exists>b bs. rlp_header_encode rlp True n = b # bs \<and> b > 0x7F)) \<and>
     (\<forall>b r. length b < 2 ^ 64 \<longrightarrow> rlp_bytes_decode rlp (rlp_bytes_encode rlp b @ r) = Some (b, r)) \<and>
     length (rlp_bytes_encode rlp []) = 1 \<and>
     (\<forall>b. length b = 20 \<longrightarrow> length (rlp_bytes_encode rlp b) = 21) \<and>
     (\<forall>w n r. w \<le> 32 \<longrightarrow> n < 256 ^ w \<longrightarrow> rlp_uint_decode rlp w (rlp_uint_encode rlp n @ r) = Some (n, r))"

text \<open>The \<open>?\<close> operator on a decoder whose error is not looked at.\<close>

definition dec_then :: "('a \<times> bytes) option \<Rightarrow> ('a \<Rightarrow> bytes \<Rightarrow> 'b option) \<Rightarrow> 'b option" where
  "dec_then x f = (case x of None \<Rightarrow> None | Some (a, r) \<Rightarrow> f a r)"

lemma dec_then_simps [simp]:
  "dec_then None f = None"
  "dec_then (Some (a, r)) f = f a r"
  by (simp_all add: dec_then_def)

lemma rlp_okD:
  assumes "rlp_ok rlp"
  shows "n < 2 ^ 64 \<Longrightarrow> n \<le> length r \<Longrightarrow>
      rlp_header_decode rlp (rlp_header_encode rlp True n @ r) = Some ((True, n), r)"
    and "length (rlp_header_encode rlp True n) = rlp_header_length rlp n"
    and "n < 2 ^ 64 \<Longrightarrow> \<exists>b bs. rlp_header_encode rlp True n = b # bs \<and> b > 0x7F"
    and "length b < 2 ^ 64 \<Longrightarrow> rlp_bytes_decode rlp (rlp_bytes_encode rlp b @ r) = Some (b, r)"
    and "length (rlp_bytes_encode rlp []) = 1"
    and "length b = 20 \<Longrightarrow> length (rlp_bytes_encode rlp b) = 21"
    and "w \<le> 32 \<Longrightarrow> m < 256 ^ w \<Longrightarrow> rlp_uint_decode rlp w (rlp_uint_encode rlp m @ r) = Some (m, r)"
  using assms by (simp_all add: rlp_ok_def)

section \<open>Base-128 varints\<close>

fun leb128_encode :: "nat \<Rightarrow> bytes" where
  "leb128_encode n = (if n < 128 then [word_of_nat n] else word_of_nat (n mod 128 + 128) # leb128_encode (n div 128))"

declare leb128_encode.simps [simp del]

fun leb128_decode :: "bytes \<Rightarrow> (nat \<times> bytes) option" where
  "leb128_decode [] = None"
| "leb128_decode (b # r) =
     (if b < 128 then Some (unat b, r)
      else case leb128_decode r of None \<Rightarrow> None | Some (n, r) \<Rightarrow> Some (n * 128 + (unat b - 128), r))"

definition leb128 :: varint where
  "leb128 =
     \<lparr>vi_encode = (\<lambda>n. leb128_encode (unat n)),
      vi_decode = (\<lambda>r. map_option (\<lambda>(n, r). (word_of_nat n, r)) (leb128_decode r))\<rparr>"

lemma unat_byte: "n < 256 \<Longrightarrow> unat (word_of_nat n :: u8) = n"
  by (simp add: unat_of_nat)

lemma leb128_decode_encode: "leb128_decode (leb128_encode n @ r) = Some (n, r)"
proof (induction n rule: leb128_encode.induct)
  case (1 n)
  show ?case
  proof (cases "n < 128")
    case True
    then show ?thesis
      using unat_byte [of n] by (simp add: leb128_encode.simps [of n] word_less_nat_alt)
  next
    case False
    have "n mod 128 + 128 < 256" using mod_less_divisor [of 128 n] by linarith
    then have "unat (word_of_nat (n mod 128 + 128) :: u8) = n mod 128 + 128" by (rule unat_byte)
    then show ?thesis
      using False 1 by (simp add: leb128_encode.simps [of n] word_less_nat_alt del: of_nat_add)
  qed
qed

lemma leb128_ok: "varint_ok leb128"
  by (simp add: varint_ok_def leb128_def leb128_decode_encode)

section \<open>The RLP format\<close>

fun be_min :: "nat \<Rightarrow> bytes" where
  "be_min n = (if n = 0 then [] else be_min (n div 256) @ [word_of_nat n])"

declare be_min.simps [simp del]

definition rlp_format_header :: "bool \<Rightarrow> nat \<Rightarrow> bytes" where
  "rlp_format_header lst n =
     (let off = (if lst then 0xC0 else 0x80) in
      if n < 56 then [word_of_nat (off + n)] else word_of_nat (off + 55 + length (be_min n)) # be_min n)"

definition rlp_format_read_header :: "bytes \<Rightarrow> ((bool \<times> nat) \<times> bytes) option" where
  "rlp_format_read_header r =
     (case r of
        [] \<Rightarrow> None
      | b # r' \<Rightarrow>
          if unat b < 0x80 then Some ((False, 1), r)
          else let lst = (0xC0 \<le> unat b); k = unat b - (if lst then 0xC0 else 0x80) in
            if k < 56 then (if k \<le> length r' then Some ((lst, k), r') else None)
            else let n = from_be (take (k - 55) r'); r' = drop (k - 55) r' in
              if n \<le> length r' then Some ((lst, n), r') else None)"

definition rlp_format_bytes :: "bytes \<Rightarrow> bytes" where
  "rlp_format_bytes b = (if length b = 1 \<and> hd b < 0x80 then b else rlp_format_header False (length b) @ b)"

definition rlp_format_read_bytes :: "bytes \<Rightarrow> (bytes \<times> bytes) option" where
  "rlp_format_read_bytes r =
     (case rlp_format_read_header r of
        Some ((False, n), r) \<Rightarrow> Some (take n r, drop n r)
      | _ \<Rightarrow> None)"

definition rlp_format_read_uint :: "nat \<Rightarrow> bytes \<Rightarrow> (nat \<times> bytes) option" where
  "rlp_format_read_uint w r =
     (case rlp_format_read_bytes r of
        None \<Rightarrow> None
      | Some (b, r) \<Rightarrow> if length b \<le> w then Some (from_be b, r) else None)"

definition rlp_format :: rlp where
  "rlp_format =
     \<lparr>rlp_header_encode = rlp_format_header, rlp_header_decode = rlp_format_read_header,
      rlp_header_length = (\<lambda>n. length (rlp_format_header True n)),
      rlp_bytes_encode = rlp_format_bytes, rlp_bytes_decode = rlp_format_read_bytes,
      rlp_uint_encode = (\<lambda>n. rlp_format_bytes (be_min n)), rlp_uint_decode = rlp_format_read_uint\<rparr>"

lemma be_min_0 [simp]: "be_min 0 = []"
  by (simp add: be_min.simps)

lemma be_min_Suc: "n \<noteq> 0 \<Longrightarrow> be_min n = be_min (n div 256) @ [word_of_nat n]"
  by (simp add: be_min.simps [of n])

lemma from_be_be_min [simp]: "from_be (be_min n) = n"
proof (induction n rule: be_min.induct)
  case (1 n)
  then show ?case by (cases "n = 0") (simp_all add: be_min_Suc unat_of_nat)
qed

lemma length_be_min: "n < 256 ^ k \<Longrightarrow> length (be_min n) \<le> k"
proof (induction n arbitrary: k rule: be_min.induct)
  case (1 n)
  show ?case
  proof (cases k)
    case (Suc j)
    then have "n div 256 < 256 ^ j" using 1(2) by (simp add: div_less_iff_less_mult mult.commute)
    then show ?thesis using 1(1) Suc by (cases "n = 0") (simp_all add: be_min_Suc)
  qed (use 1(2) in simp)
qed

lemma be_min_nonempty: "n \<noteq> 0 \<Longrightarrow> 0 < length (be_min n)"
  by (simp add: be_min_Suc)

lemma rlp_format_read_header_ok:
  assumes "n < 2 ^ 64" and "n \<le> length r"
  shows "rlp_format_read_header (rlp_format_header lst n @ r) = Some ((lst, n), r)"
proof -
  have l: "length (be_min n) \<le> 8" using assms(1) by (intro length_be_min) simp
  show ?thesis
  proof (cases "n < 56")
    case True
    then show ?thesis
      using assms(2) by (simp add: rlp_format_header_def rlp_format_read_header_def Let_def unat_byte del: of_nat_add)
  next
    case False
    then have "0 < length (be_min n)" by (intro be_min_nonempty) simp
    then show ?thesis
      using False l assms(2) by (simp add: rlp_format_header_def rlp_format_read_header_def Let_def unat_byte del: of_nat_add)
  qed
qed

lemma rlp_format_read_bytes_ok:
  assumes "length b < 2 ^ 64"
  shows "rlp_format_read_bytes (rlp_format_bytes b @ r) = Some (b, r)"
proof (cases "length b = 1 \<and> hd b < 0x80")
  case True
  then obtain x where "b = [x]" "x < 0x80" by (metis One_nat_def length_0_conv length_Suc_conv list.sel(1))
  then show ?thesis
    by (simp add: rlp_format_bytes_def rlp_format_read_bytes_def rlp_format_read_header_def word_less_nat_alt)
next
  case False
  then show ?thesis
    using rlp_format_read_header_ok [OF assms, of "b @ r" False]
    by (auto simp: rlp_format_bytes_def rlp_format_read_bytes_def)
qed

lemma rlp_format_header_first:
  assumes "n < 2 ^ 64"
  shows "\<exists>b bs. rlp_format_header True n = b # bs \<and> b > 0x7F"
proof -
  have l: "length (be_min n) \<le> 8" using assms by (intro length_be_min) simp
  then show ?thesis by (auto simp: rlp_format_header_def Let_def word_less_nat_alt unat_byte simp del: of_nat_add)
qed

lemma rlp_format_ok: "rlp_ok rlp_format"
proof -
  have uint: "rlp_format_read_uint w (rlp_format_bytes (be_min n) @ r) = Some (n, r)"
    if "w \<le> 32" "n < 256 ^ w" for w n r
  proof -
    have "length (be_min n) \<le> w" using that(2) by (rule length_be_min)
    moreover from this that(1) have "length (be_min n) < 2 ^ 64" by simp
    ultimately show ?thesis by (simp add: rlp_format_read_uint_def rlp_format_read_bytes_ok)
  qed
  have "length (rlp_format_header True n) = length (rlp_format_header False n)" for n
    by (simp add: rlp_format_header_def Let_def)
  moreover have "length (rlp_format_bytes b) = 21" if "length b = 20" for b
    using that by (simp add: rlp_format_bytes_def rlp_format_header_def)
  moreover have "length (rlp_format_bytes []) = 1"
    by (simp add: rlp_format_bytes_def rlp_format_header_def)
  ultimately show ?thesis
    using rlp_format_read_header_ok rlp_format_read_bytes_ok rlp_format_header_first uint
    by (simp add: rlp_ok_def rlp_format_def)
qed

end
