(* ===== verification/Deposit_Txs.thy ===== *)
theory Deposit_Txs
  imports Codecs L1_Info System_Config
begin

text \<open>
  Deposit transactions (\<open>src/crates/common/consensus/src/transaction/deposit.rs\<close>, \<open>source.rs\<close>, \<open>predeploys.rs\<close>): the
  record, its EIP-2718 encoding and decoding over the RLP parameter, the hashes that identify the
  source of a deposit, and the deposit that carries the L1 information (\<open>info/variant.rs\<close>). Keccak is a
  parameter. The lemmas show that the encoding is read back and that two deposits share a source
  hash only when their sources are equal or the inputs hashed for them collide.
\<close>

section \<open>Addresses\<close>

definition SEQUENCER_FEE_VAULT :: address where
  "SEQUENCER_FEE_VAULT = to_be 20 0x4200000000000000000000000000000000000011"

definition GAS_PRICE_ORACLE :: address where
  "GAS_PRICE_ORACLE = to_be 20 0x420000000000000000000000000000000000000F"

definition L1_BLOCK_INFO :: address where
  "L1_BLOCK_INFO = to_be 20 0x4200000000000000000000000000000000000015"

definition OPERATOR_FEE_VAULT :: address where
  "OPERATOR_FEE_VAULT = to_be 20 0x420000000000000000000000000000000000001B"

definition BASE_TIME :: address where
  "BASE_TIME = to_be 20 0x4200000000000000000000000000000000000030"

definition DEPOSITOR_ACCOUNT :: address where
  "DEPOSITOR_ACCOUNT = to_be 20 0xDeaDDEaDDeAdDeAdDEAdDEaddeAddEAdDEAd0001"

definition REGOLITH_SYSTEM_TX_GAS :: u64 where
  "REGOLITH_SYSTEM_TX_GAS = 1000000"

section \<open>Deposit transactions\<close>

text \<open>\<open>TxKind::Create\<close> is \<open>None\<close>.\<close>

record tx_deposit =
  dt_source_hash :: hash32
  dt_from :: address
  dt_to :: "address option"
  dt_mint :: u128
  dt_value :: u256
  dt_gas_limit :: u64
  dt_is_system_transaction :: bool
  dt_input :: bytes

definition tx_deposit_default :: tx_deposit where
  "tx_deposit_default =
     \<lparr>dt_source_hash = B256_ZERO, dt_from = replicate 20 0, dt_to = None, dt_mint = 0, dt_value = 0,
      dt_gas_limit = 0, dt_is_system_transaction = False, dt_input = []\<rparr>"

definition DEPOSIT_TX_TYPE :: u8 where
  "DEPOSIT_TX_TYPE = 0x7E"

text \<open>
  The fields as the RLP crate writes them: hashes, addresses and data as byte strings, a creation
  as the empty string, numbers and flags as integers.
\<close>

definition dep_rlp_encode_fields :: "rlp \<Rightarrow> tx_deposit \<Rightarrow> bytes" where
  "dep_rlp_encode_fields rlp tx =
     rlp_bytes_encode rlp (dt_source_hash tx) @ rlp_bytes_encode rlp (dt_from tx) @
     rlp_bytes_encode rlp (case dt_to tx of None \<Rightarrow> [] | Some a \<Rightarrow> a) @
     rlp_uint_encode rlp (unat (dt_mint tx)) @ rlp_uint_encode rlp (unat (dt_value tx)) @
     rlp_uint_encode rlp (unat (dt_gas_limit tx)) @
     rlp_uint_encode rlp (if dt_is_system_transaction tx then 1 else 0) @
     rlp_bytes_encode rlp (dt_input tx)"

definition dep_rlp_encoded_fields_length :: "rlp \<Rightarrow> tx_deposit \<Rightarrow> nat" where
  "dep_rlp_encoded_fields_length rlp tx =
     length (rlp_bytes_encode rlp (dt_source_hash tx)) + length (rlp_bytes_encode rlp (dt_from tx)) +
     length (rlp_bytes_encode rlp (case dt_to tx of None \<Rightarrow> [] | Some a \<Rightarrow> a)) +
     length (rlp_uint_encode rlp (unat (dt_mint tx))) + length (rlp_uint_encode rlp (unat (dt_value tx))) +
     length (rlp_uint_encode rlp (unat (dt_gas_limit tx))) +
     length (rlp_uint_encode rlp (if dt_is_system_transaction tx then 1 else 0)) +
     length (rlp_bytes_encode rlp (dt_input tx))"

definition dep_rlp_encode :: "rlp \<Rightarrow> tx_deposit \<Rightarrow> bytes" where
  "dep_rlp_encode rlp tx =
     rlp_header_encode rlp True (dep_rlp_encoded_fields_length rlp tx) @ dep_rlp_encode_fields rlp tx"

definition dep_encode_2718 :: "rlp \<Rightarrow> tx_deposit \<Rightarrow> bytes" where
  "dep_encode_2718 rlp tx = DEPOSIT_TX_TYPE # dep_rlp_encode rlp tx"

text \<open>Decoders of the RLP crate for fixed bytes, recipients and flags.\<close>

definition decode_fixed :: "rlp \<Rightarrow> nat \<Rightarrow> bytes \<Rightarrow> (bytes \<times> bytes) option" where
  "decode_fixed rlp n buf =
     dec_then (rlp_bytes_decode rlp buf) (\<lambda>bs buf. if length bs = n then Some (bs, buf) else None)"

definition decode_tx_kind :: "rlp \<Rightarrow> bytes \<Rightarrow> (address option \<times> bytes) option" where
  "decode_tx_kind rlp buf =
     dec_then (rlp_bytes_decode rlp buf) (\<lambda>bs buf.
       if bs = [] then Some (None, buf) else if length bs = 20 then Some (Some bs, buf) else None)"

definition decode_bool :: "rlp \<Rightarrow> bytes \<Rightarrow> (bool \<times> bytes) option" where
  "decode_bool rlp buf =
     dec_then (rlp_uint_decode rlp 1 buf) (\<lambda>n buf.
       if n = 0 then Some (False, buf) else if n = 1 then Some (True, buf) else None)"

definition dep_rlp_decode_fields :: "rlp \<Rightarrow> bytes \<Rightarrow> (tx_deposit \<times> bytes) option" where
  "dep_rlp_decode_fields rlp buf =
     dec_then (decode_fixed rlp 32 buf) (\<lambda>source_hash buf.
     dec_then (decode_fixed rlp 20 buf) (\<lambda>sender buf.
     dec_then (decode_tx_kind rlp buf) (\<lambda>to buf.
     dec_then (rlp_uint_decode rlp 16 buf) (\<lambda>mint buf.
     dec_then (rlp_uint_decode rlp 32 buf) (\<lambda>val buf.
     dec_then (rlp_uint_decode rlp 8 buf) (\<lambda>gas_limit buf.
     dec_then (decode_bool rlp buf) (\<lambda>is_system buf.
     dec_then (rlp_bytes_decode rlp buf) (\<lambda>input buf.
       Some (\<lparr>dt_source_hash = source_hash, dt_from = sender, dt_to = to, dt_mint = word_of_nat mint,
              dt_value = word_of_nat val, dt_gas_limit = word_of_nat gas_limit,
              dt_is_system_transaction = is_system, dt_input = input\<rparr>, buf)))))))))"

definition dep_rlp_decode :: "rlp \<Rightarrow> bytes \<Rightarrow> (tx_deposit \<times> bytes) option" where
  "dep_rlp_decode rlp buf =
     dec_then (rlp_header_decode rlp buf) (\<lambda>(lst, payload_length) buf.
       if \<not> lst then None
       else let remaining = length buf in
         if payload_length > remaining then None
         else dec_then (dep_rlp_decode_fields rlp buf) (\<lambda>this buf.
           if length buf + payload_length \<noteq> remaining then None else Some (this, buf)))"

text \<open>\<open>decode_2718\<close>: the type byte, which has to be the one of deposits, and the body.\<close>

definition dep_decode_2718 :: "rlp \<Rightarrow> bytes \<Rightarrow> (tx_deposit \<times> bytes) option" where
  "dep_decode_2718 rlp buf =
     (case buf of
        [] \<Rightarrow> None
      | ty # buf \<Rightarrow> if ty \<noteq> DEPOSIT_TX_TYPE then None else dep_rlp_decode rlp buf)"

section \<open>Source hashes\<close>

type_synonym keccak = "bytes \<Rightarrow> bytes"

datatype deposit_source_domain =
    SourceUser hash32 u64
  | SourceL1Info hash32 u64
  | SourceUpgrade bytes
  | SourceBaseTime u64

text \<open>A hash in the domain of a kind of source.\<close>

definition domain_hash :: "keccak \<Rightarrow> nat \<Rightarrow> bytes \<Rightarrow> hash32" where
  "domain_hash k identifier deposit_id_hash = k (replicate 24 0 @ to_be 8 identifier @ deposit_id_hash)"

definition user_source_hash :: "keccak \<Rightarrow> hash32 \<Rightarrow> u64 \<Rightarrow> hash32" where
  "user_source_hash k l1_block_hash log_index =
     domain_hash k 0 (k (l1_block_hash @ replicate 24 0 @ to_be 8 (unat log_index)))"

definition l1_info_source_hash :: "keccak \<Rightarrow> hash32 \<Rightarrow> u64 \<Rightarrow> hash32" where
  "l1_info_source_hash k l1_block_hash seq_number =
     domain_hash k 1 (k (l1_block_hash @ replicate 24 0 @ to_be 8 (unat seq_number)))"

definition upgrade_source_hash :: "keccak \<Rightarrow> bytes \<Rightarrow> hash32" where
  "upgrade_source_hash k intent = domain_hash k 2 (k intent)"

definition base_time_source_hash :: "keccak \<Rightarrow> u64 \<Rightarrow> hash32" where
  "base_time_source_hash k block_number =
     domain_hash k 3 (k (replicate 24 0 @ to_be 8 (unat block_number)))"

fun source_hash :: "keccak \<Rightarrow> deposit_source_domain \<Rightarrow> hash32" where
  "source_hash k (SourceUser h i) = user_source_hash k h i"
| "source_hash k (SourceL1Info h s) = l1_info_source_hash k h s"
| "source_hash k (SourceUpgrade intent) = upgrade_source_hash k intent"
| "source_hash k (SourceBaseTime n) = base_time_source_hash k n"

section \<open>The L1 information deposit\<close>

definition l1_info_into_deposit_tx ::
    "keccak \<Rightarrow> registry \<Rightarrow> rollup_config \<Rightarrow> u64 \<Rightarrow> l1_block_info_tx \<Rightarrow> tx_deposit" where
  "l1_info_into_deposit_tx k reg cfg l2_block_time info =
     (let deposit_tx =
        \<lparr>dt_source_hash = source_hash k (SourceL1Info (info_block_hash info) (info_sequence_number info)),
         dt_from = DEPOSITOR_ACCOUNT, dt_to = Some L1_BLOCK_INFO, dt_mint = 0, dt_value = 0,
         dt_gas_limit = 150000000, dt_is_system_transaction = True, dt_input = encode_calldata info\<rparr>
      in if is_regolith_active reg cfg l2_block_time
         then deposit_tx\<lparr>dt_is_system_transaction := False, dt_gas_limit := REGOLITH_SYSTEM_TX_GAS\<rparr>
         else deposit_tx)"

definition try_new_with_deposit_tx ::
    "keccak \<Rightarrow> registry \<Rightarrow> rollup_config \<Rightarrow> 'bp l1_chain_config \<Rightarrow> system_config \<Rightarrow> u64 \<Rightarrow> l1_header
     \<Rightarrow> u64 \<Rightarrow> u64 \<Rightarrow> block_info_error + l1_block_info_tx \<times> tx_deposit" where
  "try_new_with_deposit_tx k reg cfg l1_config sys sequence_number header l2_parent_block_time l2_block_time =
     and_then (try_new reg cfg l1_config sys sequence_number header l2_parent_block_time l2_block_time)
       (\<lambda>l1_info. Inr (l1_info, l1_info_into_deposit_tx k reg cfg l2_block_time l1_info))"

section \<open>Properties\<close>

definition tx_deposit_wf :: "rlp \<Rightarrow> tx_deposit \<Rightarrow> bool" where
  "tx_deposit_wf rlp tx \<longleftrightarrow>
     length (dt_source_hash tx) = 32 \<and> length (dt_from tx) = 20 \<and>
     (case dt_to tx of None \<Rightarrow> True | Some a \<Rightarrow> length a = 20) \<and>
     length (dt_input tx) < 2 ^ 64 \<and> dep_rlp_encoded_fields_length rlp tx < 2 ^ 64"

text \<open>How long the encodings of third-party RLP are: a header of at most nine bytes.\<close>

definition rlp_compact :: "rlp \<Rightarrow> bool" where
  "rlp_compact rlp \<longleftrightarrow>
     (\<forall>b. length b < 2 ^ 64 \<longrightarrow> length (rlp_bytes_encode rlp b) \<le> length b + 9) \<and>
     (\<forall>n. n < 2 ^ 256 \<longrightarrow> length (rlp_uint_encode rlp n) \<le> 33)"

lemma rlp_format_compact: "rlp_compact rlp_format"
proof -
  have h: "length (rlp_format_header False n) \<le> 9" if "n < 2 ^ 64" for n
    using length_be_min [of n 8] that by (simp add: rlp_format_header_def Let_def)
  then have b: "length (rlp_format_bytes b) \<le> length b + 9" if "length b < 2 ^ 64" for b
    using that by (simp add: rlp_format_bytes_def)
  have "length (rlp_format_bytes (be_min n)) \<le> 33" if "n < 2 ^ 256" for n
  proof -
    have "length (be_min n) \<le> 32" using length_be_min [of n 32] that by simp
    then show ?thesis by (auto simp: rlp_format_bytes_def rlp_format_header_def)
  qed
  with b show ?thesis by (simp add: rlp_compact_def rlp_format_def)
qed

lemma tx_deposit_wfI:
  assumes "rlp_compact rlp" and "length (dt_source_hash tx) = 32" and "length (dt_from tx) = 20"
    and "case dt_to tx of None \<Rightarrow> True | Some a \<Rightarrow> length a = 20" and "length (dt_input tx) < 2 ^ 63"
  shows "tx_deposit_wf rlp tx"
proof -
  have b: "length (rlp_bytes_encode rlp x) \<le> length x + 9" if "length x < 2 ^ 64" for x
    using assms(1) that by (simp add: rlp_compact_def)
  have u: "length (rlp_uint_encode rlp n) \<le> 33" if "n < 2 ^ 256" for n using assms(1) that by (simp add: rlp_compact_def)
  have "unat (x :: u128) < 2 ^ 256" "unat (y :: u256) < 2 ^ 256" "unat (z :: u64) < 2 ^ 256" for x y z
    using unsigned_less [of x, where ?'a = nat] unsigned_less [of y, where ?'a = nat]
      unsigned_less [of z, where ?'a = nat] by simp_all
  note n = u [OF this(1), of "dt_mint tx"] u [OF this(2), of "dt_value tx"] u [OF this(3), of "dt_gas_limit tx"]
  have "length (rlp_uint_encode rlp (if dt_is_system_transaction tx then 1 else 0)) \<le> 33" by (rule u) simp
  moreover have t: "length (case dt_to tx of None \<Rightarrow> [] | Some a \<Rightarrow> a) \<le> 20"
    using assms(4) by (auto split: option.splits)
  moreover have "length (rlp_bytes_encode rlp (dt_source_hash tx)) \<le> 32 + 9"
    "length (rlp_bytes_encode rlp (dt_from tx)) \<le> 20 + 9"
    "length (rlp_bytes_encode rlp (dt_input tx)) \<le> length (dt_input tx) + 9"
    using b [of "dt_source_hash tx"] b [of "dt_from tx"] b [of "dt_input tx"] assms(2,3,5) by simp_all
  moreover have "length (rlp_bytes_encode rlp (case dt_to tx of None \<Rightarrow> [] | Some a \<Rightarrow> a)) \<le>
      length (case dt_to tx of None \<Rightarrow> [] | Some a \<Rightarrow> a) + 9"
    by (rule b [OF le_less_trans [OF t]]) simp
  ultimately have "dep_rlp_encoded_fields_length rlp tx \<le> 32 + 20 + 20 + 4 * 9 + 4 * 33 + length (dt_input tx)"
    using n unfolding dep_rlp_encoded_fields_length_def by linarith
  then show ?thesis using assms(2-5) by (simp add: tx_deposit_wf_def)
qed

lemma dep_fields_length: "length (dep_rlp_encode_fields rlp tx) = dep_rlp_encoded_fields_length rlp tx"
  by (simp add: dep_rlp_encode_fields_def dep_rlp_encoded_fields_length_def)

lemma word_uint_codec:
  assumes "rlp_ok rlp"
  shows "rlp_uint_decode rlp 16 (rlp_uint_encode rlp (unat (x :: u128)) @ r) = Some (unat x, r)"
    and "rlp_uint_decode rlp 32 (rlp_uint_encode rlp (unat (y :: u256)) @ r) = Some (unat y, r)"
    and "rlp_uint_decode rlp 8 (rlp_uint_encode rlp (unat (z :: u64)) @ r) = Some (unat z, r)"
  using rlp_okD(7) [OF assms, of 16 "unat x" r] rlp_okD(7) [OF assms, of 32 "unat y" r]
    rlp_okD(7) [OF assms, of 8 "unat z" r] unsigned_less [of x, where ?'a = nat]
    unsigned_less [of y, where ?'a = nat] unsigned_less [of z, where ?'a = nat]
  by simp_all

lemma dep_fields_roundtrip:
  assumes "rlp_ok rlp" and "tx_deposit_wf rlp tx"
  shows "dep_rlp_decode_fields rlp (dep_rlp_encode_fields rlp tx @ r) = Some (tx, r)"
proof -
  note b = rlp_okD(4) [OF assms(1)]
  have "rlp_uint_decode rlp 1 (rlp_uint_encode rlp (if s then 1 else 0) @ r) = Some (if s then 1 else 0, r)" for s r
    using rlp_okD(7) [OF assms(1), of 1 "if s then 1 else 0" r] by simp
  then have "decode_bool rlp (rlp_uint_encode rlp (if s then 1 else 0) @ r) = Some (s, r)" for s r
    by (simp add: decode_bool_def)
  moreover have "decode_fixed rlp n (rlp_bytes_encode rlp h @ r) = Some (h, r)" if "length h = n" "n \<le> 32" for h n r
    using b [of h r] that by (simp add: decode_fixed_def)
  moreover have "decode_tx_kind rlp (rlp_bytes_encode rlp (case to of None \<Rightarrow> [] | Some a \<Rightarrow> a) @ r) = Some (to, r)"
    if "case to of None \<Rightarrow> True | Some a \<Rightarrow> length a = 20" for to r
    using b [of "case to of None \<Rightarrow> [] | Some a \<Rightarrow> a" r] that by (auto simp: decode_tx_kind_def split: option.splits)
  ultimately show ?thesis
    using assms(2) b
    by (simp add: dep_rlp_decode_fields_def dep_rlp_encode_fields_def tx_deposit_wf_def word_uint_codec [OF assms(1)])
qed

lemma dep_roundtrip:
  assumes "rlp_ok rlp" and "tx_deposit_wf rlp tx"
  shows "dep_decode_2718 rlp (dep_encode_2718 rlp tx @ r) = Some (tx, r)"
proof -
  let ?n = "dep_rlp_encoded_fields_length rlp tx" and ?p = "dep_rlp_encode_fields rlp tx @ r"
  have "?n < 2 ^ 64" using assms(2) by (simp add: tx_deposit_wf_def)
  then have "rlp_header_decode rlp (rlp_header_encode rlp True ?n @ ?p) = Some ((True, ?n), ?p)"
    by (intro rlp_okD(1) [OF assms(1)]) (simp_all add: dep_fields_length)
  then show ?thesis
    using dep_fields_roundtrip [OF assms, of r]
    by (simp add: dep_decode_2718_def dep_encode_2718_def dep_rlp_decode_def dep_rlp_encode_def dep_fields_length)
qed

definition source_wf :: "deposit_source_domain \<Rightarrow> bool" where
  "source_wf s \<longleftrightarrow> (case s of SourceUser h _ \<Rightarrow> length h = 32 | SourceL1Info h _ \<Rightarrow> length h = 32 | _ \<Rightarrow> True)"

text \<open>The two inputs that are hashed for a source, the second one with its domain.\<close>

fun source_domain :: "deposit_source_domain \<Rightarrow> nat" where
  "source_domain (SourceUser h i) = 0"
| "source_domain (SourceL1Info h q) = 1"
| "source_domain (SourceUpgrade intent) = 2"
| "source_domain (SourceBaseTime n) = 3"

fun source_preimage :: "deposit_source_domain \<Rightarrow> bytes" where
  "source_preimage (SourceUser h i) = h @ replicate 24 0 @ to_be 8 (unat i)"
| "source_preimage (SourceL1Info h q) = h @ replicate 24 0 @ to_be 8 (unat q)"
| "source_preimage (SourceUpgrade intent) = intent"
| "source_preimage (SourceBaseTime n) = replicate 24 0 @ to_be 8 (unat n)"

definition hash_inputs :: "keccak \<Rightarrow> deposit_source_domain \<Rightarrow> bytes set" where
  "hash_inputs k s = {source_preimage s, replicate 24 0 @ to_be 8 (source_domain s) @ k (source_preimage s)}"

definition collides :: "keccak \<Rightarrow> bytes set \<Rightarrow> bool" where
  "collides k X \<longleftrightarrow> (\<exists>x\<in>X. \<exists>y\<in>X. x \<noteq> y \<and> k x = k y)"

lemma no_collision: "\<not> collides k X \<Longrightarrow> x \<in> X \<Longrightarrow> y \<in> X \<Longrightarrow> k x = k y \<Longrightarrow> x = y"
  by (auto simp: collides_def)

lemma collides_mono: "collides k X \<Longrightarrow> X \<subseteq> Y \<Longrightarrow> collides k Y"
  unfolding collides_def by (meson subsetD)

lemma source_hash_alt:
  "source_hash k s = k (replicate 24 0 @ to_be 8 (source_domain s) @ k (source_preimage s))"
  by (cases s) (simp_all add: user_source_hash_def l1_info_source_hash_def upgrade_source_hash_def
      base_time_source_hash_def domain_hash_def)

lemma to_be_8_inj:
  assumes "to_be 8 m = to_be 8 n" and "m < 2 ^ 64" and "n < 2 ^ 64"
  shows "m = n"
proof -
  have "m mod 256 ^ 8 = n mod 256 ^ 8" using arg_cong [OF assms(1), of from_be] by (simp only: from_to_be)
  then show ?thesis using assms(2,3) by simp
qed

lemma to_be_8_u64_inj: "to_be 8 (unat (a :: u64)) = to_be 8 (unat b) \<Longrightarrow> a = b"
  using to_be_8_inj [of "unat a" "unat b"] unsigned_less [of a, where ?'a = nat] unsigned_less [of b, where ?'a = nat]
  by (simp add: word_unat_eq_iff)

lemma domain_input_inj:
  assumes "replicate 24 0 @ to_be 8 i @ x = replicate 24 0 @ to_be 8 j @ y" and "i < 256" and "j < 256"
  shows "i = j \<and> x = y"
proof -
  have "to_be 8 i @ x = to_be 8 j @ y" using assms(1) by (simp only: same_append_eq)
  then have e: "to_be 8 i = to_be 8 j \<and> x = y" using append_eq_append_conv [of "to_be 8 i" "to_be 8 j"] by simp
  have "i < 2 ^ 64" "j < 2 ^ 64" using assms(2,3) by simp_all
  then show ?thesis using e to_be_8_inj by blast
qed

lemma source_preimage_inj:
  assumes "source_wf a" and "source_wf b" and "source_domain a = source_domain b"
    and "source_preimage a = source_preimage b"
  shows "a = b"
  using assms by (cases a; cases b) (auto simp: source_wf_def dest: to_be_8_u64_inj)

lemma source_domain_less: "source_domain s < 256"
  by (cases s) simp_all

lemma source_hash_inj:
  assumes "\<not> collides k (hash_inputs k a \<union> hash_inputs k b)" and "source_wf a" and "source_wf b"
    and "source_hash k a = source_hash k b"
  shows "a = b"
proof -
  let ?in = "\<lambda>s. replicate 24 0 @ to_be 8 (source_domain s) @ k (source_preimage s)"
  have "k (?in a) = k (?in b)" using assms(4) by (simp only: source_hash_alt)
  then have "?in a = ?in b"
    by (rule no_collision [OF assms(1), rotated 2]) (simp_all only: hash_inputs_def Un_iff insert_iff simp_thms)
  then have d: "source_domain a = source_domain b \<and> k (source_preimage a) = k (source_preimage b)"
    by (rule domain_input_inj [OF _ source_domain_less source_domain_less])
  then have "source_preimage a = source_preimage b"
    by (intro no_collision [OF assms(1), of "source_preimage a" "source_preimage b"]) (simp_all add: hash_inputs_def)
  then show ?thesis using d assms(2,3) source_preimage_inj by blast
qed

text \<open>
  The source hash identifies a deposit: two different sources, of whatever kinds, have different
  source hashes unless two of the inputs hashed for them are a collision of the hash function.
\<close>

theorem source_hash_separates:
  assumes "a \<noteq> b" and "source_wf a" and "source_wf b"
  shows "source_hash k a \<noteq> source_hash k b \<or> collides k (hash_inputs k a \<union> hash_inputs k b)"
  using assms source_hash_inj by blast

theorem source_hash_separates_witness:
  "source_hash (\<lambda>x. x) (SourceUser (replicate 32 1) 5) \<noteq> source_hash (\<lambda>x. x) (SourceL1Info (replicate 32 1) 5)"
proof -
  have "\<not> collides (\<lambda>x. x) X" for X by (simp add: collides_def)
  then show ?thesis
    using source_hash_separates [of "SourceUser (replicate 32 1) 5" "SourceL1Info (replicate 32 1) 5" "\<lambda>x. x"]
    by (simp add: source_wf_def del: source_hash.simps)
qed

end
