(* ===== verification/Deposit_Logs.thy ===== *)
theory Deposit_Logs
  imports Deposit_Txs
begin

text \<open>
  Deposits from the logs of the L1 deposit contract (\<open>src/crates/consensus/protocol/src/deposits.rs\<close> and
  \<open>derive_deposits\<close> of \<open>src/crates/consensus/derive/src/attributes/stateful.rs\<close>). A slice out of range and an
  overflowing index are panics (\<open>Panicking\<close>). The lemmas show that decoding a log never panics, that
  the event the contract emits gives the deposit it was emitted for, and which logs of an L1 block
  become deposits, in which order and with which index.
\<close>

section \<open>Decoding a log\<close>

definition EVENT_ABI_HASH :: hash32 where
  "EVENT_ABI_HASH = to_be 32 0xb3813568d9991fc951961fcb4c784893574240a28925604d09fc577c55bb7c32"

datatype deposit_decode_error =
    UnexpectedTopicsLen nat
  | DepositInvalidSelector hash32 hash32
  | IncompleteOpaqueData nat
  | UnalignedData nat
  | FromDecode hash32
  | ToDecode hash32
  | InvalidOpaqueDataOffset bytes
  | InvalidOpaqueDataLength nat nat
  | InvalidOpaqueDataPadding bytes
  | OpaqueContentOverflow bytes
  | OpaqueDataOverflow u64 nat
  | OpaqueDataPaddingOverflow
  | PaddedOpaqueDataOverflow nat u64
  | InvalidVersion hash32
  | UnexpectedOpaqueDataLen nat
  | MintDecode bytes
  | GasDecode bytes

text \<open>\<open>data.get(a..b)\<close>.\<close>

definition get_range :: "nat \<Rightarrow> nat \<Rightarrow> 'a list \<Rightarrow> 'a list option" where
  "get_range a b xs = (if a \<le> b \<and> b \<le> length xs then Some (slice a b xs) else None)"

definition unmarshal_v0 :: "tx_deposit \<Rightarrow> address \<Rightarrow> bytes \<Rightarrow> deposit_decode_error failure + tx_deposit" where
  "unmarshal_v0 tx to data =
     (if length data < 32 + 32 + 8 + 1 then fails (UnexpectedOpaqueDataLen (length data))
      else
        and_then (or_panic (get_range 16 32 data)) (\<lambda>raw_mint.
        and_then (or_panic (get_range 32 64 data)) (\<lambda>val.
        and_then (or_panic (get_range 64 72 data)) (\<lambda>raw_gas.
        and_then (or_panic (get_range 72 73 data)) (\<lambda>is_creation.
        and_then (or_panic (get_range 73 (length data) data)) (\<lambda>input.
          Inr (tx\<lparr>dt_mint := word_of_nat (from_be raw_mint), dt_value := word_of_nat (from_be val),
                  dt_gas_limit := word_of_nat (from_be raw_gas),
                  dt_to := (if is_creation = [0] then Some to else None), dt_input := input\<rparr>)))))))"

definition opaque_ceil_32 :: "u64 \<Rightarrow> u64" where
  "opaque_ceil_32 n = sat_mul (sat_add n 31 div 32) 32"

definition all_zero :: "bytes \<Rightarrow> bool" where
  "all_zero bs = list_all (\<lambda>b. b = 0) bs"

definition deposit_decode ::
    "keccak \<Rightarrow> rlp \<Rightarrow> hash32 \<Rightarrow> nat \<Rightarrow> log \<Rightarrow> deposit_decode_error failure + bytes" where
  "deposit_decode k rlp block_hash index lg =
     (let topics = lg_topics lg; data = lg_data lg in
      if length topics \<noteq> 4 then fails (UnexpectedTopicsLen (length topics))
      else if topics ! 0 \<noteq> EVENT_ABI_HASH then fails (DepositInvalidSelector EVENT_ABI_HASH (topics ! 0))
      else if length data < 64 then fails (IncompleteOpaqueData (length data))
      else if length data mod 32 \<noteq> 0 then fails (UnalignedData (length data))
      else if \<not> all_zero (take 12 (topics ! 1)) then fails (FromDecode (topics ! 1))
      else if \<not> all_zero (take 12 (topics ! 2)) then fails (ToDecode (topics ! 2))
      else
        and_then (or_panic (get_range 0 32 data)) (\<lambda>offs.
        if from_be offs \<noteq> 32 then fails (InvalidOpaqueDataOffset offs)
        else
        and_then (or_panic (get_range 32 64 data)) (\<lambda>raw_len.
        and_then (if from_be raw_len < 2 ^ 64 then Inr (word_of_nat (from_be raw_len) :: u64)
                  else fails (OpaqueContentOverflow raw_len)) (\<lambda>len.
        and_then (ok_or (Failing OpaqueDataPaddingOverflow) (checked_add 64 (opaque_ceil_32 len))) (\<lambda>padding_end.
        and_then (ok_or (Failing (InvalidOpaqueDataLength (unat len) (length data - 64)))
                    (get_range 64 (unat (64 + len)) data)) (\<lambda>opaque_data.
        if \<not> (unat len mod 32 = 0 \<or>
               (case get_range (unat (64 + len)) (unat padding_end) data of None \<Rightarrow> False | Some p \<Rightarrow> all_zero p))
        then and_then (or_panic (get_range (unat (64 + len)) (length data) data))
               (\<lambda>p. fails (InvalidOpaqueDataPadding p))
        else if \<not> all_zero (topics ! 3) then fails (InvalidVersion (topics ! 3))
        else
          let deposit_tx = tx_deposit_default\<lparr>dt_from := drop 12 (topics ! 1),
                dt_source_hash := user_source_hash k block_hash (word_of_nat index)\<rparr>
          in and_then (unmarshal_v0 deposit_tx (drop 12 (topics ! 2)) opaque_data)
               (\<lambda>tx. Inr (dep_encode_2718 rlp tx))))))))"

section \<open>Deposits of an L1 block\<close>

fun derive_log_deposits ::
    "keccak \<Rightarrow> rlp \<Rightarrow> hash32 \<Rightarrow> address \<Rightarrow> log list \<Rightarrow> nat \<Rightarrow> bytes list
     \<Rightarrow> deposit_decode_error failure + nat \<times> bytes list" where
  "derive_log_deposits k rlp block_hash contract [] global_index res = Inr (global_index, res)"
| "derive_log_deposits k rlp block_hash contract (l # ls) global_index res =
     (if (case lg_topics l of [] \<Rightarrow> True | t # _ \<Rightarrow> t \<noteq> EVENT_ABI_HASH) \<or> lg_address l \<noteq> contract
      then derive_log_deposits k rlp block_hash contract ls (Suc global_index) res
      else and_then (deposit_decode k rlp block_hash global_index l) (\<lambda>decoded.
        derive_log_deposits k rlp block_hash contract ls (Suc global_index) (res @ [decoded])))"

fun derive_receipt_deposits ::
    "keccak \<Rightarrow> rlp \<Rightarrow> hash32 \<Rightarrow> address \<Rightarrow> receipt list \<Rightarrow> nat \<Rightarrow> bytes list
     \<Rightarrow> deposit_decode_error failure + bytes list" where
  "derive_receipt_deposits k rlp block_hash contract [] global_index res = Inr res"
| "derive_receipt_deposits k rlp block_hash contract (r # rs) global_index res =
     (if rcpt_status r = Eip658 False
      then derive_receipt_deposits k rlp block_hash contract rs global_index res
      else and_then (derive_log_deposits k rlp block_hash contract (rcpt_logs r) global_index res)
        (\<lambda>(global_index, res). derive_receipt_deposits k rlp block_hash contract rs global_index res))"

definition derive_deposits ::
    "keccak \<Rightarrow> rlp \<Rightarrow> hash32 \<Rightarrow> receipt list \<Rightarrow> address \<Rightarrow> deposit_decode_error failure + bytes list" where
  "derive_deposits k rlp block_hash receipts deposit_contract =
     derive_receipt_deposits k rlp block_hash deposit_contract receipts 0 []"

section \<open>Decoding is safe\<close>

lemma get_range_in [simp]: "a \<le> b \<Longrightarrow> b \<le> length xs \<Longrightarrow> get_range a b xs = Some (slice a b xs)"
  by (simp add: get_range_def)

lemma unmarshal_v0_calm: "no_panic (unmarshal_v0 tx to data)"
  by (simp add: unmarshal_v0_def)

text \<open>After the padding check the end of the opaque data does not wrap around.\<close>

lemma unat_opaque_ceil:
  "unat (opaque_ceil_32 len) = min (min (unat len + 31) (2 ^ 64 - 1) div 32 * 32) (2 ^ 64 - 1)"
  by (simp add: opaque_ceil_32_def unat_sat_mul unat_sat_add unat_div)

lemma opaque_ceil_bound:
  assumes "checked_add 64 (opaque_ceil_32 len) = Some e"
  shows "unat (64 + len) = 64 + unat len" and "unat e = 64 + (unat len + 31) div 32 * 32"
proof -
  have e: "unat e = 64 + min (min (unat len + 31) (2 ^ 64 - 1) div 32 * 32) (2 ^ 64 - 1)"
    using assms by (simp add: checked_add_Some unat_opaque_ceil)
  have "unat e < 2 ^ 64" using unsigned_less [of e, where ?'a = nat] by simp
  then have l: "unat len + 31 \<le> 2 ^ 64 - 1 \<and> 64 + (unat len + 31) div 32 * 32 < 2 ^ 64"
    using e by (auto simp: min_def split: if_splits)
  then show "unat e = 64 + (unat len + 31) div 32 * 32" using e by (simp add: min_def)
  have "unat len \<le> (unat len + 31) div 32 * 32" by presburger
  then have "64 + unat len < 2 ^ 64" using l by linarith
  then show "unat (64 + len) = 64 + unat len" by (simp add: unat_word_ariths)
qed

lemma deposit_decode_calm: "no_panic (deposit_decode k rlp block_hash index lg)"
  by (auto simp: deposit_decode_def Let_def unmarshal_v0_calm get_range_def split: if_splits)

lemma derive_log_deposits_calm: "no_panic (derive_log_deposits k rlp block_hash contract ls i res)"
  by (induction k rlp block_hash contract ls i res rule: derive_log_deposits.induct)
    (auto simp: deposit_decode_calm)

lemma derive_deposits_calm: "no_panic (derive_deposits k rlp block_hash receipts contract)"
proof -
  have "no_panic (derive_receipt_deposits k rlp block_hash contract rs i res)" for rs i res
    by (induction k rlp block_hash contract rs i res rule: derive_receipt_deposits.induct)
      (auto simp: derive_log_deposits_calm)
  then show ?thesis by (simp add: derive_deposits_def)
qed

section \<open>The event of the contract\<close>

text \<open>The log that the deposit contract emits for a deposit.\<close>

definition opaque_deposit :: "u128 \<Rightarrow> u256 \<Rightarrow> u64 \<Rightarrow> bool \<Rightarrow> bytes \<Rightarrow> bytes" where
  "opaque_deposit mint val gas is_creation input =
     to_be 32 (unat mint) @ to_be 32 (unat val) @ to_be 8 (unat gas) @ (if is_creation then 1 else 0) # input"

definition deposit_event ::
    "address \<Rightarrow> address \<Rightarrow> address \<Rightarrow> u128 \<Rightarrow> u256 \<Rightarrow> u64 \<Rightarrow> bool \<Rightarrow> bytes \<Rightarrow> log" where
  "deposit_event contract sender to mint val gas is_creation input =
     (let opaque = opaque_deposit mint val gas is_creation input; n = length opaque in
      \<lparr>lg_address = contract,
       lg_topics = [EVENT_ABI_HASH, replicate 12 0 @ sender, replicate 12 0 @ to, replicate 32 0],
       lg_data = to_be 32 32 @ to_be 32 n @ opaque @ replicate ((32 - n mod 32) mod 32) 0\<rparr>)"

definition user_deposit ::
    "keccak \<Rightarrow> hash32 \<Rightarrow> nat \<Rightarrow> address \<Rightarrow> address \<Rightarrow> u128 \<Rightarrow> u256 \<Rightarrow> u64 \<Rightarrow> bool \<Rightarrow> bytes \<Rightarrow> tx_deposit" where
  "user_deposit k block_hash index sender to mint val gas is_creation input =
     \<lparr>dt_source_hash = source_hash k (SourceUser block_hash (word_of_nat index)), dt_from = sender,
      dt_to = (if is_creation then None else Some to), dt_mint = mint, dt_value = val, dt_gas_limit = gas,
      dt_is_system_transaction = False, dt_input = input\<rparr>"

lemma length_opaque [simp]: "length (opaque_deposit mint val gas c input) = 73 + length input"
  by (simp add: opaque_deposit_def)

lemma unmarshal_opaque:
  "unmarshal_v0 tx to (opaque_deposit mint val gas c input) =
     Inr (tx\<lparr>dt_mint := mint, dt_value := val, dt_gas_limit := gas, dt_to := (if c then None else Some to),
             dt_input := input\<rparr>)"
proof -
  let ?d = "opaque_deposit mint val gas c input"
  have m: "unat mint < 256 ^ 16" "unat val < 256 ^ 32" "unat gas < 256 ^ 8"
    using unsigned_less [of mint, where ?'a = nat] unsigned_less [of val, where ?'a = nat]
      unsigned_less [of gas, where ?'a = nat] by simp_all
  have "drop 16 (to_be 32 (unat mint)) = to_be 16 (unat mint)" using drop_to_be [of 16 16] by simp
  then have "slice 16 32 ?d = to_be 16 (unat mint)" "slice 32 64 ?d = to_be 32 (unat val)"
    "slice 64 72 ?d = to_be 8 (unat gas)" "slice 72 73 ?d = [if c then 1 else 0]" "slice 73 (length ?d) ?d = input"
    by (simp_all add: slice_def opaque_deposit_def)
  then show ?thesis using m by (simp add: unmarshal_v0_def word_unat_eq_iff)
qed

lemma padding_ceil: "n + (32 - n mod 32) mod 32 = (n + 31) div 32 * 32" for n :: nat
proof -
  obtain q r where n: "n = 32 * q + r" and r: "r < 32" by (metis mod_less_divisor mult_div_mod_eq zero_less_numeral)
  have "(n + 31) div 32 = q + (r + 31) div 32"
    unfolding n by (simp only: add.assoc div_mult_self4 [of 32 "r + 31" q] zero_neq_numeral simp_thms)
  moreover have "(r + 31) div 32 = (if r = 0 then 0 else 1)" using r by auto
  moreover have "n mod 32 = r" unfolding n using r by simp
  ultimately show ?thesis using n r by auto
qed

lemma deposit_event_decodes:
  assumes "length sender = 20" and "length to = 20" and "length input < 2 ^ 63"
  shows "deposit_decode k rlp block_hash index (deposit_event contract sender to mint val gas c input) =
    Inr (dep_encode_2718 rlp (user_deposit k block_hash index sender to mint val gas c input))"
proof -
  define opq where "opq = opaque_deposit mint val gas c input"
  define n where "n = length opq"
  define pad where "pad = replicate ((32 - n mod 32) mod 32) (0 :: u8)"
  define d where "d = to_be 32 32 @ to_be 32 n @ opq @ pad"
  define len where "len = (word_of_nat n :: u64)"
  have n: "n < 2 ^ 63 + 73" using assms(3) by (simp add: n_def opq_def)
  have len: "unat len = n" unfolding len_def using n by (simp only: unat_of_nat) simp
  have "unat (opaque_ceil_32 len) = (n + 31) div 32 * 32"
    using n unfolding unat_opaque_ceil len by (auto simp: min_def)
  then have "unat (64 :: u64) + unat (opaque_ceil_32 len) < 2 ^ 64" using n by simp
  then obtain e where e: "checked_add 64 (opaque_ceil_32 len) = Some e" by (simp add: checked_add_def)
  note b = opaque_ceil_bound [OF e]
  have dl: "length d = 64 + (n + 31) div 32 * 32"
    using padding_ceil [of n] by (simp add: d_def pad_def n_def)
  then have dd: "length d mod 32 = 0" "64 \<le> length d" by presburger+
  have r: "get_range 0 32 d = Some (to_be 32 32)" "get_range 32 64 d = Some (to_be 32 n)"
    using dd(2) by (simp_all add: get_range_def d_def slice_def)
  have o: "get_range 64 (unat (64 + len)) d = Some opq"
    unfolding b(1) len d_def by (simp add: get_range_def slice_def n_def)
  have p: "get_range (unat (64 + len)) (unat e) d = Some pad"
    unfolding b len get_range_def dl [symmetric] by (simp add: slice_def d_def n_def)
  have lg: "deposit_event contract sender to mint val gas c input =
      \<lparr>lg_address = contract, lg_topics = [EVENT_ABI_HASH, replicate 12 0 @ sender, replicate 12 0 @ to, replicate 32 0],
       lg_data = d\<rparr>" by (simp add: deposit_event_def Let_def d_def pad_def n_def opq_def)
  have z: "all_zero (replicate m 0)" "all_zero pad" for m by (simp_all add: all_zero_def list_all_iff pad_def)
  have f: "from_be (to_be 32 32) = 32" "from_be (to_be 32 n) = n" "n < 2 ^ 64" using n by simp_all
  have u: "unmarshal_v0 tx to opq = Inr (tx\<lparr>dt_mint := mint, dt_value := val, dt_gas_limit := gas,
      dt_to := (if c then None else Some to), dt_input := input\<rparr>)" for tx
    unfolding opq_def by (rule unmarshal_opaque)
  show ?thesis
    unfolding lg deposit_decode_def Let_def log.select_convs r or_panic_simps and_then_simps f if_P [OF f(3)]
      len_def [symmetric] e ok_or_simps o p
    using dd z by (simp add: u user_deposit_def tx_deposit_default_def)
qed

text \<open>
  C38. A deposit made on L1 becomes exactly that deposit on L2: decoding the log of the contract
  succeeds, and the transaction bytes it gives decode to the deposit with the sender, recipient or
  creation, minted amount, value, gas limit and data of the event, and the source hash of the log.
\<close>

theorem deposit_roundtrip:
  assumes "rlp_ok rlp" and "length sender = 20" and "length to = 20" and "length input < 2 ^ 63"
    and "tx_deposit_wf rlp (user_deposit k block_hash index sender to mint val gas is_creation input)"
  shows "\<exists>bs. deposit_decode k rlp block_hash index (deposit_event contract sender to mint val gas is_creation input) = Inr bs \<and>
    dep_decode_2718 rlp (bs @ r) = Some (user_deposit k block_hash index sender to mint val gas is_creation input, r)"
  using deposit_event_decodes [OF assms(2-4)] dep_roundtrip [OF assms(1,5)] by simp

theorem deposit_roundtrip_witness:
  fixes k a b
  defines "k \<equiv> \<lambda>_ :: bytes. replicate 32 (7 :: u8)" and "a \<equiv> replicate 20 (1 :: u8)" and "b \<equiv> replicate 20 (2 :: u8)"
  shows "tx_deposit_wf rlp_format (user_deposit k B256_ZERO 3 a b 5 6 21000 False [9]) \<and>
    (\<exists>bs. deposit_decode k rlp_format B256_ZERO 3 (deposit_event (replicate 20 8) a b 5 6 21000 False [9]) = Inr bs \<and>
      dep_decode_2718 rlp_format (bs @ [1]) = Some (user_deposit k B256_ZERO 3 a b 5 6 21000 False [9], [1]))"
proof -
  have "tx_deposit_wf rlp_format (user_deposit k B256_ZERO 3 a b 5 6 21000 False [9])"
    by (simp add: tx_deposit_wf_def user_deposit_def dep_rlp_encoded_fields_length_def k_def a_def b_def
        user_source_hash_def domain_hash_def rlp_format_def rlp_format_bytes_def rlp_format_header_def be_min.simps)
  then show ?thesis
    using deposit_roundtrip [OF rlp_format_ok, of a b "[9]" k B256_ZERO 3 5 6 21000 False "replicate 20 8" "[1]"]
    by (simp add: a_def b_def)
qed

section \<open>Which logs become deposits\<close>

definition is_deposit_log :: "address \<Rightarrow> log \<Rightarrow> bool" where
  "is_deposit_log contract l \<longleftrightarrow>
     (case lg_topics l of [] \<Rightarrow> False | t # _ \<Rightarrow> t = EVENT_ABI_HASH) \<and> lg_address l = contract"

definition deposit_logs :: "address \<Rightarrow> receipt list \<Rightarrow> (nat \<times> log) list" where
  "deposit_logs contract receipts =
     filter (\<lambda>(i, l). is_deposit_log contract l)
       (enumerate 0 (concat (map rcpt_logs (filter (\<lambda>r. rcpt_status r \<noteq> Eip658 False) receipts))))"

fun decode_each :: "('a \<Rightarrow> 'e + 'b) \<Rightarrow> 'a list \<Rightarrow> 'e + 'b list" where
  "decode_each f [] = Inr []"
| "decode_each f (x # xs) = and_then (f x) (\<lambda>b. and_then (decode_each f xs) (\<lambda>bs. Inr (b # bs)))"

lemma decode_each_append:
  "decode_each f (xs @ ys) = and_then (decode_each f xs) (\<lambda>bs. and_then (decode_each f ys) (\<lambda>cs. Inr (bs @ cs)))"
proof (induction xs)
  case Nil
  then show ?case by (cases "decode_each f ys") simp_all
next
  case (Cons x xs)
  then show ?case
    by (cases "f x"; cases "decode_each f xs"; cases "decode_each f ys") simp_all
qed

lemma derive_log_deposits_eq:
  "derive_log_deposits k rlp h contract ls i res =
     and_then (decode_each (\<lambda>(i, l). deposit_decode k rlp h i l)
         (filter (\<lambda>(i, l). is_deposit_log contract l) (enumerate i ls)))
       (\<lambda>bs. Inr (i + length ls, res @ bs))"
proof (induction ls arbitrary: i res)
  case (Cons l ls)
  let ?ds = "decode_each (\<lambda>(i, l). deposit_decode k rlp h i l)
    (filter (\<lambda>(i, l). is_deposit_log contract l) (enumerate (Suc i) ls))"
  show ?case
    by (cases "deposit_decode k rlp h i l"; cases ?ds)
      (auto simp: Cons is_deposit_log_def split: list.splits)
qed simp

lemma derive_receipt_deposits_eq:
  "derive_receipt_deposits k rlp h contract rs i res =
     and_then (decode_each (\<lambda>(i, l). deposit_decode k rlp h i l)
         (filter (\<lambda>(i, l). is_deposit_log contract l)
           (enumerate i (concat (map rcpt_logs (filter (\<lambda>r. rcpt_status r \<noteq> Eip658 False) rs))))))
       (\<lambda>bs. Inr (res @ bs))"
proof (induction rs arbitrary: i res)
  case (Cons r rs)
  let ?f = "decode_each (\<lambda>(i, l). deposit_decode k rlp h i l)"
  let ?s = "filter (\<lambda>(i, l). is_deposit_log contract l)"
  let ?ls = "concat (map rcpt_logs (filter (\<lambda>r. rcpt_status r \<noteq> Eip658 False) rs))"
  have e: "enumerate i (rcpt_logs r @ ?ls) = enumerate i (rcpt_logs r) @ enumerate (i + length (rcpt_logs r)) ?ls"
    by (simp add: enumerate_append_eq)
  show ?case
    by (cases "?f (?s (enumerate i (rcpt_logs r)))";
        cases "?f (?s (enumerate (i + length (rcpt_logs r)) ?ls))")
      (auto simp: Cons derive_log_deposits_eq e decode_each_append)
qed simp

text \<open>
  C39. The deposits of an L1 block are those of its receipts: the logs of the deposit contract with the
  deposit event in the receipts that did not fail, in order, each decoded with its position among
  all logs of these receipts. The derivation stops at the first log that does not decode, with its
  error, and never panics.
\<close>

theorem deposits_of_block:
  "derive_deposits k rlp block_hash receipts contract =
     decode_each (\<lambda>(i, l). deposit_decode k rlp block_hash i l) (deposit_logs contract receipts) \<and>
   no_panic (derive_deposits k rlp block_hash receipts contract)"
proof
  show "derive_deposits k rlp block_hash receipts contract =
      decode_each (\<lambda>(i, l). deposit_decode k rlp block_hash i l) (deposit_logs contract receipts)"
    unfolding derive_deposits_def deposit_logs_def derive_receipt_deposits_eq
    by (cases "decode_each (\<lambda>(i, l). deposit_decode k rlp block_hash i l) (filter (\<lambda>(i, l). is_deposit_log contract l)
      (enumerate 0 (concat (map rcpt_logs (filter (\<lambda>r. rcpt_status r \<noteq> Eip658 False) receipts)))))") simp_all
qed (rule derive_deposits_calm)

end
