(* ===== verification/Base_Time.thy ===== *)
theory Base_Time
  imports Deposit_Txs
begin

text \<open>
  The sub-second part of block timestamps (\<open>src/crates/common/consensus/src/base_time.rs\<close>): from Denim on the
  second transaction of a block is a deposit that carries the milliseconds of its timestamp. The
  lemmas show that the deposit a builder makes for a block is accepted by the validation of that
  block and of no other, and that it can always be made.
\<close>

section \<open>The update\<close>

datatype base_time_update_error = InvalidTimestampMillisPart u16

datatype base_time_update_decode_error =
    BtMissingSelector
  | BtInvalidSelector
  | BtInvalidLength nat nat
  | BtNonZeroPadding
  | BtInvalidMillisPart base_time_update_error

datatype base_time_metadata_error =
    BtMissing
  | BtNotDeposit
  | BtInvalidSourceHash
  | BtInvalidSender
  | BtInvalidRecipient
  | BtNonZeroMint
  | BtNonZeroValue
  | BtInvalidGasLimit
  | BtSystemTransaction
  | BtInvalidCalldata base_time_update_decode_error

datatype base_time_schedule_error =
    BtInvalidTimestamp u64 u64
  | BtInvalidMetadata base_time_metadata_error
  | BtWrongMillisPart u16 u16

record base_time_update =
  bt_timestamp_millis_part :: u16

definition BT_BLOCK_INTERVAL_MILLIS :: u16 where
  "BT_BLOCK_INTERVAL_MILLIS = 200"

definition BT_SELECTOR :: bytes where
  "BT_SELECTOR = [0x86, 0xbd, 0xf3, 0x94]"

definition BT_CALLDATA_LEN :: nat where
  "BT_CALLDATA_LEN = 4 + 32"

definition is_valid_timestamp_millis_part :: "u16 \<Rightarrow> bool" where
  "is_valid_timestamp_millis_part m \<longleftrightarrow> m < 1000 \<and> m mod BT_BLOCK_INTERVAL_MILLIS = 0"

definition base_time_new :: "u16 \<Rightarrow> base_time_update_error + base_time_update" where
  "base_time_new m =
     (if \<not> is_valid_timestamp_millis_part m then Inl (InvalidTimestampMillisPart m)
      else Inr \<lparr>bt_timestamp_millis_part = m\<rparr>)"

definition base_time_encode_calldata :: "base_time_update \<Rightarrow> bytes" where
  "base_time_encode_calldata b = BT_SELECTOR @ replicate 30 0 @ to_be 2 (unat (bt_timestamp_millis_part b))"

definition base_time_decode_calldata :: "bytes \<Rightarrow> base_time_update_decode_error + base_time_update" where
  "base_time_decode_calldata calldata =
     (if length calldata < 4 then Inl BtMissingSelector
      else if take 4 calldata \<noteq> BT_SELECTOR then Inl BtInvalidSelector
      else if length calldata \<noteq> BT_CALLDATA_LEN then Inl (BtInvalidLength BT_CALLDATA_LEN (length calldata))
      else if \<not> list_all (\<lambda>b. b = 0) (slice 4 34 calldata) then Inl BtNonZeroPadding
      else map_err BtInvalidMillisPart (base_time_new (word_of_nat (from_be (slice 34 36 calldata)))))"

definition validate_deposit ::
    "keccak \<Rightarrow> tx_deposit \<Rightarrow> u64 \<Rightarrow> base_time_metadata_error + base_time_update" where
  "validate_deposit k deposit block_number =
     (if dt_source_hash deposit \<noteq> source_hash k (SourceBaseTime block_number) then Inl BtInvalidSourceHash
      else if dt_from deposit \<noteq> DEPOSITOR_ACCOUNT then Inl BtInvalidSender
      else if dt_to deposit \<noteq> Some BASE_TIME then Inl BtInvalidRecipient
      else if dt_mint deposit \<noteq> 0 then Inl BtNonZeroMint
      else if dt_value deposit \<noteq> 0 then Inl BtNonZeroValue
      else if dt_gas_limit deposit \<noteq> REGOLITH_SYSTEM_TX_GAS then Inl BtInvalidGasLimit
      else if dt_is_system_transaction deposit then Inl BtSystemTransaction
      else map_err BtInvalidCalldata (base_time_decode_calldata (dt_input deposit)))"

text \<open>The transactions of a block are given by what \<open>as_deposit\<close> gives for each.\<close>

definition extract_from_transactions ::
    "keccak \<Rightarrow> tx_deposit option list \<Rightarrow> u64 \<Rightarrow> base_time_metadata_error + base_time_update" where
  "extract_from_transactions k txs block_number =
     and_then (ok_or BtMissing (if 1 < length txs then Some (txs ! 1) else None)) (\<lambda>tx.
     and_then (ok_or BtNotDeposit tx) (\<lambda>deposit.
       validate_deposit k deposit block_number))"

definition extract_timestamp_ms ::
    "keccak \<Rightarrow> tx_deposit option list \<Rightarrow> u64 \<Rightarrow> u64 \<Rightarrow> base_time_metadata_error + u64" where
  "extract_timestamp_ms k txs block_number ts =
     and_then (extract_from_transactions k txs block_number) (\<lambda>base_time.
       Inr (ts * 1000 + ucast (bt_timestamp_millis_part base_time)))"

definition validate_timestamp_schedule ::
    "keccak \<Rightarrow> denim_schedule \<Rightarrow> tx_deposit option list \<Rightarrow> u64 \<Rightarrow> u64 \<Rightarrow> base_time_schedule_error + unit" where
  "validate_timestamp_schedule k schedule txs block_number ts =
     (if \<not> is_denim_active_at_block schedule block_number then Inr ()
      else
        let (expected_timestamp, expected_millis_part) = block_timestamp_parts schedule block_number in
        if ts \<noteq> expected_timestamp then Inl (BtInvalidTimestamp expected_timestamp ts)
        else
          and_then (map_err BtInvalidMetadata (extract_from_transactions k txs block_number)) (\<lambda>base_time.
          let actual = bt_timestamp_millis_part base_time in
          if actual \<noteq> expected_millis_part then Inl (BtWrongMillisPart expected_millis_part actual) else Inr ()))"

definition validate_block_timestamp ::
    "keccak \<Rightarrow> registry \<Rightarrow> rollup_config \<Rightarrow> tx_deposit option list \<Rightarrow> u64 \<Rightarrow> u64 \<Rightarrow> base_time_schedule_error + unit" where
  "validate_block_timestamp k reg cfg txs block_number ts =
     (case denim_timestamp_schedule reg cfg of
        None \<Rightarrow> Inr ()
      | Some schedule \<Rightarrow> validate_timestamp_schedule k schedule txs block_number ts)"

definition base_time_into_deposit_tx :: "keccak \<Rightarrow> u64 \<Rightarrow> base_time_update \<Rightarrow> tx_deposit" where
  "base_time_into_deposit_tx k l2_block_number b =
     \<lparr>dt_source_hash = source_hash k (SourceBaseTime l2_block_number), dt_from = DEPOSITOR_ACCOUNT,
      dt_to = Some BASE_TIME, dt_mint = 0, dt_value = 0, dt_gas_limit = REGOLITH_SYSTEM_TX_GAS,
      dt_is_system_transaction = False, dt_input = base_time_encode_calldata b\<rparr>"

section \<open>Properties\<close>

lemma base_time_calldata:
  assumes "base_time_new m = Inr b"
  shows "base_time_decode_calldata (base_time_encode_calldata b) = Inr b"
proof -
  have b: "b = \<lparr>bt_timestamp_millis_part = m\<rparr>" using assms by (auto simp: base_time_new_def split: if_splits)
  let ?c = "BT_SELECTOR @ replicate 30 0 @ to_be 2 (unat m)"
  have "slice 4 34 ?c = replicate 30 0" "slice 34 36 ?c = to_be 2 (unat m)" "take 4 ?c = BT_SELECTOR"
    "length ?c = BT_CALLDATA_LEN"
    by (simp_all add: slice_def BT_SELECTOR_def BT_CALLDATA_LEN_def)
  moreover have "unat m < 65536" using unsigned_less [of m, where ?'a = nat] by simp
  ultimately show ?thesis
    using assms unfolding base_time_decode_calldata_def base_time_encode_calldata_def b
    by (simp add: BT_CALLDATA_LEN_def list_all_iff)
qed

lemma validate_own_deposit:
  assumes "base_time_new m = Inr b"
  shows "validate_deposit k (base_time_into_deposit_tx k n b) n = Inr b"
  using base_time_calldata [OF assms] by (simp add: validate_deposit_def base_time_into_deposit_tx_def)

lemma unat_millis_part:
  fixes m :: u64
  shows "unat (ucast (m mod 1000) :: u16) = unat m mod 1000"
proof -
  have "unat (m mod 1000) = unat m mod 1000" by (simp add: unat_mod)
  moreover have "unat m mod 1000 < 65536" using mod_less_divisor [of 1000 "unat m"] by linarith
  ultimately show ?thesis by (simp add: unsigned_ucast_eq take_bit_nat_eq_self)
qed

lemma denim_millis_valid:
  assumes "is_denim_active_at_block s n" and "ideal_millis s (block_offset s n) < 2 ^ 64"
  shows "is_valid_timestamp_millis_part (ucast (block_timestamp_millis s n mod 1000))"
proof -
  let ?m = "block_timestamp_millis s n"
  have "unat ?m = ideal_millis s (block_offset s n)"
    using assms(2) by (simp add: unat_block_timestamp_millis)
  moreover have "ideal_millis s (block_offset s n) mod 200 = 0"
    using assms(1) by (auto simp: is_denim_active_at_block_iff ideal_millis_def Let_def)
  ultimately have "unat (ucast (?m mod 1000) :: u16) mod 200 = 0"
    unfolding unat_millis_part by (simp add: mod_mod_cancel)
  then have "(ucast (?m mod 1000) :: u16) mod 200 = 0" by (simp add: word_unat_eq_iff unat_mod)
  moreover have "(ucast (?m mod 1000) :: u16) < 1000" by (simp add: word_less_nat_alt unat_millis_part)
  ultimately show ?thesis by (simp add: is_valid_timestamp_millis_part_def BT_BLOCK_INTERVAL_MILLIS_def)
qed

lemma join_millis:
  fixes m :: u64
  shows "m div 1000 * 1000 + ucast (ucast (m mod 1000) :: u16) = m"
proof -
  have "unat (ucast x :: u64) = unat x" for x :: u16
    using unsigned_less [of x, where ?'a = nat] by (simp add: unsigned_ucast_eq take_bit_nat_eq_self)
  then have "unat (ucast (ucast (m mod 1000) :: u16) :: u64) = unat m mod 1000"
    by (simp only: unat_millis_part)
  then have "(ucast (ucast (m mod 1000) :: u16) :: u64) = m mod 1000"
    by (simp add: word_unat_eq_iff unat_mod)
  then show ?thesis by (simp add: word_mod_div_equality)
qed

text \<open>
  C40. The time of a Denim block survives the round trip through its transactions: for every block of the
  Denim schedule the update can be built, a block with it as second transaction passes the
  validation of its timestamp and gives back the scheduled time in milliseconds, and the same
  deposit is rejected for every other block number unless the inputs hashed for the two numbers collide.
\<close>

theorem base_time_roundtrip:
  assumes "is_denim_active_at_block s n" and "ideal_millis s (block_offset s n) < 2 ^ 64"
    and "block_timestamp_parts s n = (t, ms)"
  shows "\<exists>b. base_time_new ms = Inr b \<and>
    validate_timestamp_schedule k s (tx0 # Some (base_time_into_deposit_tx k n b) # txs) n t = Inr () \<and>
    extract_timestamp_ms k (tx0 # Some (base_time_into_deposit_tx k n b) # txs) n t = Inr (block_timestamp_millis s n) \<and>
    (\<forall>n'. n' = n \<or> collides k (hash_inputs k (SourceBaseTime n) \<union> hash_inputs k (SourceBaseTime n')) \<or>
      validate_deposit k (base_time_into_deposit_tx k n b) n' = Inl BtInvalidSourceHash)"
proof -
  have ms: "ms = ucast (block_timestamp_millis s n mod 1000)" and t: "t = block_timestamp_millis s n div 1000"
    using assms(3) by (auto simp: block_timestamp_parts_def Let_def)
  define b where "b = \<lparr>bt_timestamp_millis_part = ms\<rparr>"
  have b: "base_time_new ms = Inr b" "bt_timestamp_millis_part b = ms"
    using denim_millis_valid [OF assms(1,2)] by (simp_all add: base_time_new_def ms b_def)
  have ex: "extract_from_transactions k (tx0 # Some (base_time_into_deposit_tx k n b) # txs) n = Inr b"
    using validate_own_deposit [OF b(1)] by (simp add: extract_from_transactions_def)
  have "validate_deposit k (base_time_into_deposit_tx k n b) n' = Inl BtInvalidSourceHash"
    if "n' \<noteq> n" "\<not> collides k (hash_inputs k (SourceBaseTime n) \<union> hash_inputs k (SourceBaseTime n'))" for n'
    using source_hash_inj [OF that(2)] that(1)
    by (auto simp: validate_deposit_def base_time_into_deposit_tx_def source_wf_def)
  then show ?thesis
    using b ex assms(1,3) join_millis [of "block_timestamp_millis s n"]
    by (intro exI [of _ b]) (auto simp: validate_timestamp_schedule_def extract_timestamp_ms_def ms t)
qed

theorem base_time_roundtrip_witness:
  fixes s
  defines "s \<equiv> \<lparr>ds_genesis_block_number = 0, ds_genesis_timestamp = 100, ds_legacy_block_interval = 2,
    ds_denim_activation_timestamp = 0\<rparr>"
  shows "\<exists>b. base_time_new 400 = Inr b \<and>
    validate_timestamp_schedule (\<lambda>x. x) s [None, Some (base_time_into_deposit_tx (\<lambda>x. x) 7 b)] 7 101 = Inr ()"
proof -
  have a: "ds_denim_activation_block_number s = 0"
    by (simp add: s_def ds_denim_activation_block_number_def div_ceil_def sat_sub_def)
  have d: "is_denim_active_at_block s 7" by (simp add: is_denim_active_at_block_def a)
  have i: "ideal_millis s (block_offset s 7) < 2 ^ 64" unfolding ideal_millis_def Let_def a
    by (simp add: block_offset_def s_def)
  have "unat (block_timestamp_millis s 7) = 101400"
    unfolding unat_block_timestamp_millis ideal_millis_def Let_def a by (simp add: block_offset_def s_def)
  then have "block_timestamp_millis s 7 = 101400" by (simp add: word_unat_eq_iff)
  then have "block_timestamp_parts s 7 = (101, 400)" by (simp add: block_timestamp_parts_def)
  from base_time_roundtrip [OF d i this, of "\<lambda>x. x" None "[]"] show ?thesis by blast
qed

end
