(* ===== verification/Pipeline_Types.thy ===== *)
theory Pipeline_Types
  imports Batches Channels Deposit_Logs Base_Time
begin

text \<open>
  The vocabulary of the derivation pipeline's stages
  (\<open>src/crates/consensus/derive/src/errors/pipeline.rs\<close>, \<open>errors/attributes.rs\<close> and the stage
  traits): error values, fallible operations on a stage's state, and the interface every
  stage offers to the next one. An \<open>async fn(&mut self) -> PipelineResult<T>\<close> is a function
  from the state to a result and the new state; on an error the state keeps what the code
  changed before it. Payloads of errors that come from third-party crates are their text.
\<close>

section \<open>Errors\<close>

datatype builder_error =
    BlockMismatch block_num_hash block_num_hash
  | BlockMismatchEpochReset block_num_hash block_num_hash hash32
  | SystemConfigUpdateFailed
  | BrokenTimeInvariant block_num_hash u64 block_num_hash u64
  | AttributesUnavailable
  | BaseTimeUpdate base_time_update_error
  | BuilderCustom string

datatype pipeline_encoding_error =
    EncEmptyBuffer
  | EncDepositDecodeError deposit_decode_error
  | EncAlloyRlpError string
  | EncSpanBatchError span_batch_error

datatype pipeline_error =
    Eof
  | NotEnoughData
  | ChannelProviderEmpty
  | ChannelAlreadyBuilt
  | ChannelNotFound
  | ChannelReaderEmpty
  | BatchQueueEmpty
  | MissingOrigin
  | MissingL1Data
  | InvalidBatchType
  | InvalidBatchValidity
  | SystemConfigUpdate string
  | AttributesBuilderError builder_error
  | BadEncoding pipeline_encoding_error
  | EndOfSource
  | Provider string

datatype reset_error =
    BadParentHash hash32 hash32
  | BadTimestamp u64 u64
  | L1OriginMismatch u64 u64
  | ReorgDetected hash32 hash32
  | ResetAttributesBuilder builder_error
  | HoloceneActivation
  | NextL1BlockHashMismatch hash32 hash32
  | BlobsUnavailable u64
  | BlobsUnderFill nat nat
  | BlobsOverFill nat nat
  | BlockNotFound string

datatype pipeline_error_kind =
    Temporary pipeline_error
  | Critical pipeline_error
  | Reset reset_error

abbreviation temp :: "pipeline_error \<Rightarrow> pipeline_error_kind" where
  "temp \<equiv> Temporary"

abbreviation crit :: "pipeline_error \<Rightarrow> pipeline_error_kind" where
  "crit \<equiv> Critical"

section \<open>Operations\<close>

type_synonym ('s, 'a) op = "'s \<Rightarrow> (pipeline_error_kind + 'a) \<times> 's"

text \<open>The \<open>?\<close> operator on an operation, and an operation of the previous stage.\<close>

definition op_then ::
    "(pipeline_error_kind + 'a) \<times> 's \<Rightarrow> ('a \<Rightarrow> ('s, 'b) op) \<Rightarrow> (pipeline_error_kind + 'b) \<times> 's" where
  "op_then r f = (case r of (Inl e, s) \<Rightarrow> (Inl e, s) | (Inr a, s) \<Rightarrow> f a s)"

definition on_prev :: "('s \<Rightarrow> 'p) \<Rightarrow> ('p \<Rightarrow> 's \<Rightarrow> 's) \<Rightarrow> ('p, 'a) op \<Rightarrow> ('s, 'a) op" where
  "on_prev get put f s = (let (r, p) = f (get s) in (r, put p s))"

lemma op_then_simps [simp]:
  "op_then (Inl e, s) f = (Inl e, s)"
  "op_then (Inr a, s) f = f a s"
  by (simp_all add: op_then_def)

lemma op_then_Inr:
  "op_then r f = (Inr b, s') \<longleftrightarrow> (\<exists>a s. r = (Inr a, s) \<and> f a s = (Inr b, s'))"
  by (cases r; cases "fst r") (auto simp: op_then_def split: sum.splits)

text \<open>The results of \<open>n\<close> successive calls, whether they fail or not, and the state after them.\<close>

primrec op_repeat :: "nat \<Rightarrow> ('s, 'a) op \<Rightarrow> 's \<Rightarrow> (pipeline_error_kind + 'a) list \<times> 's" where
  "op_repeat 0 f s = ([], s)"
| "op_repeat (Suc n) f s = (let (r, s') = f s; (rs, s'') = op_repeat n f s' in (r # rs, s''))"

lemma op_repeat_add:
  "op_repeat (m + n) f s =
     (let (rs, s') = op_repeat m f s; (rs', s'') = op_repeat n f s' in (rs @ rs', s''))"
  by (induction m arbitrary: s) (simp_all add: Let_def split: prod.split)

text \<open>
  What every stage offers: \<open>OriginProvider\<close>, \<open>OriginAdvancer\<close> and \<open>StageReset\<close>.
\<close>

record 'p stage =
  st_origin :: "'p \<Rightarrow> block_info option"
  st_advance_origin :: "('p, unit) op"
  st_reset :: "block_num_hash \<Rightarrow> system_config \<Rightarrow> ('p, unit) op"
  st_activate :: "('p, unit) op"
  st_flush_channel :: "('p, unit) op"

text \<open>A first stage that stays at one origin: the concrete previous stage of the examples.\<close>

definition fixed_stage :: "block_info \<Rightarrow> unit stage" where
  "fixed_stage orig =
     \<lparr>st_origin = (\<lambda>_. Some orig), st_advance_origin = Pair (Inr ()),
      st_reset = (\<lambda>_ _. Pair (Inr ())), st_activate = Pair (Inr ()), st_flush_channel = Pair (Inr ())\<rparr>"

text \<open>
  The interface between the frame queue and the stages that assemble channels
  (\<open>NextFrameProvider\<close> with \<open>OriginProvider\<close>): a buffered frame is handed out first, and handing
  it out does not move the origin.
\<close>

locale frame_provider =
  fixes next_frame :: "('p, frame) op"
    and orig_of :: "'p \<Rightarrow> block_info option"
    and pending :: "'p \<Rightarrow> frame list"
  assumes next_pending: "pending p = f # fs \<Longrightarrow>
    \<exists>p'. next_frame p = (Inr f, p') \<and> pending p' = fs \<and> orig_of p' = orig_of p"

text \<open>What evaluates the fork predicates on a concrete configuration.\<close>

lemmas fork_defs = fork_active_def upgrade_activation_timestamp_def cfg_upgrade_activation_def
  registry_activation_def activation_def rollup_config_default_def upgrade_config_default_def
  base_upgrade_config_default_def

end
