(* ===== verification/L1_Traversal.thy ===== *)
theory L1_Traversal
  imports System_Config Pipeline_Types "HOL-Library.Sublist"
begin

text \<open>
  The first stage of the derivation pipeline, which walks the L1 chain
  (\<open>src/crates/consensus/derive/src/stages/traversal/polling.rs\<close>). The chain provider is a
  parameter: its operations on a provider state, with the errors already converted to
  \<open>PipelineErrorKind\<close>. The lemmas show that, whatever the order of the calls, the origins form
  a parent-linked chain, a block is handed out at most once and in order, and the system
  config is always the one the receipts of the blocks walked so far give.
\<close>

section \<open>The stage\<close>

record 's chain_provider =
  chp_block_info_by_number :: "u64 \<Rightarrow> ('s, block_info) op"
  chp_receipts_by_hash :: "hash32 \<Rightarrow> ('s, receipt list) op"

record 's polling_traversal =
  pt_block :: "block_info option"
  pt_data_source :: 's
  pt_done :: bool
  pt_system_config :: system_config
  pt_rollup_config :: rollup_config

definition pt_new :: "'s \<Rightarrow> rollup_config \<Rightarrow> 's polling_traversal" where
  "pt_new data_source cfg =
     \<lparr>pt_block = Some block_info_default, pt_data_source = data_source, pt_done = False,
      pt_system_config = system_config_default, pt_rollup_config = cfg\<rparr>"

definition pt_batcher_addr :: "'s polling_traversal \<Rightarrow> address" where
  "pt_batcher_addr pt = sc_batcher_address (pt_system_config pt)"

definition pt_next_l1_block :: "('s polling_traversal, block_info option) op" where
  "pt_next_l1_block pt =
     (if \<not> pt_done pt then (Inr (pt_block pt), pt\<lparr>pt_done := True\<rparr>)
      else (Inl (temp Eof), pt))"

definition pt_update_origin :: "block_info \<Rightarrow> 's polling_traversal \<Rightarrow> 's polling_traversal" where
  "pt_update_origin b pt = pt\<lparr>pt_done := False, pt_block := Some b\<rparr>"

definition pt_update_system_config_with_receipts ::
    "abi \<Rightarrow> receipt list \<Rightarrow> address \<Rightarrow> bool \<Rightarrow> 's polling_traversal \<Rightarrow> 's polling_traversal" where
  "pt_update_system_config_with_receipts abi receipts contract ecotone_active pt =
     pt\<lparr>pt_system_config :=
       snd (update_with_receipts abi receipts contract ecotone_active (pt_system_config pt))\<rparr>"

abbreviation on_source :: "('s, 'a) op \<Rightarrow> ('s polling_traversal, 'a) op" where
  "on_source \<equiv> on_prev pt_data_source (\<lambda>s. pt_data_source_update (\<lambda>_. s))"

definition pt_advance_origin ::
    "registry \<Rightarrow> abi \<Rightarrow> 's chain_provider \<Rightarrow> ('s polling_traversal, unit) op" where
  "pt_advance_origin reg abi chp pt =
     (case pt_block pt of
        None \<Rightarrow> (Inl (temp Eof), pt)
      | Some block \<Rightarrow>
          op_then (on_source (chp_block_info_by_number chp (bi_number block + 1)) pt)
            (\<lambda>next_l1_origin pt.
              if bi_hash block \<noteq> bi_parent_hash next_l1_origin
              then (Inl (Reset (ReorgDetected (bi_hash block) (bi_parent_hash next_l1_origin))), pt)
              else op_then (on_source (chp_receipts_by_hash chp (bi_hash next_l1_origin)) pt)
                (\<lambda>receipts pt.
                  let cfg = pt_rollup_config pt;
                      ecotone_active = is_ecotone_active reg cfg (bi_timestamp next_l1_origin);
                      pt = pt_update_system_config_with_receipts abi receipts
                        (rc_l1_system_config_address cfg) ecotone_active pt;
                      prev_block_holocene = is_holocene_active reg cfg (bi_timestamp block);
                      next_block_holocene = is_holocene_active reg cfg (bi_timestamp next_l1_origin);
                      pt = pt_update_origin next_l1_origin pt
                  in if \<not> prev_block_holocene \<and> next_block_holocene
                     then (Inl (Reset HoloceneActivation), pt)
                     else (Inr (), pt))))"

definition pt_reset ::
    "'s chain_provider \<Rightarrow> block_num_hash \<Rightarrow> system_config \<Rightarrow> ('s polling_traversal, unit) op" where
  "pt_reset chp l1_origin sys pt =
     op_then (on_source (chp_block_info_by_number chp (bnh_number l1_origin)) pt) (\<lambda>block pt.
       (Inr (), (pt_update_origin block pt)\<lparr>pt_system_config := sys\<rparr>))"

definition pt_stage :: "registry \<Rightarrow> abi \<Rightarrow> 's chain_provider \<Rightarrow> 's polling_traversal stage" where
  "pt_stage reg abi chp =
     \<lparr>st_origin = pt_block, st_advance_origin = pt_advance_origin reg abi chp,
      st_reset = pt_reset chp, st_activate = Pair (Inr ()), st_flush_channel = Pair (Inr ())\<rparr>"

section \<open>Walking the chain\<close>

text \<open>The calls the stages above make while no reset happens, and what a sequence of them hands out.\<close>

datatype traversal_call = AdvanceOrigin | NextL1Block

fun traversal_step ::
    "registry \<Rightarrow> abi \<Rightarrow> 's chain_provider \<Rightarrow> traversal_call \<Rightarrow> 's polling_traversal \<Rightarrow>
     block_info list \<times> 's polling_traversal" where
  "traversal_step reg abi chp AdvanceOrigin pt = ([], snd (pt_advance_origin reg abi chp pt))"
| "traversal_step reg abi chp NextL1Block pt =
     (case pt_next_l1_block pt of (Inr (Some b), pt) \<Rightarrow> ([b], pt) | (_, pt) \<Rightarrow> ([], pt))"

fun traversal_run ::
    "registry \<Rightarrow> abi \<Rightarrow> 's chain_provider \<Rightarrow> traversal_call list \<Rightarrow> 's polling_traversal \<Rightarrow>
     block_info list \<times> 's polling_traversal" where
  "traversal_run reg abi chp [] pt = ([], pt)"
| "traversal_run reg abi chp (c # cs) pt =
     (let (bs, pt) = traversal_step reg abi chp c pt; (bs', pt) = traversal_run reg abi chp cs pt
      in (bs @ bs', pt))"

text \<open>Every advance comes after a request for the current block, as the pipeline's driver calls them.\<close>

fun polled :: "bool \<Rightarrow> traversal_call list \<Rightarrow> bool" where
  "polled requested [] \<longleftrightarrow> True"
| "polled requested (NextL1Block # cs) \<longleftrightarrow> polled True cs"
| "polled requested (AdvanceOrigin # cs) \<longleftrightarrow> requested \<and> polled False cs"

text \<open>
  The documented behaviour of the provider: a block asked for by its number has that number,
  and the receipts of a block are determined by its hash.
\<close>

definition chain_provider_ok :: "(hash32 \<Rightarrow> receipt list) \<Rightarrow> 's chain_provider \<Rightarrow> bool" where
  "chain_provider_ok receipts_of chp \<longleftrightarrow>
     (\<forall>n s b s'. chp_block_info_by_number chp n s = (Inr b, s') \<longrightarrow> bi_number b = n) \<and>
     (\<forall>h s rs s'. chp_receipts_by_hash chp h s = (Inr rs, s') \<longrightarrow> rs = receipts_of h)"

text \<open>The system config after a block, and after the blocks of a chain.\<close>

definition config_after ::
    "registry \<Rightarrow> abi \<Rightarrow> rollup_config \<Rightarrow> (hash32 \<Rightarrow> receipt list) \<Rightarrow> block_info \<Rightarrow> system_config \<Rightarrow> system_config" where
  "config_after reg abi cfg receipts_of b sys =
     snd (update_with_receipts abi (receipts_of (bi_hash b)) (rc_l1_system_config_address cfg)
       (is_ecotone_active reg cfg (bi_timestamp b)) sys)"

text \<open>
  One call of \<open>advance_origin\<close> either leaves everything but the provider as it is, or moves to
  a child of the current block and brings the system config up to date.
\<close>

lemma advance_origin_cases:
  assumes ok: "chain_provider_ok receipts_of chp" and b: "pt_block pt = Some b"
  obtains (stay) e s where "pt_advance_origin reg abi chp pt = (Inl e, pt\<lparr>pt_data_source := s\<rparr>)"
  | (move) nb s r where "is_parent_of b nb"
      "pt_advance_origin reg abi chp pt =
         (r, pt\<lparr>pt_data_source := s, pt_done := False, pt_block := Some nb,
           pt_system_config := config_after reg abi (pt_rollup_config pt) receipts_of nb (pt_system_config pt)\<rparr>)"
      "r = (if \<not> is_holocene_active reg (pt_rollup_config pt) (bi_timestamp b) \<and>
               is_holocene_active reg (pt_rollup_config pt) (bi_timestamp nb)
            then Inl (Reset HoloceneActivation) else Inr ())"
proof -
  obtain r1 s1 where 1: "chp_block_info_by_number chp (bi_number b + 1) (pt_data_source pt) = (r1, s1)"
    by fastforce
  show ?thesis
  proof (cases r1)
    case (Inl e)
    then show ?thesis
      using stay [of e s1] 1 b by (simp add: pt_advance_origin_def on_prev_def)
  next
    case (Inr nb)
    note nb = this
    have num: "bi_number nb = bi_number b + 1" using ok 1 nb by (auto simp: chain_provider_ok_def)
    show ?thesis
    proof (cases "bi_hash b = bi_parent_hash nb")
      case False
      then show ?thesis
        using stay [of "Reset (ReorgDetected (bi_hash b) (bi_parent_hash nb))" s1] 1 b nb
        by (simp add: pt_advance_origin_def on_prev_def)
    next
      case True
      obtain r2 s2 where 2: "chp_receipts_by_hash chp (bi_hash nb) s1 = (r2, s2)" by fastforce
      show ?thesis
      proof (cases r2)
        case (Inl e)
        then show ?thesis
          using stay [of e s2] 1 2 b nb True by (simp add: pt_advance_origin_def on_prev_def)
      next
        case (Inr rs)
        then have "rs = receipts_of (bi_hash nb)" using ok 2 unfolding chain_provider_ok_def by blast
        then show ?thesis
          using move [of nb _ s2] Inr 1 2 b nb True num
          by (simp add: pt_advance_origin_def on_prev_def Let_def is_parent_of_def config_after_def
              pt_update_system_config_with_receipts_def pt_update_origin_def)
      qed
    qed
  qed
qed

text \<open>What a run gives: the chain of origins it walked, from the first to the last.\<close>

definition walked ::
    "registry \<Rightarrow> abi \<Rightarrow> (hash32 \<Rightarrow> receipt list) \<Rightarrow> 's polling_traversal \<Rightarrow> block_info list \<Rightarrow>
     block_info list \<Rightarrow> 's polling_traversal \<Rightarrow> bool" where
  "walked reg abi receipts_of pt chain bs pt' \<longleftrightarrow>
     successively is_parent_of chain \<and> chain \<noteq> [] \<and>
     pt_block pt = Some (hd chain) \<and> pt_block pt' = Some (last chain) \<and>
     pt_rollup_config pt' = pt_rollup_config pt \<and>
     pt_system_config pt' =
       fold (config_after reg abi (pt_rollup_config pt) receipts_of) (tl chain) (pt_system_config pt) \<and>
     subseq bs (if pt_done pt then tl chain else chain)"

definition to_hand_out :: "'s polling_traversal \<Rightarrow> block_info list" where
  "to_hand_out pt = (if pt_done pt then [] else [the (pt_block pt)])"

lemma walked_cons:
  assumes "walked reg abi receipts_of pt1 chain bs pt'" and "is_parent_of b (hd chain)"
    and "pt_block pt = Some b" and "pt_rollup_config pt1 = pt_rollup_config pt" and "\<not> pt_done pt1"
    and "pt_system_config pt1 =
      config_after reg abi (pt_rollup_config pt) receipts_of (hd chain) (pt_system_config pt)"
  shows "walked reg abi receipts_of pt (b # chain) bs pt'"
  using assms by (cases chain) (auto simp: walked_def)

lemma walked_source:
  "walked reg abi receipts_of (pt\<lparr>pt_data_source := s\<rparr>) chain bs pt' =
   walked reg abi receipts_of pt chain bs pt'"
  by (simp add: walked_def)

lemma walked_next:
  assumes "walked reg abi receipts_of (pt\<lparr>pt_done := True\<rparr>) chain bs pt'"
  shows "walked reg abi receipts_of pt chain (if pt_done pt then bs else hd chain # bs) pt'"
  using assms by (cases chain) (auto simp: walked_def)

lemma next_l1_block_step:
  "pt_block pt = Some b \<Longrightarrow>
   traversal_step reg abi chp NextL1Block pt = (to_hand_out pt, pt\<lparr>pt_done := True\<rparr>)"
  by (cases pt) (simp add: pt_next_l1_block_def to_hand_out_def)

lemma traversal_run_walked:
  assumes ok: "chain_provider_ok receipts_of chp"
  shows "pt_block pt = Some b \<Longrightarrow> traversal_run reg abi chp cs pt = (bs, pt') \<Longrightarrow>
    \<exists>chain. walked reg abi receipts_of pt chain bs pt' \<and>
      (polled req cs \<and> (req \<longrightarrow> pt_done pt) \<longrightarrow>
        bs @ to_hand_out pt' = (if pt_done pt then tl chain else chain))"
proof (induction cs arbitrary: pt b bs req)
  case Nil
  then show ?case by (intro exI [of _ "[b]"]) (auto simp: walked_def to_hand_out_def)
next
  case (Cons c cs)
  show ?case
  proof (cases c)
    case NextL1Block
    obtain bs' where run: "traversal_run reg abi chp cs (pt\<lparr>pt_done := True\<rparr>) = (bs', pt')"
        and bs: "bs = to_hand_out pt @ bs'"
      using Cons.prems next_l1_block_step [OF Cons.prems(1)]
      by (auto simp: NextL1Block split: prod.splits)
    obtain chain where w: "walked reg abi receipts_of (pt\<lparr>pt_done := True\<rparr>) chain bs' pt'"
        and p: "polled True cs \<Longrightarrow> bs' @ to_hand_out pt' = tl chain"
      using Cons.IH [OF _ run, of b True] Cons.prems(1) by auto
    have "hd chain = b" "chain \<noteq> []" using w Cons.prems(1) by (auto simp: walked_def)
    then show ?thesis
      using walked_next [OF w] p Cons.prems(1)
      by (intro exI [of _ chain]) (auto simp: NextL1Block bs to_hand_out_def)
  next
    case AdvanceOrigin
    have run: "traversal_run reg abi chp cs (snd (pt_advance_origin reg abi chp pt)) = (bs, pt')"
      using Cons.prems(2) by (auto simp: AdvanceOrigin split: prod.splits)
    from ok Cons.prems(1) show ?thesis
    proof (cases rule: advance_origin_cases [where reg = reg and abi = abi])
      case (stay e s)
      then have run: "traversal_run reg abi chp cs (pt\<lparr>pt_data_source := s\<rparr>) = (bs, pt')"
        using run by simp
      show ?thesis
        using Cons.IH [OF _ run, of b False] Cons.prems(1)
        by (auto simp: AdvanceOrigin walked_source)
    next
      case (move nb s r)
      obtain chain where
          w: "walked reg abi receipts_of (snd (pt_advance_origin reg abi chp pt)) chain bs pt'"
          and p: "polled False cs \<Longrightarrow> bs @ to_hand_out pt' = chain"
        using Cons.IH [OF _ run, of nb False] move(2) by auto
      have "hd chain = nb" using w move(2) by (simp add: walked_def)
      then have "walked reg abi receipts_of pt (b # chain) bs pt'"
        by (intro walked_cons [OF w]) (use move(1,2) Cons.prems(1) in simp_all)
      then show ?thesis
        using p by (intro exI [of _ "b # chain"]) (auto simp: AdvanceOrigin)
    qed
  qed
qed

text \<open>
  C14. Whatever calls of \<open>advance_origin\<close> and \<open>next_l1_block\<close> are made and whatever fails, the
  stage walks a chain of L1 blocks each of which is the parent of the next one; it hands out
  blocks of that chain in its order, each at most once; its system config is the initial one
  updated with the receipts of every block it moved to; and when each advance is preceded by a
  request, every block of the chain but possibly the current one has been handed out.
\<close>

theorem traversal_walks_chain:
  assumes "chain_provider_ok receipts_of chp" and "pt_block pt = Some b" and "\<not> pt_done pt"
    and "traversal_run reg abi chp cs pt = (bs, pt')"
  shows "\<exists>chain. hd chain = b \<and> pt_block pt' = Some (last chain) \<and>
    successively is_parent_of chain \<and> subseq bs chain \<and>
    pt_system_config pt' =
      fold (config_after reg abi (pt_rollup_config pt) receipts_of) (tl chain) (pt_system_config pt) \<and>
    (polled False cs \<longrightarrow> bs = (if pt_done pt' then chain else butlast chain))"
proof -
  obtain chain where w: "walked reg abi receipts_of pt chain bs pt'"
      and p: "polled False cs \<Longrightarrow> bs @ to_hand_out pt' = chain"
    using traversal_run_walked [OF assms(1,2,4), of False] assms(3) by auto
  from p have "polled False cs \<longrightarrow> bs = (if pt_done pt' then chain else butlast chain)"
    by (auto simp: to_hand_out_def split: if_splits)
  then show ?thesis using w assms(2,3) by (intro exI [of _ chain]) (auto simp: walked_def)
qed

text \<open>A chain whose block \<open>n\<close> has the hash \<open>n\<close>, no receipts, and a head at block 2.\<close>

definition short_chain :: "unit chain_provider" where
  "short_chain =
     \<lparr>chp_block_info_by_number = (\<lambda>n s.
        if n > 2 then (Inl (temp Eof), s)
        else (Inr (block_info_new (to_be 32 (unat n)) n (to_be 32 (unat n - 1)) (12 * n)), s)),
      chp_receipts_by_hash = (\<lambda>h. Pair (Inr []))\<rparr>"

lemma short_chain_ok: "chain_provider_ok (\<lambda>_. []) short_chain"
  by (auto simp: chain_provider_ok_def short_chain_def block_info_new_def split: if_splits)

theorem traversal_walks_chain_witness:
  fixes blk cs cfg pt
  defines "blk \<equiv> \<lambda>n. block_info_new (to_be 32 n) (word_of_nat n) (to_be 32 (n - 1)) (12 * word_of_nat n)"
    and "cs \<equiv> [NextL1Block, AdvanceOrigin, NextL1Block, AdvanceOrigin, NextL1Block, AdvanceOrigin]"
    and "cfg \<equiv> rollup_config_default\<lparr>rc_upgrades := upgrade_config_default\<lparr>uc_holocene_time := Some 0\<rparr>\<rparr>"
    and "pt \<equiv> (pt_new () cfg)\<lparr>pt_block := Some (blk 0)\<rparr>"
  shows "fst (traversal_run Map.empty std_abi short_chain cs pt) = [blk 0, blk 1, blk 2] \<and>
    successively is_parent_of [blk 0, blk 1, blk 2] \<and> polled False cs \<and>
    pt_block (snd (traversal_run Map.empty std_abi short_chain cs pt)) = Some (blk 2)"
proof -
  obtain bs pt' where run: "traversal_run Map.empty std_abi short_chain cs pt = (bs, pt')" by fastforce
  have hol: "is_holocene_active Map.empty cfg t" for t
    by (simp add: cfg_def is_holocene_active_def fork_defs)
  have "bs = [blk 0, blk 1, blk 2] \<and> pt_done pt' \<and> pt_block pt' = Some (blk 2)"
    using run hol
    by (simp add: cs_def pt_def pt_new_def short_chain_def pt_next_l1_block_def pt_advance_origin_def
        on_prev_def blk_def block_info_new_def Let_def pt_update_origin_def
        pt_update_system_config_with_receipts_def)
      auto
  moreover obtain chain where "successively is_parent_of chain" "bs = (if pt_done pt' then chain else butlast chain)"
    using traversal_walks_chain [OF short_chain_ok _ _ run, of "blk 0"]
    by (auto simp: pt_def pt_new_def cs_def)
  ultimately show ?thesis using run by (auto simp: cs_def)
qed

end
