(* ===== verification/Data_Sources.thy ===== *)
theory Data_Sources
  imports Pipeline_Types Blobs
begin

text \<open>
  The sources of batcher data in an L1 block (\<open>src/crates/consensus/derive/src/sources/\<close>):
  calldata before Ecotone, blobs and calldata from Ecotone on. The chain provider and the blob
  provider are parameters, their errors already converted to \<open>PipelineErrorKind\<close>. The lemmas
  show that a source hands out the data of exactly the transactions the batcher sent to the
  batch inbox, in their order, and then reports the end of the block.
\<close>

section \<open>L1 transactions\<close>

text \<open>
  What the sources read of a \<open>TxEnvelope\<close>: its variant, its fields, and the sender the signature
  gives, if one can be recovered.
\<close>

datatype tx_variant = TxLegacy | TxEip2930 | TxEip1559 | TxEip4844 | TxOther

record l1_tx =
  ltx_variant :: tx_variant
  ltx_to :: "address option"
  ltx_input :: bytes
  ltx_blob_hashes :: "hash32 list"
  ltx_signer :: "address option"

section \<open>Errors of the blob provider\<close>

datatype blob_provider_error =
    SidecarLengthMismatch nat nat
  | SlotDerivation
  | BlobDecoding blob_decoding_error
  | BlobNotFound u64 string
  | Backend string
  | NotEnoughBlobs nat nat
  | BlobProviderReset reset_error

fun blob_decoding_error_text :: "blob_decoding_error \<Rightarrow> string" where
  "blob_decoding_error_text BlobInvalidFieldElement = ''Invalid field element''"
| "blob_decoding_error_text BlobInvalidEncodingVersion = ''Invalid encoding version''"
| "blob_decoding_error_text BlobInvalidLength = ''Invalid length''"
| "blob_decoding_error_text BlobMissingData = ''Missing data''"

fun decimal :: "nat \<Rightarrow> string" where
  "decimal n = (if n < 10 then [char_of (48 + n)] else decimal (n div 10) @ [char_of (48 + n mod 10)])"

declare decimal.simps [simp del]

fun pipeline_error_of_blob :: "blob_provider_error \<Rightarrow> pipeline_error_kind" where
  "pipeline_error_of_blob (SidecarLengthMismatch expected got) =
     crit (Provider (''Blob sidecar length mismatch: expected '' @ decimal expected @ '', got '' @ decimal got))"
| "pipeline_error_of_blob SlotDerivation = crit (Provider ''Failed to derive slot'')"
| "pipeline_error_of_blob (BlobDecoding e) =
     crit (Provider (''Blob decoding error: '' @ blob_decoding_error_text e))"
| "pipeline_error_of_blob (BlobNotFound slot reason) = Reset (BlobsUnavailable slot)"
| "pipeline_error_of_blob (Backend e) = temp (Provider e)"
| "pipeline_error_of_blob (NotEnoughBlobs expected got) = Reset (BlobsUnderFill expected got)"
| "pipeline_error_of_blob (BlobProviderReset e) = Reset e"

section \<open>Calldata\<close>

record 'c calldata_source =
  cs_chain_provider :: 'c
  cs_batch_inbox_address :: address
  cs_calldata :: "bytes list"
  cs_open :: bool

definition cs_new :: "'c \<Rightarrow> address \<Rightarrow> 'c calldata_source" where
  "cs_new chain_provider inbox =
     \<lparr>cs_chain_provider = chain_provider, cs_batch_inbox_address = inbox, cs_calldata = [],
      cs_open = False\<rparr>"

definition batcher_calldata :: "address \<Rightarrow> address \<Rightarrow> l1_tx \<Rightarrow> bytes option" where
  "batcher_calldata inbox batcher tx =
     (if ltx_variant tx = TxOther then None
      else case ltx_to tx of
        None \<Rightarrow> None
      | Some to \<Rightarrow>
          if to \<noteq> inbox then None
          else case ltx_signer tx of
            None \<Rightarrow> None
          | Some signer \<Rightarrow> if signer \<noteq> batcher then None else Some (ltx_input tx))"

type_synonym 'c fetch_txs = "hash32 \<Rightarrow> ('c, block_info \<times> l1_tx list) op"

definition cs_load_calldata ::
    "'c fetch_txs \<Rightarrow> block_info \<Rightarrow> address \<Rightarrow> ('c calldata_source, unit) op" where
  "cs_load_calldata fetch block_ref batcher cs =
     (if cs_open cs then (Inr (), cs)
      else op_then (on_prev cs_chain_provider (\<lambda>c. cs_chain_provider_update (\<lambda>_. c))
          (fetch (bi_hash block_ref)) cs) (\<lambda>(_, txs) cs.
        (Inr (), cs\<lparr>cs_calldata :=
             List.map_filter (batcher_calldata (cs_batch_inbox_address cs) batcher) txs,
           cs_open := True\<rparr>)))"

definition cs_next ::
    "'c fetch_txs \<Rightarrow> block_info \<Rightarrow> address \<Rightarrow> ('c calldata_source, bytes) op" where
  "cs_next fetch block_ref batcher cs =
     op_then (cs_load_calldata fetch block_ref batcher cs) (\<lambda>_ cs.
       case cs_calldata cs of
         [] \<Rightarrow> (Inl (temp Eof), cs)
       | x # xs \<Rightarrow> (Inr x, cs\<lparr>cs_calldata := xs\<rparr>))"

definition cs_clear :: "'c calldata_source \<Rightarrow> 'c calldata_source" where
  "cs_clear cs = cs\<lparr>cs_calldata := [], cs_open := False\<rparr>"

section \<open>Blobs\<close>

record ('c, 'b) blob_source =
  bs_chain_provider :: 'c
  bs_blob_fetcher :: 'b
  bs_batcher_address :: address
  bs_data :: "blob_data list"
  bs_open :: bool

definition bs_new :: "'c \<Rightarrow> 'b \<Rightarrow> address \<Rightarrow> ('c, 'b) blob_source" where
  "bs_new chain_provider blob_fetcher inbox =
     \<lparr>bs_chain_provider = chain_provider, bs_blob_fetcher = blob_fetcher,
      bs_batcher_address = inbox, bs_data = [], bs_open = False\<rparr>"

definition extract_tx :: "address \<Rightarrow> address \<Rightarrow> l1_tx \<Rightarrow> blob_data list \<times> hash32 list" where
  "extract_tx inbox batcher tx =
     (if ltx_variant tx = TxOther then ([], [])
      else case ltx_to tx of
        None \<Rightarrow> ([], [])
      | Some to \<Rightarrow>
          if to \<noteq> inbox then ([], [])
          else if (case ltx_signer tx of None \<Rightarrow> ADDRESS_ZERO | Some a \<Rightarrow> a) \<noteq> batcher then ([], [])
          else if ltx_variant tx \<noteq> TxEip4844
          then ([\<lparr>bd_data = None, bd_calldata = Some (ltx_input tx)\<rparr>], [])
          else (replicate (length (ltx_blob_hashes tx)) \<lparr>bd_data = None, bd_calldata = None\<rparr>,
                ltx_blob_hashes tx))"

definition extract_blob_data :: "address \<Rightarrow> address \<Rightarrow> l1_tx list \<Rightarrow> blob_data list \<times> hash32 list" where
  "extract_blob_data inbox batcher txs =
     fold (\<lambda>tx (data, hashes). let (d, h) = extract_tx inbox batcher tx in (data @ d, hashes @ h))
       txs ([], [])"

definition bd_fill :: "bytes list \<Rightarrow> nat \<Rightarrow> blob_data \<Rightarrow> blob_provider_error + (bool \<times> blob_data)" where
  "bd_fill blobs index self =
     (if bd_calldata self \<noteq> None then Inr (False, self)
      else if index \<ge> length blobs then Inl (NotEnoughBlobs index (length blobs))
      else if blobs ! index = [] then Inl (BlobDecoding BlobMissingData)
      else Inr (True, self\<lparr>bd_data := Some (blobs ! index)\<rparr>))"

fun fill_blobs ::
    "bytes list \<Rightarrow> nat \<Rightarrow> blob_data list \<Rightarrow> blob_provider_error + (nat \<times> blob_data list)" where
  "fill_blobs blobs blob_index [] = Inr (blob_index, [])"
| "fill_blobs blobs blob_index (d # ds) =
     and_then (bd_fill blobs blob_index d) (\<lambda>(should_increment, d).
       and_then (fill_blobs blobs (if should_increment then blob_index + 1 else blob_index) ds)
         (\<lambda>(blob_index, ds). Inr (blob_index, d # ds)))"

type_synonym 'b fetch_blobs = "block_info \<Rightarrow> hash32 list \<Rightarrow> ('b, bytes list) op"

definition bs_load_blobs ::
    "'c fetch_txs \<Rightarrow> 'b fetch_blobs \<Rightarrow> block_info \<Rightarrow> address \<Rightarrow> (('c, 'b) blob_source, unit) op" where
  "bs_load_blobs fetch fetch_blobs block_ref batcher bs =
     (if bs_open bs then (Inr (), bs)
      else op_then (on_prev bs_chain_provider (\<lambda>c. bs_chain_provider_update (\<lambda>_. c))
          (fetch (bi_hash block_ref)) bs) (\<lambda>(_, txs) bs.
        let (data, blob_hashes) = extract_blob_data (bs_batcher_address bs) batcher txs in
        if blob_hashes = [] then (Inr (), bs\<lparr>bs_open := True, bs_data := data\<rparr>)
        else op_then (on_prev bs_blob_fetcher (\<lambda>b. bs_blob_fetcher_update (\<lambda>_. b))
            (fetch_blobs block_ref blob_hashes) bs) (\<lambda>blobs bs.
          case fill_blobs blobs 0 data of
            Inl e \<Rightarrow> (Inl (pipeline_error_of_blob e), bs)
          | Inr (blob_index, data) \<Rightarrow>
              if blob_index < length blobs
              then (Inl (Reset (BlobsOverFill blob_index (length blobs))), bs)
              else (Inr (), bs\<lparr>bs_open := True, bs_data := data\<rparr>))))"

definition bs_next_data :: "(('c, 'b) blob_source, blob_data) op" where
  "bs_next_data bs =
     (case bs_data bs of
        [] \<Rightarrow> (Inl (temp Eof), bs)
      | d # ds \<Rightarrow> (Inr d, bs\<lparr>bs_data := ds\<rparr>))"

lemma load_blobs_open:
  "bs_load_blobs fetch fetch_blobs block_ref batcher bs = (Inr u, bs') \<Longrightarrow>
   bs_open bs' \<and> (bs_open bs \<longrightarrow> bs' = bs)"
  by (auto simp: bs_load_blobs_def op_then_def Let_def split: if_splits sum.splits prod.splits)

lemma next_data_Inr:
  "bs_next_data bs = (Inr d, bs') \<longleftrightarrow> (\<exists>ds. bs_data bs = d # ds \<and> bs' = bs\<lparr>bs_data := ds\<rparr>)"
  by (auto simp: bs_next_data_def split: list.splits)

function bs_next ::
    "'c fetch_txs \<Rightarrow> 'b fetch_blobs \<Rightarrow> block_info \<Rightarrow> address \<Rightarrow> (('c, 'b) blob_source, bytes) op" where
  "bs_next fetch fetch_blobs block_ref batcher bs =
     (case bs_load_blobs fetch fetch_blobs block_ref batcher bs of
        (Inl e, bs1) \<Rightarrow> (Inl e, bs1)
      | (Inr _, bs1) \<Rightarrow>
          (case bs_next_data bs1 of
             (Inl e, bs2) \<Rightarrow> (Inl e, bs2)
           | (Inr d, bs2) \<Rightarrow>
               (case bd_calldata d of
                  Some c \<Rightarrow> (Inr c, bs2)
                | None \<Rightarrow>
                    (case blob_data_decode d of
                       Inr x \<Rightarrow> (Inr x, bs2)
                     | Inl _ \<Rightarrow> bs_next fetch fetch_blobs block_ref batcher bs2))))"
  by pat_completeness auto
termination
  by (relation "measures [\<lambda>(_, _, _, _, bs). if bs_open bs then 0 else 1,
      \<lambda>(_, _, _, _, bs). length (bs_data bs)]")
    (auto simp: next_data_Inr dest!: load_blobs_open [OF sym] sym [of "(Inr _, _)" "bs_next_data _"])

declare bs_next.simps [simp del]

definition bs_clear :: "('c, 'b) blob_source \<Rightarrow> ('c, 'b) blob_source" where
  "bs_clear bs = bs\<lparr>bs_data := [], bs_open := False\<rparr>"

section \<open>Either of them\<close>

record ('c, 'b) ethereum_data_source =
  eds_ecotone_timestamp :: "u64 option"
  eds_blob_source :: "('c, 'b) blob_source"
  eds_calldata_source :: "'c calldata_source"

definition eds_new_from_parts :: "'c \<Rightarrow> 'b \<Rightarrow> rollup_config \<Rightarrow> ('c, 'b) ethereum_data_source" where
  "eds_new_from_parts provider blobs cfg =
     \<lparr>eds_ecotone_timestamp = uc_ecotone_time (rc_upgrades cfg),
      eds_blob_source = bs_new provider blobs (rc_batch_inbox_address cfg),
      eds_calldata_source = cs_new provider (rc_batch_inbox_address cfg)\<rparr>"

definition eds_next ::
    "'c fetch_txs \<Rightarrow> 'b fetch_blobs \<Rightarrow> block_info \<Rightarrow> address \<Rightarrow> (('c, 'b) ethereum_data_source, bytes) op" where
  "eds_next fetch fetch_blobs block_ref batcher eds =
     (let ecotone_enabled =
        (case eds_ecotone_timestamp eds of None \<Rightarrow> False | Some e \<Rightarrow> bi_timestamp block_ref \<ge> e) in
      if ecotone_enabled
      then on_prev eds_blob_source (\<lambda>s. eds_blob_source_update (\<lambda>_. s))
        (bs_next fetch fetch_blobs block_ref batcher) eds
      else on_prev eds_calldata_source (\<lambda>s. eds_calldata_source_update (\<lambda>_. s))
        (cs_next fetch block_ref batcher) eds)"

definition eds_clear :: "('c, 'b) ethereum_data_source \<Rightarrow> ('c, 'b) ethereum_data_source" where
  "eds_clear eds =
     eds\<lparr>eds_blob_source := bs_clear (eds_blob_source eds),
       eds_calldata_source := cs_clear (eds_calldata_source eds)\<rparr>"

section \<open>The contract of a source\<close>

text \<open>
  What \<open>DataAvailabilityProvider\<close> promises the L1 retrieval stage: the items remaining for a
  block are handed out one by one, and then the source reports \<open>Eof\<close>. \<open>None\<close> stands for a block
  that cannot be loaded.
\<close>

locale data_source =
  fixes fetch_next :: "block_info \<Rightarrow> address \<Rightarrow> ('d, bytes) op"
    and remaining :: "block_info \<Rightarrow> address \<Rightarrow> 'd \<Rightarrow> bytes list option"
  assumes next_item: "remaining b a d = Some (x # xs) \<Longrightarrow>
      \<exists>d'. fetch_next b a d = (Inr x, d') \<and> remaining b a d' = Some xs"
    and next_end: "remaining b a d = Some [] \<Longrightarrow> \<exists>d'. fetch_next b a d = (Inl (temp Eof), d')"
    and next_fail: "remaining b a d = None \<Longrightarrow> \<exists>e d'. fetch_next b a d = (Inl e, d')"
begin

lemma drain:
  "remaining b a d = Some xs \<Longrightarrow>
   \<exists>d'. op_repeat (length xs) (fetch_next b a) d = (map Inr xs, d') \<and> remaining b a d' = Some []"
proof (induction xs arbitrary: d)
  case (Cons x xs)
  obtain d1 where "fetch_next b a d = (Inr x, d1)" "remaining b a d1 = Some xs"
    using next_item [OF Cons.prems] by blast
  then show ?case using Cons.IH [of d1] by auto
qed simp

end

definition cs_remaining ::
    "'c fetch_txs \<Rightarrow> block_info \<Rightarrow> address \<Rightarrow> 'c calldata_source \<Rightarrow> bytes list option" where
  "cs_remaining fetch b a cs =
     (case cs_load_calldata fetch b a cs of (Inl _, _) \<Rightarrow> None | (Inr _, cs) \<Rightarrow> Some (cs_calldata cs))"

definition blob_item :: "blob_data \<Rightarrow> bytes option" where
  "blob_item d =
     (case bd_calldata d of
        Some c \<Rightarrow> Some c
      | None \<Rightarrow> (case blob_data_decode d of Inr x \<Rightarrow> Some x | Inl _ \<Rightarrow> None))"

definition bs_remaining ::
    "'c fetch_txs \<Rightarrow> 'b fetch_blobs \<Rightarrow> block_info \<Rightarrow> address \<Rightarrow> ('c, 'b) blob_source \<Rightarrow> bytes list option" where
  "bs_remaining fetch fetch_blobs b a bs =
     (case bs_load_blobs fetch fetch_blobs b a bs of
        (Inl _, _) \<Rightarrow> None
      | (Inr _, bs) \<Rightarrow> Some (List.map_filter blob_item (bs_data bs)))"

definition ecotone_at :: "('c, 'b) ethereum_data_source \<Rightarrow> block_info \<Rightarrow> bool" where
  "ecotone_at eds b =
     (case eds_ecotone_timestamp eds of None \<Rightarrow> False | Some e \<Rightarrow> bi_timestamp b \<ge> e)"

definition eds_remaining ::
    "'c fetch_txs \<Rightarrow> 'b fetch_blobs \<Rightarrow> block_info \<Rightarrow> address \<Rightarrow> ('c, 'b) ethereum_data_source \<Rightarrow> bytes list option" where
  "eds_remaining fetch fetch_blobs b a eds =
     (if ecotone_at eds b then bs_remaining fetch fetch_blobs b a (eds_blob_source eds)
      else cs_remaining fetch b a (eds_calldata_source eds))"

lemma load_calldata_open:
  "cs_load_calldata fetch b a cs = (Inr u, cs') \<Longrightarrow> cs_open cs'"
  by (auto simp: cs_load_calldata_def op_then_def split: if_splits sum.splits prod.splits)

lemma cs_next_loaded:
  "cs_load_calldata fetch b a cs = (r, cs1) \<Longrightarrow> cs_next fetch b a cs =
     (case r of Inl e \<Rightarrow> (Inl e, cs1)
      | Inr _ \<Rightarrow> (case cs_calldata cs1 of [] \<Rightarrow> (Inl (temp Eof), cs1)
         | x # xs \<Rightarrow> (Inr x, cs1\<lparr>cs_calldata := xs\<rparr>)))"
  by (simp add: cs_next_def op_then_def split: sum.splits)

lemma cs_remaining_open: "cs_open cs \<Longrightarrow> cs_remaining fetch b a cs = Some (cs_calldata cs)"
  by (simp add: cs_remaining_def cs_load_calldata_def)

lemma bs_remaining_open:
  "bs_open bs \<Longrightarrow> bs_remaining fetch fb b a bs = Some (List.map_filter blob_item (bs_data bs))"
  by (simp add: bs_remaining_def bs_load_blobs_def)

text \<open>On an open source the recursion of \<open>next\<close> skips what cannot be decoded.\<close>

lemma bs_next_open:
  "bs_open bs \<Longrightarrow>
   (case List.map_filter blob_item (bs_data bs) of
      [] \<Rightarrow> bs_next fetch fb b a bs = (Inl (temp Eof), bs\<lparr>bs_data := []\<rparr>)
    | x # xs \<Rightarrow> \<exists>ds. bs_next fetch fb b a bs = (Inr x, bs\<lparr>bs_data := ds\<rparr>) \<and>
        List.map_filter blob_item ds = xs)"
proof (induction "bs_data bs" arbitrary: bs)
  case Nil
  then have "bs\<lparr>bs_data := []\<rparr> = bs" by (cases bs) simp
  with Nil show ?case
    by (subst bs_next.simps) (simp add: map_filter_simps bs_load_blobs_def bs_next_data_def Nil.hyps [symmetric])
next
  case (Cons d ds)
  note [simp] = Cons.hyps(2) [symmetric]
  have step: "bs_next fetch fb b a bs =
      (case blob_item d of Some x \<Rightarrow> (Inr x, bs\<lparr>bs_data := ds\<rparr>)
       | None \<Rightarrow> bs_next fetch fb b a (bs\<lparr>bs_data := ds\<rparr>))"
    using Cons.prems
    by (subst bs_next.simps)
      (simp add: bs_load_blobs_def bs_next_data_def blob_item_def split: option.split sum.split)
  show ?case
    using Cons.hyps(1) [of "bs\<lparr>bs_data := ds\<rparr>"] Cons.prems
    by (cases "blob_item d") (auto simp: step map_filter_simps split: list.splits)
qed

lemma bs_next_loaded:
  assumes "bs_load_blobs fetch fb b a bs = (Inr u, bs1)"
  shows "bs_next fetch fb b a bs = bs_next fetch fb b a bs1"
proof -
  have "bs_load_blobs fetch fb b a bs1 = (Inr u, bs1)"
    using load_blobs_open [OF assms] by (simp add: bs_load_blobs_def)
  then show ?thesis using assms by (subst (1 2) bs_next.simps) simp
qed

interpretation csd: data_source "cs_next fetch" "cs_remaining fetch" for fetch
proof
  fix b a d x xs
  assume "cs_remaining fetch b a d = Some (x # xs)"
  then obtain d1 where 1: "cs_load_calldata fetch b a d = (Inr (), d1)" "cs_calldata d1 = x # xs"
    by (auto simp: cs_remaining_def split: prod.splits sum.splits)
  then show "\<exists>d'. cs_next fetch b a d = (Inr x, d') \<and> cs_remaining fetch b a d' = Some xs"
    using load_calldata_open [OF 1(1)] by (simp add: cs_next_loaded [OF 1(1)] cs_remaining_open)
next
  fix b a d
  assume "cs_remaining fetch b a d = Some []"
  then obtain d1 where 1: "cs_load_calldata fetch b a d = (Inr (), d1)" "cs_calldata d1 = []"
    by (auto simp: cs_remaining_def split: prod.splits sum.splits)
  then show "\<exists>d'. cs_next fetch b a d = (Inl (temp Eof), d')" by (simp add: cs_next_loaded [OF 1(1)])
next
  fix b a d
  assume "cs_remaining fetch b a d = None"
  then obtain e d1 where 1: "cs_load_calldata fetch b a d = (Inl e, d1)"
    by (auto simp: cs_remaining_def split: prod.splits sum.splits)
  then show "\<exists>e d'. cs_next fetch b a d = (Inl e, d')" by (simp add: cs_next_loaded [OF 1])
qed

interpretation bsd: data_source "bs_next fetch fetch_blobs" "bs_remaining fetch fetch_blobs"
  for fetch fetch_blobs
proof
  fix b a d x xs
  assume "bs_remaining fetch fetch_blobs b a d = Some (x # xs)"
  then obtain d1 where 1: "bs_load_blobs fetch fetch_blobs b a d = (Inr (), d1)"
      "List.map_filter blob_item (bs_data d1) = x # xs"
    by (auto simp: bs_remaining_def split: prod.splits sum.splits)
  then have "bs_open d1" using load_blobs_open by blast
  then show "\<exists>d'. bs_next fetch fetch_blobs b a d = (Inr x, d') \<and>
      bs_remaining fetch fetch_blobs b a d' = Some xs"
    using bs_next_open [of d1 fetch fetch_blobs b a] 1(2)
    by (auto simp: bs_next_loaded [OF 1(1)] bs_remaining_open)
next
  fix b a d
  assume "bs_remaining fetch fetch_blobs b a d = Some []"
  then obtain d1 where 1: "bs_load_blobs fetch fetch_blobs b a d = (Inr (), d1)"
      "List.map_filter blob_item (bs_data d1) = []"
    by (auto simp: bs_remaining_def split: prod.splits sum.splits)
  then have "bs_open d1" using load_blobs_open by blast
  then show "\<exists>d'. bs_next fetch fetch_blobs b a d = (Inl (temp Eof), d')"
    using bs_next_open [of d1 fetch fetch_blobs b a] 1(2) by (auto simp: bs_next_loaded [OF 1(1)])
next
  fix b a d
  assume "bs_remaining fetch fetch_blobs b a d = None"
  then obtain e d1 where "bs_load_blobs fetch fetch_blobs b a d = (Inl e, d1)"
    by (auto simp: bs_remaining_def split: prod.splits sum.splits)
  then show "\<exists>e d'. bs_next fetch fetch_blobs b a d = (Inl e, d')" by (subst bs_next.simps) simp
qed

lemma eds_next_blob:
  "ecotone_at eds b \<Longrightarrow> bs_next fetch fb b a (eds_blob_source eds) = (r, s) \<Longrightarrow>
   eds_next fetch fb b a eds = (r, eds\<lparr>eds_blob_source := s\<rparr>)"
  by (auto simp: eds_next_def ecotone_at_def on_prev_def split: option.splits)

lemma eds_next_calldata:
  "\<not> ecotone_at eds b \<Longrightarrow> cs_next fetch b a (eds_calldata_source eds) = (r, s) \<Longrightarrow>
   eds_next fetch fb b a eds = (r, eds\<lparr>eds_calldata_source := s\<rparr>)"
  by (auto simp: eds_next_def ecotone_at_def on_prev_def split: option.splits)

lemma ecotone_at_update [simp]:
  "ecotone_at (eds\<lparr>eds_blob_source := s\<rparr>) b = ecotone_at eds b"
  "ecotone_at (eds\<lparr>eds_calldata_source := c\<rparr>) b = ecotone_at eds b"
  by (simp_all add: ecotone_at_def)

lemma eds_remaining_cases:
  assumes "eds_remaining fetch fb b a eds = r"
    and "\<And>s. bs_remaining fetch fb b a s = r \<Longrightarrow>
      \<exists>s'. bs_next fetch fb b a s = (q, s') \<and> (\<forall>xs. q' = Some xs \<longrightarrow> bs_remaining fetch fb b a s' = Some xs)"
    and "\<And>s. cs_remaining fetch b a s = r \<Longrightarrow>
      \<exists>s'. cs_next fetch b a s = (q, s') \<and> (\<forall>xs. q' = Some xs \<longrightarrow> cs_remaining fetch b a s' = Some xs)"
  shows "\<exists>d'. eds_next fetch fb b a eds = (q, d') \<and>
      (\<forall>xs. q' = Some xs \<longrightarrow> eds_remaining fetch fb b a d' = Some xs)"
proof (cases "ecotone_at eds b")
  case True
  then obtain s' where "bs_next fetch fb b a (eds_blob_source eds) = (q, s')"
      "\<forall>xs. q' = Some xs \<longrightarrow> bs_remaining fetch fb b a s' = Some xs"
    using assms(1,2) by (auto simp: eds_remaining_def)
  then show ?thesis using True by (intro exI) (auto simp: eds_next_blob eds_remaining_def)
next
  case False
  then obtain s' where "cs_next fetch b a (eds_calldata_source eds) = (q, s')"
      "\<forall>xs. q' = Some xs \<longrightarrow> cs_remaining fetch b a s' = Some xs"
    using assms(1,3) by (auto simp: eds_remaining_def)
  then show ?thesis using False by (intro exI) (auto simp: eds_next_calldata eds_remaining_def)
qed

interpretation edsd: data_source "eds_next fetch fetch_blobs" "eds_remaining fetch fetch_blobs"
  for fetch fetch_blobs
proof
  fix b a d x xs
  assume "eds_remaining fetch fetch_blobs b a d = Some (x # xs)"
  from eds_remaining_cases [OF this, where q = "Inr x" and q' = "Some xs"]
  show "\<exists>d'. eds_next fetch fetch_blobs b a d = (Inr x, d') \<and>
      eds_remaining fetch fetch_blobs b a d' = Some xs"
    by (simp add: bsd.next_item csd.next_item)
next
  fix b a d
  assume "eds_remaining fetch fetch_blobs b a d = Some []"
  from eds_remaining_cases [OF this, where q = "Inl (temp Eof)" and q' = None]
  show "\<exists>d'. eds_next fetch fetch_blobs b a d = (Inl (temp Eof), d')"
    by (simp add: bsd.next_end csd.next_end)
next
  fix b a d
  assume *: "eds_remaining fetch fetch_blobs b a d = None"
  show "\<exists>e d'. eds_next fetch fetch_blobs b a d = (Inl e, d')"
  proof (cases "ecotone_at d b")
    case True
    then show ?thesis
      using * bsd.next_fail [of fetch fetch_blobs b a "eds_blob_source d"]
      by (auto simp: eds_remaining_def eds_next_blob)
  next
    case False
    then show ?thesis
      using * csd.next_fail [of fetch b a "eds_calldata_source d"]
      by (auto simp: eds_remaining_def eds_next_calldata)
  qed
qed

section \<open>What a source hands out\<close>

text \<open>
  The data the batcher posted in a block: the calldata of its transactions to the batch inbox
  and, from Ecotone on, the content of the blobs of its blob transactions, where a blob that
  does not decode counts for nothing.
\<close>

definition sent_by_batcher :: "address \<Rightarrow> address \<Rightarrow> l1_tx \<Rightarrow> bool" where
  "sent_by_batcher inbox batcher tx \<longleftrightarrow>
     ltx_variant tx \<noteq> TxOther \<and> ltx_to tx = Some inbox \<and> ltx_signer tx = Some batcher"

definition blob_payload :: "bytes \<Rightarrow> bytes option" where
  "blob_payload blob = blob_item \<lparr>bd_data = Some blob, bd_calldata = None\<rparr>"

definition posted_data :: "bool \<Rightarrow> (hash32 \<Rightarrow> bytes) \<Rightarrow> l1_tx \<Rightarrow> bytes list" where
  "posted_data ecotone blob_of tx =
     (if ecotone \<and> ltx_variant tx = TxEip4844
      then List.map_filter (\<lambda>h. blob_payload (blob_of h)) (ltx_blob_hashes tx)
      else [ltx_input tx])"

definition batcher_data ::
    "bool \<Rightarrow> address \<Rightarrow> address \<Rightarrow> (hash32 \<Rightarrow> bytes) \<Rightarrow> l1_tx list \<Rightarrow> bytes list" where
  "batcher_data ecotone inbox batcher blob_of txs =
     concat (map (posted_data ecotone blob_of) (filter (sent_by_batcher inbox batcher) txs))"

text \<open>
  The documented behaviour of the providers at a block: the transactions of the block are
  \<open>txs\<close>, and the blob with hash \<open>h\<close> is \<open>blob_of h\<close>, which is not empty.
\<close>

definition posts ::
    "'c fetch_txs \<Rightarrow> 'b fetch_blobs \<Rightarrow> block_info \<Rightarrow> l1_tx list \<Rightarrow> (hash32 \<Rightarrow> bytes) \<Rightarrow> bool" where
  "posts fetch fetch_blobs b txs blob_of \<longleftrightarrow>
     (\<forall>c. \<exists>i c'. fetch (bi_hash b) c = (Inr (i, txs), c')) \<and>
     (\<forall>hs f. \<exists>f'. fetch_blobs b hs f = (Inr (map blob_of hs), f')) \<and> (\<forall>h. blob_of h \<noteq> [])"

lemma extract_blob_data_eq:
  "extract_blob_data inbox batcher txs =
     (concat (map (\<lambda>tx. fst (extract_tx inbox batcher tx)) txs), concat (map (\<lambda>tx. snd (extract_tx inbox batcher tx)) txs))"
proof -
  have "fold (\<lambda>tx (data, hashes). let (d, h) = extract_tx inbox batcher tx in (data @ d, hashes @ h)) txs (d0, h0)
    = (d0 @ concat (map (\<lambda>tx. fst (extract_tx inbox batcher tx)) txs),
       h0 @ concat (map (\<lambda>tx. snd (extract_tx inbox batcher tx)) txs))" for d0 h0
    by (induction txs arbitrary: d0 h0) (simp_all add: Let_def split: prod.splits)
  then show ?thesis by (simp add: extract_blob_data_def)
qed

lemma fill_blobs_append:
  "fill_blobs blobs i (ds @ ds') =
     and_then (fill_blobs blobs i ds) (\<lambda>(i, fs). and_then (fill_blobs blobs i ds') (\<lambda>(i, fs'). Inr (i, fs @ fs')))"
proof (induction ds arbitrary: i)
  case Nil
  then show ?case by (cases "fill_blobs blobs i ds'") auto
next
  case (Cons d ds)
  show ?case
    by (cases "bd_fill blobs i d") (auto simp: Cons.IH split: sum.splits prod.splits simp: and_then_def)
qed

lemma fill_placeholders:
  assumes "\<And>h. blob_of h \<noteq> []"
  shows "fill_blobs (pre @ map blob_of (hs @ post)) (length pre)
      (replicate (length hs) \<lparr>bd_data = None, bd_calldata = None\<rparr>) =
    Inr (length pre + length hs, map (\<lambda>h. \<lparr>bd_data = Some (blob_of h), bd_calldata = None\<rparr>) hs)"
proof (induction hs arbitrary: pre)
  case (Cons h hs)
  show ?case
    using Cons.IH [of "pre @ [blob_of h]"] assms by (simp add: bd_fill_def nth_append)
qed simp

lemma map_filter_append: "List.map_filter f (xs @ ys) = List.map_filter f xs @ List.map_filter f ys"
  by (simp add: List.map_filter_def)

lemma fill_no_blobs: "fill_blobs [] i ds = Inr (j, fs) \<Longrightarrow> fs = ds"
  by (induction ds arbitrary: i fs) (auto simp: bd_fill_def and_then_def split: if_splits sum.splits)

lemma extract_tx_eq:
  "batcher \<noteq> ADDRESS_ZERO \<Longrightarrow> extract_tx inbox batcher tx =
     (if \<not> sent_by_batcher inbox batcher tx then ([], [])
      else if ltx_variant tx \<noteq> TxEip4844
      then ([\<lparr>bd_data = None, bd_calldata = Some (ltx_input tx)\<rparr>], [])
      else (replicate (length (ltx_blob_hashes tx)) \<lparr>bd_data = None, bd_calldata = None\<rparr>,
            ltx_blob_hashes tx))"
  by (auto simp: extract_tx_def sent_by_batcher_def split: option.splits)

lemma map_filter_map: "List.map_filter f (map g xs) = List.map_filter (\<lambda>x. f (g x)) xs"
  by (simp add: List.map_filter_def filter_map comp_def)

lemma fill_tx:
  assumes blob: "\<And>h. blob_of h \<noteq> []" and "batcher \<noteq> ADDRESS_ZERO"
  shows "\<exists>fs. fill_blobs (pre @ map blob_of (snd (extract_tx inbox batcher tx) @ post)) (length pre)
        (fst (extract_tx inbox batcher tx)) =
      Inr (length pre + length (snd (extract_tx inbox batcher tx)), fs) \<and>
    List.map_filter blob_item fs =
      (if sent_by_batcher inbox batcher tx then posted_data True blob_of tx else [])"
  using fill_placeholders [OF blob, where pre = pre and hs = "ltx_blob_hashes tx" and post = post]
  by (auto simp: extract_tx_eq [OF assms(2)] posted_data_def blob_payload_def bd_fill_def
      map_filter_simps map_filter_map blob_item_def)

lemma fill_extracted:
  fixes inbox batcher :: address
  assumes blob: "\<And>h. blob_of h \<noteq> []" and "batcher \<noteq> ADDRESS_ZERO"
  defines "hashes \<equiv> \<lambda>txs. concat (map (\<lambda>tx. snd (extract_tx inbox batcher tx)) txs)"
  shows "\<exists>fs. fill_blobs (pre @ map blob_of (hashes txs @ post)) (length pre)
        (concat (map (\<lambda>tx. fst (extract_tx inbox batcher tx)) txs)) = Inr (length pre + length (hashes txs), fs) \<and>
      List.map_filter blob_item fs = batcher_data True inbox batcher blob_of txs"
proof (induction txs arbitrary: pre)
  case Nil
  then show ?case by (simp add: hashes_def batcher_data_def map_filter_simps)
next
  case (Cons tx txs)
  let ?h = "snd (extract_tx inbox batcher tx)"
  obtain fs where fs: "fill_blobs (pre @ map blob_of ?h @ map blob_of (hashes txs @ post)) (length pre + length ?h)
        (concat (map (\<lambda>tx. fst (extract_tx inbox batcher tx)) txs)) =
      Inr (length pre + length ?h + length (hashes txs), fs)"
      "List.map_filter blob_item fs = batcher_data True inbox batcher blob_of txs"
    using Cons.IH [of "pre @ map blob_of ?h"] by (auto simp: comp_def)
  obtain f0 where f0: "fill_blobs (pre @ map blob_of (?h @ (hashes txs @ post))) (length pre)
        (fst (extract_tx inbox batcher tx)) = Inr (length pre + length ?h, f0)"
      "List.map_filter blob_item f0 =
        (if sent_by_batcher inbox batcher tx then posted_data True blob_of tx else [])"
    using fill_tx [where blob_of = blob_of, OF blob assms(2)] by blast
  show ?case
    using fs f0
    by (intro exI [of _ "f0 @ fs"])
      (simp add: hashes_def fill_blobs_append map_filter_append batcher_data_def)
qed

lemma bs_remaining_fresh:
  assumes "posts fetch fetch_blobs b txs blob_of" and "\<not> bs_open bs" and "batcher \<noteq> ADDRESS_ZERO"
  shows "bs_remaining fetch fetch_blobs b batcher bs =
    Some (batcher_data True (bs_batcher_address bs) batcher blob_of txs)"
proof -
  let ?hs = "concat (map (\<lambda>tx. snd (extract_tx (bs_batcher_address bs) batcher tx)) txs)"
  obtain i c where 1: "fetch (bi_hash b) (bs_chain_provider bs) = (Inr (i, txs), c)"
    using assms(1) unfolding posts_def by blast
  obtain f where 2: "fetch_blobs b ?hs (bs_blob_fetcher bs) = (Inr (map blob_of ?hs), f)"
    using assms(1) unfolding posts_def by blast
  obtain fs where 3: "fill_blobs (map blob_of ?hs) 0
        (concat (map (\<lambda>tx. fst (extract_tx (bs_batcher_address bs) batcher tx)) txs)) = Inr (length ?hs, fs)"
      "List.map_filter blob_item fs = batcher_data True (bs_batcher_address bs) batcher blob_of txs"
    using fill_extracted [where blob_of = blob_of and inbox = "bs_batcher_address bs" and pre = "[]"
        and post = "[]" and batcher = batcher and txs = txs] assms(1,3)
    by (auto simp: posts_def)
  have data: "fs = concat (map (\<lambda>tx. fst (extract_tx (bs_batcher_address bs) batcher tx)) txs)" if "?hs = []"
    using 3(1) unfolding that list.map(1) by (rule fill_no_blobs)
  show ?thesis
    using assms(2) 1 2 3 data
    by (cases "?hs = []")
      (simp_all add: bs_remaining_def bs_load_blobs_def on_prev_def extract_blob_data_eq del: concat_eq_Nil_conv)
qed

lemma batcher_calldata_eq:
  "batcher_calldata inbox batcher tx = (if sent_by_batcher inbox batcher tx then Some (ltx_input tx) else None)"
  by (auto simp: batcher_calldata_def sent_by_batcher_def split: option.splits)

lemma cs_remaining_fresh:
  assumes "posts fetch fetch_blobs b txs blob_of" and "\<not> cs_open cs"
  shows "cs_remaining fetch b batcher cs =
    Some (batcher_data False (cs_batch_inbox_address cs) batcher blob_of txs)"
proof -
  obtain i c where "fetch (bi_hash b) (cs_chain_provider cs) = (Inr (i, txs), c)"
    using assms(1) unfolding posts_def by blast
  moreover have "List.map_filter (batcher_calldata inbox batcher) txs =
      batcher_data False inbox batcher blob_of txs" for inbox
    by (induction txs)
      (simp_all add: map_filter_simps batcher_data_def posted_data_def batcher_calldata_eq)
  ultimately show ?thesis
    using assms(2) by (simp add: cs_remaining_def cs_load_calldata_def on_prev_def)
qed

text \<open>A source that has not been opened since it was created or cleared, and the inbox it reads.\<close>

definition eds_fresh :: "address \<Rightarrow> ('c, 'b) ethereum_data_source \<Rightarrow> bool" where
  "eds_fresh inbox eds \<longleftrightarrow>
     \<not> bs_open (eds_blob_source eds) \<and> \<not> cs_open (eds_calldata_source eds) \<and>
     bs_batcher_address (eds_blob_source eds) = inbox \<and>
     cs_batch_inbox_address (eds_calldata_source eds) = inbox"

lemma eds_remaining_fresh:
  assumes "posts fetch fetch_blobs b txs blob_of" and "eds_fresh inbox eds" and "batcher \<noteq> ADDRESS_ZERO"
  shows "eds_remaining fetch fetch_blobs b batcher eds =
    Some (batcher_data (ecotone_at eds b) inbox batcher blob_of txs)"
  using assms bs_remaining_fresh [OF assms(1)] cs_remaining_fresh [OF assms(1)]
  by (auto simp: eds_remaining_def eds_fresh_def)

lemma eds_fresh_new: "eds_fresh (rc_batch_inbox_address cfg) (eds_new_from_parts provider blobs cfg)"
  by (simp add: eds_fresh_def eds_new_from_parts_def bs_new_def cs_new_def)

text \<open>Reading does not change which inbox is read, so a cleared source is as good as a new one.\<close>

lemma bs_load_blobs_inbox:
  "bs_batcher_address (snd (bs_load_blobs fetch fb b a bs)) = bs_batcher_address bs"
  by (auto simp: bs_load_blobs_def op_then_def on_prev_def Let_def split: sum.splits prod.splits)

lemma bs_next_inbox: "bs_batcher_address (snd (bs_next fetch fb b a bs)) = bs_batcher_address bs"
proof (induction fetch fb b a bs rule: bs_next.induct)
  case (1 fetch fb b a bs)
  obtain r bs1 where load: "bs_load_blobs fetch fb b a bs = (r, bs1)" by fastforce
  then have "bs_batcher_address bs1 = bs_batcher_address bs" by (metis bs_load_blobs_inbox snd_conv)
  with load "1.IH" [OF load [symmetric]] show ?case
    by (subst bs_next.simps)
      (auto simp: bs_next_data_def split: prod.split sum.split list.split option.split)
qed

lemma cs_next_inbox: "cs_batch_inbox_address (snd (cs_next fetch b a cs)) = cs_batch_inbox_address cs"
  by (auto simp: cs_next_def cs_load_calldata_def op_then_def on_prev_def Let_def
      split: sum.splits prod.splits list.splits)

lemma eds_fresh_clear_next:
  "eds_fresh inbox (eds_clear eds) \<Longrightarrow> eds_fresh inbox (eds_clear (snd (eds_next fetch fb b a eds)))"
  using bs_next_inbox [of fetch fb b a "eds_blob_source eds"] cs_next_inbox [of fetch b a "eds_calldata_source eds"]
  by (auto simp: eds_fresh_def eds_next_def eds_clear_def bs_clear_def cs_clear_def on_prev_def Let_def
      split: prod.splits)

lemma eds_clear_fresh: "eds_fresh inbox eds \<Longrightarrow> eds_fresh inbox (eds_clear eds)"
  by (simp add: eds_fresh_def eds_clear_def bs_clear_def cs_clear_def)

end
