(* ===== verification/Frame_Queue.thy ===== *)
theory Frame_Queue
  imports Pipeline_Types "HOL-Library.Sublist"
begin

text \<open>
  The frame queue stage (\<open>src/crates/consensus/derive/src/stages/frame_queue.rs\<close>): parses the
  data of the L1 retrieval stage into frames and, from Holocene on, prunes frames that cannot
  belong to an in-order channel. The lemmas show that pruning ends, leaves only frames in
  valid order, keeps every frame of a queue that was valid, and gives the contract of
  \<open>next_frame\<close> the channel stages rely on.
\<close>

section \<open>The stage\<close>

record 'p frame_queue =
  fq_prev :: 'p
  fq_queue :: "frame list"
  fq_cfg :: rollup_config

definition fq_new :: "'p \<Rightarrow> rollup_config \<Rightarrow> 'p frame_queue" where
  "fq_new prev cfg = \<lparr>fq_prev = prev, fq_queue = [], fq_cfg = cfg\<rparr>"

text \<open>\<open>iter().position(|f| f.id == id)\<close>; the caller knows such a frame is there.\<close>

fun position_id :: "bytes \<Rightarrow> frame list \<Rightarrow> nat" where
  "position_id cid [] = 0"
| "position_id cid (f # fs) = (if frame_id f = cid then 0 else Suc (position_id cid fs))"

definition remove_at :: "nat \<Rightarrow> 'a list \<Rightarrow> 'a list" where
  "remove_at i xs = take i xs @ drop (Suc i) xs"

lemma length_remove_at [simp]: "i < length xs \<Longrightarrow> length (remove_at i xs) = length xs - 1"
  by (simp add: remove_at_def)

lemma position_id_le: "i < length fs \<Longrightarrow> frame_id (fs ! i) = cid \<Longrightarrow> position_id cid fs \<le> i"
  by (induction fs arbitrary: i) (auto simp: nth_Cons split: nat.splits)

text \<open>
  The loop of \<open>prune\<close>, on a queue that is not empty: on an empty one the source computes \<open>len - 1\<close> below zero and
  panics. \<open>load_frames\<close>, its only caller, has just appended the frames of a transaction, of which there is at
  least one (lemma \<open>parse_frames_nonempty\<close>). \<open>number + 1\<close> is a \<open>u16\<close>.
\<close>

function prune_loop :: "nat \<Rightarrow> frame list \<Rightarrow> frame list" where
  "prune_loop i queue =
     (if i < length queue - 1 then
        let prev_frame = queue ! i; next_frame = queue ! (i + 1);
            extends_channel = (frame_id prev_frame = frame_id next_frame) in
        if extends_channel \<and> frame_number prev_frame + 1 \<noteq> frame_number next_frame
          then prune_loop i (remove_at (i + 1) queue)
        else if extends_channel \<and> frame_is_last prev_frame
          then prune_loop i (remove_at (i + 1) queue)
        else if \<not> extends_channel \<and> frame_number next_frame \<noteq> 0
          then prune_loop i (remove_at (i + 1) queue)
        else if \<not> extends_channel \<and> \<not> frame_is_last prev_frame \<and> frame_number next_frame = 0
          then let first_frame = position_id (frame_id prev_frame) queue in
            prune_loop (i - (i + 1 - first_frame)) (take first_frame queue @ drop (i + 1) queue)
        else prune_loop (i + 1) queue
      else queue)"
  by pat_completeness auto
termination
proof (relation "measures [\<lambda>(i, q). length q, \<lambda>(i, q). length q - i]", goal_cases)
  case (5 i queue prev_frame next_frame ext first_frame)
  then have "first_frame \<le> i" by (simp add: position_id_le)
  with 5(1) have "first_frame + length queue - Suc i < length queue" by linarith
  with 5(1) \<open>first_frame \<le> i\<close> show ?case by simp
qed auto

declare prune_loop.simps [simp del]

definition fq_prune :: "registry \<Rightarrow> block_info \<Rightarrow> 'p frame_queue \<Rightarrow> 'p frame_queue" where
  "fq_prune reg orig fq =
     (if \<not> is_holocene_active reg (fq_cfg fq) (bi_timestamp orig) then fq
      else fq\<lparr>fq_queue := prune_loop 0 (fq_queue fq)\<rparr>)"

definition fq_origin :: "'p stage \<Rightarrow> 'p frame_queue \<Rightarrow> block_info option" where
  "fq_origin prev_stage fq = st_origin prev_stage (fq_prev fq)"

definition fq_load_frames ::
    "registry \<Rightarrow> 'p stage \<Rightarrow> ('p, bytes) op \<Rightarrow> ('p frame_queue, unit) op" where
  "fq_load_frames reg prev_stage next_data fq =
     (if fq_queue fq \<noteq> [] then (Inr (), fq)
      else op_then (on_prev fq_prev (\<lambda>p. fq_prev_update (\<lambda>_. p)) next_data fq) (\<lambda>data fq.
        case parse_frames data of
          Inl _ \<Rightarrow> (Inr (), fq)
        | Inr frames \<Rightarrow>
            let fq = fq\<lparr>fq_queue := fq_queue fq @ frames\<rparr> in
            (case fq_origin prev_stage fq of
               None \<Rightarrow> (Inl (crit MissingOrigin), fq)
             | Some orig \<Rightarrow> (Inr (), fq_prune reg orig fq))))"

definition fq_next_frame ::
    "registry \<Rightarrow> 'p stage \<Rightarrow> ('p, bytes) op \<Rightarrow> ('p frame_queue, frame) op" where
  "fq_next_frame reg prev_stage next_data fq =
     op_then (fq_load_frames reg prev_stage next_data fq) (\<lambda>_ fq.
       case fq_queue fq of
         [] \<Rightarrow> (Inl (temp NotEnoughData), fq)
       | f # fs \<Rightarrow> (Inr f, fq\<lparr>fq_queue := fs\<rparr>))"

text \<open>\<open>reset\<close>, \<open>activate\<close> and \<open>flush_channel\<close> empty the queue once the previous stage succeeded.\<close>

definition fq_after_prev :: "('p, unit) op \<Rightarrow> ('p frame_queue, unit) op" where
  "fq_after_prev f fq =
     op_then (on_prev fq_prev (\<lambda>p. fq_prev_update (\<lambda>_. p)) f fq) (\<lambda>_ fq.
       (Inr (), fq\<lparr>fq_queue := []\<rparr>))"

definition fq_stage :: "'p stage \<Rightarrow> 'p frame_queue stage" where
  "fq_stage prev_stage =
     \<lparr>st_origin = fq_origin prev_stage,
      st_advance_origin =
        on_prev fq_prev (\<lambda>p. fq_prev_update (\<lambda>_. p)) (st_advance_origin prev_stage),
      st_reset = (\<lambda>l1_origin sys. fq_after_prev (st_reset prev_stage l1_origin sys)),
      st_activate = fq_after_prev (st_activate prev_stage),
      st_flush_channel = fq_after_prev (st_flush_channel prev_stage)\<rparr>"

section \<open>Valid order\<close>

text \<open>
  Two neighbours are in order when the second continues the channel of the first, which is
  not closed, or starts a new channel after a closing frame.
\<close>

definition in_order :: "frame \<Rightarrow> frame \<Rightarrow> bool" where
  "in_order a b \<longleftrightarrow>
     (if frame_id a = frame_id b then frame_number a + 1 = frame_number b \<and> \<not> frame_is_last a
      else frame_number b = 0 \<and> frame_is_last a)"

fun frames_in_order :: "frame list \<Rightarrow> bool" where
  "frames_in_order (a # b # fs) \<longleftrightarrow> in_order a b \<and> frames_in_order (b # fs)"
| "frames_in_order fs \<longleftrightarrow> True"

text \<open>The prefix up to position \<open>i\<close> is in order: the invariant of the loop of \<open>prune\<close>.\<close>

definition ordered_upto :: "nat \<Rightarrow> frame list \<Rightarrow> bool" where
  "ordered_upto i q \<longleftrightarrow> (\<forall>j < i. Suc j < length q \<longrightarrow> in_order (q ! j) (q ! Suc j))"

lemma frames_in_order_iff:
  "frames_in_order q \<longleftrightarrow> (\<forall>j. Suc j < length q \<longrightarrow> in_order (q ! j) (q ! Suc j))"
proof (induction q rule: frames_in_order.induct)
  case (1 a b fs)
  show ?case (is "_ \<longleftrightarrow> (\<forall>j. ?P j)")
  proof -
    have "(\<forall>j. ?P j) \<longleftrightarrow> ?P 0 \<and> (\<forall>j. ?P (Suc j))"
      by (metis not0_implies_Suc)
    then show ?thesis using 1 by simp
  qed
qed auto

lemma ordered_upto_all: "\<not> Suc i < length q \<Longrightarrow> ordered_upto i q \<Longrightarrow> frames_in_order q"
  by (auto simp: ordered_upto_def frames_in_order_iff)

lemma ordered_upto_remove:
  assumes "ordered_upto i q" "Suc i < length q"
  shows "ordered_upto i (remove_at (Suc i) q)"
  using assms by (auto simp: ordered_upto_def remove_at_def nth_append)

lemma ordered_upto_drain:
  assumes "ordered_upto i q" "p \<le> i" "Suc i < length q"
  shows "ordered_upto (p - 1) (take p q @ drop (Suc i) q)"
  using assms by (auto simp: ordered_upto_def nth_append)

lemma ordered_upto_Suc:
  "ordered_upto i q \<Longrightarrow> in_order (q ! i) (q ! Suc i) \<Longrightarrow> ordered_upto (Suc i) q"
  by (auto simp: ordered_upto_def less_Suc_eq)

text \<open>One round of the loop, and the induction over its rounds.\<close>

lemma prune_loop_done: "\<not> Suc i < length q \<Longrightarrow> prune_loop i q = q"
  by (subst prune_loop.simps) auto

lemma prune_loop_round:
  assumes "Suc i < length q"
  shows "prune_loop i q =
    (if in_order (q ! i) (q ! Suc i) then prune_loop (Suc i) q
     else if frame_id (q ! i) \<noteq> frame_id (q ! Suc i) \<and> frame_number (q ! Suc i) = 0
     then let p = position_id (frame_id (q ! i)) q in
       prune_loop (i - (Suc i - p)) (take p q @ drop (Suc i) q)
     else prune_loop i (remove_at (Suc i) q))"
proof -
  from assms have "i < length q - 1" by simp
  then show ?thesis
    by (subst prune_loop.simps)
      (cases "frame_id (q ! i) = frame_id (q ! Suc i)"; simp add: Let_def in_order_def)
qed

lemma prune_loop_invariant [case_names finish keep remove drain]:
  assumes finish: "\<And>i q. \<not> Suc i < length q \<Longrightarrow> P i q q"
    and keep: "\<And>i q r. \<lbrakk>Suc i < length q; in_order (q ! i) (q ! Suc i); P (Suc i) q r\<rbrakk> \<Longrightarrow> P i q r"
    and remove: "\<And>i q r. \<lbrakk>Suc i < length q; \<not> in_order (q ! i) (q ! Suc i);
      \<not> (frame_id (q ! i) \<noteq> frame_id (q ! Suc i) \<and> frame_number (q ! Suc i) = 0);
      P i (remove_at (Suc i) q) r\<rbrakk> \<Longrightarrow> P i q r"
    and drain: "\<And>i q r p. \<lbrakk>Suc i < length q; \<not> in_order (q ! i) (q ! Suc i);
      frame_id (q ! i) \<noteq> frame_id (q ! Suc i); frame_number (q ! Suc i) = 0;
      p = position_id (frame_id (q ! i)) q; p \<le> i;
      P (p - 1) (take p q @ drop (Suc i) q) r\<rbrakk> \<Longrightarrow> P i q r"
  shows "P i q (prune_loop i q)"
proof (induction "(i, q)" arbitrary: i q
    rule: wf_induct_rule [OF wf_measures [of "[\<lambda>(i, q). length q, \<lambda>(i, q). length q - i]"]])
  case (1 i q)
  show ?case
  proof (cases "Suc i < length q")
    case True
    let ?p = "position_id (frame_id (q ! i)) q"
    have p: "?p \<le> i" using True by (intro position_id_le) auto
    have "P (Suc i) q (prune_loop (Suc i) q)"
      using 1 [of "Suc i" q] True by simp
    moreover have "P i (remove_at (Suc i) q) (prune_loop i (remove_at (Suc i) q))"
      by (rule 1) (use True in auto)
    moreover have "P (?p - 1) (take ?p q @ drop (Suc i) q)
        (prune_loop (?p - 1) (take ?p q @ drop (Suc i) q))"
      by (rule 1) (use True p in \<open>simp, linarith\<close>)
    ultimately show ?thesis
      using True p by (auto simp: prune_loop_round Let_def intro: keep remove drain [OF True _ _ _ refl p])
  qed (simp add: prune_loop_done finish)
qed

lemma prune_loop_ordered: "ordered_upto i q \<Longrightarrow> frames_in_order (prune_loop i q)"
  by (rule prune_loop_invariant [of "\<lambda>i q r. ordered_upto i q \<longrightarrow> frames_in_order r", rule_format])
    (auto intro: ordered_upto_all [of _ i for i] ordered_upto_Suc ordered_upto_remove
      dest: ordered_upto_drain)

lemma subseq_drain: "p \<le> n \<Longrightarrow> subseq (take p q @ drop n q) q"
proof -
  assume "p \<le> n"
  then have "subseq (drop n q) (drop p q)"
    by (metis add.commute drop_drop le_Suc_ex sublist_drop sublist_imp_subseq)
  then have "subseq (take p q @ drop n q) (take p q @ drop p q)"
    by (intro list_emb_append_mono subseq_order.order_refl)
  then show ?thesis by simp
qed

lemma prune_loop_subseq: "subseq (prune_loop i q) q"
  by (rule prune_loop_invariant [of "\<lambda>i q r. subseq r q"])
    (auto simp: remove_at_def intro: subseq_order.order_trans [OF _ subseq_drain])

lemma prune_loop_nonempty: "q \<noteq> [] \<Longrightarrow> prune_loop i q \<noteq> []"
  by (rule prune_loop_invariant [of "\<lambda>i q r. q \<noteq> [] \<longrightarrow> r \<noteq> []", rule_format])
    (auto simp: remove_at_def)

lemma prune_loop_valid: "frames_in_order q \<Longrightarrow> prune_loop i q = q"
  by (rule prune_loop_invariant [of "\<lambda>i q r. frames_in_order q \<longrightarrow> r = q", rule_format])
    (auto simp: frames_in_order_iff)

text \<open>
  Pruning as a rule for one arriving frame: it is appended when it continues the queue in order; when it starts a
  new channel while the last one is unfinished, it replaces the frames of that channel; otherwise it is
  dropped. \<open>starts_once\<close>: no channel id is used for a second channel in the queue, where the first frame and every frame
  numbered 0 may start a channel.
\<close>

definition accept_frame :: "frame list \<Rightarrow> frame \<Rightarrow> frame list" where
  "accept_frame kept f =
     (if kept = [] \<or> in_order (last kept) f then kept @ [f]
      else if frame_id (last kept) \<noteq> frame_id f \<and> frame_number f = 0
      then rev (dropWhile (\<lambda>g. frame_id g = frame_id (last kept)) (rev kept)) @ [f]
      else kept)"

fun starts_once :: "frame list \<Rightarrow> bool" where
  "starts_once [] \<longleftrightarrow> True"
| "starts_once (f # fs) \<longleftrightarrow> distinct (map frame_id (f # filter (\<lambda>g. frame_number g = 0) fs))"

lemma position_id_found: "i < length fs \<Longrightarrow> frame_id (fs ! i) = cid \<Longrightarrow> frame_id (fs ! position_id cid fs) = cid"
  by (induction fs arbitrary: i) (auto simp: nth_Cons split: nat.splits)

lemma position_id_before: "j < position_id cid fs \<Longrightarrow> frame_id (fs ! j) \<noteq> cid"
  by (induction fs arbitrary: j) (auto simp: nth_Cons split: nat.splits if_splits)

lemma last_change:
  "P a \<noteq> P b \<Longrightarrow> a < b \<Longrightarrow> \<exists>k. a \<le> k \<and> k < b \<and> P k \<noteq> P b \<and> P (Suc k) = P b" for P :: "nat \<Rightarrow> 'a"
proof (induction "b - a" arbitrary: a)
  case (Suc n)
  show ?case
  proof (cases "P (Suc a) = P b")
    case True
    then show ?thesis using Suc.prems by blast
  next
    case False
    then have "Suc a < b" using Suc.prems by (metis Suc_lessI)
    then show ?thesis using Suc.hyps(1) [of "Suc a"] Suc.hyps(2) False by (metis Suc_diff_Suc Suc_inject Suc_leD Suc.prems(2))
  qed
qed simp

lemma parse_frames_nonempty: "parse_frames data = Inr fs \<Longrightarrow> fs \<noteq> []"
  by (auto simp: parse_frames_def and_then_Inr_iff Let_def split: if_splits)

lemma distinct_subseq: "subseq xs ys \<Longrightarrow> distinct ys \<Longrightarrow> distinct xs"
  by (induction rule: list_emb.induct) (auto dest: list_emb_set)

lemma starts_once_subseq: "subseq fs' fs \<Longrightarrow> starts_once (f # fs) \<Longrightarrow> starts_once (f # fs')"
proof -
  let ?ids = "\<lambda>fs. map frame_id (f # filter (\<lambda>g. frame_number g = 0) fs)"
  assume "subseq fs' fs" "starts_once (f # fs)"
  then have "subseq (?ids fs') (?ids fs)" "distinct (?ids fs)"
    by (auto intro!: subseq_map subseq_filter simp del: list.map)
  then show ?thesis using distinct_subseq [of "?ids fs'" "?ids fs"] by simp
qed

lemma starts_once_drop:
  assumes "starts_once q" "drop k q = f # fs" "frame_number f = 0"
  shows "starts_once (f # fs)"
proof (cases k)
  case 0
  then show ?thesis using assms by simp
next
  case (Suc n)
  then obtain x xs where q: "q = x # xs" "xs = take n xs @ f # fs"
    using assms(2) by (cases q) (auto, metis append_take_drop_id)
  have "distinct (map frame_id (filter (\<lambda>g. frame_number g = 0) xs))" using assms(1) q(1) by simp
  then have "distinct (map frame_id (filter (\<lambda>g. frame_number g = 0) (f # fs)))"
    by (subst (asm) q(2)) simp
  then show ?thesis using assms(3) by simp
qed

lemma starts_once_differ:
  assumes "starts_once q" and "j < k" "k < length q" and "j = 0 \<or> frame_number (q ! j) = 0" and "frame_number (q ! k) = 0"
  shows "frame_id (q ! j) \<noteq> frame_id (q ! k)"
proof -
  obtain fs where d: "drop j q = q ! j # fs" "fs = drop (Suc j) q"
    using assms(2,3) by (simp add: Cons_nth_drop_Suc)
  have "starts_once (q ! j # fs)"
    using assms(1,4) d starts_once_drop [of q j "q ! j" fs] by (cases "j = 0") auto
  moreover have "q ! k \<in> set fs"
    using assms(2,3) unfolding d(2) by (auto simp: in_set_conv_nth intro!: exI [of _ "k - Suc j"])
  ultimately show ?thesis using assms(5) by auto
qed

text \<open>In an ordered prefix of such a queue the frames of the last channel are one run at its end.\<close>

lemma last_run:
  assumes "ordered_upto i q" and "Suc i < length q" and "starts_once q" and "p = position_id (frame_id (q ! i)) q"
  shows "p \<le> j \<Longrightarrow> j \<le> i \<Longrightarrow> frame_id (q ! j) = frame_id (q ! i)"
proof -
  have pi: "p \<le> i" using assms(2,4) by (simp add: position_id_le)
  have at_p: "frame_id (q ! p) = frame_id (q ! i)"
    using assms(2,4) position_id_found [of i q "frame_id (q ! i)"] by simp
  have before: "frame_id (q ! j) \<noteq> frame_id (q ! i)" if "j < p" for j
    using that assms(4) position_id_before by metis
  have start: "p = 0 \<or> frame_number (q ! p) = 0"
  proof (cases p)
    case (Suc k)
    then have "in_order (q ! k) (q ! p)" "frame_id (q ! k) \<noteq> frame_id (q ! p)"
      using assms(1,2) pi at_p before [of k] by (auto simp: ordered_upto_def)
    then show ?thesis by (simp add: in_order_def)
  qed simp
  show "frame_id (q ! j) = frame_id (q ! i)" if "p \<le> j" "j \<le> i" for j
    using that
  proof (induction j rule: dec_induct)
    case base
    show ?case by (rule at_p)
  next
    case (step j)
    then have o: "in_order (q ! j) (q ! Suc j)" using assms(1,2) by (simp add: ordered_upto_def)
    show ?case
    proof (rule ccontr)
      assume ne: "frame_id (q ! Suc j) \<noteq> frame_id (q ! i)"
      then have "Suc j < i" using step.prems by (cases "Suc j = i") auto
      have "\<exists>k. Suc j \<le> k \<and> k < i \<and> frame_id (q ! k) \<noteq> frame_id (q ! i) \<and> frame_id (q ! Suc k) = frame_id (q ! i)"
        using ne \<open>Suc j < i\<close> by (rule last_change)
      then obtain k where k: "Suc j \<le> k" "k < i" "frame_id (q ! k) \<noteq> frame_id (q ! i)" "frame_id (q ! Suc k) = frame_id (q ! i)"
        by blast
      then have "in_order (q ! k) (q ! Suc k)" using assms(1,2) by (simp add: ordered_upto_def)
      then have "frame_number (q ! Suc k) = 0" using k by (simp add: in_order_def)
      then show False
        using starts_once_differ [OF assms(3), of p "Suc k"] start at_p k assms(2) step.hyps by simp
    qed
  qed
qed

lemma start_differs:
  assumes "ordered_upto i q" and "starts_once q" and "k \<le> i" and "Suc i < length q" and "frame_number (q ! Suc i) = 0"
  shows "frame_id (q ! k) \<noteq> frame_id (q ! Suc i)"
proof -
  have "ordered_upto k q" using assms(1,3) by (simp add: ordered_upto_def)
  obtain p where p: "p = position_id (frame_id (q ! k)) q" by blast
  then have "p \<le> k" using assms(3,4) by (simp add: position_id_le)
  have at_p: "frame_id (q ! p) = frame_id (q ! k)"
    using assms(3,4) p position_id_found [of k q "frame_id (q ! k)"] by simp
  have "p = 0 \<or> frame_number (q ! p) = 0"
  proof (cases p)
    case (Suc j)
    then have "in_order (q ! j) (q ! p)" "frame_id (q ! j) \<noteq> frame_id (q ! p)"
      using assms(1,3,4) \<open>p \<le> k\<close> at_p position_id_before [of j "frame_id (q ! k)" q] p by (auto simp: ordered_upto_def)
    then show ?thesis by (simp add: in_order_def)
  qed simp
  then show ?thesis using starts_once_differ [OF assms(2), of p "Suc i"] at_p \<open>p \<le> k\<close> assms(3,4,5) by simp
qed

lemma drop_last_run:
  assumes "\<And>g. g \<in> set ys \<Longrightarrow> P g" and "xs = [] \<or> \<not> P (last xs)"
  shows "rev (dropWhile P (rev (xs @ ys))) = xs"
proof -
  have "dropWhile P (rev (xs @ ys)) = dropWhile P (rev xs)"
    unfolding rev_append by (rule dropWhile_append2) (use assms(1) in simp)
  also have "dropWhile P (rev xs) = rev xs"
    using assms(2) by (cases xs rule: rev_cases) auto
  finally show ?thesis by simp
qed

lemma prune_loop_reference:
  assumes "Suc i \<le> length q" and "ordered_upto i q" and "starts_once q"
  shows "prune_loop i q = foldl accept_frame (take (Suc i) q) (drop (Suc i) q)"
proof (rule prune_loop_invariant [of "\<lambda>i q r. Suc i \<le> length q \<longrightarrow> ordered_upto i q \<longrightarrow> starts_once q \<longrightarrow>
    r = foldl accept_frame (take (Suc i) q) (drop (Suc i) q)", rule_format], goal_cases)
  case (2 i q r)
  then show ?case
    by (simp add: ordered_upto_Suc Cons_nth_drop_Suc [symmetric] take_Suc_conv_app_nth accept_frame_def)
next
  case (3 i q r)
  have once: "starts_once (remove_at (Suc i) q)"
  proof (cases q)
    case (Cons x xs)
    then show ?thesis using 3(7) starts_once_subseq [of "remove_at i xs" xs x] subseq_drain [of i "Suc i" xs]
      by (simp add: remove_at_def)
  qed (use 3 in simp)
  have d: "drop (Suc i) q = q ! Suc i # drop (Suc (Suc i)) q" using 3(1) by (simp add: Cons_nth_drop_Suc)
  have "last (take (Suc i) q) = q ! i" "take (Suc i) q \<noteq> []"
    using 3(1) by (auto simp: take_Suc_conv_app_nth)
  then have acc: "accept_frame (take (Suc i) q) (q ! Suc i) = take (Suc i) q"
    using 3(2,3) by (simp only: accept_frame_def if_False simp_thms)
  have r: "r = foldl accept_frame (take (Suc i) (remove_at (Suc i) q)) (drop (Suc i) (remove_at (Suc i) q))"
    by (rule 3(4)) (use 3(1) ordered_upto_remove [OF 3(6,1)] once in auto)
  have "take (Suc i) (remove_at (Suc i) q) = take (Suc i) q" "drop (Suc i) (remove_at (Suc i) q) = drop (Suc (Suc i)) q"
    using 3(1) by (simp_all add: remove_at_def)
  then show ?case unfolding r d by (simp add: acc)
next
  case (4 i q r p)
  note run = last_run [OF 4(9) 4(1) 4(10) 4(5)]
  let ?f = "q ! Suc i" and ?q = "take p q @ drop (Suc i) q"
  have d: "drop (Suc i) q = ?f # drop (Suc (Suc i)) q" using 4(1) by (simp add: Cons_nth_drop_Suc)
  have kept: "take (Suc i) q \<noteq> []" "last (take (Suc i) q) = q ! i" using 4(1) by (auto simp: take_Suc_conv_app_nth)
  have split: "take (Suc i) q = take p q @ slice p (Suc i) q"
    using 4(6) by (simp add: slice_def flip: take_add)
  have mid: "frame_id g = frame_id (q ! i)" if g: "g \<in> set (slice p (Suc i) q)" for g
  proof -
    obtain k where "k < Suc i - p" "g = q ! (p + k)"
      using g 4(1) by (auto simp: in_set_conv_nth nth_slice)
    then show ?thesis using run [of "p + k"] by simp
  qed
  have front: "take p q = [] \<or> frame_id (last (take p q)) \<noteq> frame_id (q ! i)"
  proof (cases p)
    case (Suc k)
    have "frame_id (q ! k) \<noteq> frame_id (q ! i)"
      by (rule position_id_before) (use 4(5) Suc in simp)
    moreover have "last (take p q) = q ! k" using 4(1,6) Suc by (simp add: take_Suc_conv_app_nth)
    ultimately show ?thesis by simp
  qed simp
  have trail: "rev (dropWhile (\<lambda>g. frame_id g = frame_id (q ! i)) (rev (take (Suc i) q))) = take p q"
    unfolding split by (rule drop_last_run) (use mid front in auto)
  have acc: "accept_frame (take (Suc i) q) ?f = take p q @ [?f]"
    using kept trail 4(2,3,4) by (simp add: accept_frame_def)
  show ?case
  proof (cases p)
    case 0
    have "starts_once ?q" using starts_once_drop [OF 4(10) d 4(4)] d 0 by simp
    then show ?thesis using 4(7) 4(8) acc d 0 by (simp add: ordered_upto_def)
  next
    case (Suc k)
    obtain x xs where q: "q = x # xs" using 4(1) by (cases q) auto
    have "starts_once ?q"
      using 4(10) starts_once_subseq [OF subseq_drain [of k i xs], of x] 4(6) by (simp add: q Suc)
    moreover have "ordered_upto k ?q" using ordered_upto_drain [OF 4(9,6,1)] Suc by simp
    moreover have "Suc k \<le> length ?q" using 4(1,6) Suc by simp
    ultimately have r: "r = foldl accept_frame (take p q) (drop (Suc i) q)"
      using 4(7) 4(1,6) by (simp add: Suc)
    have "in_order (q ! k) (q ! p)" "frame_id (q ! k) \<noteq> frame_id (q ! p)"
      using 4(9) 4(1,6) Suc run [of p] position_id_before [of k "frame_id (q ! i)" q] 4(5) [symmetric]
      by (auto simp: ordered_upto_def)
    then have closed: "frame_is_last (q ! k)" by (simp add: in_order_def)
    moreover have "frame_id (q ! k) \<noteq> frame_id ?f" by (rule start_differs [OF 4(9) 4(10) _ 4(1) 4(4)]) (use 4(6) Suc in simp)
    ultimately have "in_order (last (take p q)) ?f"
      using 4(1,4,6) Suc by (simp add: in_order_def take_Suc_conv_app_nth)
    then have "accept_frame (take p q) ?f = take p q @ [?f]" by (simp add: accept_frame_def)
    then show ?thesis using r acc d by simp
  qed
qed (use assms in simp_all)

text \<open>
  C27. Pruning a queue that is not empty leaves a subsequence of its frames that is not empty and in valid order:
  neighbours of one channel are consecutive and the first of them does not close it, and a new
  channel starts with frame 0 after a closing frame. A queue already in valid order, and only such
  a queue, is left as it is. When no channel id is used for a second channel in the queue, the result is
  exactly what taking in the frames one by one gives: a frame that continues the queue is kept, a frame
  that starts a new channel replaces the unfinished channel before it and nothing else, and any
  other frame is dropped.
\<close>

theorem prune_in_order:
  fixes fq :: "'p frame_queue" and reg orig
  defines "q \<equiv> fq_queue fq" and "q' \<equiv> fq_queue (fq_prune reg orig fq)"
  assumes "is_holocene_active reg (fq_cfg fq) (bi_timestamp orig)" and "q \<noteq> []"
  shows "frames_in_order q' \<and> subseq q' q \<and> q' \<noteq> [] \<and> (fq_prune reg orig fq = fq \<longleftrightarrow> frames_in_order q) \<and>
    (starts_once q \<longrightarrow> q' = foldl accept_frame [] q)"
proof -
  have q': "q' = prune_loop 0 q" using assms(3) by (simp add: q'_def q_def fq_prune_def)
  have ord: "frames_in_order q'" unfolding q' by (rule prune_loop_ordered) (simp add: ordered_upto_def)
  have "fq\<lparr>fq_queue := prune_loop 0 q\<rparr> = fq \<longleftrightarrow> frames_in_order q"
    using ord prune_loop_valid [of q 0] unfolding q' q_def by (cases fq) auto
  moreover have "prune_loop 0 q = foldl accept_frame [] q" if "starts_once q"
    using prune_loop_reference [of 0 q] assms(4) that by (cases q) (auto simp: ordered_upto_def accept_frame_def)
  ultimately show ?thesis
    using assms(3,4) ord prune_loop_subseq [of 0 q] prune_loop_nonempty [of q 0]
    by (simp add: q' fq_prune_def q_def)
qed

theorem prune_in_order_witness:
  fixes fr cfg
  defines "fr \<equiv> \<lambda>c n l. \<lparr>frame_id = replicate 16 c, frame_number = n, frame_data = [],
      frame_is_last = l\<rparr>"
    and "cfg \<equiv> rollup_config_default\<lparr>rc_upgrades := upgrade_config_default\<lparr>uc_holocene_time := Some 0\<rparr>\<rparr>"
  shows "is_holocene_active Map.empty cfg 5 \<and>
    fq_queue (fq_prune Map.empty (block_info_new [] 0 [] 5) \<lparr>fq_prev = (),
      fq_queue = [fr 7 0 False, fr 7 2 True, fr 8 0 False, fr 8 1 True, fr 9 3 False], fq_cfg = cfg\<rparr>)
      = [fr 8 0 False, fr 8 1 True] \<and> frames_in_order [fr 8 0 False, fr 8 1 True]"
proof -
  let ?fq = "\<lparr>fq_prev = (), fq_queue = [fr 7 0 False, fr 7 2 True, fr 8 0 False, fr 8 1 True, fr 9 3 False],
    fq_cfg = cfg\<rparr>"
  have 1: "is_holocene_active Map.empty (fq_cfg ?fq) (bi_timestamp (block_info_new [] 0 [] 5))"
    by (simp add: cfg_def is_holocene_active_def fork_defs block_info_new_def)
  have 2: "foldl accept_frame [] (fq_queue ?fq) = [fr 8 0 False, fr 8 1 True]" "starts_once (fq_queue ?fq)"
    by (simp_all add: accept_frame_def in_order_def fr_def)
  have 3: "fq_queue ?fq \<noteq> []" by simp
  have "fq_queue (fq_prune Map.empty (block_info_new [] 0 [] 5) ?fq) = foldl accept_frame [] (fq_queue ?fq)"
    "frames_in_order (fq_queue (fq_prune Map.empty (block_info_new [] 0 [] 5) ?fq))"
    using prune_in_order [OF 1 3] 2(2) by blast+
  then show ?thesis using 1 unfolding 2(1) by (simp add: block_info_new_def)
qed

text \<open>
  The drain of \<open>prune\<close> starts at the first frame with the id of the unfinished channel. When
  that id was used before in the queue, the drain takes everything since with it: here two
  completed channels are dropped because the id of the first one is used again.
\<close>

lemma prune_drops_completed_channels:
  fixes fr
  defines "fr \<equiv> \<lambda>c l. \<lparr>frame_id = replicate 16 c, frame_number = 0, frame_data = [],
    frame_is_last = l\<rparr>"
  shows "prune_loop 0 [fr 1 True, fr 2 True, fr 1 False, fr 3 True] = [fr 3 True]"
  by (simp add: prune_loop.simps fr_def Let_def)

section \<open>Delivery\<close>

lemma next_frame_pending:
  "fq_queue fq = f # fs \<Longrightarrow> fq_next_frame reg prev_stage next_data fq = (Inr f, fq\<lparr>fq_queue := fs\<rparr>)"
  by (simp add: fq_next_frame_def fq_load_frames_def)

interpretation fqp: frame_provider "fq_next_frame reg prev_stage next_data" "fq_origin prev_stage"
  fq_queue for reg prev_stage next_data
  by unfold_locales (auto simp: next_frame_pending fq_origin_def)

lemma next_frame_pending_all:
  "op_repeat (length (fq_queue fq)) (fq_next_frame reg prev_stage next_data) fq =
     (map Inr (fq_queue fq), fq\<lparr>fq_queue := []\<rparr>)"
proof (induction "fq_queue fq" arbitrary: fq)
  case (Cons f fs)
  have "length (fq_queue fq) = Suc (length fs)" using Cons.hyps(2) by (metis length_Cons)
  then show ?case
    using Cons.hyps(1) [of "fq\<lparr>fq_queue := fs\<rparr>"] Cons.hyps(2) [symmetric]
    by (simp add: next_frame_pending)
qed simp

text \<open>
  The frame queue delivers what was packed: when the previous stage yields the packing of
  frames that are in valid order, successive calls of \<open>next_frame\<close> on an empty queue return
  these frames one by one, before and after Holocene, and leave the queue empty again.
\<close>

theorem next_frame_delivers:
  assumes "fq_queue fq = []" and "list_all frame_wf fs" and "fs \<noteq> []" and "frames_in_order fs"
    and "next_data (fq_prev fq) = (Inr (DERIVATION_VERSION_0 # concat (map frame_encode fs)), p)"
    and "st_origin prev_stage p = Some orig"
  shows "op_repeat (length fs) (fq_next_frame reg prev_stage next_data) fq =
    (map Inr fs, fq\<lparr>fq_prev := p\<rparr>)"
proof -
  have parse: "parse_frames (DERIVATION_VERSION_0 # concat (map frame_encode fs)) = Inr fs"
    using parse_loop_encode [OF assms(2), of "[]" "[]"] assms(3) by (simp add: parse_frames_def)
  have "fq_prune reg orig (fq\<lparr>fq_prev := p, fq_queue := fs\<rparr>) = fq\<lparr>fq_prev := p, fq_queue := fs\<rparr>"
    using prune_loop_valid [OF assms(4)] by (simp add: fq_prune_def)
  then have load: "fq_load_frames reg prev_stage next_data fq = (Inr (), fq\<lparr>fq_prev := p, fq_queue := fs\<rparr>)"
    using assms parse by (simp add: fq_load_frames_def on_prev_def fq_origin_def)
  obtain f fs' where fs: "fs = f # fs'" using assms(3) by (cases fs) auto
  have "fq_next_frame reg prev_stage next_data fq = (Inr f, fq\<lparr>fq_prev := p, fq_queue := fs'\<rparr>)"
    using load by (simp add: fq_next_frame_def fs)
  moreover have "fq\<lparr>fq_prev := p, fq_queue := []\<rparr> = fq\<lparr>fq_prev := p\<rparr>" using assms(1) by (cases fq) simp
  ultimately show ?thesis
    using next_frame_pending_all [where fq = "fq\<lparr>fq_prev := p, fq_queue := fs'\<rparr>" and reg = reg
        and prev_stage = prev_stage and next_data = next_data]
    by (simp add: fs)
qed

theorem next_frame_delivers_witness:
  fixes fr fs st
  defines "fr \<equiv> \<lambda>n l. \<lparr>frame_id = replicate 16 7, frame_number = n, frame_data = [1], frame_is_last = l\<rparr>"
    and "fs \<equiv> [fr 0 False, fr 1 True]"
    and "st \<equiv> fixed_stage block_info_default"
  shows "op_repeat (length fs) (fq_next_frame Map.empty st
      (Pair (Inr (DERIVATION_VERSION_0 # concat (map frame_encode fs))))) (fq_new () rollup_config_default) =
    ([Inr (fr 0 False), Inr (fr 1 True)], fq_new () rollup_config_default)"
  using next_frame_delivers [of "fq_new () rollup_config_default" fs
      "Pair (Inr (DERIVATION_VERSION_0 # concat (map frame_encode fs)))" "()" st block_info_default Map.empty]
  by (simp add: fq_new_def fs_def fr_def st_def fixed_stage_def frame_wf_def FRAME_MAX_LEN_def in_order_def)

end
