(* ===== verification/L1_Retrieval.thy ===== *)
theory L1_Retrieval
  imports L1_Traversal Data_Sources Frame_Queue
begin

text \<open>
  The L1 retrieval stage (\<open>src/crates/consensus/derive/src/stages/l1_retrieval.rs\<close>): asks the
  traversal stage for the next L1 block and a data source for the batcher data in it. The
  lemmas show that the data of each block is delivered once, in order, followed by \<open>Eof\<close>.
\<close>

section \<open>The stage\<close>

record ('d, 'p) l1_retrieval =
  lr_prev :: 'p
  lr_provider :: 'd
  lr_da_batcher_sender_override :: "address option"
  lr_next :: "block_info option"

definition lr_new :: "'p \<Rightarrow> 'd \<Rightarrow> ('d, 'p) l1_retrieval" where
  "lr_new prev provider =
     \<lparr>lr_prev = prev, lr_provider = provider, lr_da_batcher_sender_override = None, lr_next = None\<rparr>"

definition lr_with_da_batcher_sender_override ::
    "address option \<Rightarrow> ('d, 'p) l1_retrieval \<Rightarrow> ('d, 'p) l1_retrieval" where
  "lr_with_da_batcher_sender_override a lr = lr\<lparr>lr_da_batcher_sender_override := a\<rparr>"

text \<open>The operations of the previous stage (\<open>L1RetrievalProvider\<close>) and of the source.\<close>

record 'p l1_retrieval_provider =
  lrp_next_l1_block :: "('p, block_info option) op"
  lrp_batcher_addr :: "'p \<Rightarrow> address"

record 'd da_provider =
  dap_next :: "block_info \<Rightarrow> address \<Rightarrow> ('d, bytes) op"
  dap_clear :: "'d \<Rightarrow> 'd"

abbreviation lr_on_prev :: "('p, 'a) op \<Rightarrow> (('d, 'p) l1_retrieval, 'a) op" where
  "lr_on_prev \<equiv> on_prev lr_prev (\<lambda>p. lr_prev_update (\<lambda>_. p))"

definition lr_batcher :: "'p l1_retrieval_provider \<Rightarrow> ('d, 'p) l1_retrieval \<Rightarrow> address" where
  "lr_batcher lrp lr =
     (case lr_da_batcher_sender_override lr of
        None \<Rightarrow> lrp_batcher_addr lrp (lr_prev lr) | Some a \<Rightarrow> a)"

definition lr_read ::
    "'p l1_retrieval_provider \<Rightarrow> 'd da_provider \<Rightarrow> block_info \<Rightarrow> (('d, 'p) l1_retrieval, bytes) op" where
  "lr_read lrp dap b lr =
     (case dap_next dap b (lr_batcher lrp lr) (lr_provider lr) of
        (Inr data, d) \<Rightarrow> (Inr data, lr\<lparr>lr_provider := d\<rparr>)
      | (Inl e, d) \<Rightarrow>
          if e = Temporary Eof then (Inl e, lr\<lparr>lr_next := None, lr_provider := dap_clear dap d\<rparr>)
          else (Inl e, lr\<lparr>lr_provider := d\<rparr>))"

definition lr_next_data ::
    "'p l1_retrieval_provider \<Rightarrow> 'd da_provider \<Rightarrow> (('d, 'p) l1_retrieval, bytes) op" where
  "lr_next_data lrp dap lr =
     (case lr_next lr of
        Some b \<Rightarrow> lr_read lrp dap b lr
      | None \<Rightarrow>
          op_then (lr_on_prev (lrp_next_l1_block lrp) lr) (\<lambda>nb lr.
            case nb of
              None \<Rightarrow> (Inl (temp MissingL1Data), lr)
            | Some b \<Rightarrow> lr_read lrp dap b (lr\<lparr>lr_next := Some b\<rparr>)))"

definition lr_after_prev ::
    "'p stage \<Rightarrow> 'd da_provider \<Rightarrow> ('p, unit) op \<Rightarrow> (('d, 'p) l1_retrieval, unit) op" where
  "lr_after_prev prev_stage dap f lr =
     op_then (lr_on_prev f lr) (\<lambda>_ lr.
       (Inr (), lr\<lparr>lr_provider := dap_clear dap (lr_provider lr),
                   lr_next := st_origin prev_stage (lr_prev lr)\<rparr>))"

definition lr_stage :: "'p stage \<Rightarrow> 'd da_provider \<Rightarrow> ('d, 'p) l1_retrieval stage" where
  "lr_stage prev_stage dap =
     \<lparr>st_origin = (\<lambda>lr. st_origin prev_stage (lr_prev lr)),
      st_advance_origin = lr_on_prev (st_advance_origin prev_stage),
      st_reset = (\<lambda>l1_origin sys. lr_after_prev prev_stage dap (st_reset prev_stage l1_origin sys)),
      st_activate = lr_after_prev prev_stage dap (st_activate prev_stage),
      st_flush_channel = lr_on_prev (st_flush_channel prev_stage)\<rparr>"

definition traversal_provider :: "'s polling_traversal l1_retrieval_provider" where
  "traversal_provider =
     \<lparr>lrp_next_l1_block = pt_next_l1_block, lrp_batcher_addr = pt_batcher_addr\<rparr>"

definition ethereum_source ::
    "'c fetch_txs \<Rightarrow> 'b fetch_blobs \<Rightarrow> ('c, 'b) ethereum_data_source da_provider" where
  "ethereum_source fetch fetch_blobs = \<lparr>dap_next = eds_next fetch fetch_blobs, dap_clear = eds_clear\<rparr>"

section \<open>Delivery\<close>

lemma lr_batcher_update [simp]:
  "lr_batcher lrp (lr\<lparr>lr_provider := d\<rparr>) = lr_batcher lrp lr"
  "lr_batcher lrp (lr\<lparr>lr_next := b\<rparr>) = lr_batcher lrp lr"
  by (simp_all add: lr_batcher_def split: option.split)

context data_source begin

lemma read_all:
  assumes "lr_next lr = Some b" and "remaining b (lr_batcher lrp lr) (lr_provider lr) = Some xs"
    and "dap_next dap = fetch_next"
    and inv: "\<And>d. I d \<Longrightarrow> I (snd (fetch_next b (lr_batcher lrp lr) d))" and "I (lr_provider lr)"
  shows "\<exists>d. op_repeat (Suc (length xs)) (lr_next_data lrp dap) lr =
      (map Inr xs @ [Inl (temp Eof)], lr\<lparr>lr_next := None, lr_provider := dap_clear dap d\<rparr>) \<and> I d"
  using assms(1,2) inv assms(5)
proof (induction xs arbitrary: lr)
  case Nil
  obtain d where "fetch_next b (lr_batcher lrp lr) (lr_provider lr) = (Inl (temp Eof), d)"
    using next_end [OF Nil(2)] by blast
  then show ?case
    using Nil(1) Nil(3) [OF Nil(4)] assms(3) by (auto simp: lr_next_data_def lr_read_def)
next
  case (Cons x xs)
  obtain d where d: "fetch_next b (lr_batcher lrp lr) (lr_provider lr) = (Inr x, d)"
      "remaining b (lr_batcher lrp lr) d = Some xs"
    using next_item [OF Cons.prems(2)] by blast
  have step: "lr_next_data lrp dap lr = (Inr x, lr\<lparr>lr_provider := d\<rparr>)"
    using Cons.prems(1) d(1) assms(3) by (simp add: lr_next_data_def lr_read_def)
  have "I d" using Cons.prems(3) [OF Cons.prems(4)] d(1) by simp
  then obtain d' where "op_repeat (Suc (length xs)) (lr_next_data lrp dap) (lr\<lparr>lr_provider := d\<rparr>) =
      (map Inr xs @ [Inl (temp Eof)], lr\<lparr>lr_next := None, lr_provider := dap_clear dap d'\<rparr>)" "I d'"
    using Cons.IH [of "lr\<lparr>lr_provider := d\<rparr>"] Cons.prems(1,3) d(2) by auto
  then show ?case
    by (simp only: op_repeat.simps(2) [of "Suc _"] length_Cons) (auto simp: step)
qed

end

text \<open>The first call takes the block from the traversal stage and then behaves as if it had it.\<close>

lemma next_data_takes_block:
  assumes "lr_next lr = None" and "pt_block (lr_prev lr) = Some b" and "\<not> pt_done (lr_prev lr)"
  shows "lr_next_data traversal_provider dap lr =
    lr_next_data traversal_provider dap
      (lr\<lparr>lr_prev := (lr_prev lr)\<lparr>pt_done := True\<rparr>, lr_next := Some b\<rparr>)"
  using assms by (simp add: lr_next_data_def on_prev_def traversal_provider_def pt_next_l1_block_def)

lemma lr_batcher_done [simp]:
  "lr_batcher traversal_provider (lr\<lparr>lr_prev := (lr_prev lr)\<lparr>pt_done := v\<rparr>\<rparr>) =
   lr_batcher traversal_provider lr"
  by (simp add: lr_batcher_def traversal_provider_def pt_batcher_addr_def split: option.split)

text \<open>
  C15. For each L1 block the retrieval stage delivers the data the batcher posted in it, every
  item once and in order, and then \<open>Eof\<close>: before Ecotone the calldata of the transactions the
  batcher sent to the inbox, from Ecotone on the content of their blobs where they are blob
  transactions. Afterwards the stage waits for the next block with its source cleared, so the
  same holds for that block.
\<close>

theorem retrieval_delivers:
  fixes lr :: "(('c, 'b) ethereum_data_source, 's polling_traversal) l1_retrieval"
  assumes "lr_next lr = None" and "pt_block (lr_prev lr) = Some b" and "\<not> pt_done (lr_prev lr)"
    and "posts fetch fetch_blobs b txs blob_of" and "eds_fresh inbox (lr_provider lr)"
    and "batcher = lr_batcher traversal_provider lr" and "batcher \<noteq> ADDRESS_ZERO"
    and "items = batcher_data (ecotone_at (lr_provider lr) b) inbox batcher blob_of txs"
  shows "\<exists>d. op_repeat (Suc (length items))
        (lr_next_data traversal_provider (ethereum_source fetch fetch_blobs)) lr =
      (map Inr items @ [Inl (temp Eof)],
       lr\<lparr>lr_prev := (lr_prev lr)\<lparr>pt_done := True\<rparr>, lr_provider := d\<rparr>) \<and>
    eds_fresh inbox d \<and> eds_ecotone_timestamp d = eds_ecotone_timestamp (lr_provider lr)"
proof -
  let ?dap = "ethereum_source fetch fetch_blobs"
  let ?lr = "lr\<lparr>lr_prev := (lr_prev lr)\<lparr>pt_done := True\<rparr>, lr_next := Some b\<rparr>"
  let ?I = "\<lambda>d. eds_fresh inbox (eds_clear d) \<and> eds_ecotone_timestamp d = eds_ecotone_timestamp (lr_provider lr)"
  note batcher = assms(6) [symmetric]
  have time: "eds_ecotone_timestamp (snd (eds_next fetch fetch_blobs b batcher d)) = eds_ecotone_timestamp d" for d
    by (auto simp: eds_next_def on_prev_def Let_def split: prod.splits)
  have "\<exists>d. op_repeat (Suc (length items)) (lr_next_data traversal_provider ?dap) ?lr =
      (map Inr items @ [Inl (temp Eof)], ?lr\<lparr>lr_next := None, lr_provider := dap_clear ?dap d\<rparr>) \<and> ?I d"
    by (rule edsd.read_all [where b = b and fetch = fetch and fetch_blobs = fetch_blobs])
      (use eds_remaining_fresh [OF assms(4,5,7)] assms(5,8) time in
        \<open>simp_all add: batcher ethereum_source_def eds_fresh_clear_next eds_clear_fresh\<close>)
  then obtain d where d: "op_repeat (Suc (length items)) (lr_next_data traversal_provider ?dap) ?lr =
      (map Inr items @ [Inl (temp Eof)], ?lr\<lparr>lr_next := None, lr_provider := eds_clear d\<rparr>)" "?I d"
    by (auto simp: ethereum_source_def)
  have "op_repeat (Suc (length items)) (lr_next_data traversal_provider ?dap) lr =
      op_repeat (Suc (length items)) (lr_next_data traversal_provider ?dap) ?lr"
    by (simp add: next_data_takes_block [OF assms(1-3)])
  with d assms(1) show ?thesis
    by (intro exI [of _ "eds_clear d"]) (simp add: eds_clear_def)
qed

text \<open>A block with a calldata transaction of the batcher, one of someone else, and one to another address.\<close>

theorem retrieval_delivers_witness:
  fixes batcher inbox tx txs fetch fetch_blobs lr
  defines "batcher \<equiv> replicate 20 1" and "inbox \<equiv> replicate 20 (255 :: u8)"
    and "tx \<equiv> \<lambda>to from x. \<lparr>ltx_variant = TxEip1559, ltx_to = Some to, ltx_input = [x], ltx_blob_hashes = [],
        ltx_signer = Some from\<rparr>"
    and "txs \<equiv> [tx inbox batcher 10, tx inbox inbox 11, tx batcher batcher 12, tx inbox batcher 13]"
    and "fetch \<equiv> \<lambda>(h :: hash32) (c :: unit). (Inr (block_info_default, txs), c)"
    and "fetch_blobs \<equiv> \<lambda>(b :: block_info) hs (f :: unit). (Inr (map (\<lambda>h :: hash32. [0 :: u8]) hs), f)"
    and "lr \<equiv> (lr_new (pt_new () rollup_config_default)
        (eds_new_from_parts () () (rollup_config_default\<lparr>rc_batch_inbox_address := inbox\<rparr>)))
          \<lparr>lr_da_batcher_sender_override := Some batcher\<rparr>"
  shows "posts fetch fetch_blobs block_info_default txs (\<lambda>_. [0]) \<and>
    fst (op_repeat 3 (lr_next_data traversal_provider (ethereum_source fetch fetch_blobs)) lr) =
      [Inr [10], Inr [13], Inl (temp Eof)]"
proof -
  have p: "posts fetch fetch_blobs block_info_default txs (\<lambda>_. [0])"
    by (simp add: posts_def fetch_def fetch_blobs_def)
  have items: "[[10], [13]] = batcher_data (ecotone_at (lr_provider lr) block_info_default) inbox batcher (\<lambda>_. [0]) txs"
    by (simp add: lr_def lr_new_def eds_new_from_parts_def fork_defs ecotone_at_def batcher_data_def txs_def
        tx_def sent_by_batcher_def posted_data_def batcher_def inbox_def)
  have fresh: "eds_fresh inbox (lr_provider lr)"
    using eds_fresh_new [of "rollup_config_default\<lparr>rc_batch_inbox_address := inbox\<rparr>" "()" "()"]
    by (simp add: lr_def lr_new_def)
  have lr: "lr_next lr = None" "pt_block (lr_prev lr) = Some block_info_default" "\<not> pt_done (lr_prev lr)"
      "batcher = lr_batcher traversal_provider lr"
    by (simp_all add: lr_def lr_new_def pt_new_def lr_batcher_def)
  have "batcher \<noteq> ADDRESS_ZERO" by (simp add: batcher_def ADDRESS_ZERO_def)
  from retrieval_delivers [OF lr(1-3) p fresh lr(4) this items]
  have "fst (op_repeat (Suc (length [[10 :: u8], [13]]))
      (lr_next_data traversal_provider (ethereum_source fetch fetch_blobs)) lr) =
      map Inr [[10], [13]] @ [Inl (temp Eof)]"
    by (elim exE conjE) (simp only: fst_conv)
  with p show ?thesis by (simp add: numeral_3_eq_3)
qed

end
