(* ===== verification/Channel_Assembler.thy ===== *)
theory Channel_Assembler
  imports Frame_Queue
begin

text \<open>
  The channel assembler of Holocene
  (\<open>src/crates/consensus/derive/src/stages/channel/channel_assembler.rs\<close>): one channel at a time,
  filled with frames in order. The client lemma is proved over the frame provider interface
  and applied to the frame queue.
\<close>

section \<open>The stage\<close>

record 'p channel_assembler =
  ca_cfg :: rollup_config
  ca_prev :: 'p
  ca_channel :: "channel option"

definition ca_new :: "rollup_config \<Rightarrow> 'p \<Rightarrow> 'p channel_assembler" where
  "ca_new cfg prev = \<lparr>ca_cfg = cfg, ca_prev = prev, ca_channel = None\<rparr>"

definition ca_origin :: "'p stage \<Rightarrow> 'p channel_assembler \<Rightarrow> block_info option" where
  "ca_origin prev_stage ca = st_origin prev_stage (ca_prev ca)"

text \<open>The test all channel stages share; the sum is a wrapping \<open>u64\<close>.\<close>

definition timed_out :: "registry \<Rightarrow> rollup_config \<Rightarrow> block_info \<Rightarrow> channel \<Rightarrow> bool" where
  "timed_out reg cfg orig c \<longleftrightarrow>
     open_block_number c + channel_timeout reg cfg (bi_timestamp orig) < bi_number orig"

definition is_timed_out ::
    "registry \<Rightarrow> 'p stage \<Rightarrow> 'p channel_assembler \<Rightarrow> pipeline_error_kind + bool" where
  "is_timed_out reg prev_stage ca =
     (case ca_origin prev_stage ca of
        None \<Rightarrow> Inl (crit MissingOrigin)
      | Some orig \<Rightarrow>
          Inr (case ca_channel ca of None \<Rightarrow> False | Some c \<Rightarrow> timed_out reg (ca_cfg ca) orig c))"

text \<open>What \<open>next_data\<close> does with a frame once a channel is open.\<close>

definition ca_add_frame ::
    "registry \<Rightarrow> block_info \<Rightarrow> frame \<Rightarrow> channel \<Rightarrow> ('p channel_assembler, bytes option) op" where
  "ca_add_frame reg orig next_frame channel ca =
     (if unat (frame_number next_frame) \<noteq> channel_len channel
      then (Inl (temp NotEnoughData), ca)
      else case add_frame next_frame orig channel of
        Inl _ \<Rightarrow> (Inl (temp NotEnoughData), ca)
      | Inr channel \<Rightarrow>
          let ca = ca\<lparr>ca_channel := Some channel\<rparr>;
              max_rlp = (if is_fjord_active reg (ca_cfg ca) (bi_timestamp orig)
                         then MAX_RLP_BYTES_PER_CHANNEL_FJORD
                         else MAX_RLP_BYTES_PER_CHANNEL_BEDROCK) in
          if channel_size channel > unat max_rlp
          then (Inl (temp NotEnoughData), ca\<lparr>ca_channel := None\<rparr>)
          else if is_ready channel
          then (case channel_frame_data channel of
                  None \<Rightarrow> (Inl (crit ChannelNotFound), ca)
                | Some data \<Rightarrow> (Inr (Some data), ca\<lparr>ca_channel := None\<rparr>))
          else (Inl (temp NotEnoughData), ca))"

definition ca_next_data ::
    "registry \<Rightarrow> 'p stage \<Rightarrow> ('p, frame) op \<Rightarrow> ('p channel_assembler, bytes option) op" where
  "ca_next_data reg prev_stage next_frame ca =
     (case ca_origin prev_stage ca of
        None \<Rightarrow> (Inl (crit MissingOrigin), ca)
      | Some orig \<Rightarrow>
          let ca = (if is_timed_out reg prev_stage ca = Inr True then ca\<lparr>ca_channel := None\<rparr> else ca) in
          op_then (on_prev ca_prev (\<lambda>p. ca_prev_update (\<lambda>_. p)) next_frame ca) (\<lambda>f ca.
            let ca = (if frame_number f = 0
                      then ca\<lparr>ca_channel := Some (channel_new (frame_id f) orig)\<rparr> else ca) in
            case ca_channel ca of
              Some channel \<Rightarrow> ca_add_frame reg orig f channel ca
            | None \<Rightarrow> (Inl (temp NotEnoughData), ca)))"

definition ca_after_prev :: "('p, unit) op \<Rightarrow> ('p channel_assembler, unit) op" where
  "ca_after_prev f ca =
     op_then (on_prev ca_prev (\<lambda>p. ca_prev_update (\<lambda>_. p)) f ca) (\<lambda>_ ca.
       (Inr (), ca\<lparr>ca_channel := None\<rparr>))"

definition ca_stage :: "'p stage \<Rightarrow> 'p channel_assembler stage" where
  "ca_stage prev_stage =
     \<lparr>st_origin = ca_origin prev_stage,
      st_advance_origin =
        on_prev ca_prev (\<lambda>p. ca_prev_update (\<lambda>_. p)) (st_advance_origin prev_stage),
      st_reset = (\<lambda>l1_origin sys. ca_after_prev (st_reset prev_stage l1_origin sys)),
      st_activate = ca_after_prev (st_activate prev_stage),
      st_flush_channel = ca_after_prev (st_flush_channel prev_stage)\<rparr>"

section \<open>Assembly\<close>

text \<open>The limit a channel may not exceed at an origin, and that a channel opened now does not time out now.\<close>

definition fits_channel :: "registry \<Rightarrow> rollup_config \<Rightarrow> block_info \<Rightarrow> frame list \<Rightarrow> bool" where
  "fits_channel reg cfg orig fs \<longleftrightarrow>
     sum_list (map frame_size fs) \<le> unat (max_rlp_bytes_per_channel reg cfg (bi_timestamp orig)) \<and>
     bi_number orig \<le> bi_number orig + channel_timeout reg cfg (bi_timestamp orig)"

lemma holds_frames_size: "holds_frames cid fs ps c \<Longrightarrow> channel_size c = sum_list (map frame_size ps)"
  by (simp add: holds_frames_def channel_inv_def channel_size_def comp_def)

lemma holds_frames_len: "holds_frames cid fs ps c \<Longrightarrow> channel_len c = length ps"
  by (simp add: holds_frames_def channel_len_def)

lemma add_frame_open_block: "add_frame f b c = Inr c' \<Longrightarrow> ch_open_block c' = ch_open_block c"
  by (auto simp: add_frame_def close_channel_def Let_def split: if_splits prod.splits)

lemma complete_frames_number_0:
  "complete_frames cid fs \<Longrightarrow> k < length fs \<Longrightarrow> frame_number (fs ! k) = 0 \<longleftrightarrow> k = 0"
  using complete_frames_nth(3) [of cid fs k] by (metis unat_eq_zero unat_0)

text \<open>Adding frame \<open>k\<close> to a channel that holds the first \<open>k\<close> frames.\<close>

lemma ca_add_frame_next:
  assumes cf: "complete_frames cid fs" and k: "k < length fs"
    and fits: "fits_channel reg (ca_cfg ca) orig fs" and h: "holds_frames cid fs (take k fs) c"
  shows "\<exists>c'. holds_frames cid fs (take (Suc k) fs) c' \<and> ch_open_block c' = ch_open_block c \<and>
    ca_add_frame reg orig (fs ! k) c ca =
      (if Suc k = length fs then (Inr (Some (concat (map frame_data fs))), ca\<lparr>ca_channel := None\<rparr>)
       else (Inl (temp NotEnoughData), ca\<lparr>ca_channel := Some c'\<rparr>))"
proof -
  have d: "distinct fs" using cf by (rule complete_frames_distinct)
  have "distinct (take (Suc k) fs)" using d by (rule distinct_take)
  then have "fs ! k \<notin> set (take k fs)" using k by (simp add: take_Suc_conv_app_nth)
  then obtain c' where c': "add_frame (fs ! k) orig c = Inr c'" "holds_frames cid fs (take (Suc k) fs) c'"
    using holds_frames_add [OF cf h, of "fs ! k" orig] k
    by (auto simp: take_Suc_conv_app_nth dest: in_set_takeD)
  have "sum_list (map frame_size (take (Suc k) fs)) \<le> sum_list (map frame_size fs)"
    by (metis append_take_drop_id le_add1 map_append sum_list_append)
  then have sz: "\<not> channel_size c' > unat (max_rlp_bytes_per_channel reg (ca_cfg ca) (bi_timestamp orig))"
    using fits holds_frames_size [OF c'(2)] by (simp add: fits_channel_def)
  have "card (set (take (Suc k) fs)) = Suc k" "card (set fs) = length fs"
    using distinct_card [OF \<open>distinct (take (Suc k) fs)\<close>] distinct_card [OF d] k by simp_all
  then have all: "set (take (Suc k) fs) = set fs \<longleftrightarrow> Suc k = length fs" by fastforce
  have rdy: "is_ready c' \<longleftrightarrow> Suc k = length fs"
    using holds_frames_ready [OF cf c'(2)] all \<open>distinct (take (Suc k) fs)\<close>
    by (auto dest: in_set_takeD)
  have data: "channel_frame_data c' = Some (concat (map frame_data fs))" if "Suc k = length fs"
    using that holds_frames_data [OF cf c'(2)] rdy all d by (simp add: is_ready_def)
  show ?thesis
    using c' sz rdy data holds_frames_len [OF h] k complete_frames_nth [OF cf k] add_frame_open_block [OF c'(1)]
    by (intro exI [of _ c']) (auto simp: ca_add_frame_def Let_def max_rlp_bytes_per_channel_def)
qed

definition assembling :: "bytes \<Rightarrow> frame list \<Rightarrow> nat \<Rightarrow> block_info \<Rightarrow> channel option \<Rightarrow> bool" where
  "assembling cid fs k orig ch \<longleftrightarrow> 0 < k \<longrightarrow>
     (\<exists>c. ch = Some c \<and> holds_frames cid fs (take k fs) c \<and> ch_open_block c = orig)"

definition channel_results :: "frame list \<Rightarrow> (pipeline_error_kind + bytes option) list" where
  "channel_results fs = replicate (length fs - 1) (Inl (temp NotEnoughData)) @
     [Inr (Some (concat (map frame_data fs)))]"

context frame_provider
begin

lemma assemble_step:
  assumes st: "st_origin st = orig_of" and cf: "complete_frames cid fs" and k: "k < length fs"
    and fits: "fits_channel reg (ca_cfg ca) orig fs" and o: "orig_of (ca_prev ca) = Some orig"
    and pend: "pending (ca_prev ca) = drop k fs @ rest" and asm: "assembling cid fs k orig (ca_channel ca)"
  shows "\<exists>ca'. ca_next_data reg st next_frame ca =
      (if Suc k = length fs then Inr (Some (concat (map frame_data fs))) else Inl (temp NotEnoughData), ca') \<and>
    orig_of (ca_prev ca') = Some orig \<and> pending (ca_prev ca') = drop (Suc k) fs @ rest \<and>
    ca_cfg ca' = ca_cfg ca \<and>
    (if Suc k = length fs then ca_channel ca' = None else assembling cid fs (Suc k) orig (ca_channel ca'))"
proof -
  have "pending (ca_prev ca) = fs ! k # drop (Suc k) fs @ rest"
    using pend k by (simp add: Cons_nth_drop_Suc [symmetric])
  then obtain p' where p': "next_frame (ca_prev ca) = (Inr (fs ! k), p')"
      "pending p' = drop (Suc k) fs @ rest" "orig_of p' = orig_of (ca_prev ca)"
    using next_pending by blast
  let ?ca = "if k = 0 then ca\<lparr>ca_prev := p', ca_channel := Some (channel_new cid orig)\<rparr> else ca\<lparr>ca_prev := p'\<rparr>"
  obtain c where c: "ca_channel ?ca = Some c" "holds_frames cid fs (take k fs) c" "ch_open_block c = orig"
    using asm holds_frames_new [of fs cid orig] k
    by (cases "k = 0") (auto simp: assembling_def channel_new_def)
  have "\<not> (k \<noteq> 0 \<and> is_timed_out reg st ca = Inr True)"
    using c st o fits
    by (auto simp: is_timed_out_def ca_origin_def timed_out_def open_block_number_def fits_channel_def not_less)
  then have "ca_next_data reg st next_frame ca = ca_add_frame reg orig (fs ! k) c ?ca"
    using c(1) st o p'(1) complete_frames_nth [OF cf k] complete_frames_number_0 [OF cf k]
    by (auto simp: ca_next_data_def ca_origin_def on_prev_def Let_def)
  then show ?thesis
    using ca_add_frame_next [OF cf k _ c(2), of reg ?ca orig] fits p'(2,3) o c(3)
    by (auto simp: assembling_def)
qed

lemma assemble_from:
  assumes st: "st_origin st = orig_of" and cf: "complete_frames cid fs" and "k < length fs"
    and "fits_channel reg (ca_cfg ca) orig fs" and "orig_of (ca_prev ca) = Some orig"
    and "pending (ca_prev ca) = drop k fs @ rest" and "assembling cid fs k orig (ca_channel ca)"
  shows "\<exists>ca'. op_repeat (length fs - k) (ca_next_data reg st next_frame) ca =
      (drop k (channel_results fs), ca') \<and>
    orig_of (ca_prev ca') = Some orig \<and> pending (ca_prev ca') = rest \<and> ca_cfg ca' = ca_cfg ca \<and>
    ca_channel ca' = None"
  using assms(3-)
proof (induction "length fs - k" arbitrary: k ca)
  case (Suc n)
  obtain ca1 where ca1: "ca_next_data reg st next_frame ca =
      (if Suc k = length fs then Inr (Some (concat (map frame_data fs))) else Inl (temp NotEnoughData), ca1)"
    "orig_of (ca_prev ca1) = Some orig" "pending (ca_prev ca1) = drop (Suc k) fs @ rest"
    "ca_cfg ca1 = ca_cfg ca"
    "if Suc k = length fs then ca_channel ca1 = None else assembling cid fs (Suc k) orig (ca_channel ca1)"
    using assemble_step [OF st cf Suc.prems] by blast
  have n: "length fs - k = Suc (length fs - Suc k)" using Suc.prems by simp
  have r: "drop k (channel_results fs) = (if Suc k = length fs
      then Inr (Some (concat (map frame_data fs))) else Inl (temp NotEnoughData)) # drop (Suc k) (channel_results fs)"
    using Suc.prems(1) by (subst Cons_nth_drop_Suc [symmetric]) (auto simp: channel_results_def nth_append)
  show ?case
  proof (cases "Suc k = length fs")
    case True
    then show ?thesis using ca1 n r by (simp add: channel_results_def)
  next
    case False
    then have "\<exists>ca'. op_repeat (length fs - Suc k) (ca_next_data reg st next_frame) ca1 =
        (drop (Suc k) (channel_results fs), ca') \<and> orig_of (ca_prev ca') = Some orig \<and>
        pending (ca_prev ca') = rest \<and> ca_cfg ca' = ca_cfg ca1 \<and> ca_channel ca' = None"
      using Suc.hyps ca1 Suc.prems by (intro Suc.hyps(1)) auto
    then show ?thesis using ca1 n r False by auto
  qed
qed simp

lemma assemble_channels:
  assumes st: "st_origin st = orig_of"
    and "\<forall>fs \<in> set chs. (\<exists>cid. complete_frames cid fs) \<and> fits_channel reg (ca_cfg ca) orig fs"
    and "orig_of (ca_prev ca) = Some orig" and "pending (ca_prev ca) = concat chs @ rest"
  shows "\<exists>ca'. op_repeat (length (concat chs)) (ca_next_data reg st next_frame) ca =
      (concat (map channel_results chs), ca') \<and> pending (ca_prev ca') = rest \<and>
      (chs \<noteq> [] \<longrightarrow> ca_channel ca' = None)"
  using assms(2-)
proof (induction chs arbitrary: ca)
  case (Cons fs chs)
  then obtain cid where cf: "complete_frames cid fs" by auto
  then have "0 < length fs" by (simp add: complete_frames_def)
  then obtain ca1 where ca1: "op_repeat (length fs) (ca_next_data reg st next_frame) ca =
      (channel_results fs, ca1)" "orig_of (ca_prev ca1) = Some orig"
      "pending (ca_prev ca1) = concat chs @ rest" "ca_cfg ca1 = ca_cfg ca" "ca_channel ca1 = None"
    using assemble_from [OF st cf, of 0 reg ca orig "concat chs @ rest"] Cons.prems
    by (auto simp: assembling_def)
  obtain ca2 where "op_repeat (length (concat chs)) (ca_next_data reg st next_frame) ca1 =
      (concat (map channel_results chs), ca2)" "pending (ca_prev ca2) = rest"
      "chs \<noteq> [] \<longrightarrow> ca_channel ca2 = None"
    using Cons.IH [of ca1] Cons.prems ca1 by auto
  then show ?case using ca1 by (cases chs) (auto simp: op_repeat_add)
qed simp

end

text \<open>
  C11. The assembler delivers every channel whose frames arrive in order: when the frame
  queue holds the complete frames of any number of channels back to back, each channel
  within the size limit of the origin's time, then calling \<open>next_data\<close> once per frame
  answers "not enough data" on every frame but the closing ones, and on these the
  concatenated data of the channel. Nothing is left open afterwards, whatever channel the
  assembler held before.
\<close>

theorem assembler_delivers:
  assumes "\<forall>fs \<in> set chs. (\<exists>cid. complete_frames cid fs) \<and> fits_channel reg (ca_cfg ca) orig fs"
    and "fq_origin l1 (ca_prev ca) = Some orig" and "fq_queue (ca_prev ca) = concat chs @ rest"
  shows "\<exists>ca'. op_repeat (length (concat chs))
      (ca_next_data reg (fq_stage l1) (fq_next_frame reg l1 next_data)) ca =
      (concat (map channel_results chs), ca') \<and> fq_queue (ca_prev ca') = rest \<and>
      (chs \<noteq> [] \<longrightarrow> ca_channel ca' = None)"
  using assms by (intro fqp.assemble_channels) (auto simp: fq_stage_def)

theorem assembler_delivers_witness:
  fixes fr chs st fq
  defines "fr \<equiv> \<lambda>c n d l. \<lparr>frame_id = [c], frame_number = n, frame_data = [d], frame_is_last = l\<rparr>"
    and "chs \<equiv> [[fr 7 0 1 False, fr 7 1 2 True], [fr 8 0 3 True]]"
    and "st \<equiv> fixed_stage block_info_default"
    and "fq \<equiv> (fq_new () rollup_config_default)\<lparr>fq_queue := concat chs\<rparr>"
  shows "list_all (\<lambda>fs. (\<exists>cid. complete_frames cid fs) \<and>
      fits_channel Map.empty rollup_config_default block_info_default fs) chs \<and>
    (\<exists>ca'. op_repeat (length (concat chs)) (ca_next_data Map.empty (fq_stage st)
        (fq_next_frame Map.empty st (Pair (Inl (temp Eof))))) (ca_new rollup_config_default fq) =
      ([Inl (temp NotEnoughData), Inr (Some [1, 2]), Inr (Some [3])], ca') \<and>
      fq_queue (ca_prev ca') = [] \<and> ca_channel ca' = None)"
proof -
  let ?ca = "ca_new rollup_config_default fq"
  have "complete_frames [7] (chs ! 0)" "complete_frames [8] (chs ! 1)"
    by (simp_all add: complete_frames_def chs_def fr_def)
  moreover have "fits_channel Map.empty rollup_config_default block_info_default fs"
    if "fs \<in> set chs" for fs
    using that
    by (auto simp: fits_channel_def chs_def fr_def frame_size_def FRAME_OVERHEAD_ESTIMATE_def
        max_rlp_bytes_per_channel_def MAX_RLP_BYTES_PER_CHANNEL_FJORD_def
        MAX_RLP_BYTES_PER_CHANNEL_BEDROCK_def block_info_default_def block_info_new_def)
  ultimately have 1: "\<forall>fs \<in> set chs. (\<exists>cid. complete_frames cid fs) \<and>
      fits_channel Map.empty (ca_cfg ?ca) block_info_default fs"
    by (auto simp: chs_def ca_new_def)
  have 2: "fq_origin st (ca_prev ?ca) = Some block_info_default"
    by (simp add: fq_origin_def st_def fixed_stage_def ca_new_def)
  have 3: "fq_queue (ca_prev ?ca) = concat chs @ []" by (simp add: ca_new_def fq_def)
  show ?thesis
    using 1 assembler_delivers [OF 1 2 3, of "Pair (Inl (temp Eof))"]
    by (simp add: channel_results_def ca_new_def chs_def fr_def)
qed

end
