(* ===== verification/Channel_Bank.thy ===== *)
theory Channel_Bank
  imports Channel_Assembler
begin

text \<open>
  The channel bank used before Holocene
  (\<open>src/crates/consensus/derive/src/stages/channel/channel_bank.rs\<close>): a map of channels with their
  ids in order of arrival. The hash map is an association list: the code only looks up,
  inserts, removes and sums it, so its order is not observable. The lemmas keep map and
  queue in step, so that the critical errors of the stage never arise, and bound its size.
\<close>

section \<open>The stage\<close>

definition MAX_CHANNEL_BANK_SIZE :: nat where
  "MAX_CHANNEL_BANK_SIZE = 100000000"

definition FJORD_MAX_CHANNEL_BANK_SIZE :: nat where
  "FJORD_MAX_CHANNEL_BANK_SIZE = 1000000000"

record 'p channel_bank =
  cb_cfg :: rollup_config
  cb_channels :: "(bytes \<times> channel) list"
  cb_channel_queue :: "bytes list"
  cb_prev :: 'p

definition cb_new :: "rollup_config \<Rightarrow> 'p \<Rightarrow> 'p channel_bank" where
  "cb_new cfg prev = \<lparr>cb_cfg = cfg, cb_channels = [], cb_channel_queue = [], cb_prev = prev\<rparr>"

definition cb_size :: "'p channel_bank \<Rightarrow> nat" where
  "cb_size cb = fold (\<lambda>(_, c) acc. acc + channel_size c) (cb_channels cb) 0"

definition cb_origin :: "'p stage \<Rightarrow> 'p channel_bank \<Rightarrow> block_info option" where
  "cb_origin prev_stage cb = st_origin prev_stage (cb_prev cb)"

definition max_channel_bank_size :: "registry \<Rightarrow> rollup_config \<Rightarrow> block_info \<Rightarrow> nat" where
  "max_channel_bank_size reg cfg orig =
     (if is_fjord_active reg cfg (bi_timestamp orig) then FJORD_MAX_CHANNEL_BANK_SIZE
      else MAX_CHANNEL_BANK_SIZE)"

text \<open>The loop of \<open>prune\<close> over the channel queue, with the running total.\<close>

fun cb_prune_loop ::
    "nat \<Rightarrow> nat \<Rightarrow> bytes list \<Rightarrow> (bytes \<times> channel) list \<Rightarrow>
     (pipeline_error_kind + unit) \<times> bytes list \<times> (bytes \<times> channel) list" where
  "cb_prune_loop max_size total_size [] channels =
     (if total_size > max_size then (Inl (crit ChannelProviderEmpty), [], channels)
      else (Inr (), [], channels))"
| "cb_prune_loop max_size total_size (cid # queue) channels =
     (if total_size > max_size then
        (case map_of channels cid of
           None \<Rightarrow> (Inl (crit ChannelNotFound), queue, channels)
         | Some c \<Rightarrow>
             cb_prune_loop max_size (total_size - channel_size c) queue (AList.delete cid channels))
      else (Inr (), cid # queue, channels))"

definition cb_prune :: "registry \<Rightarrow> 'p stage \<Rightarrow> ('p channel_bank, unit) op" where
  "cb_prune reg prev_stage cb =
     (case cb_origin prev_stage cb of
        None \<Rightarrow> (Inl (crit MissingOrigin), cb)
      | Some orig \<Rightarrow>
          let (r, queue, channels) = cb_prune_loop (max_channel_bank_size reg (cb_cfg cb) orig)
                (cb_size cb) (cb_channel_queue cb) (cb_channels cb)
          in (r, cb\<lparr>cb_channel_queue := queue, cb_channels := channels\<rparr>))"

text \<open>The channel of a frame, created when it does not exist.\<close>

definition cb_open_channel :: "block_info \<Rightarrow> frame \<Rightarrow> 'p channel_bank \<Rightarrow> channel \<times> 'p channel_bank" where
  "cb_open_channel orig f cb =
     (case map_of (cb_channels cb) (frame_id f) of
        Some c \<Rightarrow> (c, cb)
      | None \<Rightarrow> let c = channel_new (frame_id f) orig in
          (c, cb\<lparr>cb_channel_queue := cb_channel_queue cb @ [frame_id f],
                cb_channels := AList.update (frame_id f) c (cb_channels cb)\<rparr>))"

definition cb_ingest_frame :: "registry \<Rightarrow> 'p stage \<Rightarrow> frame \<Rightarrow> ('p channel_bank, unit) op" where
  "cb_ingest_frame reg prev_stage f cb =
     (case cb_origin prev_stage cb of
        None \<Rightarrow> (Inl (crit MissingOrigin), cb)
      | Some orig \<Rightarrow>
          let (current, cb) = cb_open_channel orig f cb in
          if timed_out reg (cb_cfg cb) orig current then (Inr (), cb)
          else case add_frame f orig current of
            Inl _ \<Rightarrow> (Inr (), cb)
          | Inr current \<Rightarrow> cb_prune reg prev_stage
              (cb\<lparr>cb_channels := AList.update (frame_id f) current (cb_channels cb)\<rparr>))"

text \<open>\<open>try_read_channel_at_index\<close>; the caller keeps the index below the queue's length.\<close>

definition try_read_channel_at_index ::
    "registry \<Rightarrow> 'p stage \<Rightarrow> nat \<Rightarrow> ('p channel_bank, bytes) op" where
  "try_read_channel_at_index reg prev_stage index cb =
     (let channel_id = cb_channel_queue cb ! index in
      case map_of (cb_channels cb) channel_id of
        None \<Rightarrow> (Inl (crit ChannelProviderEmpty), cb)
      | Some channel \<Rightarrow>
          case cb_origin prev_stage cb of
            None \<Rightarrow> (Inl (crit MissingOrigin), cb)
          | Some orig \<Rightarrow>
              if timed_out reg (cb_cfg cb) orig channel \<or> \<not> is_ready channel
              then (Inl (temp Eof), cb)
              else
                let cb = cb\<lparr>cb_channels := AList.delete channel_id (cb_channels cb),
                            cb_channel_queue := remove_at index (cb_channel_queue cb)\<rparr> in
                (case channel_frame_data channel of
                   None \<Rightarrow> (Inl (crit ChannelProviderEmpty), cb)
                 | Some data \<Rightarrow> (Inr data, cb)))"

text \<open>The \<open>find_map\<close> over the indices \<open>0..len\<close>; a failed attempt may already have changed the queue.\<close>

fun find_readable ::
    "registry \<Rightarrow> 'p stage \<Rightarrow> nat list \<Rightarrow> ('p channel_bank, bytes option) op" where
  "find_readable reg prev_stage [] cb = (Inl (temp Eof), cb)"
| "find_readable reg prev_stage (i # is) cb =
     (case try_read_channel_at_index reg prev_stage i cb of
        (Inr data, cb) \<Rightarrow> (Inr (Some data), cb)
      | (Inl _, cb) \<Rightarrow> find_readable reg prev_stage is cb)"

definition cb_read :: "registry \<Rightarrow> 'p stage \<Rightarrow> ('p channel_bank, bytes option) op" where
  "cb_read reg prev_stage cb =
     (case cb_channel_queue cb of
        [] \<Rightarrow> (Inl (temp Eof), cb)
      | first # queue \<Rightarrow>
          case map_of (cb_channels cb) first of
            None \<Rightarrow> (Inl (crit ChannelProviderEmpty), cb)
          | Some channel \<Rightarrow>
              case cb_origin prev_stage cb of
                None \<Rightarrow> (Inl (crit ChannelProviderEmpty), cb)
              | Some orig \<Rightarrow>
                  if timed_out reg (cb_cfg cb) orig channel
                  then (Inr None, cb\<lparr>cb_channels := AList.delete first (cb_channels cb),
                                     cb_channel_queue := queue\<rparr>)
                  else if \<not> is_canyon_active reg (cb_cfg cb) (bi_timestamp orig)
                  then op_then (try_read_channel_at_index reg prev_stage 0 cb) (\<lambda>data cb.
                    (Inr (Some data), cb))
                  else find_readable reg prev_stage [0..<length (cb_channel_queue cb)] cb)"

definition cb_next_data ::
    "registry \<Rightarrow> 'p stage \<Rightarrow> ('p, frame) op \<Rightarrow> ('p channel_bank, bytes option) op" where
  "cb_next_data reg prev_stage next_frame cb =
     (case cb_read reg prev_stage cb of
        (Inr data, cb) \<Rightarrow> (Inr data, cb)
      | (Inl e, cb) \<Rightarrow>
          if e \<noteq> temp Eof then (Inl (crit ChannelProviderEmpty), cb)
          else op_then (on_prev cb_prev (\<lambda>p. cb_prev_update (\<lambda>_. p)) next_frame cb) (\<lambda>f cb.
            op_then (cb_ingest_frame reg prev_stage f cb) (\<lambda>_ cb.
              (Inl (temp NotEnoughData), cb))))"

definition cb_after_prev :: "('p, unit) op \<Rightarrow> ('p channel_bank, unit) op" where
  "cb_after_prev f cb =
     op_then (on_prev cb_prev (\<lambda>p. cb_prev_update (\<lambda>_. p)) f cb) (\<lambda>_ cb.
       (Inr (), cb\<lparr>cb_channels := [], cb_channel_queue := []\<rparr>))"

definition cb_stage :: "'p stage \<Rightarrow> 'p channel_bank stage" where
  "cb_stage prev_stage =
     \<lparr>st_origin = cb_origin prev_stage,
      st_advance_origin =
        on_prev cb_prev (\<lambda>p. cb_prev_update (\<lambda>_. p)) (st_advance_origin prev_stage),
      st_reset = (\<lambda>l1_origin sys. cb_after_prev (st_reset prev_stage l1_origin sys)),
      st_activate = cb_after_prev (st_activate prev_stage),
      st_flush_channel = cb_after_prev (st_flush_channel prev_stage)\<rparr>"

section \<open>Invariant\<close>

text \<open>
  Map and queue hold the same ids, each once, and every channel is filed under its id and
  well formed.
\<close>

definition bank_ok :: "bytes list \<Rightarrow> (bytes \<times> channel) list \<Rightarrow> bool" where
  "bank_ok queue channels \<longleftrightarrow>
     distinct queue \<and> distinct (map fst channels) \<and> set queue = fst ` set channels \<and>
     (\<forall>(cid, c) \<in> set channels. ch_id c = cid \<and> channel_inv c)"

definition bank_inv :: "'p channel_bank \<Rightarrow> bool" where
  "bank_inv cb \<longleftrightarrow> bank_ok (cb_channel_queue cb) (cb_channels cb)"

definition bank_size :: "(bytes \<times> channel) list \<Rightarrow> nat" where
  "bank_size channels = sum_list (map (channel_size \<circ> snd) channels)"

text \<open>A channel the bank may hand out.\<close>

definition readable :: "registry \<Rightarrow> block_info \<Rightarrow> 'p channel_bank \<Rightarrow> bytes \<Rightarrow> bool" where
  "readable reg orig cb cid =
     (case map_of (cb_channels cb) cid of
        None \<Rightarrow> False
      | Some c \<Rightarrow> \<not> timed_out reg (cb_cfg cb) orig c \<and> is_ready c)"

lemma cb_size_eq: "cb_size cb = bank_size (cb_channels cb)"
proof -
  have "fold (\<lambda>(_, c) acc. acc + channel_size c) xs n = n + bank_size xs" for xs n
    by (induction xs arbitrary: n) (auto simp: bank_size_def)
  then show ?thesis by (simp add: cb_size_def)
qed

lemma bank_size_delete:
  "distinct (map fst xs) \<Longrightarrow> map_of xs k = Some c \<Longrightarrow>
     bank_size (AList.delete k xs) + channel_size c = bank_size xs"
proof (induction xs)
  case (Cons x xs)
  show ?case
  proof (cases "fst x = k")
    case True
    with Cons.prems have "AList.delete k xs = xs" by (intro delete_id) auto
    then show ?thesis using Cons.prems True by (cases x) (auto simp: bank_size_def)
  next
    case False
    then show ?thesis using Cons by (cases x) (auto simp: bank_size_def)
  qed
qed simp

lemma bank_ok_alt:
  "bank_ok queue channels \<longleftrightarrow> distinct queue \<and> distinct (map fst channels) \<and>
     set queue = dom (map_of channels) \<and>
     (\<forall>cid c. map_of channels cid = Some c \<longrightarrow> ch_id c = cid \<and> channel_inv c)"
  by (auto simp: bank_ok_def dom_map_of_conv_image_fst map_of_eq_Some_iff dest: map_of_SomeD)

lemma bank_ok_delete: "bank_ok (cid # queue) channels \<Longrightarrow> bank_ok queue (AList.delete cid channels)"
  unfolding bank_ok_alt by (auto simp: delete_conv' distinct_delete split: if_splits)

lemma bank_ok_update:
  "bank_ok queue channels \<Longrightarrow> ch_id c = cid \<Longrightarrow> channel_inv c \<Longrightarrow>
   bank_ok (if cid \<in> set queue then queue else queue @ [cid]) (AList.update cid c channels)"
  unfolding bank_ok_alt by (auto simp: update_conv' distinct_update split: if_splits)

lemma bank_ok_mem:
  assumes "bank_ok queue channels" "cid \<in> set queue"
  shows "\<exists>c. map_of channels cid = Some c \<and> ch_id c = cid \<and> channel_inv c"
proof -
  obtain c where c: "map_of channels cid = Some c"
    using assms by (metis bank_ok_def map_of_eq_None_iff not_None_eq)
  then have "(cid, c) \<in> set channels" by (rule map_of_SomeD)
  with assms have "ch_id c = cid \<and> channel_inv c" unfolding bank_ok_def by blast
  with c show ?thesis by blast
qed

lemma ready_data:
  assumes "channel_inv c" "is_ready c"
  shows "\<exists>d. channel_frame_data c = Some d"
proof -
  have "\<exists>d. frame_data_loop xs is acc = Some d" if "list_all (\<lambda>i. map_of xs i \<noteq> None) is" for xs "is" acc
    using that by (induction xs "is" acc rule: frame_data_loop.induct) auto
  moreover have "ch_inputs c \<noteq> []" using assms by (auto simp: channel_inv_def is_ready_def)
  ultimately show ?thesis
    using assms by (simp add: channel_frame_data_def channel_is_empty_def is_ready_def)
qed


text \<open>Pruning keeps the invariant, never fails, and ends within the limit.\<close>

lemma cb_prune_loop_ok:
  assumes "bank_ok queue channels"
  shows "case cb_prune_loop m (bank_size channels) queue channels of (r, queue', channels') \<Rightarrow>
    r = Inr () \<and> bank_ok queue' channels' \<and> bank_size channels' \<le> m \<and>
    (\<exists>n. queue' = drop n queue \<and> (\<forall>cid \<in> set queue'. map_of channels' cid = map_of channels cid))"
  using assms
proof (induction queue arbitrary: channels)
  case Nil
  then have "channels = []" by (simp add: bank_ok_def)
  then show ?case using Nil by (simp add: bank_size_def)
next
  case (Cons cid queue)
  show ?case
  proof (cases "bank_size channels > m")
    case True
    obtain c where c: "map_of channels cid = Some c" using bank_ok_mem [OF Cons.prems] by auto
    have sz: "bank_size (AList.delete cid channels) = bank_size channels - channel_size c"
      using bank_size_delete [OF _ c] Cons.prems by (simp add: bank_ok_def)
    note IH = Cons.IH [OF bank_ok_delete [OF Cons.prems]]
    have "cid \<notin> set (drop n queue)" for n
      using Cons.prems by (auto simp: bank_ok_def dest: in_set_dropD)
    then show ?thesis
      using IH c True sz
      by (auto split: prod.splits intro: exI [of _ "Suc n" for n] simp: delete_conv')
  next
    case False
    then show ?thesis using Cons.prems by (auto intro: exI [of _ 0])
  qed
qed

lemma cb_prune_ok:
  assumes "bank_inv cb" "cb_origin st cb = Some orig"
  shows "\<exists>cb'. cb_prune reg st cb = (Inr (), cb') \<and> bank_inv cb' \<and>
    cb_size cb' \<le> max_channel_bank_size reg (cb_cfg cb) orig"
  using assms cb_prune_loop_ok [of "cb_channel_queue cb" "cb_channels cb"
      "max_channel_bank_size reg (cb_cfg cb) orig"]
  by (auto simp: cb_prune_def bank_inv_def cb_size_eq split: prod.splits)

text \<open>What the channel of an id occupies, and the bank as the sum over its queue.\<close>

definition stored_size :: "(bytes \<times> channel) list \<Rightarrow> bytes \<Rightarrow> nat" where
  "stored_size channels cid = (case map_of channels cid of None \<Rightarrow> 0 | Some c \<Rightarrow> channel_size c)"

lemma stored_size_delete: "k \<noteq> cid \<Longrightarrow> stored_size (AList.delete k channels) cid = stored_size channels cid"
  by (simp add: stored_size_def delete_conv')

lemma map_stored_delete:
  "k \<notin> set ids \<Longrightarrow> map (stored_size (AList.delete k channels)) ids = map (stored_size channels) ids"
  by (induction ids) (simp_all add: stored_size_delete)

lemma bank_size_stored: "bank_ok queue channels \<Longrightarrow> bank_size channels = sum_list (map (stored_size channels) queue)"
proof (induction queue arbitrary: channels)
  case Nil
  then show ?case by (simp add: bank_ok_def bank_size_def)
next
  case (Cons cid queue)
  obtain c where c: "map_of channels cid = Some c" using bank_ok_mem [OF Cons.prems] by auto
  have "map (stored_size (AList.delete cid channels)) queue = map (stored_size channels) queue"
    using Cons.prems by (intro map_stored_delete) (simp add: bank_ok_def)
  then have "bank_size (AList.delete cid channels) = sum_list (map (stored_size channels) queue)"
    using Cons.IH [OF bank_ok_delete [OF Cons.prems]] by (simp only:)
  moreover have "stored_size channels cid = channel_size c" unfolding stored_size_def c by simp
  moreover have "bank_size channels = bank_size (AList.delete cid channels) + channel_size c"
    using bank_size_delete [OF _ c] Cons.prems by (simp add: bank_ok_def)
  ultimately show ?case by simp
qed

text \<open>The loop drops the shortest prefix of the queue that makes the rest fit.\<close>

lemma cb_prune_loop_shortest:
  assumes "bank_ok queue channels"
  shows "\<exists>n channels'. cb_prune_loop m (bank_size channels) queue channels = (Inr (), drop n queue, channels') \<and>
    bank_ok (drop n queue) channels' \<and> n \<le> length queue \<and>
    (\<forall>cid \<in> set (drop n queue). map_of channels' cid = map_of channels cid) \<and>
    sum_list (map (stored_size channels) (drop n queue)) \<le> m \<and>
    (\<forall>k<n. m < sum_list (map (stored_size channels) (drop k queue)))"
  using assms
proof (induction queue arbitrary: channels)
  case Nil
  then have "channels = []" by (simp add: bank_ok_def)
  then show ?case using Nil by (simp add: bank_size_def)
next
  case (Cons cid queue)
  note size = bank_size_stored [OF Cons.prems]
  show ?case
  proof (cases "bank_size channels > m")
    case True
    obtain c where c: "map_of channels cid = Some c" using bank_ok_mem [OF Cons.prems] by auto
    have sz: "bank_size (AList.delete cid channels) = bank_size channels - channel_size c"
      using bank_size_delete [OF _ c] Cons.prems by (simp add: bank_ok_def)
    have notin: "cid \<notin> set (drop k queue)" for k
      using Cons.prems by (auto simp: bank_ok_def dest: in_set_dropD)
    then have same: "map (stored_size (AList.delete cid channels)) (drop k queue) = map (stored_size channels) (drop k queue)" for k
      by (intro map_stored_delete) simp
    obtain n channels' where n: "cb_prune_loop m (bank_size (AList.delete cid channels)) queue (AList.delete cid channels) =
          (Inr (), drop n queue, channels')" "bank_ok (drop n queue) channels'" "n \<le> length queue"
        "\<forall>k \<in> set (drop n queue). map_of channels' k = map_of (AList.delete cid channels) k"
        "sum_list (map (stored_size channels) (drop n queue)) \<le> m"
        "\<forall>k<n. m < sum_list (map (stored_size channels) (drop k queue))"
      using Cons.IH [OF bank_ok_delete [OF Cons.prems]] unfolding same by blast
    have "\<forall>k<Suc n. m < sum_list (map (stored_size channels) (drop k (cid # queue)))"
      using n(6) True size by (auto simp: less_Suc_eq_0_disj)
    then show ?thesis
      using n c True sz notin [of n]
      by (intro exI [of _ "Suc n"] exI [of _ channels']) (auto simp: delete_conv')
  next
    case False
    then show ?thesis using Cons.prems size by (intro exI [of _ 0] exI [of _ channels]) auto
  qed
qed

lemma cb_open_channel_ok:
  assumes "bank_inv cb" "cb_open_channel orig f cb = (c, cb')"
  shows "bank_inv cb' \<and> ch_id c = frame_id f \<and> channel_inv c \<and> frame_id f \<in> set (cb_channel_queue cb') \<and>
    cb_size cb' = cb_size cb \<and> cb_cfg cb' = cb_cfg cb \<and> cb_prev cb' = cb_prev cb"
proof (cases "map_of (cb_channels cb) (frame_id f)")
  case None
  have notin: "frame_id f \<notin> set (cb_channel_queue cb)"
    using assms(1) None by (auto simp: bank_inv_def bank_ok_alt)
  have "ch_id (channel_new (frame_id f) orig) = frame_id f" "channel_size (channel_new (frame_id f) orig) = 0"
    by (simp_all add: channel_new_def channel_size_def)
  then show ?thesis
    using assms None notin bank_ok_update [of "cb_channel_queue cb" "cb_channels cb"
        "channel_new (frame_id f) orig" "frame_id f"]
    by (auto simp: cb_open_channel_def bank_inv_def cb_size_eq bank_size_def update_absent Let_def)
next
  case (Some c0)
  then show ?thesis
    using assms by (auto simp: cb_open_channel_def bank_inv_def bank_ok_alt)
qed

lemma cb_ingest_frame_ok:
  assumes inv: "bank_inv cb" and o: "cb_origin st cb = Some orig"
  shows "\<exists>cb'. cb_ingest_frame reg st f cb = (Inr (), cb') \<and> bank_inv cb' \<and>
    (cb_size cb \<le> max_channel_bank_size reg (cb_cfg cb) orig \<longrightarrow>
     cb_size cb' \<le> max_channel_bank_size reg (cb_cfg cb) orig)"
proof -
  obtain c cb1 where oc: "cb_open_channel orig f cb = (c, cb1)" by fastforce
  note ok = cb_open_channel_ok [OF inv oc]
  show ?thesis
  proof (cases "\<not> timed_out reg (cb_cfg cb1) orig c \<and> (\<exists>c'. add_frame f orig c = Inr c')")
    case True
    then obtain c' where c': "add_frame f orig c = Inr c'" by blast
    let ?cb = "cb1\<lparr>cb_channels := AList.update (frame_id f) c' (cb_channels cb1)\<rparr>"
    have "c' = added f orig c" "accepts f c" using c' ok add_frame_Inr by blast+
    then have "channel_inv c'" "ch_id c' = frame_id f"
      using ok added_inv by (auto simp: added_def accepts_def)
    then have "bank_inv ?cb"
      using ok bank_ok_update [of "cb_channel_queue cb1" "cb_channels cb1" c' "frame_id f"]
      by (simp add: bank_inv_def)
    moreover have "cb_origin st ?cb = Some orig" using o ok by (simp add: cb_origin_def)
    ultimately show ?thesis
      using cb_prune_ok [of ?cb st orig reg] o oc c' True ok by (auto simp: cb_ingest_frame_def)
  next
    case False
    then show ?thesis
      using o oc ok by (auto simp: cb_ingest_frame_def split: sum.splits)
  qed
qed

lemma remove_at_distinct:
  "distinct xs \<Longrightarrow> i < length xs \<Longrightarrow> remove_at i xs = remove1 (xs ! i) xs"
proof (induction xs arbitrary: i)
  case (Cons x xs)
  then show ?case by (cases i) (auto simp: remove_at_def)
qed simp

definition take_channel :: "bytes \<Rightarrow> 'p channel_bank \<Rightarrow> 'p channel_bank" where
  "take_channel cid cb = cb\<lparr>cb_channels := AList.delete cid (cb_channels cb),
     cb_channel_queue := remove1 cid (cb_channel_queue cb)\<rparr>"

lemma take_channel_inv: "bank_inv cb \<Longrightarrow> bank_inv (take_channel cid cb)"
  by (auto simp: bank_inv_def take_channel_def bank_ok_alt delete_conv' distinct_delete
      split: if_splits)

lemma try_read_ok:
  assumes inv: "bank_inv cb" and o: "cb_origin st cb = Some orig" and i: "i < length (cb_channel_queue cb)"
  shows "try_read_channel_at_index reg st i cb =
    (if readable reg orig cb (cb_channel_queue cb ! i)
     then (Inr (the (channel_frame_data (the (map_of (cb_channels cb) (cb_channel_queue cb ! i))))),
       take_channel (cb_channel_queue cb ! i) cb)
     else (Inl (temp Eof), cb))"
proof -
  let ?id = "cb_channel_queue cb ! i"
  obtain c where c: "map_of (cb_channels cb) ?id = Some c" "channel_inv c"
    using bank_ok_mem [OF inv [unfolded bank_inv_def]] i by (meson nth_mem)
  have "remove_at i (cb_channel_queue cb) = remove1 ?id (cb_channel_queue cb)"
    using inv i by (intro remove_at_distinct) (simp_all add: bank_inv_def bank_ok_def)
  then show ?thesis
    using c o ready_data [OF c(2)]
    by (auto simp: try_read_channel_at_index_def readable_def take_channel_def Let_def)
qed

lemma find_readable_ok:
  assumes inv: "bank_inv cb" and o: "cb_origin st cb = Some orig"
    and "\<forall>i \<in> set is. i < length (cb_channel_queue cb)"
  shows "find_readable reg st is cb =
    (case find (readable reg orig cb) (map ((!) (cb_channel_queue cb)) is) of
       None \<Rightarrow> (Inl (temp Eof), cb)
     | Some cid \<Rightarrow> (Inr (channel_frame_data (the (map_of (cb_channels cb) cid))), take_channel cid cb))"
  using assms(3)
proof (induction "is")
  case (Cons i "is")
  have "\<exists>d. channel_frame_data (the (map_of (cb_channels cb) cid)) = Some d"
    if "readable reg orig cb cid" for cid
    using that inv ready_data by (auto simp: readable_def bank_inv_def bank_ok_alt split: option.splits)
  then show ?case using Cons try_read_ok [OF inv o, of i reg] by fastforce
qed simp

lemma cb_read_ok:
  assumes inv: "bank_inv cb" and o: "cb_origin st cb = Some orig"
  shows "cb_read reg st cb =
    (case cb_channel_queue cb of
       [] \<Rightarrow> (Inl (temp Eof), cb)
     | first # queue \<Rightarrow>
         if timed_out reg (cb_cfg cb) orig (the (map_of (cb_channels cb) first))
         then (Inr None, take_channel first cb)
         else case find (readable reg orig cb)
             (if is_canyon_active reg (cb_cfg cb) (bi_timestamp orig) then first # queue else [first]) of
           None \<Rightarrow> (Inl (temp Eof), cb)
         | Some cid \<Rightarrow> (Inr (channel_frame_data (the (map_of (cb_channels cb) cid))), take_channel cid cb))"
proof (cases "cb_channel_queue cb")
  case (Cons first queue)
  obtain c where c: "map_of (cb_channels cb) first = Some c" "channel_inv c"
    using bank_ok_mem [OF inv [unfolded bank_inv_def], of first] Cons by auto
  have idx: "map ((!) (first # queue)) [0..<length (first # queue)] = first # queue"
    by (rule map_nth)
  have all: "find_readable reg st [0..<length (cb_channel_queue cb)] cb =
    (case find (readable reg orig cb) (first # queue) of
       None \<Rightarrow> (Inl (temp Eof), cb)
     | Some cid \<Rightarrow> (Inr (channel_frame_data (the (map_of (cb_channels cb) cid))), take_channel cid cb))"
    using find_readable_ok [OF inv o, of "[0..<length (cb_channel_queue cb)]" reg] idx Cons by simp
  have one: "op_then (try_read_channel_at_index reg st 0 cb) (\<lambda>data cb. (Inr (Some data), cb)) =
    (case find (readable reg orig cb) [first] of
       None \<Rightarrow> (Inl (temp Eof), cb)
     | Some cid \<Rightarrow> (Inr (channel_frame_data (the (map_of (cb_channels cb) cid))), take_channel cid cb))"
    using try_read_ok [OF inv o, of 0 reg] Cons c ready_data [OF c(2)]
    by (auto simp: readable_def)
  have "cb\<lparr>cb_channels := AList.delete first (cb_channels cb), cb_channel_queue := queue\<rparr> = take_channel first cb"
    using Cons by (simp add: take_channel_def)
  then show ?thesis
    unfolding cb_read_def using Cons c o all one by simp
qed (simp add: cb_read_def)

lemma cb_read_inv: "bank_inv cb \<Longrightarrow> cb_origin st cb = Some orig \<Longrightarrow> bank_inv (snd (cb_read reg st cb))"
  by (simp add: cb_read_ok take_channel_inv split: list.split option.split)

lemma cb_read_error:
  "bank_inv cb \<Longrightarrow> cb_origin st cb = Some orig \<Longrightarrow> cb_read reg st cb = (Inl e, cb') \<Longrightarrow> e = temp Eof \<and> cb' = cb"
  by (auto simp: cb_read_ok split: list.splits option.splits if_splits)

text \<open>
  C28. The bank stays consistent: with an L1 origin at hand, \<open>next_data\<close> keeps map and queue
  in step with every channel well formed, and the only errors it returns are the request for
  more data and those of the frame queue. The critical errors for a missing channel or an
  empty provider never arise.
\<close>

theorem bank_consistent:
  assumes "bank_inv cb" and "\<forall>p. st_origin prev_stage p \<noteq> None"
  shows "bank_inv (snd (cb_next_data reg prev_stage next_frame cb)) \<and>
    (\<forall>e. fst (cb_next_data reg prev_stage next_frame cb) = Inl e \<longrightarrow>
       e = temp NotEnoughData \<or> fst (next_frame (cb_prev cb)) = Inl e)"
proof -
  obtain orig where o: "cb_origin prev_stage cb = Some orig" using assms(2) by (auto simp: cb_origin_def)
  obtain r cb1 where rd: "cb_read reg prev_stage cb = (r, cb1)" by fastforce
  have inv1: "bank_inv cb1" using cb_read_inv [OF assms(1) o, of reg] rd by simp
  show ?thesis
  proof (cases r)
    case (Inl e)
    then have e: "e = temp Eof" "cb1 = cb" using cb_read_error [OF assms(1) o] rd by auto
    obtain rf p where nf: "next_frame (cb_prev cb) = (rf, p)" by fastforce
    let ?cb = "cb\<lparr>cb_prev := p\<rparr>"
    obtain o2 where o2: "cb_origin prev_stage ?cb = Some o2" using assms(2) by (auto simp: cb_origin_def)
    have inv2: "bank_inv ?cb" using assms(1) by (simp add: bank_inv_def)
    show ?thesis
    proof (cases rf)
      case (Inl e2)
      then show ?thesis using rd e nf \<open>r = Inl e\<close> inv2 by (simp add: cb_next_data_def on_prev_def)
    next
      case (Inr f)
      then show ?thesis
        using cb_ingest_frame_ok [OF inv2 o2, of reg f] rd e nf \<open>r = Inl e\<close>
        by (auto simp: cb_next_data_def on_prev_def)
    qed
  qed (use rd inv1 in \<open>simp add: cb_next_data_def\<close>)
qed

lemmas channel_eval = channel_new_def add_frame_def close_channel_def is_ready_def channel_len_def
  frame_numbers_def channel_frame_data_def channel_is_empty_def open_block_number_def channel_size_def
  frame_size_def FRAME_OVERHEAD_ESTIMATE_def

theorem bank_consistent_witness:
  fixes f cb
  defines "f \<equiv> \<lparr>frame_id = [7], frame_number = 0, frame_data = [1], frame_is_last = True\<rparr>"
    and "cb \<equiv> (cb_new rollup_config_default ())\<lparr>
      cb_channels := [([7], channel_new [7] block_info_default)], cb_channel_queue := [[7]]\<rparr>"
  shows "bank_inv cb \<and> (\<forall>p. st_origin (fixed_stage block_info_default) p \<noteq> None) \<and>
    bank_inv (snd (cb_next_data Map.empty (fixed_stage block_info_default) (Pair (Inr f)) cb)) \<and>
    fst (cb_next_data Map.empty (fixed_stage block_info_default) (Pair (Inr f)) cb) = Inl (temp NotEnoughData)"
proof -
  have 1: "bank_inv cb"
    using channel_inv_new [of "[7]" block_info_default]
    by (simp add: bank_inv_def bank_ok_def cb_def) (simp add: channel_new_def)
  have 2: "\<forall>p. st_origin (fixed_stage block_info_default) p \<noteq> None" by (simp add: fixed_stage_def)
  have o: "cb_origin (fixed_stage block_info_default) cb = Some block_info_default"
    by (simp add: cb_origin_def fixed_stage_def)
  have rd: "cb_read Map.empty (fixed_stage block_info_default) cb = (Inl (temp Eof), cb)"
    by (simp add: cb_read_ok [OF 1 o]) (simp add: cb_def readable_def channel_new_def is_ready_def timed_out_def
        open_block_number_def block_info_default_def block_info_new_def)
  have same: "cb\<lparr>cb_prev := ()\<rparr> = cb" by (simp add: cb_def cb_new_def)
  from rd have "\<exists>e. fst (cb_next_data Map.empty (fixed_stage block_info_default) (Pair (Inr f)) cb) = Inl e"
    using cb_ingest_frame_ok [OF 1 o, of Map.empty f] by (auto simp: cb_next_data_def on_prev_def same)
  then show ?thesis
    using 1 2 bank_consistent [OF 1 2, of Map.empty "Pair (Inr f)"] by auto
qed

text \<open>
  What the bank hands out: a timed-out channel at the head is dropped; otherwise the
  data of the first channel in order of arrival that is ready and not timed out, among all
  channels once Canyon is active and only at the head before, and only that channel leaves
  the bank. Nothing changes when there is none.
\<close>

theorem bank_reads_first_ready:
  assumes "bank_inv cb" and "cb_origin prev_stage cb = Some orig"
    and "cb_channel_queue cb = first # queue"
  shows "cb_read reg prev_stage cb =
    (if timed_out reg (cb_cfg cb) orig (the (map_of (cb_channels cb) first))
     then (Inr None, take_channel first cb)
     else case find (readable reg orig cb)
         (if is_canyon_active reg (cb_cfg cb) (bi_timestamp orig) then first # queue else [first]) of
       None \<Rightarrow> (Inl (temp Eof), cb)
     | Some cid \<Rightarrow> (Inr (channel_frame_data (the (map_of (cb_channels cb) cid))), take_channel cid cb))"
  using cb_read_ok [OF assms(1,2)] assms(3) by simp

theorem bank_reads_first_ready_witness:
  fixes a b cfg cb
  defines "a \<equiv> channel_new [7] block_info_default"
    and "b \<equiv> added \<lparr>frame_id = [8], frame_number = 0, frame_data = [3], frame_is_last = True\<rparr>
      block_info_default (channel_new [8] block_info_default)"
    and "cfg \<equiv> rollup_config_default\<lparr>rc_upgrades := upgrade_config_default\<lparr>uc_canyon_time := Some 0\<rparr>\<rparr>"
    and "cb \<equiv> (cb_new cfg ())\<lparr>cb_channels := [([7], a), ([8], b)], cb_channel_queue := [[7], [8]]\<rparr>"
  shows "bank_inv cb \<and>
    cb_read Map.empty (fixed_stage block_info_default) cb =
      (Inr (Some [3]), (cb_new cfg ())\<lparr>cb_channels := [([7], a)], cb_channel_queue := [[7]]\<rparr>)"
proof -
  have "channel_inv a" "channel_inv b"
    by (auto simp: a_def b_def accepts_def channel_new_def intro!: added_inv channel_inv_new [unfolded channel_new_def])
  then have 1: "bank_inv cb"
    by (simp add: bank_inv_def bank_ok_def cb_def) (simp add: a_def b_def added_def channel_new_def)
  have o: "cb_origin (fixed_stage block_info_default) cb = Some block_info_default"
    by (simp add: cb_origin_def fixed_stage_def)
  have q: "cb_channel_queue cb = [7] # [[8]]" by (simp add: cb_def)
  have t: "\<not> timed_out Map.empty cfg block_info_default a" "\<not> timed_out Map.empty cfg block_info_default b"
    by (simp_all add: timed_out_def block_info_default_def block_info_new_def)
  have "\<not> is_ready a" "is_ready b" "channel_frame_data b = Some [3]"
    by (simp_all add: a_def b_def added_def kept_inputs_def channel_eval)
  moreover have "is_canyon_active Map.empty cfg (bi_timestamp block_info_default)"
    by (simp add: is_canyon_active_def cfg_def fork_defs block_info_default_def block_info_new_def)
  ultimately show ?thesis
    using 1 t bank_reads_first_ready [OF 1 o q, of Map.empty]
    by (simp add: cb_def cb_new_def readable_def take_channel_def)
qed

text \<open>
  C29. Pruning the bank never fails and drops whole channels, oldest first and no more than needed: what is left
  of the queue is the queue without its first channels, each channel left is unchanged, the channels left
  fit into the limit in force at the origin (one billion bytes from Fjord on, a hundred million before), and with
  any fewer channels dropped they would not fit.
\<close>

theorem bank_prunes_oldest:
  fixes cb :: "'p channel_bank" and reg orig
  defines "m \<equiv> (if is_fjord_active reg (cb_cfg cb) (bi_timestamp orig) then 1000000000 else 100000000)"
    and "stored \<equiv> \<lambda>k. sum_list (map (stored_size (cb_channels cb)) (drop k (cb_channel_queue cb)))"
  assumes "bank_inv cb" and "cb_origin prev_stage cb = Some orig"
  shows "\<exists>n cb'. cb_prune reg prev_stage cb = (Inr (), cb') \<and> bank_inv cb' \<and>
    cb_channel_queue cb' = drop n (cb_channel_queue cb) \<and>
    (\<forall>cid. map_of (cb_channels cb') cid =
      (if cid \<in> set (drop n (cb_channel_queue cb)) then map_of (cb_channels cb) cid else None)) \<and>
    cb_size cb' = stored n \<and> stored n \<le> m \<and> (\<forall>k<n. m < stored k)"
proof -
  have m: "max_channel_bank_size reg (cb_cfg cb) orig = m"
    by (simp add: m_def max_channel_bank_size_def FJORD_MAX_CHANNEL_BANK_SIZE_def MAX_CHANNEL_BANK_SIZE_def)
  obtain n channels' where n: "cb_prune_loop m (bank_size (cb_channels cb)) (cb_channel_queue cb) (cb_channels cb) =
        (Inr (), drop n (cb_channel_queue cb), channels')" "bank_ok (drop n (cb_channel_queue cb)) channels'"
      "\<forall>cid \<in> set (drop n (cb_channel_queue cb)). map_of channels' cid = map_of (cb_channels cb) cid"
      "stored n \<le> m" "\<forall>k<n. m < stored k"
    using cb_prune_loop_shortest [OF assms(3) [unfolded bank_inv_def], of m] unfolding stored_def by blast
  have "map_of channels' cid = None" if "cid \<notin> set (drop n (cb_channel_queue cb))" for cid
    using n(2) that by (auto simp: bank_ok_alt)
  moreover have "bank_size channels' = stored n"
    using bank_size_stored [OF n(2)] n(3) unfolding stored_def
    by (simp add: stored_size_def cong: map_cong)
  ultimately show ?thesis
    using n assms(4) m by (intro exI [of _ n]) (simp add: cb_prune_def cb_size_eq bank_inv_def)
qed

theorem bank_prunes_oldest_witness:
  fixes ch cb
  defines "ch \<equiv> \<lambda>c. \<lparr>ch_id = [c], ch_open_block = block_info_default, ch_estimated_size = 60000200, ch_closed = False,
      ch_highest_frame_number = 0, ch_last_frame_number = 0,
      ch_inputs = [(0, \<lparr>frame_id = [c], frame_number = 0, frame_data = replicate 60000000 c, frame_is_last = False\<rparr>)],
      ch_highest_l1_inclusion_block = block_info_default\<rparr>"
    and "cb \<equiv> \<lparr>cb_cfg = rollup_config_default\<lparr>rc_block_time := 2\<rparr>, cb_channels = [([1], ch 1), ([2], ch 2), ([3], ch 3)],
      cb_channel_queue = [[2], [3], [1]], cb_prev = ()\<rparr>"
  shows "\<exists>cb'. cb_prune Map.empty (fixed_stage block_info_default) cb = (Inr (), cb') \<and>
    cb_channel_queue cb' = [[1]] \<and> map_of (cb_channels cb') [1] = Some (ch 1) \<and> cb_size cb' = 60000200"
proof -
  have inv: "bank_inv cb"
    by (simp add: bank_inv_def bank_ok_def cb_def channel_inv_def ch_def frame_size_def FRAME_OVERHEAD_ESTIMATE_def insert_commute)
  have o: "cb_origin (fixed_stage block_info_default) cb = Some block_info_default"
    by (simp add: cb_origin_def fixed_stage_def)
  have f: "\<not> is_fjord_active Map.empty (cb_cfg cb) (bi_timestamp block_info_default)"
    by (simp add: Rollup_Config.fork_defs default_forks_inactive cb_def)
  have st: "stored_size (cb_channels cb) [c] = 60000200" if "c \<in> {1, 2, 3}" for c
    using that by (auto simp: stored_size_def cb_def ch_def channel_size_def)
  have q: "cb_channel_queue cb = [[2], [3], [1]]" by (simp add: cb_def)
  obtain n cb' where n: "cb_prune Map.empty (fixed_stage block_info_default) cb = (Inr (), cb')"
    "cb_channel_queue cb' = drop n [[2], [3], [1]]"
    "\<forall>cid. map_of (cb_channels cb') cid = (if cid \<in> set (drop n [[2], [3], [1]]) then map_of (cb_channels cb) cid else None)"
    "cb_size cb' = sum_list (map (stored_size (cb_channels cb)) (drop n [[2], [3], [1]]))"
    "sum_list (map (stored_size (cb_channels cb)) (drop n [[2], [3], [1]])) \<le> 100000000"
    "\<forall>k<n. 100000000 < sum_list (map (stored_size (cb_channels cb)) (drop k [[2], [3], [1]]))"
    using bank_prunes_oldest [OF inv o, of Map.empty] f unfolding q by auto
  have "n = 2"
  proof -
    have "\<not> n < 2"
    proof
      assume "n < 2"
      then consider "n = 0" | "n = 1" by linarith
      then show False using n(5) st [of 1] st [of 3] by cases simp_all
    qed
    moreover have "\<not> 2 < n" using n(6) [rule_format, of 2] st [of 1] by auto
    ultimately show ?thesis by simp
  qed
  then show ?thesis
    using n st by (intro exI [of _ cb']) (simp add: cb_def)
qed

end
