(* ===== verification/Channel_Provider.thy ===== *)
theory Channel_Provider
  imports Channel_Bank
begin

text \<open>
  The channel provider (\<open>src/crates/consensus/derive/src/stages/channel/channel_provider.rs\<close>):
  switches between the channel bank before Holocene and the channel assembler from it on,
  handing the previous stage from one to the other. The lemmas show that exactly one of the
  three owns the previous stage, that it is the one the origin's time asks for, and that
  the previous stage itself passes through every switch unchanged.
\<close>

section \<open>The stage\<close>

record 'p channel_provider =
  cp_cfg :: rollup_config
  cp_prev :: "'p option"
  cp_channel_bank :: "'p channel_bank option"
  cp_channel_assembler :: "'p channel_assembler option"

definition cp_new :: "rollup_config \<Rightarrow> 'p \<Rightarrow> 'p channel_provider" where
  "cp_new cfg prev =
     \<lparr>cp_cfg = cfg, cp_prev = Some prev, cp_channel_bank = None, cp_channel_assembler = None\<rparr>"

definition cp_origin :: "'p stage \<Rightarrow> 'p channel_provider \<Rightarrow> block_info option" where
  "cp_origin prev_stage cp =
     (case cp_channel_assembler cp of
        Some ca \<Rightarrow> ca_origin prev_stage ca
      | None \<Rightarrow>
          case cp_channel_bank cp of
            Some cb \<Rightarrow> cb_origin prev_stage cb
          | None \<Rightarrow>
              case cp_prev cp of None \<Rightarrow> None | Some p \<Rightarrow> st_origin prev_stage p)"

definition cp_attempt_update :: "registry \<Rightarrow> 'p stage \<Rightarrow> ('p channel_provider, unit) op" where
  "cp_attempt_update reg prev_stage cp =
     (case cp_origin prev_stage cp of
        None \<Rightarrow> (Inl (crit MissingOrigin), cp)
      | Some orig \<Rightarrow>
          let holocene = is_holocene_active reg (cp_cfg cp) (bi_timestamp orig) in
          (Inr (),
           case cp_prev cp of
             Some prev \<Rightarrow>
               let cp = cp\<lparr>cp_prev := None\<rparr> in
               if holocene then cp\<lparr>cp_channel_assembler := Some (ca_new (cp_cfg cp) prev)\<rparr>
               else cp\<lparr>cp_channel_bank := Some (cb_new (cp_cfg cp) prev)\<rparr>
           | None \<Rightarrow>
               case (cp_channel_bank cp, cp_channel_assembler cp, holocene) of
                 (Some cb, _, True) \<Rightarrow>
                   cp\<lparr>cp_channel_bank := None,
                      cp_channel_assembler := Some (ca_new (cp_cfg cp) (cb_prev cb))\<rparr>
               | (_, Some ca, False) \<Rightarrow>
                   cp\<lparr>cp_channel_assembler := None,
                      cp_channel_bank := Some (cb_new (cp_cfg cp) (ca_prev ca))\<rparr>
               | _ \<Rightarrow> cp))"

text \<open>Every operation updates the mux and then runs on the stage that is active.\<close>

definition cp_dispatch ::
    "registry \<Rightarrow> 'p stage \<Rightarrow> ('p channel_assembler, 'a) op \<Rightarrow> ('p channel_bank, 'a) op \<Rightarrow>
     ('p channel_provider, 'a) op" where
  "cp_dispatch reg prev_stage on_assembler on_bank cp =
     op_then (cp_attempt_update reg prev_stage cp) (\<lambda>_ cp.
       case cp_channel_assembler cp of
         Some ca \<Rightarrow> (let (r, ca) = on_assembler ca in (r, cp\<lparr>cp_channel_assembler := Some ca\<rparr>))
       | None \<Rightarrow>
           case cp_channel_bank cp of
             Some cb \<Rightarrow> (let (r, cb) = on_bank cb in (r, cp\<lparr>cp_channel_bank := Some cb\<rparr>))
           | None \<Rightarrow> (Inl (temp NotEnoughData), cp))"

definition cp_next_data ::
    "registry \<Rightarrow> 'p stage \<Rightarrow> ('p, frame) op \<Rightarrow> ('p channel_provider, bytes option) op" where
  "cp_next_data reg prev_stage next_frame =
     cp_dispatch reg prev_stage (ca_next_data reg prev_stage next_frame)
       (cb_next_data reg prev_stage next_frame)"

definition cp_stage :: "registry \<Rightarrow> 'p stage \<Rightarrow> 'p channel_provider stage" where
  "cp_stage reg prev_stage =
     \<lparr>st_origin = cp_origin prev_stage,
      st_advance_origin = cp_dispatch reg prev_stage
        (st_advance_origin (ca_stage prev_stage)) (st_advance_origin (cb_stage prev_stage)),
      st_reset = (\<lambda>l1_origin sys. cp_dispatch reg prev_stage
        (st_reset (ca_stage prev_stage) l1_origin sys) (st_reset (cb_stage prev_stage) l1_origin sys)),
      st_activate = cp_dispatch reg prev_stage
        (st_activate (ca_stage prev_stage)) (st_activate (cb_stage prev_stage)),
      st_flush_channel = cp_dispatch reg prev_stage
        (st_flush_channel (ca_stage prev_stage)) (st_flush_channel (cb_stage prev_stage))\<rparr>"

section \<open>Ownership\<close>

text \<open>Exactly one of the three fields is set, and it holds the previous stage.\<close>

definition cp_owner :: "'p channel_provider \<Rightarrow> 'p option" where
  "cp_owner cp =
     (case (cp_prev cp, cp_channel_bank cp, cp_channel_assembler cp) of
        (Some p, None, None) \<Rightarrow> Some p
      | (None, Some cb, None) \<Rightarrow> Some (cb_prev cb)
      | (None, None, Some ca) \<Rightarrow> Some (ca_prev ca)
      | _ \<Rightarrow> None)"

lemma cp_owner_cases:
  assumes "cp_owner cp = Some p"
  obtains (prev) "cp_prev cp = Some p" "cp_channel_bank cp = None" "cp_channel_assembler cp = None"
    | (bank) cb where "cp_prev cp = None" "cp_channel_bank cp = Some cb" "cp_channel_assembler cp = None"
        "cb_prev cb = p"
    | (assembler) ca where "cp_prev cp = None" "cp_channel_bank cp = None"
        "cp_channel_assembler cp = Some ca" "ca_prev ca = p"
  using assms by (auto simp: cp_owner_def split: option.splits)

lemma cp_origin_owner: "cp_owner cp = Some p \<Longrightarrow> cp_origin prev_stage cp = st_origin prev_stage p"
  by (erule cp_owner_cases) (auto simp: cp_origin_def ca_origin_def cb_origin_def)

text \<open>
  C30. The switch at Holocene: after \<open>attempt_update\<close> the stage the origin's time asks for,
  and only that one, owns the previous stage, which is handed over unchanged; a stage that
  stays active keeps its channels and a stage entered anew starts empty, and updating twice
  is updating once.
\<close>

theorem channel_mux_switch:
  assumes "cp_owner cp = Some p" and "st_origin prev_stage p = Some orig"
  shows "\<exists>cp'. cp_attempt_update reg prev_stage cp = (Inr (), cp') \<and> cp_owner cp' = Some p \<and>
    cp_attempt_update reg prev_stage cp' = (Inr (), cp') \<and>
    (if is_holocene_active reg (cp_cfg cp) (bi_timestamp orig)
     then cp_channel_assembler cp' =
       Some (case cp_channel_assembler cp of Some ca \<Rightarrow> ca | None \<Rightarrow> ca_new (cp_cfg cp) p)
     else cp_channel_bank cp' =
       Some (case cp_channel_bank cp of Some cb \<Rightarrow> cb | None \<Rightarrow> cb_new (cp_cfg cp) p))"
  using assms(1)
  by (cases rule: cp_owner_cases)
    (use assms(2) in \<open>auto simp: cp_attempt_update_def cp_origin_def ca_origin_def cb_origin_def
      cp_owner_def ca_new_def cb_new_def Let_def\<close>)

theorem channel_mux_switch_witness:
  fixes cfg cp
  defines "cfg \<equiv> rollup_config_default\<lparr>rc_upgrades := upgrade_config_default\<lparr>uc_holocene_time := Some 0\<rparr>\<rparr>"
    and "cp \<equiv> (cp_new cfg ())\<lparr>cp_prev := None, cp_channel_bank := Some (cb_new cfg ())\<rparr>"
  shows "cp_owner cp = Some () \<and>
    (\<exists>cp'. cp_attempt_update Map.empty (fixed_stage block_info_default) cp = (Inr (), cp') \<and>
       cp_channel_assembler cp' = Some (ca_new cfg ()) \<and> cp_owner cp' = Some ())"
proof -
  have 1: "cp_owner cp = Some ()" by (simp add: cp_owner_def cp_def cp_new_def cb_new_def)
  have 2: "st_origin (fixed_stage block_info_default) () = Some block_info_default"
    by (simp add: fixed_stage_def)
  have "is_holocene_active Map.empty (cp_cfg cp) (bi_timestamp block_info_default)"
    by (simp add: is_holocene_active_def cp_def cp_new_def cfg_def fork_defs block_info_default_def
        block_info_new_def)
  then show ?thesis
    using 1 channel_mux_switch [OF 1 2, of Map.empty] by (auto simp: cp_def cp_new_def)
qed

end
