(* ===== verification/Span_Codec.thy ===== *)
theory Span_Codec
  imports Codecs Channels
begin

text \<open>
  The wire format of span batches (\<open>src/crates/consensus/protocol/src/batch/\<close>: \<open>prefix.rs\<close>, \<open>payload.rs\<close>,
  \<open>raw.rs\<close>, the columns of \<open>transactions.rs\<close>; \<open>read_tx_data\<close> of \<open>utils.rs\<close>). The varint and RLP codecs are third-party
  crates and parameters. A reader is a function from the remaining input to a value and the
  rest; on an error the position of the reader is dropped, as all callers do. The lemmas show
  that decoding never panics, that what it accepts has consistent columns, and that it
  inverts the encoder.
\<close>

section \<open>Readers\<close>

type_synonym 'a reader = "bytes \<Rightarrow> span_batch_error failure + ('a \<times> bytes)"

abbreviation dec_fails :: "span_decoding_error \<Rightarrow> span_batch_error failure + 'a" where
  "dec_fails e \<equiv> fails (SpanDecoding e)"

text \<open>A loop that reads one value per index.\<close>

fun read_each :: "('i \<Rightarrow> 'a reader) \<Rightarrow> 'i list \<Rightarrow> 'a list reader" where
  "read_each f [] r = Inr ([], r)"
| "read_each f (i # is) r =
     and_then (f i r) (\<lambda>(x, r). and_then (read_each f is r) (\<lambda>(xs, r). Inr (x # xs, r)))"

definition read_varint :: "varint \<Rightarrow> span_decoding_error \<Rightarrow> u64 reader" where
  "read_varint vi e r = (case vi_decode vi r of None \<Rightarrow> dec_fails e | Some x \<Rightarrow> Inr x)"

text \<open>\<open>split_at(n)\<close> behind a length check.\<close>

definition read_fixed :: "nat \<Rightarrow> span_decoding_error \<Rightarrow> bytes reader" where
  "read_fixed n e r = (if length r < n then dec_fails e else Inr (take n r, drop n r))"

section \<open>Prefix\<close>

record span_prefix =
  pf_rel_timestamp :: u64
  pf_l1_origin_num :: u64
  pf_parent_check :: bytes
  pf_l1_origin_check :: bytes

definition span_prefix_default :: span_prefix where
  "span_prefix_default =
     \<lparr>pf_rel_timestamp = 0, pf_l1_origin_num = 0, pf_parent_check = replicate 20 0,
      pf_l1_origin_check = replicate 20 0\<rparr>"

definition decode_rel_timestamp :: "varint \<Rightarrow> span_prefix \<Rightarrow> span_prefix reader" where
  "decode_rel_timestamp vi p r =
     and_then (read_varint vi RelativeTimestamp r) (\<lambda>(n, r). Inr (p\<lparr>pf_rel_timestamp := n\<rparr>, r))"

definition decode_l1_origin_num :: "varint \<Rightarrow> span_prefix \<Rightarrow> span_prefix reader" where
  "decode_l1_origin_num vi p r =
     and_then (read_varint vi L1OriginNumber r) (\<lambda>(n, r). Inr (p\<lparr>pf_l1_origin_num := n\<rparr>, r))"

definition decode_parent_check :: "span_prefix \<Rightarrow> span_prefix reader" where
  "decode_parent_check p r =
     and_then (read_fixed 20 ParentCheck r) (\<lambda>(h, r). Inr (p\<lparr>pf_parent_check := h\<rparr>, r))"

definition decode_l1_origin_check :: "span_prefix \<Rightarrow> span_prefix reader" where
  "decode_l1_origin_check p r =
     and_then (read_fixed 20 L1OriginCheck r) (\<lambda>(h, r). Inr (p\<lparr>pf_l1_origin_check := h\<rparr>, r))"

definition decode_prefix :: "varint \<Rightarrow> span_prefix reader" where
  "decode_prefix vi r =
     and_then (decode_rel_timestamp vi span_prefix_default r) (\<lambda>(p, r).
     and_then (decode_l1_origin_num vi p r) (\<lambda>(p, r).
     and_then (decode_parent_check p r) (\<lambda>(p, r). decode_l1_origin_check p r)))"

definition encode_prefix :: "varint \<Rightarrow> span_prefix \<Rightarrow> bytes" where
  "encode_prefix vi p =
     vi_encode vi (pf_rel_timestamp p) @ vi_encode vi (pf_l1_origin_num p) @ pf_parent_check p @
     pf_l1_origin_check p"

section \<open>Transaction types\<close>

datatype op_tx_type = TyLegacy | TyEip2930 | TyEip1559 | TyEip7702 | TyDeposit | TyEip8130

fun tx_type_byte :: "op_tx_type \<Rightarrow> u8" where
  "tx_type_byte TyLegacy = 0"
| "tx_type_byte TyEip2930 = 1"
| "tx_type_byte TyEip1559 = 2"
| "tx_type_byte TyEip7702 = 4"
| "tx_type_byte TyDeposit = 126"
| "tx_type_byte TyEip8130 = 121"

definition tx_type_of :: "u8 \<Rightarrow> op_tx_type option" where
  "tx_type_of b =
     (if b = 0 then Some TyLegacy else if b = 1 then Some TyEip2930 else if b = 2 then Some TyEip1559
      else if b = 4 then Some TyEip7702 else if b = 126 then Some TyDeposit
      else if b = 121 then Some TyEip8130 else None)"

definition read_tx_data :: "rlp \<Rightarrow> (bytes \<times> op_tx_type) reader" where
  "read_tx_data rlp r =
     (case r of
        [] \<Rightarrow> dec_fails InvalidTransactionData
      | first_byte # r' \<Rightarrow>
          let (tx_type, tx_data, r) =
            (if first_byte \<le> 0x7F then (first_byte, [first_byte], r') else (0, [], r))
          in (case rlp_header_decode rlp r of
                None \<Rightarrow> dec_fails InvalidTransactionData
              | Some ((lst, payload_length), _) \<Rightarrow>
                  if lst then
                    let len = payload_length + rlp_header_length rlp payload_length in
                    if len > unat MAX_SPAN_BATCH_ELEMENTS then fails TooBigSpanBatchSize
                    else if len > length r then dec_fails InvalidTransactionData
                    else (case tx_type_of tx_type of
                            None \<Rightarrow> dec_fails InvalidTransactionType
                          | Some ty \<Rightarrow> Inr ((tx_data @ take len r, ty), drop len r))
                  else dec_fails InvalidTransactionData))"

section \<open>Transaction columns\<close>

record signature =
  sig_r :: u256
  sig_s :: u256
  sig_v :: bool

record span_txs =
  stx_total_block_tx_count :: u64
  stx_contract_creation_bits :: span_bits
  stx_tx_sigs :: "signature list"
  stx_tx_nonces :: "u64 list"
  stx_tx_gases :: "u64 list"
  stx_tx_tos :: "address list"
  stx_tx_data :: "bytes list"
  stx_protected_bits :: span_bits
  stx_tx_types :: "op_tx_type list"
  stx_legacy_tx_count :: u64
  stx_eip8130_auth_data :: "(bytes \<times> bytes) list"

definition span_txs_default :: span_txs where
  "span_txs_default =
     \<lparr>stx_total_block_tx_count = 0, stx_contract_creation_bits = [], stx_tx_sigs = [],
      stx_tx_nonces = [], stx_tx_gases = [], stx_tx_tos = [], stx_tx_data = [],
      stx_protected_bits = [], stx_tx_types = [], stx_legacy_tx_count = 0,
      stx_eip8130_auth_data = []\<rparr>"

definition MAX_AUTH_PROOF_BYTES :: u64 where
  "MAX_AUTH_PROOF_BYTES = MAX_RLP_BYTES"

definition contract_creation_count :: "span_txs \<Rightarrow> u64" where
  "contract_creation_count t =
     sum_list (map (\<lambda>b. word_of_nat (count_ones b)) (stx_contract_creation_bits t))"

subsection \<open>Encoding\<close>

definition encode_contract_creation_bits :: "span_txs \<Rightarrow> span_batch_error failure + bytes" where
  "encode_contract_creation_bits t =
     bits_encode (unat (stx_total_block_tx_count t)) (stx_contract_creation_bits t)"

definition encode_protected_bits :: "span_txs \<Rightarrow> span_batch_error failure + bytes" where
  "encode_protected_bits t = bits_encode (unat (stx_legacy_tx_count t)) (stx_protected_bits t)"

definition y_parity_bits :: "signature list \<Rightarrow> span_bits" where
  "y_parity_bits sigs =
     foldl (\<lambda>bits (i, sig). bits_set_bit i (sig_v sig) bits) [] (enumerate 0 sigs)"

definition sig_bytes :: "signature \<Rightarrow> bytes" where
  "sig_bytes sig = to_be 32 (unat (sig_r sig)) @ to_be 32 (unat (sig_s sig))"

definition encode_tx_sigs :: "span_txs \<Rightarrow> span_batch_error failure + bytes" where
  "encode_tx_sigs t =
     and_then (bits_encode (unat (stx_total_block_tx_count t)) (y_parity_bits (stx_tx_sigs t)))
       (\<lambda>bits. Inr (bits @ concat (map sig_bytes (stx_tx_sigs t))))"

definition encode_tx_nonces :: "varint \<Rightarrow> span_txs \<Rightarrow> bytes" where
  "encode_tx_nonces vi t = concat (map (vi_encode vi) (stx_tx_nonces t))"

definition encode_tx_gases :: "varint \<Rightarrow> span_txs \<Rightarrow> bytes" where
  "encode_tx_gases vi t = concat (map (vi_encode vi) (stx_tx_gases t))"

definition encode_tx_tos :: "span_txs \<Rightarrow> bytes" where
  "encode_tx_tos t = concat (stx_tx_tos t)"

definition encode_tx_data :: "span_txs \<Rightarrow> bytes" where
  "encode_tx_data t = concat (stx_tx_data t)"

definition encode_proof :: "varint \<Rightarrow> bytes \<Rightarrow> bytes" where
  "encode_proof vi proof = vi_encode vi (word_of_nat (length proof)) @ proof"

definition encode_eip8130_auth_data :: "varint \<Rightarrow> span_txs \<Rightarrow> bytes" where
  "encode_eip8130_auth_data vi t =
     concat (map (\<lambda>(sender_proof, payer_proof). encode_proof vi sender_proof @ encode_proof vi payer_proof)
       (stx_eip8130_auth_data t))"

definition span_txs_encode :: "varint \<Rightarrow> span_txs \<Rightarrow> span_batch_error failure + bytes" where
  "span_txs_encode vi t =
     and_then (encode_contract_creation_bits t) (\<lambda>cc.
     and_then (encode_tx_sigs t) (\<lambda>sigs.
     and_then (encode_protected_bits t) (\<lambda>prot.
       Inr (cc @ sigs @ encode_tx_tos t @ encode_tx_data t @ encode_tx_nonces vi t @
            encode_tx_gases vi t @ prot @ encode_eip8130_auth_data vi t))))"

subsection \<open>Decoding\<close>

definition decode_contract_creation_bits :: "span_txs \<Rightarrow> span_txs reader" where
  "decode_contract_creation_bits t r =
     (if stx_total_block_tx_count t > MAX_SPAN_BATCH_ELEMENTS then fails TooBigSpanBatchSize
      else and_then (bits_decode (unat (stx_total_block_tx_count t)) r)
        (\<lambda>(bits, r). Inr (t\<lparr>stx_contract_creation_bits := bits\<rparr>, r)))"

definition decode_protected_bits :: "span_txs \<Rightarrow> span_txs reader" where
  "decode_protected_bits t r =
     (if stx_legacy_tx_count t > MAX_SPAN_BATCH_ELEMENTS then fails TooBigSpanBatchSize
      else and_then (bits_decode (unat (stx_legacy_tx_count t)) r)
        (\<lambda>(bits, r). Inr (t\<lparr>stx_protected_bits := bits\<rparr>, r)))"

definition read_sig :: "span_bits \<Rightarrow> nat \<Rightarrow> signature reader" where
  "read_sig bits i r =
     and_then (or_panic (bits_get_bit bits i)) (\<lambda>y_parity.
       if length r < 64 then dec_fails InvalidTransactionData
       else Inr (\<lparr>sig_r = word_of_nat (from_be (take 32 r)),
                  sig_s = word_of_nat (from_be (slice 32 64 r)), sig_v = (y_parity = 1)\<rparr>, drop 64 r))"

definition decode_tx_sigs :: "span_txs \<Rightarrow> span_txs reader" where
  "decode_tx_sigs t r =
     (let n = unat (stx_total_block_tx_count t) in
      and_then (bits_decode n r) (\<lambda>(bits, r).
      and_then (read_each (read_sig bits) [0..<n] r) (\<lambda>(sigs, r).
        Inr (t\<lparr>stx_tx_sigs := sigs\<rparr>, r))))"

definition decode_tx_nonces :: "varint \<Rightarrow> span_txs \<Rightarrow> span_txs reader" where
  "decode_tx_nonces vi t r =
     and_then (read_each (\<lambda>_. read_varint vi TxNonces) [0..<unat (stx_total_block_tx_count t)] r)
       (\<lambda>(nonces, r). Inr (t\<lparr>stx_tx_nonces := nonces\<rparr>, r))"

definition decode_tx_gases :: "varint \<Rightarrow> span_txs \<Rightarrow> span_txs reader" where
  "decode_tx_gases vi t r =
     and_then (read_each (\<lambda>_. read_varint vi TxNonces) [0..<unat (stx_total_block_tx_count t)] r)
       (\<lambda>(gases, r). Inr (t\<lparr>stx_tx_gases := gases\<rparr>, r))"

definition decode_tx_tos :: "span_txs \<Rightarrow> span_txs reader" where
  "decode_tx_tos t r =
     and_then (read_each (\<lambda>_. read_fixed 20 InvalidTransactionData)
         [0..<unat (stx_total_block_tx_count t - contract_creation_count t)] r)
       (\<lambda>(tos, r). Inr (t\<lparr>stx_tx_tos := tos\<rparr>, r))"

definition decode_tx_data :: "rlp \<Rightarrow> span_txs \<Rightarrow> span_txs reader" where
  "decode_tx_data rlp t r =
     and_then (read_each (\<lambda>_. read_tx_data rlp) [0..<unat (stx_total_block_tx_count t)] r)
       (\<lambda>(items, r). Inr (t\<lparr>stx_tx_data := map fst items, stx_tx_types := map snd items,
          stx_legacy_tx_count := stx_legacy_tx_count t +
            word_of_nat (length (filter (\<lambda>i. snd i = TyLegacy) items))\<rparr>, r))"

definition decode_eip8130_proof :: "varint \<Rightarrow> bytes reader" where
  "decode_eip8130_proof vi r =
     and_then (read_varint vi InvalidAuthData r) (\<lambda>(n, r).
       if n > MAX_AUTH_PROOF_BYTES then fails TooBigSpanBatchSize
       else read_fixed (unat n) InvalidTransactionData r)"

definition decode_eip8130_auth_data :: "varint \<Rightarrow> span_txs \<Rightarrow> span_txs reader" where
  "decode_eip8130_auth_data vi t r =
     and_then (read_each (\<lambda>_ r.
         and_then (decode_eip8130_proof vi r) (\<lambda>(sender_proof, r).
         and_then (decode_eip8130_proof vi r) (\<lambda>(payer_proof, r).
           Inr ((sender_proof, payer_proof), r))))
         (filter (\<lambda>ty. ty = TyEip8130) (stx_tx_types t)) r)
       (\<lambda>(auth, r). Inr (t\<lparr>stx_eip8130_auth_data := auth\<rparr>, r))"

definition span_txs_decode :: "varint \<Rightarrow> rlp \<Rightarrow> span_txs \<Rightarrow> span_txs reader" where
  "span_txs_decode vi rlp t r =
     and_then (decode_contract_creation_bits t r) (\<lambda>(t, r).
     and_then (decode_tx_sigs t r) (\<lambda>(t, r).
     and_then (decode_tx_tos t r) (\<lambda>(t, r).
     and_then (decode_tx_data rlp t r) (\<lambda>(t, r).
     and_then (decode_tx_nonces vi t r) (\<lambda>(t, r).
     and_then (decode_tx_gases vi t r) (\<lambda>(t, r).
     and_then (decode_protected_bits t r) (\<lambda>(t, r).
       decode_eip8130_auth_data vi t r)))))))"

section \<open>Payload\<close>

record span_payload =
  pl_block_count :: u64
  pl_origin_bits :: span_bits
  pl_block_tx_counts :: "u64 list"
  pl_txs :: span_txs

definition span_payload_default :: span_payload where
  "span_payload_default =
     \<lparr>pl_block_count = 0, pl_origin_bits = [], pl_block_tx_counts = [], pl_txs = span_txs_default\<rparr>"

definition decode_block_count :: "varint \<Rightarrow> span_payload \<Rightarrow> span_payload reader" where
  "decode_block_count vi p r =
     and_then (read_varint vi BlockCount r) (\<lambda>(block_count, r).
       if block_count > MAX_SPAN_BATCH_ELEMENTS then fails TooBigSpanBatchSize
       else if block_count = 0 then fails EmptySpanBatch
       else Inr (p\<lparr>pl_block_count := block_count\<rparr>, r))"

definition decode_origin_bits :: "span_payload \<Rightarrow> span_payload reader" where
  "decode_origin_bits p r =
     (if pl_block_count p > MAX_SPAN_BATCH_ELEMENTS then fails TooBigSpanBatchSize
      else and_then (bits_decode (unat (pl_block_count p)) r)
        (\<lambda>(bits, r). Inr (p\<lparr>pl_origin_bits := bits\<rparr>, r)))"

definition read_tx_count :: "varint \<Rightarrow> u64 reader" where
  "read_tx_count vi r =
     and_then (read_varint vi BlockTxCounts r) (\<lambda>(n, r).
       if n > MAX_SPAN_BATCH_ELEMENTS then fails TooBigSpanBatchSize else Inr (n, r))"

definition decode_block_tx_counts :: "varint \<Rightarrow> span_payload \<Rightarrow> span_payload reader" where
  "decode_block_tx_counts vi p r =
     and_then (read_each (\<lambda>_. read_tx_count vi) [0..<unat (pl_block_count p)] r)
       (\<lambda>(counts, r). Inr (p\<lparr>pl_block_tx_counts := counts\<rparr>, r))"

fun checked_total :: "u64 \<Rightarrow> u64 list \<Rightarrow> span_batch_error failure + u64" where
  "checked_total acc [] = Inr acc"
| "checked_total acc (n # ns) =
     (case checked_add acc n of None \<Rightarrow> fails TooBigSpanBatchSize | Some acc \<Rightarrow> checked_total acc ns)"

definition decode_txs :: "varint \<Rightarrow> rlp \<Rightarrow> span_payload \<Rightarrow> span_payload reader" where
  "decode_txs vi rlp p r =
     (if pl_block_tx_counts p = [] then fails EmptySpanBatch
      else and_then (checked_total 0 (pl_block_tx_counts p)) (\<lambda>total_count.
        if total_count > MAX_SPAN_BATCH_ELEMENTS then fails TooBigSpanBatchSize
        else and_then (span_txs_decode vi rlp ((pl_txs p)\<lparr>stx_total_block_tx_count := total_count\<rparr>) r)
          (\<lambda>(t, r). Inr (p\<lparr>pl_txs := t\<rparr>, r))))"

definition decode_payload :: "varint \<Rightarrow> rlp \<Rightarrow> span_payload reader" where
  "decode_payload vi rlp r =
     and_then (decode_block_count vi span_payload_default r) (\<lambda>(p, r).
     and_then (decode_origin_bits p r) (\<lambda>(p, r).
     and_then (decode_block_tx_counts vi p r) (\<lambda>(p, r). decode_txs vi rlp p r)))"

definition encode_origin_bits :: "span_payload \<Rightarrow> span_batch_error failure + bytes" where
  "encode_origin_bits p = bits_encode (unat (pl_block_count p)) (pl_origin_bits p)"

definition encode_block_tx_counts :: "varint \<Rightarrow> span_payload \<Rightarrow> bytes" where
  "encode_block_tx_counts vi p = concat (map (vi_encode vi) (pl_block_tx_counts p))"

definition encode_payload :: "varint \<Rightarrow> span_payload \<Rightarrow> span_batch_error failure + bytes" where
  "encode_payload vi p =
     and_then (encode_origin_bits p) (\<lambda>bits.
     and_then (span_txs_encode vi (pl_txs p)) (\<lambda>txs.
       Inr (vi_encode vi (pl_block_count p) @ bits @ encode_block_tx_counts vi p @ txs)))"

section \<open>Raw span batches\<close>

record raw_span_batch =
  raw_prefix :: span_prefix
  raw_payload :: span_payload

definition raw_span_encode :: "varint \<Rightarrow> raw_span_batch \<Rightarrow> span_batch_error failure + bytes" where
  "raw_span_encode vi raw =
     and_then (encode_payload vi (raw_payload raw)) (\<lambda>payload.
       Inr (encode_prefix vi (raw_prefix raw) @ payload))"

definition raw_span_decode :: "varint \<Rightarrow> rlp \<Rightarrow> raw_span_batch reader" where
  "raw_span_decode vi rlp r =
     and_then (decode_prefix vi r) (\<lambda>(prefix, r).
     and_then (decode_payload vi rlp r) (\<lambda>(payload, r).
       Inr (\<lparr>raw_prefix = prefix, raw_payload = payload\<rparr>, r)))"

section \<open>Readers invert writers\<close>

lemma read_each_encode:
  assumes "length js = length xs"
    and "\<And>j x r. (j, x) \<in> set (zip js xs) \<Longrightarrow> f j (enc x @ r) = Inr (x, r)"
  shows "read_each f js (concat (map enc xs) @ r) = Inr (xs, r)"
  using assms by (induction js xs rule: list_induct2) simp_all

lemma read_each_length: "read_each f js r = Inr (xs, r') \<Longrightarrow> length xs = length js"
  by (induction js arbitrary: r xs) (auto simp: and_then_Inr_iff)

lemma read_each_all:
  assumes "\<And>j r x r'. f j r = Inr (x, r') \<Longrightarrow> P x"
  shows "read_each f js r = Inr (xs, r') \<Longrightarrow> list_all P xs"
  by (induction js arbitrary: r xs) (auto simp: and_then_Inr_iff intro: assms)

lemma read_each_no_panic:
  "(\<And>j r. j \<in> set js \<Longrightarrow> no_panic (f j r)) \<Longrightarrow> no_panic (read_each f js r)"
  by (induction js arbitrary: r) auto

lemma unat_word_of_nat_le: "n \<le> unat m \<Longrightarrow> unat (word_of_nat n :: u64) = n" for m :: u64
  using unsigned_less [of m, where ?'a = nat] by (simp add: unat_of_nat)

text \<open>The interface of a column: an encoder, its reader, and the values on which they agree.\<close>

locale wire_codec =
  fixes enc :: "'a \<Rightarrow> bytes" and dec :: "'a reader" and ok :: "'a \<Rightarrow> bool"
  assumes dec_enc: "ok x \<Longrightarrow> dec (enc x @ r) = Inr (x, r)"
begin

lemma list_codec:
  "list_all ok xs \<Longrightarrow> length js = length xs \<Longrightarrow>
   read_each (\<lambda>_. dec) js (concat (map enc xs) @ r) = Inr (xs, r)"
  by (rule read_each_encode) (auto simp: list_all_iff dest!: set_zip_rightD intro: dec_enc)

end

interpretation fixed_bytes: wire_codec "\<lambda>x. x" "read_fixed n e" "\<lambda>x. length x = n" for n e
  by unfold_locales (simp add: read_fixed_def)

lemma varint_codec: "varint_ok vi \<Longrightarrow> wire_codec (vi_encode vi) (read_varint vi e) (\<lambda>_. True)"
  by unfold_locales (simp add: read_varint_def varint_ok_def)

lemma tx_count_codec:
  "varint_ok vi \<Longrightarrow> wire_codec (vi_encode vi) (read_tx_count vi) (\<lambda>n. n \<le> MAX_SPAN_BATCH_ELEMENTS)"
  by unfold_locales (auto simp: read_tx_count_def wire_codec.dec_enc [OF varint_codec])

lemma proof_codec:
  assumes "varint_ok vi"
  shows "wire_codec (encode_proof vi) (decode_eip8130_proof vi) (\<lambda>p. length p \<le> unat MAX_AUTH_PROOF_BYTES)"
proof
  fix p :: bytes and r
  assume p: "length p \<le> unat MAX_AUTH_PROOF_BYTES"
  from unat_word_of_nat_le [OF p]
  show "decode_eip8130_proof vi (encode_proof vi p @ r) = Inr (p, r)"
    using p by (simp add: decode_eip8130_proof_def encode_proof_def wire_codec.dec_enc [OF varint_codec [OF assms]]
        word_less_nat_alt fixed_bytes.dec_enc not_less)
qed

lemma read_sig_bytes:
  assumes "bits_get_bit bits i = Some (if sig_v s then 1 else 0)"
  shows "read_sig bits i (sig_bytes s @ r) = Inr (s, r)"
proof -
  have "unat (sig_r s) < 256 ^ 32" "unat (sig_s s) < 256 ^ 32"
    using unsigned_less [of "sig_r s"] unsigned_less [of "sig_s s"] by simp_all
  then show ?thesis
    using assms by (simp add: read_sig_def sig_bytes_def slice_def)
qed

lemma y_parity_bits_rep: "bits_rep (y_parity_bits sigs) (map sig_v sigs)"
proof (induction sigs rule: rev_induct)
  case (snoc s sigs)
  then show ?case using bits_rep_snoc [OF snoc, of "sig_v s"]
    by (simp add: y_parity_bits_def enumerate_append_eq)
qed (simp add: y_parity_bits_def)

section \<open>Consistent columns\<close>

text \<open>The columns of a span: every list has its length and every bit list its size.\<close>

definition columns_ok :: "span_txs \<Rightarrow> bool" where
  "columns_ok t \<longleftrightarrow>
     (let n = unat (stx_total_block_tx_count t); types = stx_tx_types t in
      n \<le> unat MAX_SPAN_BATCH_ELEMENTS \<and>
      bits_ok n (stx_contract_creation_bits t) \<and>
      length (stx_tx_sigs t) = n \<and> length (stx_tx_nonces t) = n \<and> length (stx_tx_gases t) = n \<and>
      length (stx_tx_data t) = n \<and> length types = n \<and>
      length (stx_tx_tos t) = n - sum_list (map count_ones (stx_contract_creation_bits t)) \<and>
      list_all (\<lambda>a. length a = 20) (stx_tx_tos t) \<and>
      unat (stx_legacy_tx_count t) = length (filter (\<lambda>ty. ty = TyLegacy) types) \<and>
      bits_ok (unat (stx_legacy_tx_count t)) (stx_protected_bits t) \<and>
      length (stx_eip8130_auth_data t) = length (filter (\<lambda>ty. ty = TyEip8130) types) \<and>
      list_all (\<lambda>(a, b). length a \<le> unat MAX_AUTH_PROOF_BYTES \<and> length b \<le> unat MAX_AUTH_PROOF_BYTES)
        (stx_eip8130_auth_data t))"

text \<open>A transaction that the reader of the data column delimits.\<close>

definition tx_item_ok :: "rlp \<Rightarrow> bytes \<Rightarrow> op_tx_type \<Rightarrow> bool" where
  "tx_item_ok rlp d ty \<longleftrightarrow> (\<forall>r. read_tx_data rlp (d @ r) = Inr ((d, ty), r))"

lemma sum_list_word_of_nat: "sum_list (map (\<lambda>b. word_of_nat (f b)) xs) = (word_of_nat (sum_list (map f xs)) :: u64)"
  by (induction xs) simp_all

lemma contract_creation_count_eq:
  assumes "bits_ok (unat (stx_total_block_tx_count t)) (stx_contract_creation_bits t)"
  shows "unat (stx_total_block_tx_count t - contract_creation_count t) =
    unat (stx_total_block_tx_count t) - sum_list (map count_ones (stx_contract_creation_bits t))"
proof -
  let ?s = "sum_list (map count_ones (stx_contract_creation_bits t))" and ?n = "stx_total_block_tx_count t"
  have s: "?s \<le> unat ?n" using assms count_ones_sum_le by (simp add: bits_ok_def)
  have "unat (contract_creation_count t) = ?s"
    unfolding contract_creation_count_def sum_list_word_of_nat
    using s by (rule unat_word_of_nat_le)
  then show ?thesis using s by (simp add: unat_sub word_le_nat_alt)
qed

lemma MAX_elements: "unat MAX_SPAN_BATCH_ELEMENTS = 10000000"
  by (simp add: MAX_SPAN_BATCH_ELEMENTS_def)

section \<open>Decoding the columns\<close>

lemma decode_contract_creation_bits_sound:
  "decode_contract_creation_bits t r = Inr (t', r') \<Longrightarrow>
   \<exists>bits. t' = t\<lparr>stx_contract_creation_bits := bits\<rparr> \<and> bits_ok (unat (stx_total_block_tx_count t)) bits"
  by (auto simp: decode_contract_creation_bits_def and_then_Inr_iff dest: bits_decode_ok split: if_splits)

lemma decode_protected_bits_sound:
  "decode_protected_bits t r = Inr (t', r') \<Longrightarrow>
   \<exists>bits. t' = t\<lparr>stx_protected_bits := bits\<rparr> \<and> bits_ok (unat (stx_legacy_tx_count t)) bits"
  by (auto simp: decode_protected_bits_def and_then_Inr_iff dest: bits_decode_ok split: if_splits)

lemma decode_tx_sigs_sound:
  "decode_tx_sigs t r = Inr (t', r') \<Longrightarrow>
   \<exists>sigs. t' = t\<lparr>stx_tx_sigs := sigs\<rparr> \<and> length sigs = unat (stx_total_block_tx_count t)"
  by (auto simp: decode_tx_sigs_def and_then_Inr_iff Let_def dest!: read_each_length)

lemma decode_tx_nonces_sound:
  "decode_tx_nonces vi t r = Inr (t', r') \<Longrightarrow>
   \<exists>ns. t' = t\<lparr>stx_tx_nonces := ns\<rparr> \<and> length ns = unat (stx_total_block_tx_count t)"
  by (auto simp: decode_tx_nonces_def and_then_Inr_iff dest!: read_each_length)

lemma decode_tx_gases_sound:
  "decode_tx_gases vi t r = Inr (t', r') \<Longrightarrow>
   \<exists>gs. t' = t\<lparr>stx_tx_gases := gs\<rparr> \<and> length gs = unat (stx_total_block_tx_count t)"
  by (auto simp: decode_tx_gases_def and_then_Inr_iff dest!: read_each_length)

lemma decode_tx_tos_sound:
  assumes "decode_tx_tos t r = Inr (t', r')"
  shows "\<exists>tos. t' = t\<lparr>stx_tx_tos := tos\<rparr> \<and> list_all (\<lambda>a. length a = 20) tos \<and>
     length tos = unat (stx_total_block_tx_count t - contract_creation_count t)"
proof -
  obtain tos where "read_each (\<lambda>_. read_fixed 20 InvalidTransactionData)
      [0..<unat (stx_total_block_tx_count t - contract_creation_count t)] r = Inr (tos, r')"
    and "t' = t\<lparr>stx_tx_tos := tos\<rparr>"
    using assms by (auto simp: decode_tx_tos_def and_then_Inr_iff)
  moreover from this(1) have "list_all (\<lambda>a. length a = 20) tos"
    by (rule read_each_all [rotated]) (auto simp: read_fixed_def split: if_splits)
  ultimately show ?thesis by (auto intro!: exI dest!: read_each_length)
qed

lemma decode_tx_data_sound:
  assumes "decode_tx_data rlp t r = Inr (t', r')"
  shows "\<exists>data types. t' = t\<lparr>stx_tx_data := data, stx_tx_types := types, stx_legacy_tx_count :=
       stx_legacy_tx_count t + word_of_nat (length (filter (\<lambda>ty. ty = TyLegacy) types))\<rparr> \<and>
     length data = unat (stx_total_block_tx_count t) \<and> length types = unat (stx_total_block_tx_count t)"
proof -
  obtain items where "read_each (\<lambda>_. read_tx_data rlp) [0..<unat (stx_total_block_tx_count t)] r = Inr (items, r')"
    and t': "t' = t\<lparr>stx_tx_data := map fst items, stx_tx_types := map snd items, stx_legacy_tx_count :=
       stx_legacy_tx_count t + word_of_nat (length (filter (\<lambda>i. snd i = TyLegacy) items))\<rparr>"
    using assms by (auto simp: decode_tx_data_def and_then_Inr_iff)
  moreover have "filter (\<lambda>ty. ty = TyLegacy) (map snd items) = map snd (filter (\<lambda>i. snd i = TyLegacy) items)"
    by (simp add: filter_map comp_def)
  ultimately show ?thesis
    by (intro exI [of _ "map fst items"] exI [of _ "map snd items"]) (auto dest!: read_each_length)
qed

lemma decode_eip8130_proof_sound:
  "decode_eip8130_proof vi r = Inr (p, r') \<Longrightarrow> length p \<le> unat MAX_AUTH_PROOF_BYTES"
  by (auto simp: decode_eip8130_proof_def and_then_Inr_iff read_fixed_def word_less_nat_alt split: if_splits)

lemma decode_eip8130_auth_data_sound:
  assumes "decode_eip8130_auth_data vi t r = Inr (t', r')"
  shows "\<exists>auth. t' = t\<lparr>stx_eip8130_auth_data := auth\<rparr> \<and>
     length auth = length (filter (\<lambda>ty. ty = TyEip8130) (stx_tx_types t)) \<and>
     list_all (\<lambda>(a, b). length a \<le> unat MAX_AUTH_PROOF_BYTES \<and> length b \<le> unat MAX_AUTH_PROOF_BYTES) auth"
proof -
  let ?f = "\<lambda>_ r. and_then (decode_eip8130_proof vi r) (\<lambda>(sender_proof, r).
      and_then (decode_eip8130_proof vi r) (\<lambda>(payer_proof, r). Inr ((sender_proof, payer_proof), r)))"
  obtain auth where a: "read_each ?f (filter (\<lambda>ty. ty = TyEip8130) (stx_tx_types t)) r = Inr (auth, r')"
    and "t' = t\<lparr>stx_eip8130_auth_data := auth\<rparr>"
    using assms by (auto simp: decode_eip8130_auth_data_def and_then_Inr_iff)
  moreover from a have "list_all (\<lambda>(a, b). length a \<le> unat MAX_AUTH_PROOF_BYTES \<and> length b \<le> unat MAX_AUTH_PROOF_BYTES) auth"
    by (rule read_each_all [rotated]) (auto simp: and_then_Inr_iff dest: decode_eip8130_proof_sound)
  ultimately show ?thesis by (auto intro!: exI dest!: read_each_length)
qed

lemma span_txs_decode_sound:
  assumes "span_txs_decode vi rlp t r = Inr (t', r')"
    and "stx_legacy_tx_count t = 0" and "unat (stx_total_block_tx_count t) \<le> unat MAX_SPAN_BATCH_ELEMENTS"
  shows "columns_ok t' \<and> stx_total_block_tx_count t' = stx_total_block_tx_count t"
proof -
  let ?n = "stx_total_block_tx_count t"
  obtain t1 r1 t2 r2 t3 r3 t4 r4 t5 r5 t6 r6 t7 r7
    where 1: "decode_contract_creation_bits t r = Inr (t1, r1)" and 2: "decode_tx_sigs t1 r1 = Inr (t2, r2)"
      and 3: "decode_tx_tos t2 r2 = Inr (t3, r3)" and 4: "decode_tx_data rlp t3 r3 = Inr (t4, r4)"
      and 5: "decode_tx_nonces vi t4 r4 = Inr (t5, r5)" and 6: "decode_tx_gases vi t5 r5 = Inr (t6, r6)"
      and 7: "decode_protected_bits t6 r6 = Inr (t7, r7)" and 8: "decode_eip8130_auth_data vi t7 r7 = Inr (t', r')"
    using assms(1) by (auto simp: span_txs_decode_def and_then_Inr_iff)
  obtain bits where t1: "t1 = t\<lparr>stx_contract_creation_bits := bits\<rparr>" "bits_ok (unat ?n) bits"
    using decode_contract_creation_bits_sound [OF 1] by auto
  obtain sigs where t2: "t2 = t1\<lparr>stx_tx_sigs := sigs\<rparr>" "length sigs = unat ?n"
    using decode_tx_sigs_sound [OF 2] t1 by auto
  obtain tos where t3: "t3 = t2\<lparr>stx_tx_tos := tos\<rparr>" "list_all (\<lambda>a. length a = 20) tos"
    "length tos = unat (?n - contract_creation_count t2)"
    using decode_tx_tos_sound [OF 3] t1 t2 by auto
  obtain data types where t4: "t4 = t3\<lparr>stx_tx_data := data, stx_tx_types := types, stx_legacy_tx_count :=
      word_of_nat (length (filter (\<lambda>ty. ty = TyLegacy) types))\<rparr>" "length data = unat ?n" "length types = unat ?n"
    using decode_tx_data_sound [OF 4] t1 t2 t3 assms(2) by auto
  have legacy: "unat (word_of_nat (length (filter (\<lambda>ty. ty = TyLegacy) types)) :: u64) =
      length (filter (\<lambda>ty. ty = TyLegacy) types)"
    using t4(3) length_filter_le [of "\<lambda>ty. ty = TyLegacy" types] by (intro unat_word_of_nat_le [of _ ?n]) simp
  obtain ns gs where t6: "t6 = t4\<lparr>stx_tx_nonces := ns, stx_tx_gases := gs\<rparr>" "length ns = unat ?n" "length gs = unat ?n"
    using decode_tx_nonces_sound [OF 5] decode_tx_gases_sound [OF 6] t1 t2 t3 t4 by auto
  obtain pr where t7: "t7 = t6\<lparr>stx_protected_bits := pr\<rparr>" "bits_ok (length (filter (\<lambda>ty. ty = TyLegacy) types)) pr"
    using decode_protected_bits_sound [OF 7] t4 t6 legacy by auto
  obtain auth where t8: "t' = t7\<lparr>stx_eip8130_auth_data := auth\<rparr>"
    "length auth = length (filter (\<lambda>ty. ty = TyEip8130) types)"
    "list_all (\<lambda>(a, b). length a \<le> unat MAX_AUTH_PROOF_BYTES \<and> length b \<le> unat MAX_AUTH_PROOF_BYTES) auth"
    using decode_eip8130_auth_data_sound [OF 8] t4 t6 t7 by auto
  have "length tos = unat ?n - sum_list (map count_ones bits)"
    using contract_creation_count_eq [of t2] t1 t2 t3 by simp
  then show ?thesis
    using t1 t2 t3 t4 t6 t7 t8 legacy assms(3) by (simp add: columns_ok_def Let_def)
qed

section \<open>Encoding the columns\<close>

definition items_ok :: "rlp \<Rightarrow> span_txs \<Rightarrow> bool" where
  "items_ok rlp t \<longleftrightarrow> list_all2 (tx_item_ok rlp) (stx_tx_data t) (stx_tx_types t)"

lemma columns_okD:
  assumes "columns_ok t"
  defines "n \<equiv> unat (stx_total_block_tx_count t)"
  shows "n \<le> unat MAX_SPAN_BATCH_ELEMENTS" "bits_ok n (stx_contract_creation_bits t)"
    "length (stx_tx_sigs t) = n" "length (stx_tx_nonces t) = n" "length (stx_tx_gases t) = n"
    "length (stx_tx_data t) = n" "length (stx_tx_types t) = n"
    "length (stx_tx_tos t) = n - sum_list (map count_ones (stx_contract_creation_bits t))"
    "list_all (\<lambda>a. length a = 20) (stx_tx_tos t)"
    "unat (stx_legacy_tx_count t) = length (filter (\<lambda>ty. ty = TyLegacy) (stx_tx_types t))"
    "bits_ok (unat (stx_legacy_tx_count t)) (stx_protected_bits t)"
    "length (stx_eip8130_auth_data t) = length (filter (\<lambda>ty. ty = TyEip8130) (stx_tx_types t))"
    "list_all (\<lambda>(a, b). length a \<le> unat MAX_AUTH_PROOF_BYTES \<and> length b \<le> unat MAX_AUTH_PROOF_BYTES)
       (stx_eip8130_auth_data t)"
  using assms by (auto simp: columns_ok_def Let_def)

lemma decode_contract_creation_bits_enc:
  assumes "columns_ok t" and "stx_total_block_tx_count u = stx_total_block_tx_count t"
  shows "decode_contract_creation_bits u (stx_contract_creation_bits t @ r) =
    Inr (u\<lparr>stx_contract_creation_bits := stx_contract_creation_bits t\<rparr>, r)"
  using columns_okD(1,2) [OF assms(1)] assms(2)
  by (simp add: decode_contract_creation_bits_def bits_ok_decode word_less_nat_alt not_less)

lemma decode_tx_sigs_enc:
  assumes "columns_ok t" and "stx_total_block_tx_count u = stx_total_block_tx_count t"
  shows "decode_tx_sigs u (y_parity_bits (stx_tx_sigs t) @ concat (map sig_bytes (stx_tx_sigs t)) @ r) =
    Inr (u\<lparr>stx_tx_sigs := stx_tx_sigs t\<rparr>, r)"
proof -
  let ?s = "stx_tx_sigs t" and ?n = "unat (stx_total_block_tx_count t)"
  have n: "length ?s = ?n" by (rule columns_okD(3) [OF assms(1)])
  note rep = y_parity_bits_rep [of ?s]
  have "bits_ok ?n (y_parity_bits ?s)" using bits_rep_ok [OF rep] n by simp
  moreover have "read_each (read_sig (y_parity_bits ?s)) [0..<?n] (concat (map sig_bytes ?s) @ r) = Inr (?s, r)"
    using n bits_rep_get [OF rep]
    by (intro read_each_encode read_sig_bytes) (auto simp: set_zip)
  ultimately show ?thesis
    using assms(2) by (simp add: decode_tx_sigs_def bits_ok_decode)
qed

lemma decode_tx_tos_enc:
  assumes "columns_ok t" and "stx_total_block_tx_count u = stx_total_block_tx_count t"
    and "stx_contract_creation_bits u = stx_contract_creation_bits t"
  shows "decode_tx_tos u (encode_tx_tos t @ r) = Inr (u\<lparr>stx_tx_tos := stx_tx_tos t\<rparr>, r)"
proof -
  have "length [0..<unat (stx_total_block_tx_count u - contract_creation_count u)] = length (stx_tx_tos t)"
    using columns_okD(2,8) [OF assms(1)] contract_creation_count_eq [of u] assms(2,3) by simp
  from fixed_bytes.list_codec [OF columns_okD(9) [OF assms(1)] this]
  show ?thesis by (simp add: decode_tx_tos_def encode_tx_tos_def)
qed

lemma decode_tx_data_enc:
  assumes "columns_ok t" and "items_ok rlp t" and "stx_total_block_tx_count u = stx_total_block_tx_count t"
    and "stx_legacy_tx_count u = 0"
  shows "decode_tx_data rlp u (encode_tx_data t @ r) =
    Inr (u\<lparr>stx_tx_data := stx_tx_data t, stx_tx_types := stx_tx_types t,
           stx_legacy_tx_count := stx_legacy_tx_count t\<rparr>, r)"
proof -
  let ?is = "zip (stx_tx_data t) (stx_tx_types t)"
  note l = columns_okD(6,7,10) [OF assms(1)]
  have item: "read_tx_data rlp (fst x @ r) = Inr (x, r)" if "x \<in> set ?is" for x r
    using assms(2) that by (auto simp: items_ok_def list_all2_iff tx_item_ok_def)
  then have "read_each (\<lambda>_. read_tx_data rlp) [0..<unat (stx_total_block_tx_count t)] (concat (map fst ?is) @ r) =
      Inr (?is, r)"
    using l by (intro read_each_encode item) (auto dest: set_zip_rightD)
  moreover have "length (filter (\<lambda>i. snd i = TyLegacy) ?is) = length (filter (\<lambda>ty. ty = TyLegacy) (map snd ?is))"
    by (simp add: filter_map comp_def)
  moreover have "map fst ?is = stx_tx_data t" "map snd ?is = stx_tx_types t" using l by simp_all
  moreover have "word_of_nat (length (filter (\<lambda>ty. ty = TyLegacy) (stx_tx_types t))) = stx_legacy_tx_count t"
    by (simp only: l(3) [symmetric] of_nat_unat ucast_id)
  ultimately show ?thesis
    using assms(3,4) by (simp add: decode_tx_data_def encode_tx_data_def del: map_fst_zip map_snd_zip)
qed

lemma decode_tx_nonces_enc:
  assumes "varint_ok vi" "columns_ok t" and "stx_total_block_tx_count u = stx_total_block_tx_count t"
  shows "decode_tx_nonces vi u (encode_tx_nonces vi t @ r) = Inr (u\<lparr>stx_tx_nonces := stx_tx_nonces t\<rparr>, r)"
  using wire_codec.list_codec [OF varint_codec [OF assms(1)], of "stx_tx_nonces t" "[0..<unat (stx_total_block_tx_count t)]" TxNonces] columns_okD(4) [OF assms(2)] assms(3)
  by (simp add: decode_tx_nonces_def encode_tx_nonces_def list_all_iff)

lemma decode_tx_gases_enc:
  assumes "varint_ok vi" "columns_ok t" and "stx_total_block_tx_count u = stx_total_block_tx_count t"
  shows "decode_tx_gases vi u (encode_tx_gases vi t @ r) = Inr (u\<lparr>stx_tx_gases := stx_tx_gases t\<rparr>, r)"
  using wire_codec.list_codec [OF varint_codec [OF assms(1)], of "stx_tx_gases t" "[0..<unat (stx_total_block_tx_count t)]" TxNonces] columns_okD(5) [OF assms(2)] assms(3)
  by (simp add: decode_tx_gases_def encode_tx_gases_def list_all_iff)

lemma decode_protected_bits_enc:
  assumes "columns_ok t" and "stx_legacy_tx_count u = stx_legacy_tx_count t"
  shows "decode_protected_bits u (stx_protected_bits t @ r) = Inr (u\<lparr>stx_protected_bits := stx_protected_bits t\<rparr>, r)"
proof -
  note c = columns_okD(1,7,10,11) [OF assms(1)]
  have "unat (stx_legacy_tx_count t) \<le> unat MAX_SPAN_BATCH_ELEMENTS"
    using c length_filter_le [of "\<lambda>ty. ty = TyLegacy" "stx_tx_types t"] by simp
  then show ?thesis
    using c(4) assms(2) by (simp add: decode_protected_bits_def bits_ok_decode word_less_nat_alt not_less)
qed

lemma decode_eip8130_auth_data_enc:
  assumes "varint_ok vi" "columns_ok t" and "stx_tx_types u = stx_tx_types t"
  shows "decode_eip8130_auth_data vi u (encode_eip8130_auth_data vi t @ r) =
    Inr (u\<lparr>stx_eip8130_auth_data := stx_eip8130_auth_data t\<rparr>, r)"
proof -
  let ?enc = "\<lambda>(a, b). encode_proof vi a @ encode_proof vi b"
  note c = columns_okD(12,13) [OF assms(2)]
  have "read_each (\<lambda>_ r.
         and_then (decode_eip8130_proof vi r) (\<lambda>(sender_proof, r).
         and_then (decode_eip8130_proof vi r) (\<lambda>(payer_proof, r).
           Inr ((sender_proof, payer_proof), r))))
         (filter (\<lambda>ty. ty = TyEip8130) (stx_tx_types t)) (concat (map ?enc (stx_eip8130_auth_data t)) @ r) =
      Inr (stx_eip8130_auth_data t, r)"
    using c wire_codec.dec_enc [OF proof_codec [OF assms(1)]]
    by (intro read_each_encode) (auto simp: list_all_iff dest!: set_zip_rightD)
  then show ?thesis using assms(3) by (simp add: decode_eip8130_auth_data_def encode_eip8130_auth_data_def)
qed

lemma span_txs_roundtrip:
  assumes "varint_ok vi" "columns_ok t" "items_ok rlp t"
    and "stx_total_block_tx_count u = stx_total_block_tx_count t" and "stx_legacy_tx_count u = 0"
  shows "\<exists>bs. span_txs_encode vi t = Inr bs \<and> span_txs_decode vi rlp u (bs @ r) = Inr (t, r)"
proof -
  note c = columns_okD [OF assms(2)]
  have "bits_ok (unat (stx_total_block_tx_count t)) (y_parity_bits (stx_tx_sigs t))"
    using bits_rep_ok [OF y_parity_bits_rep] c(3) by (metis length_map)
  then have e: "span_txs_encode vi t = Inr (stx_contract_creation_bits t @
      (y_parity_bits (stx_tx_sigs t) @ concat (map sig_bytes (stx_tx_sigs t))) @ encode_tx_tos t @ encode_tx_data t @
      encode_tx_nonces vi t @ encode_tx_gases vi t @ stx_protected_bits t @ encode_eip8130_auth_data vi t)"
    using c(2,11) by (simp add: span_txs_encode_def encode_contract_creation_bits_def encode_tx_sigs_def
        encode_protected_bits_def bits_ok_encode)
  show ?thesis
    using assms
    by (simp add: e span_txs_decode_def decode_contract_creation_bits_enc decode_tx_sigs_enc decode_tx_tos_enc
        decode_tx_data_enc decode_tx_nonces_enc decode_tx_gases_enc decode_protected_bits_enc
        decode_eip8130_auth_data_enc)
qed

section \<open>Payload and raw span batches\<close>

lemma checked_total_iff:
  "checked_total acc ns = Inr m \<longleftrightarrow> unat m = unat acc + sum_list (map unat ns)"
proof (induction ns arbitrary: acc)
  case (Cons n ns)
  show ?case
  proof (cases "checked_add acc n")
    case None
    then have "2 ^ 64 \<le> unat acc + unat n" by (auto simp: checked_add_def split: if_splits)
    moreover have "unat m < 2 ^ 64" using unsigned_less [of m, where ?'a = nat] by simp
    ultimately show ?thesis using None by simp
  next
    case (Some k)
    then have "unat k = unat acc + unat n" by (simp add: checked_add_Some)
    then show ?thesis using Some Cons.IH [of k] by (simp add: add.assoc)
  qed
qed (auto simp: word_unat_eq_iff)

lemma checked_total_no_panic: "no_panic (checked_total acc ns)"
  by (induction ns arbitrary: acc) (auto split: option.split)

definition payload_ok :: "span_payload \<Rightarrow> bool" where
  "payload_ok p \<longleftrightarrow>
     pl_block_count p \<noteq> 0 \<and> pl_block_count p \<le> MAX_SPAN_BATCH_ELEMENTS \<and>
     bits_ok (unat (pl_block_count p)) (pl_origin_bits p) \<and>
     length (pl_block_tx_counts p) = unat (pl_block_count p) \<and>
     list_all (\<lambda>n. n \<le> MAX_SPAN_BATCH_ELEMENTS) (pl_block_tx_counts p) \<and>
     sum_list (map unat (pl_block_tx_counts p)) = unat (stx_total_block_tx_count (pl_txs p)) \<and>
     columns_ok (pl_txs p)"

definition raw_ok :: "raw_span_batch \<Rightarrow> bool" where
  "raw_ok raw \<longleftrightarrow>
     length (pf_parent_check (raw_prefix raw)) = 20 \<and> length (pf_l1_origin_check (raw_prefix raw)) = 20 \<and>
     payload_ok (raw_payload raw)"

lemma decode_prefix_enc:
  assumes "varint_ok vi" and "length (pf_parent_check p) = 20" and "length (pf_l1_origin_check p) = 20"
  shows "decode_prefix vi (encode_prefix vi p @ r) = Inr (p, r)"
  using assms(2,3) wire_codec.dec_enc [OF varint_codec [OF assms(1)]]
  by (simp add: decode_prefix_def encode_prefix_def decode_rel_timestamp_def decode_l1_origin_num_def
      decode_parent_check_def decode_l1_origin_check_def fixed_bytes.dec_enc)

lemma decode_prefix_sound:
  "decode_prefix vi r = Inr (p, r') \<Longrightarrow> length (pf_parent_check p) = 20 \<and> length (pf_l1_origin_check p) = 20"
  by (auto simp: decode_prefix_def decode_rel_timestamp_def decode_l1_origin_num_def decode_parent_check_def
      decode_l1_origin_check_def and_then_Inr_iff read_fixed_def split: if_splits)

lemma decode_payload_enc:
  assumes "varint_ok vi" "payload_ok p" "items_ok rlp (pl_txs p)"
  shows "\<exists>bs. encode_payload vi p = Inr bs \<and> decode_payload vi rlp (bs @ r) = Inr (p, r)"
proof -
  let ?u = "span_txs_default\<lparr>stx_total_block_tx_count := stx_total_block_tx_count (pl_txs p)\<rparr>"
  note p = assms(2) [unfolded payload_ok_def]
  obtain ts where ts: "span_txs_encode vi (pl_txs p) = Inr ts"
    "span_txs_decode vi rlp ?u (ts @ r) = Inr (pl_txs p, r)"
    using span_txs_roundtrip [of vi "pl_txs p" rlp ?u r] assms p by (auto simp: span_txs_default_def)
  have counts: "read_each (\<lambda>_. read_tx_count vi) [0..<unat (pl_block_count p)]
      (encode_block_tx_counts vi p @ ts @ r) = Inr (pl_block_tx_counts p, ts @ r)"
    using wire_codec.list_codec [OF tx_count_codec [OF assms(1)], of "pl_block_tx_counts p"
        "[0..<unat (pl_block_count p)]" "ts @ r"] p
    by (simp add: encode_block_tx_counts_def)
  have "stx_total_block_tx_count (pl_txs p) \<le> MAX_SPAN_BATCH_ELEMENTS"
    using columns_okD(1) [of "pl_txs p"] p by (simp add: word_le_nat_alt)
  moreover have "checked_total 0 (pl_block_tx_counts p) = Inr (stx_total_block_tx_count (pl_txs p))"
    using p by (simp add: checked_total_iff)
  moreover have "pl_block_tx_counts p \<noteq> []" using p by (auto simp: unat_eq_zero)
  ultimately show ?thesis
    using p ts counts wire_codec.dec_enc [OF varint_codec [OF assms(1)]]
    by (simp add: encode_payload_def decode_payload_def encode_origin_bits_def decode_block_count_def
        decode_origin_bits_def decode_block_tx_counts_def decode_txs_def bits_ok_encode bits_ok_decode
        span_payload_default_def not_less [symmetric])
qed

lemma decode_payload_sound:
  assumes "decode_payload vi rlp r = Inr (p, r')"
  shows "payload_ok p"
proof -
  obtain n r1 bits r2 counts r3 total_count t
    where n: "n \<noteq> 0" "n \<le> MAX_SPAN_BATCH_ELEMENTS" and bits: "bits_decode (unat n) r1 = Inr (bits, r2)"
      and counts: "read_each (\<lambda>_. read_tx_count vi) [0..<unat n] r2 = Inr (counts, r3)"
      and tc: "checked_total 0 counts = Inr total_count" "total_count \<le> MAX_SPAN_BATCH_ELEMENTS"
      and t: "span_txs_decode vi rlp (span_txs_default\<lparr>stx_total_block_tx_count := total_count\<rparr>) r3 = Inr (t, r')"
      and p: "p = \<lparr>pl_block_count = n, pl_origin_bits = bits, pl_block_tx_counts = counts, pl_txs = t\<rparr>"
    using assms by (auto simp: decode_payload_def decode_block_count_def decode_origin_bits_def
        decode_block_tx_counts_def decode_txs_def span_payload_default_def and_then_Inr_iff split: if_splits)
  have "columns_ok t \<and> stx_total_block_tx_count t = total_count"
    using span_txs_decode_sound [OF t] tc(2) by (simp add: span_txs_default_def word_le_nat_alt)
  moreover have "list_all (\<lambda>n. n \<le> MAX_SPAN_BATCH_ELEMENTS) counts"
    by (rule read_each_all [OF _ counts]) (auto simp: read_tx_count_def and_then_Inr_iff split: if_splits)
  ultimately show ?thesis
    using n tc(1) bits_decode_ok [OF bits] read_each_length [OF counts]
    by (simp add: p payload_ok_def checked_total_iff)
qed

lemma raw_span_decode_sound: "raw_span_decode vi rlp r = Inr (raw, r') \<Longrightarrow> raw_ok raw"
  by (auto simp: raw_span_decode_def and_then_Inr_iff raw_ok_def dest: decode_prefix_sound decode_payload_sound)

section \<open>Decoding does not panic\<close>

named_theorems calm

lemma read_varint_calm [calm]: "no_panic (read_varint vi e r)"
  by (simp add: read_varint_def split: option.split)

lemma read_fixed_calm [calm]: "no_panic (read_fixed n e r)"
  by (simp add: read_fixed_def)

lemma read_tx_data_calm [calm]: "no_panic (read_tx_data rlp r)"
  by (auto simp: read_tx_data_def Let_def split: list.split option.split)

lemma read_tx_count_calm [calm]: "no_panic (read_tx_count vi r)"
  by (auto simp: read_tx_count_def calm)

lemma decode_eip8130_proof_calm [calm]: "no_panic (decode_eip8130_proof vi r)"
  by (auto simp: decode_eip8130_proof_def calm)

lemma read_sig_calm: "bits_ok n bits \<Longrightarrow> i < n \<Longrightarrow> no_panic (read_sig bits i r)"
  using bits_ok_get [of n bits i] by (auto simp: read_sig_def)

lemma decode_prefix_calm [calm]: "no_panic (decode_prefix vi r)"
  by (auto simp: decode_prefix_def decode_rel_timestamp_def decode_l1_origin_num_def decode_parent_check_def
      decode_l1_origin_check_def calm)

lemma decode_tx_sigs_calm [calm]: "no_panic (decode_tx_sigs t r)"
  by (auto simp: decode_tx_sigs_def Let_def intro!: read_each_no_panic read_sig_calm dest: bits_decode_ok)

lemma span_txs_decode_calm [calm]: "no_panic (span_txs_decode vi rlp t r)"
  by (auto simp: span_txs_decode_def decode_contract_creation_bits_def decode_protected_bits_def
      decode_tx_tos_def decode_tx_data_def decode_tx_nonces_def decode_tx_gases_def
      decode_eip8130_auth_data_def calm intro!: read_each_no_panic)

lemma decode_payload_calm [calm]: "no_panic (decode_payload vi rlp r)"
  by (auto simp: decode_payload_def decode_block_count_def decode_origin_bits_def decode_block_tx_counts_def
      decode_txs_def calm checked_total_no_panic intro!: read_each_no_panic)

lemma raw_span_decode_calm [calm]: "no_panic (raw_span_decode vi rlp r)"
  by (auto simp: raw_span_decode_def calm)

lemma raw_span_enc_dec:
  assumes "varint_ok vi" and "raw_ok raw" and "items_ok rlp (pl_txs (raw_payload raw))"
  shows "\<exists>bs. raw_span_encode vi raw = Inr bs \<and> raw_span_decode vi rlp (bs @ r) = Inr (raw, r)"
proof -
  obtain bs where "encode_payload vi (raw_payload raw) = Inr bs"
    "decode_payload vi rlp (bs @ r) = Inr (raw_payload raw, r)"
    using decode_payload_enc [OF assms(1) _ assms(3)] assms(2) by (auto simp: raw_ok_def)
  then show ?thesis
    using decode_prefix_enc [OF assms(1), of "raw_prefix raw" "bs @ r"] assms(2)
    by (simp add: raw_span_encode_def raw_span_decode_def raw_ok_def)
qed

text \<open>
  The wire format of span batches: a raw span batch with consistent columns is encoded
  without an error, and decoding the bytes, whatever follows them, gives it back.
\<close>

theorem raw_span_roundtrip:
  assumes "varint_ok vi" and "raw_ok raw" and "items_ok rlp (pl_txs (raw_payload raw))"
  shows "\<exists>bs. raw_span_encode vi raw = Inr bs \<and> raw_span_decode vi rlp (bs @ r) = Inr (raw, r)"
  using assms by (rule raw_span_enc_dec)

theorem raw_span_roundtrip_witness:
  fixes txs raw
  defines "txs \<equiv> \<lparr>stx_total_block_tx_count = 1, stx_contract_creation_bits = [0],
      stx_tx_sigs = [\<lparr>sig_r = 11, sig_s = 12, sig_v = True\<rparr>], stx_tx_nonces = [300], stx_tx_gases = [21000],
      stx_tx_tos = [replicate 20 3], stx_tx_data = [[0xC0]], stx_protected_bits = [1],
      stx_tx_types = [TyLegacy], stx_legacy_tx_count = 1, stx_eip8130_auth_data = []\<rparr>"
    and "raw \<equiv> \<lparr>raw_prefix = \<lparr>pf_rel_timestamp = 5, pf_l1_origin_num = 7, pf_parent_check = replicate 20 1,
        pf_l1_origin_check = replicate 20 2\<rparr>,
      raw_payload = \<lparr>pl_block_count = 1, pl_origin_bits = [1], pl_block_tx_counts = [1], pl_txs = txs\<rparr>\<rparr>"
  shows "raw_ok raw \<and> items_ok rlp_format txs \<and>
    (\<exists>bs. raw_span_encode leb128 raw = Inr bs \<and> raw_span_decode leb128 rlp_format (bs @ [9]) = Inr (raw, [9]))"
proof -
  have bits: "bits_ok 1 [0]" "bits_ok 1 [1]" by (simp_all add: bits_ok_def bits_buffer_len_def from_be_def)
  have "count_ones 0 = 0" by (simp add: count_ones_def)
  then have cols: "columns_ok txs"
    using bits by (simp add: columns_ok_def txs_def MAX_SPAN_BATCH_ELEMENTS_def)
  then have raw: "raw_ok raw"
    using bits by (simp add: raw_ok_def payload_ok_def raw_def txs_def MAX_SPAN_BATCH_ELEMENTS_def)
  have "read_tx_data rlp_format ([0xC0] @ r) = Inr (([0xC0], TyLegacy), r)" for r
    by (simp add: read_tx_data_def rlp_format_def rlp_format_read_header_def rlp_format_header_def
        MAX_SPAN_BATCH_ELEMENTS_def tx_type_of_def)
  then have items: "items_ok rlp_format txs" by (simp add: items_ok_def txs_def tx_item_ok_def)
  moreover have "pl_txs (raw_payload raw) = txs" by (simp add: raw_def)
  ultimately show ?thesis
    using raw raw_span_roundtrip [OF leb128_ok raw, of rlp_format "[9]"] by simp
qed

end
