(* ===== verification/Span_Txs.thy ===== *)
theory Span_Txs
  imports Span_Codec Deposit_Txs
begin

text \<open>
  Transactions in span batches (\<open>src/crates/consensus/protocol/src/batch/\<close>: \<open>tx_data/\<close>, \<open>transactions.rs\<close>,
  \<open>raw.rs\<close>, \<open>span.rs\<close>): taking an enveloped transaction apart into the columns, putting the columns
  together again, deriving the blocks of a span, and building a span from singular batches.
  The types are records of the fields the code reads. The codecs of the envelope and of the account changes and calls of an
  EIP-8130 transaction (\<open>src/crates/common/consensus/src/transaction/\<close>: \<open>envelope.rs\<close>, \<open>eip8130/\<close>) are code of the repository
  that is not modelled; like the RLP codecs that derive macros of a third-party crate generate, they are a
  parameter, with round-trip hypotheses. A cached transaction hash is
  not part of a signed transaction here, as no encoding reads it. The lemmas show that the
  columns carry every transaction, and that a span built from singular batches derives back
  into them.
\<close>

section \<open>Transactions\<close>

typedecl access_list
typedecl signed_authorization
typedecl account_change
typedecl aa_call

record tx_legacy =
  lg_chain_id :: "u64 option"
  lg_nonce :: u64
  lg_gas_price :: u128
  lg_gas_limit :: u64
  lg_to :: "address option"
  lg_value :: u256
  lg_input :: bytes

record tx_eip2930 =
  t1_chain_id :: u64
  t1_nonce :: u64
  t1_gas_price :: u128
  t1_gas_limit :: u64
  t1_to :: "address option"
  t1_value :: u256
  t1_input :: bytes
  t1_access_list :: access_list

record tx_eip1559 =
  t2_chain_id :: u64
  t2_nonce :: u64
  t2_gas_limit :: u64
  t2_max_fee_per_gas :: u128
  t2_max_priority_fee_per_gas :: u128
  t2_to :: "address option"
  t2_value :: u256
  t2_input :: bytes
  t2_access_list :: access_list

record tx_eip7702 =
  t4_chain_id :: u64
  t4_nonce :: u64
  t4_gas_limit :: u64
  t4_max_fee_per_gas :: u128
  t4_max_priority_fee_per_gas :: u128
  t4_to :: address
  t4_value :: u256
  t4_input :: bytes
  t4_access_list :: access_list
  t4_authorization_list :: "signed_authorization list"

record tx_eip8130 =
  aa_chain_id :: u64
  aa_sender :: "address option"
  aa_nonce_key :: u256
  aa_nonce_sequence :: u64
  aa_valid_after :: u64
  aa_valid_before :: u64
  aa_max_priority_fee_per_gas :: u128
  aa_max_fee_per_gas :: u128
  aa_gas_limit :: u64
  aa_account_changes :: "account_change list"
  aa_calls :: "aa_call list list"
  aa_metadata :: bytes
  aa_payer :: "address option"

record eip8130_signed =
  aas_tx :: tx_eip8130
  aas_sender_auth :: bytes
  aas_payer_auth :: bytes

datatype base_tx_envelope =
    EnvLegacy tx_legacy signature
  | EnvEip2930 tx_eip2930 signature
  | EnvEip1559 tx_eip1559 signature
  | EnvEip7702 tx_eip7702 signature
  | EnvDeposit tx_deposit
  | EnvEip8130 eip8130_signed

fun env_tx_type :: "base_tx_envelope \<Rightarrow> op_tx_type" where
  "env_tx_type (EnvLegacy _ _) = TyLegacy"
| "env_tx_type (EnvEip2930 _ _) = TyEip2930"
| "env_tx_type (EnvEip1559 _ _) = TyEip1559"
| "env_tx_type (EnvEip7702 _ _) = TyEip7702"
| "env_tx_type (EnvDeposit _) = TyDeposit"
| "env_tx_type (EnvEip8130 _) = TyEip8130"

section \<open>Transaction data\<close>

record data_legacy =
  d0_value :: u256
  d0_gas_price :: u256
  d0_data :: bytes

record data_eip2930 =
  d1_value :: u256
  d1_gas_price :: u256
  d1_data :: bytes
  d1_access_list :: access_list

record data_eip1559 =
  d2_value :: u256
  d2_max_priority_fee_per_gas :: u256
  d2_max_fee_per_gas :: u256
  d2_data :: bytes
  d2_access_list :: access_list

record data_eip7702 =
  d4_value :: u256
  d4_max_priority_fee_per_gas :: u256
  d4_max_fee_per_gas :: u256
  d4_data :: bytes
  d4_access_list :: access_list
  d4_authorization_list :: "signed_authorization list"

record data_eip8130 =
  d8_sender :: "address option"
  d8_nonce_key :: u256
  d8_valid_after :: u64
  d8_valid_before :: u64
  d8_max_priority_fee_per_gas :: u128
  d8_max_fee_per_gas :: u128
  d8_payer :: "address option"
  d8_account_changes :: "account_change list"
  d8_calls :: "aa_call list list"
  d8_metadata :: bytes
  d8_sender_authenticator :: bytes
  d8_payer_authenticator :: bytes

datatype span_tx_data =
    DataLegacy data_legacy
  | DataEip2930 data_eip2930
  | DataEip1559 data_eip1559
  | DataEip7702 data_eip7702
  | DataEip8130 data_eip8130

fun data_tx_type :: "span_tx_data \<Rightarrow> op_tx_type" where
  "data_tx_type (DataLegacy _) = TyLegacy"
| "data_tx_type (DataEip2930 _) = TyEip2930"
| "data_tx_type (DataEip1559 _) = TyEip1559"
| "data_tx_type (DataEip7702 _) = TyEip7702"
| "data_tx_type (DataEip8130 _) = TyEip8130"

text \<open>
  The codecs that are parameters: the RLP codecs that a third-party derive macro generates for the four older kinds of
  data; and, from the repository and not modelled, those of the vectors in an EIP-8130 transaction (\<open>AccountChange\<close> and
  \<open>Call\<close> in \<open>eip8130/\<close>) and \<open>encode_2718\<close> and \<open>decode\<close> of the envelope.
\<close>

record 'a codec =
  cd_encode :: "'a \<Rightarrow> bytes"
  cd_decode :: "bytes \<Rightarrow> ('a \<times> bytes) option"

record tx_codecs =
  tc_rlp :: rlp
  tc_legacy :: "data_legacy codec"
  tc_eip2930 :: "data_eip2930 codec"
  tc_eip1559 :: "data_eip1559 codec"
  tc_eip7702 :: "data_eip7702 codec"
  tc_account_changes :: "account_change list codec"
  tc_calls :: "aa_call list list codec"
  tc_env_encode :: "base_tx_envelope \<Rightarrow> bytes"
  tc_env_decode :: "bytes \<Rightarrow> base_tx_envelope option"

section \<open>EIP-8130 data\<close>

definition OPEN_PAYER :: address where
  "OPEN_PAYER = replicate 20 0"

definition encode_address_opt :: "rlp \<Rightarrow> address option \<Rightarrow> bytes" where
  "encode_address_opt rlp addr =
     (case addr of None \<Rightarrow> rlp_bytes_encode rlp [] | Some a \<Rightarrow> rlp_bytes_encode rlp a)"

definition address_opt_encoded_length :: "address option \<Rightarrow> nat" where
  "address_opt_encoded_length addr = (case addr of None \<Rightarrow> 1 | Some _ \<Rightarrow> 21)"

definition decode_address_opt :: "rlp \<Rightarrow> bytes \<Rightarrow> (address option \<times> bytes) option" where
  "decode_address_opt rlp buf =
     (case rlp_bytes_decode rlp buf of
        None \<Rightarrow> None
      | Some (raw, buf) \<Rightarrow>
          if length raw = 0 then Some (None, buf)
          else if length raw = 20 then Some (Some raw, buf)
          else None)"

definition split_auth :: "bytes \<Rightarrow> bool \<Rightarrow> span_batch_error failure + (bytes \<times> bytes)" where
  "split_auth blob configured =
     (if \<not> configured then Inr ([], blob)
      else if length blob < 20 then dec_fails InvalidAuthData
      else Inr (take 20 blob, drop 20 blob))"

definition named_payer :: "address option \<Rightarrow> bool" where
  "named_payer payer = (case payer of None \<Rightarrow> False | Some p \<Rightarrow> p \<noteq> OPEN_PAYER)"

definition join_auth :: "bytes \<Rightarrow> bytes \<Rightarrow> bool \<Rightarrow> bytes" where
  "join_auth authenticator proof configured =
     (if \<not> configured then proof else if proof = [] then authenticator else authenticator @ proof)"

definition validate_authenticator :: "bytes \<Rightarrow> bool \<Rightarrow> bool" where
  "validate_authenticator authenticator configured =
     (if configured then length authenticator = 20 else authenticator = [])"

definition eip8130_to_tx :: "data_eip8130 \<Rightarrow> u64 \<Rightarrow> u64 \<Rightarrow> u64 \<Rightarrow> bytes \<Rightarrow> bytes \<Rightarrow> eip8130_signed" where
  "eip8130_to_tx d chain_id nonce gas sender_proof payer_proof =
     \<lparr>aas_tx = \<lparr>aa_chain_id = chain_id, aa_sender = d8_sender d, aa_nonce_key = d8_nonce_key d,
        aa_nonce_sequence = nonce, aa_valid_after = d8_valid_after d, aa_valid_before = d8_valid_before d,
        aa_max_priority_fee_per_gas = d8_max_priority_fee_per_gas d,
        aa_max_fee_per_gas = d8_max_fee_per_gas d, aa_gas_limit = gas,
        aa_account_changes = d8_account_changes d, aa_calls = d8_calls d, aa_metadata = d8_metadata d,
        aa_payer = d8_payer d\<rparr>,
      aas_sender_auth = join_auth (d8_sender_authenticator d) sender_proof (d8_sender d \<noteq> None),
      aas_payer_auth = join_auth (d8_payer_authenticator d) payer_proof (named_payer (d8_payer d))\<rparr>"

text \<open>\<open>length()\<close> of an encodable value is the length of its encoding.\<close>

definition eip8130_fields_length :: "tx_codecs \<Rightarrow> data_eip8130 \<Rightarrow> nat" where
  "eip8130_fields_length tc d =
     (let rlp = tc_rlp tc; uint = (\<lambda>n. length (rlp_uint_encode rlp n)) in
      address_opt_encoded_length (d8_sender d) + uint (unat (d8_nonce_key d)) +
      uint (unat (d8_valid_after d)) + uint (unat (d8_valid_before d)) +
      uint (unat (d8_max_priority_fee_per_gas d)) + uint (unat (d8_max_fee_per_gas d)) +
      address_opt_encoded_length (d8_payer d) +
      length (cd_encode (tc_account_changes tc) (d8_account_changes d)) +
      length (cd_encode (tc_calls tc) (d8_calls d)) + length (rlp_bytes_encode rlp (d8_metadata d)) +
      length (rlp_bytes_encode rlp (d8_sender_authenticator d)) +
      length (rlp_bytes_encode rlp (d8_payer_authenticator d)))"

definition eip8130_encode :: "tx_codecs \<Rightarrow> data_eip8130 \<Rightarrow> bytes" where
  "eip8130_encode tc d =
     (let rlp = tc_rlp tc in
      rlp_header_encode rlp True (eip8130_fields_length tc d) @
      encode_address_opt rlp (d8_sender d) @ rlp_uint_encode rlp (unat (d8_nonce_key d)) @
      rlp_uint_encode rlp (unat (d8_valid_after d)) @ rlp_uint_encode rlp (unat (d8_valid_before d)) @
      rlp_uint_encode rlp (unat (d8_max_priority_fee_per_gas d)) @
      rlp_uint_encode rlp (unat (d8_max_fee_per_gas d)) @ encode_address_opt rlp (d8_payer d) @
      cd_encode (tc_account_changes tc) (d8_account_changes d) @ cd_encode (tc_calls tc) (d8_calls d) @
      rlp_bytes_encode rlp (d8_metadata d) @ rlp_bytes_encode rlp (d8_sender_authenticator d) @
      rlp_bytes_encode rlp (d8_payer_authenticator d))"

definition eip8130_decode :: "tx_codecs \<Rightarrow> bytes \<Rightarrow> (data_eip8130 \<times> bytes) option" where
  "eip8130_decode tc buf =
     (let rlp = tc_rlp tc in
      dec_then (rlp_header_decode rlp buf) (\<lambda>(lst, payload_length) buf.
      if \<not> lst then None
      else let started = length buf in
        dec_then (decode_address_opt rlp buf) (\<lambda>sender buf.
        dec_then (rlp_uint_decode rlp 32 buf) (\<lambda>nonce_key buf.
        dec_then (rlp_uint_decode rlp 8 buf) (\<lambda>valid_after buf.
        dec_then (rlp_uint_decode rlp 8 buf) (\<lambda>valid_before buf.
        dec_then (rlp_uint_decode rlp 16 buf) (\<lambda>max_priority_fee_per_gas buf.
        dec_then (rlp_uint_decode rlp 16 buf) (\<lambda>max_fee_per_gas buf.
        dec_then (decode_address_opt rlp buf) (\<lambda>payer buf.
        dec_then (cd_decode (tc_account_changes tc) buf) (\<lambda>account_changes buf.
        dec_then (cd_decode (tc_calls tc) buf) (\<lambda>calls buf.
        dec_then (rlp_bytes_decode rlp buf) (\<lambda>metadata buf.
        dec_then (rlp_bytes_decode rlp buf) (\<lambda>sender_authenticator buf.
        dec_then (rlp_bytes_decode rlp buf) (\<lambda>payer_authenticator buf.
          if \<not> validate_authenticator sender_authenticator (sender \<noteq> None) then None
          else if \<not> validate_authenticator payer_authenticator (named_payer payer) then None
          else if started - length buf \<noteq> payload_length then None
          else Some (\<lparr>d8_sender = sender, d8_nonce_key = word_of_nat nonce_key,
            d8_valid_after = word_of_nat valid_after, d8_valid_before = word_of_nat valid_before,
            d8_max_priority_fee_per_gas = word_of_nat max_priority_fee_per_gas,
            d8_max_fee_per_gas = word_of_nat max_fee_per_gas, d8_payer = payer,
            d8_account_changes = account_changes, d8_calls = calls, d8_metadata = metadata,
            d8_sender_authenticator = sender_authenticator,
            d8_payer_authenticator = payer_authenticator\<rparr>, buf)))))))))))))))"

section \<open>Data of a transaction\<close>

definition data_encode :: "tx_codecs \<Rightarrow> span_tx_data \<Rightarrow> bytes" where
  "data_encode tc d =
     (case d of
        DataLegacy d \<Rightarrow> cd_encode (tc_legacy tc) d
      | DataEip2930 d \<Rightarrow> tx_type_byte TyEip2930 # cd_encode (tc_eip2930 tc) d
      | DataEip1559 d \<Rightarrow> tx_type_byte TyEip1559 # cd_encode (tc_eip1559 tc) d
      | DataEip7702 d \<Rightarrow> tx_type_byte TyEip7702 # cd_encode (tc_eip7702 tc) d
      | DataEip8130 d \<Rightarrow> tx_type_byte TyEip8130 # eip8130_encode tc d)"

definition decode_typed :: "tx_codecs \<Rightarrow> bytes \<Rightarrow> span_tx_data option" where
  "decode_typed tc b =
     (if length b \<le> 1 then None
      else case tx_type_of (b ! 0) of
        Some TyEip2930 \<Rightarrow> map_option (\<lambda>(d, _). DataEip2930 d) (cd_decode (tc_eip2930 tc) (tl b))
      | Some TyEip1559 \<Rightarrow> map_option (\<lambda>(d, _). DataEip1559 d) (cd_decode (tc_eip1559 tc) (tl b))
      | Some TyEip7702 \<Rightarrow> map_option (\<lambda>(d, _). DataEip7702 d) (cd_decode (tc_eip7702 tc) (tl b))
      | Some TyEip8130 \<Rightarrow> map_option (\<lambda>(d, _). DataEip8130 d) (eip8130_decode tc (tl b))
      | _ \<Rightarrow> None)"

definition data_decode :: "tx_codecs \<Rightarrow> bytes \<Rightarrow> span_tx_data option" where
  "data_decode tc r =
     (if r \<noteq> [] \<and> r ! 0 > 0x7F then map_option (\<lambda>(d, _). DataLegacy d) (cd_decode (tc_legacy tc) r)
      else decode_typed tc r)"

definition data_of_envelope :: "base_tx_envelope \<Rightarrow> span_batch_error failure + span_tx_data" where
  "data_of_envelope env =
     (case env of
        EnvLegacy s _ \<Rightarrow>
          Inr (DataLegacy \<lparr>d0_value = lg_value s, d0_gas_price = ucast (lg_gas_price s), d0_data = lg_input s\<rparr>)
      | EnvEip2930 s _ \<Rightarrow>
          Inr (DataEip2930 \<lparr>d1_value = t1_value s, d1_gas_price = ucast (t1_gas_price s),
            d1_data = t1_input s, d1_access_list = t1_access_list s\<rparr>)
      | EnvEip1559 s _ \<Rightarrow>
          Inr (DataEip1559 \<lparr>d2_value = t2_value s,
            d2_max_priority_fee_per_gas = ucast (t2_max_priority_fee_per_gas s),
            d2_max_fee_per_gas = ucast (t2_max_fee_per_gas s), d2_data = t2_input s,
            d2_access_list = t2_access_list s\<rparr>)
      | EnvEip7702 s _ \<Rightarrow>
          Inr (DataEip7702 \<lparr>d4_value = t4_value s,
            d4_max_priority_fee_per_gas = ucast (t4_max_priority_fee_per_gas s),
            d4_max_fee_per_gas = ucast (t4_max_fee_per_gas s), d4_data = t4_input s,
            d4_access_list = t4_access_list s, d4_authorization_list = t4_authorization_list s\<rparr>)
      | EnvEip8130 aas \<Rightarrow>
          let tx = aas_tx aas in
          and_then (split_auth (aas_sender_auth aas) (aa_sender tx \<noteq> None)) (\<lambda>(sender_authenticator, _).
          and_then (split_auth (aas_payer_auth aas) (named_payer (aa_payer tx))) (\<lambda>(payer_authenticator, _).
            Inr (DataEip8130 \<lparr>d8_sender = aa_sender tx, d8_nonce_key = aa_nonce_key tx,
              d8_valid_after = aa_valid_after tx, d8_valid_before = aa_valid_before tx,
              d8_max_priority_fee_per_gas = aa_max_priority_fee_per_gas tx,
              d8_max_fee_per_gas = aa_max_fee_per_gas tx, d8_payer = aa_payer tx,
              d8_account_changes = aa_account_changes tx, d8_calls = aa_calls tx,
              d8_metadata = aa_metadata tx, d8_sender_authenticator = sender_authenticator,
              d8_payer_authenticator = payer_authenticator\<rparr>)))
      | EnvDeposit _ \<Rightarrow> dec_fails InvalidTransactionType)"

text \<open>\<open>u128::from_be_bytes(x.to_be_bytes::<32>()[16..])\<close>.\<close>

definition low_u128 :: "u256 \<Rightarrow> u128" where
  "low_u128 x = word_of_nat (from_be (drop 16 (to_be 32 (unat x))))"

text \<open>\<open>to_signed_tx\<close> of each kind of data; a hash of the transaction is cached with it and left out here.\<close>

definition legacy_to_signed_tx ::
    "data_legacy \<Rightarrow> u64 \<Rightarrow> u64 \<Rightarrow> address option \<Rightarrow> u64 \<Rightarrow> bool \<Rightarrow> tx_legacy" where
  "legacy_to_signed_tx d nonce gas to chain_id is_protected =
     \<lparr>lg_chain_id = (if is_protected then Some chain_id else None), lg_nonce = nonce,
      lg_gas_price = low_u128 (d0_gas_price d), lg_gas_limit = gas, lg_to = to,
      lg_value = d0_value d, lg_input = d0_data d\<rparr>"

definition eip2930_to_signed_tx :: "data_eip2930 \<Rightarrow> u64 \<Rightarrow> u64 \<Rightarrow> address option \<Rightarrow> u64 \<Rightarrow> tx_eip2930" where
  "eip2930_to_signed_tx d nonce gas to chain_id =
     \<lparr>t1_chain_id = chain_id, t1_nonce = nonce, t1_gas_price = low_u128 (d1_gas_price d),
      t1_gas_limit = gas, t1_to = to, t1_value = d1_value d, t1_input = d1_data d,
      t1_access_list = d1_access_list d\<rparr>"

definition eip1559_to_signed_tx :: "data_eip1559 \<Rightarrow> u64 \<Rightarrow> u64 \<Rightarrow> address option \<Rightarrow> u64 \<Rightarrow> tx_eip1559" where
  "eip1559_to_signed_tx d nonce gas to chain_id =
     \<lparr>t2_chain_id = chain_id, t2_nonce = nonce, t2_gas_limit = gas,
      t2_max_fee_per_gas = low_u128 (d2_max_fee_per_gas d),
      t2_max_priority_fee_per_gas = low_u128 (d2_max_priority_fee_per_gas d), t2_to = to,
      t2_value = d2_value d, t2_input = d2_data d, t2_access_list = d2_access_list d\<rparr>"

definition eip7702_to_signed_tx :: "data_eip7702 \<Rightarrow> u64 \<Rightarrow> u64 \<Rightarrow> address \<Rightarrow> u64 \<Rightarrow> tx_eip7702" where
  "eip7702_to_signed_tx d nonce gas to chain_id =
     \<lparr>t4_chain_id = chain_id, t4_nonce = nonce, t4_gas_limit = gas,
      t4_max_fee_per_gas = low_u128 (d4_max_fee_per_gas d),
      t4_max_priority_fee_per_gas = low_u128 (d4_max_priority_fee_per_gas d), t4_to = to,
      t4_value = d4_value d, t4_input = d4_data d, t4_access_list = d4_access_list d,
      t4_authorization_list = d4_authorization_list d\<rparr>"

definition to_signed_tx ::
    "span_tx_data \<Rightarrow> u64 \<Rightarrow> u64 \<Rightarrow> address option \<Rightarrow> u64 \<Rightarrow> signature \<Rightarrow> bool
     \<Rightarrow> span_batch_error failure + base_tx_envelope" where
  "to_signed_tx d nonce gas to chain_id sig is_protected =
     (case d of
        DataLegacy d \<Rightarrow> Inr (EnvLegacy (legacy_to_signed_tx d nonce gas to chain_id is_protected) sig)
      | DataEip2930 d \<Rightarrow> Inr (EnvEip2930 (eip2930_to_signed_tx d nonce gas to chain_id) sig)
      | DataEip1559 d \<Rightarrow> Inr (EnvEip1559 (eip1559_to_signed_tx d nonce gas to chain_id) sig)
      | DataEip7702 d \<Rightarrow>
          (case to of
             None \<Rightarrow> dec_fails InvalidTransactionData
           | Some addr \<Rightarrow> Inr (EnvEip7702 (eip7702_to_signed_tx d nonce gas addr chain_id) sig))
      | DataEip8130 _ \<Rightarrow> dec_fails InvalidTransactionType)"

lemmas to_signed_tx_defs =
  to_signed_tx_def legacy_to_signed_tx_def eip2930_to_signed_tx_def eip1559_to_signed_tx_def
  eip7702_to_signed_tx_def

section \<open>Columns to transactions\<close>

text \<open>\<open>get(i).ok_or(InvalidTransactionData)\<close>.\<close>

definition column :: "'a list \<Rightarrow> nat \<Rightarrow> span_batch_error failure + 'a" where
  "column xs i = (if i < length xs then Inr (xs ! i) else dec_fails InvalidTransactionData)"

text \<open>The loop of \<open>full_txs\<close> over the remaining indices, with its three running positions.\<close>

fun full_txs_loop ::
    "tx_codecs \<Rightarrow> span_txs \<Rightarrow> u64 \<Rightarrow> nat list \<Rightarrow> nat \<Rightarrow> nat \<Rightarrow> nat \<Rightarrow> span_batch_error failure + bytes list" where
  "full_txs_loop tc t chain_id [] to_idx protected_bit_idx eip8130_idx = Inr []"
| "full_txs_loop tc t chain_id (i # js) to_idx protected_bit_idx eip8130_idx =
     and_then (or_panic (if i < length (stx_tx_data t) then Some (stx_tx_data t ! i) else None)) (\<lambda>data.
     and_then (ok_or (Failing (SpanDecoding InvalidTransactionData)) (data_decode tc data)) (\<lambda>tx.
     and_then (column (stx_tx_nonces t) i) (\<lambda>nonce.
     and_then (column (stx_tx_gases t) i) (\<lambda>gas.
     and_then (ok_or (Failing (SpanDecoding InvalidTransactionData))
         (bits_get_bit (stx_contract_creation_bits t) i)) (\<lambda>bit.
     and_then (if bit = 0
         then and_then (column (stx_tx_tos t) to_idx) (\<lambda>a. Inr (Some a, to_idx + 1))
         else Inr (None, to_idx)) (\<lambda>(to, to_idx).
       case tx of
         DataEip8130 d \<Rightarrow>
           and_then (column (stx_eip8130_auth_data t) eip8130_idx) (\<lambda>(sender_proof, payer_proof).
           and_then (full_txs_loop tc t chain_id js to_idx protected_bit_idx (eip8130_idx + 1)) (\<lambda>txs.
             Inr (tc_env_encode tc
               (EnvEip8130 (eip8130_to_tx d chain_id nonce gas sender_proof payer_proof)) # txs)))
       | _ \<Rightarrow>
           and_then (column (stx_tx_sigs t) i) (\<lambda>sig.
             let (is_protected, protected_bit_idx) =
               (if data_tx_type tx = TyLegacy
                then (bits_get_bit (stx_protected_bits t) protected_bit_idx = Some 1, protected_bit_idx + 1)
                else (True, protected_bit_idx)) in
             and_then (to_signed_tx tx nonce gas to chain_id sig is_protected) (\<lambda>env.
             and_then (full_txs_loop tc t chain_id js to_idx protected_bit_idx eip8130_idx) (\<lambda>txs.
               Inr (tc_env_encode tc env # txs))))))))))"

definition full_txs :: "tx_codecs \<Rightarrow> span_txs \<Rightarrow> u64 \<Rightarrow> span_batch_error failure + bytes list" where
  "full_txs tc t chain_id = full_txs_loop tc t chain_id [0..<unat (stx_total_block_tx_count t)] 0 0 0"

section \<open>Transactions to columns\<close>

text \<open>What \<open>add_txs\<close> reads of the envelope; the columns it writes on the way are updated in \<open>t\<close>.\<close>

definition chain_check :: "bool \<Rightarrow> span_batch_error failure + unit" where
  "chain_check ok = (if ok then Inr () else dec_fails InvalidTransactionData)"

definition add_envelope ::
    "u64 \<Rightarrow> span_txs \<Rightarrow> base_tx_envelope
     \<Rightarrow> span_batch_error failure + (signature \<times> address option \<times> u64 \<times> u64) \<times> span_txs" where
  "add_envelope chain_id t env =
     (case env of
        EnvLegacy tx sig \<Rightarrow>
          let protected = (lg_chain_id tx \<noteq> None) in
          and_then (chain_check (\<not> (protected \<and> lg_chain_id tx \<noteq> Some chain_id))) (\<lambda>_.
            Inr ((sig, lg_to tx, lg_nonce tx, lg_gas_limit tx),
              t\<lparr>stx_protected_bits :=
                  bits_set_bit (unat (stx_legacy_tx_count t)) protected (stx_protected_bits t),
                stx_legacy_tx_count := stx_legacy_tx_count t + 1\<rparr>))
      | EnvEip2930 tx sig \<Rightarrow>
          and_then (chain_check (t1_chain_id tx = chain_id)) (\<lambda>_.
            Inr ((sig, t1_to tx, t1_nonce tx, t1_gas_limit tx), t))
      | EnvEip1559 tx sig \<Rightarrow>
          and_then (chain_check (t2_chain_id tx = chain_id)) (\<lambda>_.
            Inr ((sig, t2_to tx, t2_nonce tx, t2_gas_limit tx), t))
      | EnvEip7702 tx sig \<Rightarrow>
          and_then (chain_check (t4_chain_id tx = chain_id)) (\<lambda>_.
            Inr ((sig, Some (t4_to tx), t4_nonce tx, t4_gas_limit tx), t))
      | EnvEip8130 aas \<Rightarrow>
          let tx = aas_tx aas in
          and_then (chain_check (aa_chain_id tx = chain_id)) (\<lambda>_.
          and_then (split_auth (aas_sender_auth aas) (aa_sender tx \<noteq> None)) (\<lambda>(_, sender_proof).
          and_then (split_auth (aas_payer_auth aas) (named_payer (aa_payer tx))) (\<lambda>(_, payer_proof).
            Inr ((\<lparr>sig_r = 0, sig_s = 0, sig_v = False\<rparr>, None, aa_nonce_sequence tx, aa_gas_limit tx),
              t\<lparr>stx_eip8130_auth_data := stx_eip8130_auth_data t @ [(sender_proof, payer_proof)]\<rparr>))))
      | EnvDeposit _ \<Rightarrow> dec_fails InvalidTransactionType)"

definition add_tx :: "tx_codecs \<Rightarrow> u64 \<Rightarrow> nat \<Rightarrow> bytes \<Rightarrow> span_txs \<Rightarrow> span_batch_error failure + span_txs" where
  "add_tx tc chain_id i tx t =
     and_then (ok_or (Failing (SpanDecoding InvalidTransactionData)) (tc_env_decode tc tx)) (\<lambda>env.
     and_then (data_of_envelope env) (\<lambda>span_batch_tx.
     and_then (add_envelope chain_id t env) (\<lambda>((sig, to, nonce, gas), t).
       let t = (case to of Some a \<Rightarrow> t\<lparr>stx_tx_tos := stx_tx_tos t @ [a]\<rparr> | None \<Rightarrow> t) in
       Inr (t\<lparr>stx_tx_sigs := stx_tx_sigs t @ [sig],
              stx_contract_creation_bits := bits_set_bit i (to = None) (stx_contract_creation_bits t),
              stx_tx_nonces := stx_tx_nonces t @ [nonce],
              stx_tx_data := stx_tx_data t @ [data_encode tc span_batch_tx],
              stx_tx_gases := stx_tx_gases t @ [gas],
              stx_tx_types := stx_tx_types t @ [env_tx_type env]\<rparr>))))"

fun add_txs_loop :: "tx_codecs \<Rightarrow> u64 \<Rightarrow> nat \<Rightarrow> bytes list \<Rightarrow> span_txs \<Rightarrow> span_batch_error failure + span_txs" where
  "add_txs_loop tc chain_id i [] t = Inr t"
| "add_txs_loop tc chain_id i (tx # txs) t =
     and_then (add_tx tc chain_id i tx t) (add_txs_loop tc chain_id (i + 1) txs)"

definition add_txs :: "tx_codecs \<Rightarrow> bytes list \<Rightarrow> u64 \<Rightarrow> span_txs \<Rightarrow> span_batch_error failure + span_txs" where
  "add_txs tc txs chain_id t =
     and_then (add_txs_loop tc chain_id (unat (stx_total_block_tx_count t)) txs t) (\<lambda>t.
       Inr (t\<lparr>stx_total_block_tx_count := stx_total_block_tx_count t + word_of_nat (length txs)\<rparr>))"

section \<open>Codecs of the data\<close>

definition is_rlp_list :: "rlp \<Rightarrow> bytes \<Rightarrow> bool" where
  "is_rlp_list rlp bs \<longleftrightarrow>
     (\<exists>p. bs = rlp_header_encode rlp True (length p) @ p) \<and> length bs \<le> unat MAX_SPAN_BATCH_ELEMENTS"

text \<open>A codec at a value: the encoding is read back, whatever follows.\<close>

definition codec_at :: "'a codec \<Rightarrow> 'a \<Rightarrow> bool" where
  "codec_at cd x \<longleftrightarrow> (\<forall>r. cd_decode cd (cd_encode cd x @ r) = Some (x, r))"

definition address_opt_ok :: "address option \<Rightarrow> bool" where
  "address_opt_ok a \<longleftrightarrow> (case a of None \<Rightarrow> True | Some a \<Rightarrow> length a = 20)"

definition eip8130_data_ok :: "tx_codecs \<Rightarrow> data_eip8130 \<Rightarrow> bool" where
  "eip8130_data_ok tc d \<longleftrightarrow>
     address_opt_ok (d8_sender d) \<and> address_opt_ok (d8_payer d) \<and>
     validate_authenticator (d8_sender_authenticator d) (d8_sender d \<noteq> None) \<and>
     validate_authenticator (d8_payer_authenticator d) (named_payer (d8_payer d)) \<and>
     codec_at (tc_account_changes tc) (d8_account_changes d) \<and> codec_at (tc_calls tc) (d8_calls d) \<and>
     length (d8_metadata d) < 2 ^ 64 \<and> length (eip8130_encode tc d) \<le> unat MAX_SPAN_BATCH_ELEMENTS"

definition data_codec_ok :: "tx_codecs \<Rightarrow> span_tx_data \<Rightarrow> bool" where
  "data_codec_ok tc d \<longleftrightarrow>
     (case d of
        DataLegacy d \<Rightarrow> codec_at (tc_legacy tc) d \<and> is_rlp_list (tc_rlp tc) (cd_encode (tc_legacy tc) d)
      | DataEip2930 d \<Rightarrow> codec_at (tc_eip2930 tc) d \<and> is_rlp_list (tc_rlp tc) (cd_encode (tc_eip2930 tc) d)
      | DataEip1559 d \<Rightarrow> codec_at (tc_eip1559 tc) d \<and> is_rlp_list (tc_rlp tc) (cd_encode (tc_eip1559 tc) d)
      | DataEip7702 d \<Rightarrow> codec_at (tc_eip7702 tc) d \<and> is_rlp_list (tc_rlp tc) (cd_encode (tc_eip7702 tc) d)
      | DataEip8130 d \<Rightarrow> eip8130_data_ok tc d)"

lemma rlp_list_header:
  assumes "rlp_ok rlp" and "is_rlp_list rlp bs"
  obtains p b bs' where "bs = rlp_header_encode rlp True (length p) @ p" "length p < 2 ^ 64"
    "bs = b # bs'" "b > 0x7F" "length p + rlp_header_length rlp (length p) = length bs"
    "length bs \<le> unat MAX_SPAN_BATCH_ELEMENTS"
    "\<And>r. rlp_header_decode rlp (bs @ r) = Some ((True, length p), p @ r)"
proof -
  obtain p where p: "bs = rlp_header_encode rlp True (length p) @ p" "length bs \<le> unat MAX_SPAN_BATCH_ELEMENTS"
    using assms(2) by (auto simp: is_rlp_list_def)
  have "length p \<le> 10000000" using p by (simp add: MAX_elements)
  then have l: "length p < 2 ^ 64" by simp
  obtain b bs' where "rlp_header_encode rlp True (length p) = b # bs'" "b > 0x7F"
    using rlp_okD(3) [OF assms(1) l] by blast
  moreover have "rlp_header_decode rlp (bs @ r) = Some ((True, length p), p @ r)" for r
    using rlp_okD(1) [OF assms(1) l, of "p @ r"] p(1) by simp
  moreover have "length p + rlp_header_length rlp (length p) = length bs"
    using p(1) rlp_okD(2) [OF assms(1), of "length p"] by simp
  ultimately show ?thesis using that [of p b "bs' @ p"] p l by simp
qed

lemma tx_type_of_byte [simp]: "tx_type_of (tx_type_byte ty) = Some ty"
  by (cases ty) (simp_all add: tx_type_of_def)

lemma tx_type_byte_small: "tx_type_byte ty \<le> 0x7F"
  by (cases ty) simp_all

lemma read_tx_data_legacy:
  assumes "rlp_ok rlp" and "is_rlp_list rlp bs"
  shows "tx_item_ok rlp bs TyLegacy"
  using assms
proof (rule rlp_list_header)
  fix p b bs'
  assume "bs = b # bs'" "b > 0x7F" "length p + rlp_header_length rlp (length p) = length bs"
    "length bs \<le> unat MAX_SPAN_BATCH_ELEMENTS"
    "\<And>r. rlp_header_decode rlp (bs @ r) = Some ((True, length p), p @ r)"
  then show ?thesis
    by (simp add: tx_item_ok_def read_tx_data_def tx_type_of_def not_le [symmetric])
qed

lemma read_tx_data_typed:
  assumes "rlp_ok rlp" and "is_rlp_list rlp bs"
  shows "tx_item_ok rlp (tx_type_byte ty # bs) ty"
  using assms
proof (rule rlp_list_header)
  fix p b bs'
  assume "length p + rlp_header_length rlp (length p) = length bs" "length bs \<le> unat MAX_SPAN_BATCH_ELEMENTS"
    "\<And>r. rlp_header_decode rlp (bs @ r) = Some ((True, length p), p @ r)"
  then show ?thesis
    using tx_type_byte_small [of ty] by (simp add: tx_item_ok_def read_tx_data_def)
qed

lemma address_opt_codec:
  assumes "rlp_ok rlp" and "address_opt_ok a"
  shows "decode_address_opt rlp (encode_address_opt rlp a @ r) = Some (a, r)"
    and "length (encode_address_opt rlp a) = address_opt_encoded_length a"
  using assms(2) rlp_okD(4) [OF assms(1), of "[]" r] rlp_okD(5) [OF assms(1)]
  by (auto simp: decode_address_opt_def encode_address_opt_def address_opt_encoded_length_def address_opt_ok_def
      rlp_okD(4,6) [OF assms(1)] split: option.splits)

lemma eip8130_fields_length_eq:
  assumes "rlp_ok (tc_rlp tc)" and "eip8130_data_ok tc d"
  shows "length (eip8130_encode tc d) =
    length (rlp_header_encode (tc_rlp tc) True (eip8130_fields_length tc d)) + eip8130_fields_length tc d"
  using assms(2)
  by (simp add: eip8130_encode_def eip8130_fields_length_def eip8130_data_ok_def Let_def address_opt_codec [OF assms(1)])

lemma eip8130_is_list:
  assumes "rlp_ok (tc_rlp tc)" and "eip8130_data_ok tc d"
  shows "is_rlp_list (tc_rlp tc) (eip8130_encode tc d)"
proof -
  obtain p where p: "eip8130_encode tc d = rlp_header_encode (tc_rlp tc) True (eip8130_fields_length tc d) @ p"
    by (simp add: eip8130_encode_def Let_def)
  then have "length p = eip8130_fields_length tc d"
    using eip8130_fields_length_eq [OF assms] by simp
  with p have "\<exists>p. eip8130_encode tc d = rlp_header_encode (tc_rlp tc) True (length p) @ p" by metis
  then show ?thesis using assms(2) unfolding is_rlp_list_def eip8130_data_ok_def by blast
qed

lemma word_of_nat_unat [simp]: "word_of_nat (unat x) = x"
  by simp

lemma eip8130_roundtrip:
  assumes ok: "rlp_ok (tc_rlp tc)" and d: "eip8130_data_ok tc d"
  shows "eip8130_decode tc (eip8130_encode tc d @ r) = Some (d, r)"
proof -
  let ?n = "eip8130_fields_length tc d"
  obtain p where p: "eip8130_encode tc d = rlp_header_encode (tc_rlp tc) True ?n @ p"
    and pl: "length p = ?n"
    using eip8130_fields_length_eq [OF assms] by (simp add: eip8130_encode_def Let_def)
  have "?n \<le> 10000000" using d p pl by (simp add: eip8130_data_ok_def MAX_elements)
  then have h: "rlp_header_decode (tc_rlp tc) (eip8130_encode tc d @ r) = Some ((True, ?n), p @ r)"
    using rlp_okD(1) [OF ok, of ?n "p @ r"] p pl by simp
  note d' = d [unfolded eip8130_data_ok_def codec_at_def]
  have auth: "length (d8_sender_authenticator d) < 2 ^ 64" "length (d8_payer_authenticator d) < 2 ^ 64"
    using d' by (auto simp: validate_authenticator_def split: if_splits)
  have u: "rlp_uint_decode (tc_rlp tc) 8 (rlp_uint_encode (tc_rlp tc) (unat x) @ q) = Some (unat x, q)"
      "rlp_uint_decode (tc_rlp tc) 16 (rlp_uint_encode (tc_rlp tc) (unat y) @ q) = Some (unat y, q)"
      "rlp_uint_decode (tc_rlp tc) 32 (rlp_uint_encode (tc_rlp tc) (unat z) @ q) = Some (unat z, q)"
    for x :: u64 and y :: u128 and z :: u256 and q
    using unsigned_less [of x, where ?'a = nat] unsigned_less [of y, where ?'a = nat]
      unsigned_less [of z, where ?'a = nat] by (auto intro!: rlp_okD(7) [OF ok])
  have p': "p = encode_address_opt (tc_rlp tc) (d8_sender d) @ rlp_uint_encode (tc_rlp tc) (unat (d8_nonce_key d)) @
      rlp_uint_encode (tc_rlp tc) (unat (d8_valid_after d)) @ rlp_uint_encode (tc_rlp tc) (unat (d8_valid_before d)) @
      rlp_uint_encode (tc_rlp tc) (unat (d8_max_priority_fee_per_gas d)) @
      rlp_uint_encode (tc_rlp tc) (unat (d8_max_fee_per_gas d)) @ encode_address_opt (tc_rlp tc) (d8_payer d) @
      cd_encode (tc_account_changes tc) (d8_account_changes d) @ cd_encode (tc_calls tc) (d8_calls d) @
      rlp_bytes_encode (tc_rlp tc) (d8_metadata d) @ rlp_bytes_encode (tc_rlp tc) (d8_sender_authenticator d) @
      rlp_bytes_encode (tc_rlp tc) (d8_payer_authenticator d)"
    using p by (simp add: eip8130_encode_def Let_def)
  have "length (p @ r) - length r = ?n" using pl by simp
  then show ?thesis
    using d' auth unfolding eip8130_decode_def Let_def h dec_then_simps
    by (simp add: p' address_opt_codec [OF ok] rlp_okD(4) [OF ok] u)
qed

lemma data_roundtrip:
  assumes "rlp_ok (tc_rlp tc)" and "data_codec_ok tc d"
  shows "data_decode tc (data_encode tc d) = Some d" and "tx_item_ok (tc_rlp tc) (data_encode tc d) (data_tx_type d)"
proof -
  have first: "\<exists>b bs'. bs = b # bs' \<and> b > 0x7F" if "is_rlp_list (tc_rlp tc) bs" for bs
    using assms(1) that by (rule rlp_list_header) blast
  have typed: "decode_typed tc (tx_type_byte ty # bs) = (case ty of
        TyEip2930 \<Rightarrow> map_option (\<lambda>(d, _). DataEip2930 d) (cd_decode (tc_eip2930 tc) bs)
      | TyEip1559 \<Rightarrow> map_option (\<lambda>(d, _). DataEip1559 d) (cd_decode (tc_eip1559 tc) bs)
      | TyEip7702 \<Rightarrow> map_option (\<lambda>(d, _). DataEip7702 d) (cd_decode (tc_eip7702 tc) bs)
      | TyEip8130 \<Rightarrow> map_option (\<lambda>(d, _). DataEip8130 d) (eip8130_decode tc bs)
      | _ \<Rightarrow> None)" if "is_rlp_list (tc_rlp tc) bs" for ty bs
    using first [OF that] by (cases ty) (auto simp: decode_typed_def simp del: tx_type_byte.simps)
  have small: "\<not> tx_type_byte ty > 0x7F" for ty
    using tx_type_byte_small [of ty] by simp
  have codec: "cd_decode cd (cd_encode cd x) = Some (x, [])" if "codec_at cd x" for cd and x
    using that unfolding codec_at_def by (metis append_Nil2)
  show "data_decode tc (data_encode tc d) = Some d"
  proof (cases d)
    case (DataLegacy l)
    then show ?thesis
      using assms(2) first [of "cd_encode (tc_legacy tc) l"] codec [of "tc_legacy tc" l]
      by (auto simp: data_decode_def data_encode_def data_codec_ok_def)
  next
    case (DataEip8130 l)
    then have "eip8130_decode tc (eip8130_encode tc l) = Some (l, [])" "is_rlp_list (tc_rlp tc) (eip8130_encode tc l)"
      using eip8130_roundtrip [OF assms(1), of l "[]"] eip8130_is_list [OF assms(1)] assms(2)
      by (simp_all add: data_codec_ok_def)
    then show ?thesis
      using DataEip8130 small typed [of "eip8130_encode tc l" TyEip8130]
      by (simp add: data_decode_def data_encode_def del: tx_type_byte.simps)
  qed (use assms(2) small in \<open>simp_all add: data_decode_def data_encode_def data_codec_ok_def typed codec
      del: tx_type_byte.simps\<close>)
  show "tx_item_ok (tc_rlp tc) (data_encode tc d) (data_tx_type d)"
    using assms(2) eip8130_is_list [OF assms(1)]
    by (cases d) (auto simp: data_encode_def data_codec_ok_def simp del: tx_type_byte.simps
        intro: read_tx_data_legacy read_tx_data_typed assms(1))
qed

section \<open>Taking apart and putting together\<close>

lemma low_u128_ucast [simp]: "low_u128 (ucast x) = x"
proof -
  have "unat (ucast x :: u256) = unat x" 
    using unsigned_less [of x, where ?'a = nat] by (simp add: unsigned_ucast_eq take_bit_nat_eq_self)
  moreover have "unat x < 256 ^ 16" using unsigned_less [of x, where ?'a = nat] by simp
  moreover have "drop 16 (to_be 32 v) = to_be 16 v" for v using drop_to_be [of 16 16 v] by simp
  ultimately show ?thesis by (simp add: low_u128_def)
qed

lemma join_split_auth: "split_auth blob configured = Inr (a, p) \<Longrightarrow> join_auth a p configured = blob"
  by (auto simp: split_auth_def join_auth_def split: if_splits)

text \<open>The columns of one transaction.\<close>

fun env_sig :: "base_tx_envelope \<Rightarrow> signature" where
  "env_sig (EnvLegacy _ s) = s"
| "env_sig (EnvEip2930 _ s) = s"
| "env_sig (EnvEip1559 _ s) = s"
| "env_sig (EnvEip7702 _ s) = s"
| "env_sig _ = \<lparr>sig_r = 0, sig_s = 0, sig_v = False\<rparr>"

fun env_to :: "base_tx_envelope \<Rightarrow> address option" where
  "env_to (EnvLegacy tx _) = lg_to tx"
| "env_to (EnvEip2930 tx _) = t1_to tx"
| "env_to (EnvEip1559 tx _) = t2_to tx"
| "env_to (EnvEip7702 tx _) = Some (t4_to tx)"
| "env_to _ = None"

fun env_nonce :: "base_tx_envelope \<Rightarrow> u64" where
  "env_nonce (EnvLegacy tx _) = lg_nonce tx"
| "env_nonce (EnvEip2930 tx _) = t1_nonce tx"
| "env_nonce (EnvEip1559 tx _) = t2_nonce tx"
| "env_nonce (EnvEip7702 tx _) = t4_nonce tx"
| "env_nonce (EnvEip8130 s) = aa_nonce_sequence (aas_tx s)"
| "env_nonce _ = 0"

fun env_gas :: "base_tx_envelope \<Rightarrow> u64" where
  "env_gas (EnvLegacy tx _) = lg_gas_limit tx"
| "env_gas (EnvEip2930 tx _) = t1_gas_limit tx"
| "env_gas (EnvEip1559 tx _) = t2_gas_limit tx"
| "env_gas (EnvEip7702 tx _) = t4_gas_limit tx"
| "env_gas (EnvEip8130 s) = aa_gas_limit (aas_tx s)"
| "env_gas _ = 0"

fun env_protected :: "base_tx_envelope \<Rightarrow> bool list" where
  "env_protected (EnvLegacy tx _) = [lg_chain_id tx \<noteq> None]"
| "env_protected _ = []"

definition auth_proof :: "bytes \<Rightarrow> bool \<Rightarrow> bytes" where
  "auth_proof blob configured = (if configured then drop 20 blob else blob)"

fun env_auth :: "base_tx_envelope \<Rightarrow> (bytes \<times> bytes) list" where
  "env_auth (EnvEip8130 s) =
     [(auth_proof (aas_sender_auth s) (aa_sender (aas_tx s) \<noteq> None),
       auth_proof (aas_payer_auth s) (named_payer (aa_payer (aas_tx s))))]"
| "env_auth _ = []"

fun env_chain_ok :: "u64 \<Rightarrow> base_tx_envelope \<Rightarrow> bool" where
  "env_chain_ok c (EnvLegacy tx _) \<longleftrightarrow> lg_chain_id tx = None \<or> lg_chain_id tx = Some c"
| "env_chain_ok c (EnvEip2930 tx _) \<longleftrightarrow> t1_chain_id tx = c"
| "env_chain_ok c (EnvEip1559 tx _) \<longleftrightarrow> t2_chain_id tx = c"
| "env_chain_ok c (EnvEip7702 tx _) \<longleftrightarrow> t4_chain_id tx = c"
| "env_chain_ok c (EnvEip8130 s) \<longleftrightarrow> aa_chain_id (aas_tx s) = c"
| "env_chain_ok c (EnvDeposit _) \<longleftrightarrow> False"

definition env_data :: "base_tx_envelope \<Rightarrow> span_tx_data" where
  "env_data e = projr (data_of_envelope e)"

text \<open>A transaction that can be part of a span: its chain and kind fit, and its data has a codec.\<close>

definition env_ok :: "tx_codecs \<Rightarrow> u64 \<Rightarrow> base_tx_envelope \<Rightarrow> bool" where
  "env_ok tc c e \<longleftrightarrow>
     env_chain_ok c e \<and> (\<exists>d. data_of_envelope e = Inr d) \<and> data_codec_ok tc (env_data e) \<and>
     tc_env_decode tc (tc_env_encode tc e) = Some e \<and>
     (case env_to e of None \<Rightarrow> True | Some a \<Rightarrow> length a = 20) \<and>
     list_all (\<lambda>(a, b). length a \<le> unat MAX_AUTH_PROOF_BYTES \<and> length b \<le> unat MAX_AUTH_PROOF_BYTES) (env_auth e)"

definition columns_rep :: "tx_codecs \<Rightarrow> span_txs \<Rightarrow> base_tx_envelope list \<Rightarrow> bool" where
  "columns_rep tc t es \<longleftrightarrow>
     bits_rep (stx_contract_creation_bits t) (map (\<lambda>e. env_to e = None) es) \<and>
     stx_tx_sigs t = map env_sig es \<and> stx_tx_nonces t = map env_nonce es \<and> stx_tx_gases t = map env_gas es \<and>
     stx_tx_tos t = List.map_filter env_to es \<and>
     stx_tx_data t = map (\<lambda>e. data_encode tc (env_data e)) es \<and>
     bits_rep (stx_protected_bits t) (concat (map env_protected es)) \<and>
     stx_tx_types t = map env_tx_type es \<and>
     unat (stx_legacy_tx_count t) = length (concat (map env_protected es)) \<and>
     stx_eip8130_auth_data t = concat (map env_auth es)"

lemma columns_rep_default [simp]: "columns_rep tc span_txs_default []"
  by (simp add: columns_rep_def span_txs_default_def map_filter_simps)

lemma env_data_eq: "data_of_envelope e = Inr d \<Longrightarrow> env_data e = d"
  by (simp add: env_data_def)

lemma env_data_type: "data_of_envelope e = Inr d \<Longrightarrow> data_tx_type d = env_tx_type e"
  by (cases e) (auto simp: data_of_envelope_def Let_def and_then_Inr_iff)

lemma split_auth_eq:
  "split_auth blob configured =
   (if configured \<and> length blob < 20 then dec_fails InvalidAuthData
    else Inr (if configured then take 20 blob else [], auth_proof blob configured))"
  by (simp add: split_auth_def auth_proof_def)

text \<open>Adding the columns of an envelope does what \<open>env_ok\<close> promises.\<close>

lemma add_envelope_ok:
  assumes "env_ok tc c e"
  shows "add_envelope c t e = Inr ((env_sig e, env_to e, env_nonce e, env_gas e),
    t\<lparr>stx_protected_bits := (if env_protected e = [] then stx_protected_bits t
        else bits_set_bit (unat (stx_legacy_tx_count t)) (hd (env_protected e)) (stx_protected_bits t)),
      stx_legacy_tx_count := stx_legacy_tx_count t + word_of_nat (length (env_protected e)),
      stx_eip8130_auth_data := stx_eip8130_auth_data t @ env_auth e\<rparr>)"
  using assms
  by (cases e) (auto simp: env_ok_def add_envelope_def chain_check_def Let_def data_of_envelope_def split_auth_eq
      split: if_splits)

lemma legacy_count_add:
  assumes "unat n + k < 2 ^ 64"
  shows "unat (n + word_of_nat k :: u64) = unat n + k"
  using assms by (simp add: unat_word_ariths unat_of_nat)

lemma env_protected_cases: "env_protected e = [] \<or> (\<exists>b. env_protected e = [b])"
  by (cases e) simp_all

lemma add_tx_rep:
  assumes rep: "columns_rep tc t es" and ok: "env_ok tc c e" and l: "length es < 2 ^ 64 - 1"
  shows "\<exists>t'. add_tx tc c (length es) (tc_env_encode tc e) t = Inr t' \<and> columns_rep tc t' (es @ [e]) \<and>
    stx_total_block_tx_count t' = stx_total_block_tx_count t"
proof -
  obtain d where d: "data_of_envelope e = Inr d" "env_data e = d"
    using ok env_data_eq by (auto simp: env_ok_def)
  note r = rep [unfolded columns_rep_def]
  have "length (concat (map env_protected xs)) \<le> length xs" for xs
  proof (induction xs)
    case (Cons x xs)
    then show ?case using env_protected_cases [of x] by auto
  qed simp
  then have "unat (stx_legacy_tx_count t) \<le> length es" using r by metis
  then have lc: "unat (stx_legacy_tx_count t + word_of_nat (length (env_protected e))) =
      unat (stx_legacy_tx_count t) + length (env_protected e)"
    using l env_protected_cases [of e] by (intro legacy_count_add) auto
  have cc: "bits_rep (bits_set_bit (length es) (env_to e = None) (stx_contract_creation_bits t))
      (map (\<lambda>e. env_to e = None) (es @ [e]))"
    using bits_rep_snoc [of "stx_contract_creation_bits t" "map (\<lambda>e. env_to e = None) es" "env_to e = None"] r
    by simp
  have prot: "bits_rep (if env_protected e = [] then stx_protected_bits t
        else bits_set_bit (unat (stx_legacy_tx_count t)) (hd (env_protected e)) (stx_protected_bits t))
      (concat (map env_protected (es @ [e])))"
    using env_protected_cases [of e] r bits_rep_snoc [of "stx_protected_bits t" "concat (map env_protected es)"]
    by auto
  have "tc_env_decode tc (tc_env_encode tc e) = Some e" using ok by (simp add: env_ok_def)
  then show ?thesis
    using d r lc cc prot
    by (cases "env_to e")
      (simp_all add: add_tx_def add_envelope_ok [OF ok] columns_rep_def Let_def map_filter_def)
qed

lemma add_txs_loop_rep:
  assumes "columns_rep tc t es" and "list_all (env_ok tc c) es'" and "length es + length es' < 2 ^ 64"
  shows "\<exists>t'. add_txs_loop tc c (length es) (map (tc_env_encode tc) es') t = Inr t' \<and>
    columns_rep tc t' (es @ es') \<and> stx_total_block_tx_count t' = stx_total_block_tx_count t"
  using assms
proof (induction es' arbitrary: t es)
  case (Cons e es')
  obtain t1 where "add_tx tc c (length es) (tc_env_encode tc e) t = Inr t1" and t1: "columns_rep tc t1 (es @ [e])"
    "stx_total_block_tx_count t1 = stx_total_block_tx_count t"
    using add_tx_rep [of tc t es c e] Cons.prems by auto
  moreover from Cons.IH [OF t1(1)] Cons.prems t1(2)
  obtain t2 where "add_txs_loop tc c (length (es @ [e])) (map (tc_env_encode tc) es') t1 = Inr t2"
    "columns_rep tc t2 ((es @ [e]) @ es')" "stx_total_block_tx_count t2 = stx_total_block_tx_count t"
    by auto
  ultimately show ?case by simp
qed auto

lemma add_txs_rep:
  assumes "columns_rep tc t es" and "unat (stx_total_block_tx_count t) = length es"
    and "list_all (env_ok tc c) es'" and "length es + length es' < 2 ^ 64"
  shows "\<exists>t'. add_txs tc (map (tc_env_encode tc) es') c t = Inr t' \<and> columns_rep tc t' (es @ es') \<and>
    unat (stx_total_block_tx_count t') = length (es @ es')"
proof -
  obtain t1 where t1: "add_txs_loop tc c (length es) (map (tc_env_encode tc) es') t = Inr t1"
    "columns_rep tc t1 (es @ es')" "stx_total_block_tx_count t1 = stx_total_block_tx_count t"
    using add_txs_loop_rep [OF assms(1,3,4)] by blast
  have "columns_rep tc (t1\<lparr>stx_total_block_tx_count := n\<rparr>) (es @ es')" for n
    using t1(2) by (simp add: columns_rep_def)
  then show ?thesis
    using t1 assms(2,4) legacy_count_add [of "stx_total_block_tx_count t" "length es'"]
    by (simp add: add_txs_def)
qed

lemma reassemble_signed:
  assumes "env_ok tc c e" and "env_tx_type e \<noteq> TyEip8130"
  shows "to_signed_tx (env_data e) (env_nonce e) (env_gas e) (env_to e) c (env_sig e)
    (env_protected e = [] \<or> hd (env_protected e)) = Inr e"
proof (cases e)
  case (EnvLegacy tx s)
  then show ?thesis
    using assms by (cases tx) (auto simp: env_data_def data_of_envelope_def to_signed_tx_defs env_ok_def)
next
  case (EnvEip2930 tx s)
  then show ?thesis
    using assms by (cases tx) (auto simp: env_data_def data_of_envelope_def to_signed_tx_defs env_ok_def)
next
  case (EnvEip1559 tx s)
  then show ?thesis
    using assms by (cases tx) (auto simp: env_data_def data_of_envelope_def to_signed_tx_defs env_ok_def)
next
  case (EnvEip7702 tx s)
  then show ?thesis
    using assms by (cases tx) (auto simp: env_data_def data_of_envelope_def to_signed_tx_defs env_ok_def)
qed (use assms in \<open>auto simp: env_ok_def\<close>)

lemma reassemble_eip8130:
  assumes "env_ok tc c e" and "env_tx_type e = TyEip8130"
  obtains d a b where "env_data e = DataEip8130 d" "env_auth e = [(a, b)]" "env_protected e = []"
    "EnvEip8130 (eip8130_to_tx d c (env_nonce e) (env_gas e) a b) = e"
proof -
  obtain s where e: "e = EnvEip8130 s" using assms(2) by (cases e) auto
  obtain d where d: "data_of_envelope e = Inr d" "env_data e = d"
    using assms(1) env_data_eq by (auto simp: env_ok_def)
  have c: "aa_chain_id (aas_tx s) = c" using assms(1) by (simp add: env_ok_def e)
  let ?d8 = "\<lambda>sa pa. \<lparr>d8_sender = aa_sender (aas_tx s), d8_nonce_key = aa_nonce_key (aas_tx s),
      d8_valid_after = aa_valid_after (aas_tx s), d8_valid_before = aa_valid_before (aas_tx s),
      d8_max_priority_fee_per_gas = aa_max_priority_fee_per_gas (aas_tx s),
      d8_max_fee_per_gas = aa_max_fee_per_gas (aas_tx s), d8_payer = aa_payer (aas_tx s),
      d8_account_changes = aa_account_changes (aas_tx s), d8_calls = aa_calls (aas_tx s),
      d8_metadata = aa_metadata (aas_tx s), d8_sender_authenticator = sa, d8_payer_authenticator = pa\<rparr>"
  obtain sa sp pa pp
    where sp: "split_auth (aas_sender_auth s) (aa_sender (aas_tx s) \<noteq> None) = Inr (sa, sp)"
      and pp: "split_auth (aas_payer_auth s) (named_payer (aa_payer (aas_tx s))) = Inr (pa, pp)"
      and d8: "d = DataEip8130 (?d8 sa pa)"
    using d(1) by (auto simp: e data_of_envelope_def Let_def and_then_Inr_iff)
  have "env_auth e = [(sp, pp)]" using sp pp by (auto simp: e split_auth_eq split: if_splits)
  moreover have "eip8130_to_tx (?d8 sa pa) c (env_nonce e) (env_gas e) sp pp = s"
    using c join_split_auth [OF sp] join_split_auth [OF pp]
    by (cases s; cases "aas_tx s") (simp add: e eip8130_to_tx_def)
  ultimately show ?thesis using that [of "?d8 sa pa" sp pp] d(2) d8 e by simp
qed

lemma data_type_cases:
  "data_tx_type d \<noteq> TyEip8130 \<Longrightarrow> (case d of DataEip8130 x \<Rightarrow> f x | _ \<Rightarrow> y) = y"
  by (cases d) simp_all

lemma nth_concat_map:
  "g x = [y] \<Longrightarrow> concat (map g (xs @ x # zs)) ! length (concat (map g xs)) = y"
  by (simp add: nth_append)

lemma full_txs_loop_rep:
  assumes "rlp_ok (tc_rlp tc)" and "columns_rep tc t (pre @ suf)" and "list_all (env_ok tc c) suf"
  shows "full_txs_loop tc t c [length pre..<length (pre @ suf)] (length (List.map_filter env_to pre))
      (length (concat (map env_protected pre))) (length (concat (map env_auth pre))) =
    Inr (map (tc_env_encode tc) suf)"
  using assms(2,3)
proof (induction suf arbitrary: pre)
  case (Cons e suf)
  note rep = Cons.prems(1) [unfolded columns_rep_def]
  have ok: "env_ok tc c e" using Cons.prems(2) by simp
  obtain d where d: "data_of_envelope e = Inr d" "env_data e = d"
    using ok env_data_eq by (auto simp: env_ok_def)
  have dec: "data_decode tc (data_encode tc (env_data e)) = Some (env_data e)"
    using data_roundtrip(1) [OF assms(1)] ok by (simp add: env_ok_def)
  have ty: "data_tx_type (env_data e) = env_tx_type e" using env_data_type [OF d(1)] d(2) by simp
  have ih: "full_txs_loop tc t c [Suc (length pre)..<Suc (length pre + length suf)] (length (List.map_filter env_to (pre @ [e])))
      (length (concat (map env_protected (pre @ [e])))) (length (concat (map env_auth (pre @ [e])))) =
      Inr (map (tc_env_encode tc) suf)"
    using Cons.IH [of "pre @ [e]"] Cons.prems by simp
  have upt: "[length pre..<length (pre @ e # suf)] = length pre # [Suc (length pre)..<Suc (length pre + length suf)]"
    using upt_conv_Cons [of "length pre" "Suc (length pre + length suf)"] by (simp del: upt_Suc)
  have bit: "bits_get_bit (stx_contract_creation_bits t) (length pre) = Some (if env_to e = None then 1 else 0)"
    using bits_rep_get [of "stx_contract_creation_bits t" "map (\<lambda>e. env_to e = None) (pre @ e # suf)" "length pre"] rep
    by (simp add: nth_append)
  have cols: "length pre < length (stx_tx_data t)" "stx_tx_data t ! length pre = data_encode tc (env_data e)"
    "column (stx_tx_nonces t) (length pre) = Inr (env_nonce e)" "column (stx_tx_gases t) (length pre) = Inr (env_gas e)"
    "column (stx_tx_sigs t) (length pre) = Inr (env_sig e)"
    using rep by (simp_all add: column_def nth_append)
  have to: "(if (if env_to e = None then 1 else 0) = (0 :: u8)
         then and_then (column (stx_tx_tos t) (length (List.map_filter env_to pre)))
           (\<lambda>a. Inr (Some a, length (List.map_filter env_to pre) + 1))
         else Inr (None, length (List.map_filter env_to pre))) =
      (Inr (env_to e, length (List.map_filter env_to (pre @ [e]))) :: span_batch_error failure + _)"
    using rep by (cases "env_to e") (simp_all add: column_def map_filter_def nth_append)
  show ?case
  proof (cases "env_tx_type e = TyEip8130")
    case True
    from ok True obtain d8 a b where e8: "env_data e = DataEip8130 d8" "env_auth e = [(a, b)]" "env_protected e = []"
      "EnvEip8130 (eip8130_to_tx d8 c (env_nonce e) (env_gas e) a b) = e"
      by (rule reassemble_eip8130)
    have "column (stx_eip8130_auth_data t) (length (concat (map env_auth pre))) = Inr (a, b)"
      using rep e8(2) by (simp add: column_def nth_append)
    then show ?thesis
      unfolding upt full_txs_loop.simps using cols dec ih e8
      by (simp add: bit to del: upt_Suc)
  next
    case False
    have a: "env_auth e = []" using False by (cases e) simp_all
    have prot: "(if env_tx_type e = TyLegacy
          then (bits_get_bit (stx_protected_bits t) (length (concat (map env_protected pre))) = Some 1,
            length (concat (map env_protected pre)) + 1)
          else (True, length (concat (map env_protected pre)))) =
        (env_protected e = [] \<or> hd (env_protected e), length (concat (map env_protected (pre @ [e]))))"
    proof (cases "env_tx_type e = TyLegacy")
      case True
      then obtain p where p: "env_protected e = [p]" by (cases e) auto
      then show ?thesis
        using True nth_concat_map [of env_protected e p pre suf] rep
          bits_rep_get [of "stx_protected_bits t" "concat (map env_protected (pre @ e # suf))"
            "length (concat (map env_protected pre))"]
        by (simp del: concat_append add: length_concat)
    next
      case False
      then have "env_protected e = []" by (cases e) auto
      with False show ?thesis by simp
    qed
    note sg = reassemble_signed [OF ok False]
    show ?thesis
      unfolding upt full_txs_loop.simps using cols dec ih ty False a sg
      by (simp add: bit to data_type_cases prot del: upt_Suc)
  qed
qed simp

lemma full_txs_rep:
  assumes "rlp_ok (tc_rlp tc)" and "columns_rep tc t es" and "list_all (env_ok tc c) es"
    and "unat (stx_total_block_tx_count t) = length es"
  shows "full_txs tc t c = Inr (map (tc_env_encode tc) es)"
  using full_txs_loop_rep [OF assms(1), of t "[]" es c] assms(2-4) by (simp add: full_txs_def map_filter_simps)

lemma legacy_types_count:
  "length (filter (\<lambda>ty. ty = TyLegacy) (map env_tx_type es)) = length (concat (map env_protected es))"
proof (induction es)
  case (Cons e es)
  then show ?case by (cases e) auto
qed simp

lemma eip8130_types_count:
  "length (filter (\<lambda>ty. ty = TyEip8130) (map env_tx_type es)) = length (concat (map env_auth es))"
proof (induction es)
  case (Cons e es)
  then show ?case by (cases e) auto
qed simp

lemma tos_count: "length (List.map_filter env_to es) = length es - length (filter id (map (\<lambda>e. env_to e = None) es))"
proof (induction es)
  case (Cons e es)
  have "length (filter id (map (\<lambda>e. env_to e = None) es)) \<le> length es"
    by (metis length_filter_le length_map)
  with Cons show ?case by (cases "env_to e") (simp_all add: map_filter_def Suc_diff_le)
qed (simp add: map_filter_simps)

lemma columns_rep_ok:
  assumes rep: "columns_rep tc t es" and "list_all (env_ok tc c) es"
    and n: "unat (stx_total_block_tx_count t) = length es" and "length es \<le> unat MAX_SPAN_BATCH_ELEMENTS"
  shows "columns_ok t"
proof -
  note r = rep [unfolded columns_rep_def]
  have "list_all (\<lambda>a. length a = 20) (List.map_filter env_to es)"
    using assms(2) by (fastforce simp: list_all_iff env_ok_def map_filter_def split: option.splits)
  moreover have "list_all (\<lambda>(a, b). length a \<le> unat MAX_AUTH_PROOF_BYTES \<and> length b \<le> unat MAX_AUTH_PROOF_BYTES)
      (concat (map env_auth es))"
    using assms(2) by (fastforce simp: list_all_iff env_ok_def)
  moreover have "bits_ok (length es) (stx_contract_creation_bits t)"
    using r bits_rep_ok [of "stx_contract_creation_bits t"] by fastforce
  moreover have "length (List.map_filter env_to es) = length es - sum_list (map count_ones (stx_contract_creation_bits t))"
    using tos_count [of es] bits_rep_count [of "stx_contract_creation_bits t" "map (\<lambda>e. env_to e = None) es"] r by simp
  moreover have "bits_ok (unat (stx_legacy_tx_count t)) (stx_protected_bits t)"
    using r bits_rep_ok [of "stx_protected_bits t"] by metis
  ultimately show ?thesis
    using r n assms(4) legacy_types_count [of es] eip8130_types_count [of es]
    by (simp add: columns_ok_def Let_def)
qed

lemma columns_rep_items:
  assumes "rlp_ok (tc_rlp tc)" and "columns_rep tc t es" and "list_all (env_ok tc c) es"
  shows "items_ok (tc_rlp tc) t"
proof -
  have "tx_item_ok (tc_rlp tc) (data_encode tc (env_data e)) (env_tx_type e)" if "e \<in> set es" for e
  proof -
    have "env_ok tc c e" using assms(3) that by (simp add: list_all_iff)
    then obtain d where d: "data_of_envelope e = Inr d" "env_data e = d" "data_codec_ok tc d"
      using env_data_eq by (auto simp: env_ok_def)
    then show ?thesis using data_roundtrip(2) [OF assms(1) d(3)] env_data_type [OF d(1)] by simp
  qed
  then show ?thesis
    using assms(2) by (auto simp: items_ok_def columns_rep_def list_all2_conv_all_nth)
qed

end
