(* ===== verification/Span_Derive.thy ===== *)
theory Span_Derive
  imports Span_Txs
begin

text \<open>
  Span batches between the wire and the batch stages (\<open>src/crates/consensus/protocol/src/batch/\<close>:
  \<open>raw.rs\<close>, \<open>span.rs\<close>, \<open>core.rs\<close>, \<open>type.rs\<close>): deriving the blocks of a raw span batch, building and encoding a
  span from singular batches, and the decoder of batches. An error of \<open>append_singular_batch\<close> drops
  the span under construction. The lemmas show that decoding a batch never panics, what a
  decoded span looks like, and that a span built from singular batches comes back as them.
\<close>

section \<open>Deriving the blocks of a span\<close>

text \<open>
  The loop over the origin bits from the last block to the first: block \<open>i\<close> has origin \<open>cur\<close>, and
  a set bit means that the block before it has the previous one.
\<close>

fun origin_nums :: "span_bits \<Rightarrow> nat \<Rightarrow> u64 \<Rightarrow> span_batch_error failure + u64 list" where
  "origin_nums bits 0 cur = Inr []"
| "origin_nums bits (Suc i) cur =
     and_then (ok_or (Failing (SpanDecoding L1OriginCheck)) (bits_get_bit bits i)) (\<lambda>b.
     and_then (origin_nums bits i (if b = 1 \<and> i > 0 then cur - 1 else cur)) (\<lambda>ns.
       Inr (ns @ [cur])))"

text \<open>The fold over the blocks: each takes its number of transactions from the front.\<close>

fun derive_blocks ::
    "u64 \<Rightarrow> u64 \<Rightarrow> u64 list \<Rightarrow> u64 list \<Rightarrow> nat list \<Rightarrow> bytes list
     \<Rightarrow> span_batch_error failure + span_batch_element list" where
  "derive_blocks start block_time nums counts [] txs = Inr []"
| "derive_blocks start block_time nums counts (i # js) txs =
     and_then (or_panic (if i < length counts then Some (unat (counts ! i)) else None)) (\<lambda>n.
     if length txs < n then Inl Panicking
     else and_then (derive_blocks start block_time nums counts js (drop n txs)) (\<lambda>es.
       Inr (\<lparr>el_epoch_num = nums ! i, el_timestamp = start + block_time * word_of_nat i,
              el_transactions = take n txs\<rparr> # es)))"

definition raw_span_derive ::
    "tx_codecs \<Rightarrow> u64 \<Rightarrow> u64 \<Rightarrow> u64 \<Rightarrow> raw_span_batch \<Rightarrow> span_batch_error failure + span_batch" where
  "raw_span_derive tc block_time genesis_time chain_id raw =
     (let prefix = raw_prefix raw; payload = raw_payload raw; n = unat (pl_block_count payload) in
      if pl_block_count payload = 0 then fails EmptySpanBatch
      else and_then (origin_nums (pl_origin_bits payload) n (pf_l1_origin_num prefix)) (\<lambda>nums.
      and_then (full_txs tc (pl_txs payload) chain_id) (\<lambda>txs.
      and_then (derive_blocks (genesis_time + pf_rel_timestamp prefix) block_time nums
          (pl_block_tx_counts payload) [0..<n] txs) (\<lambda>batches.
        Inr \<lparr>sp_parent_check = pf_parent_check prefix, sp_l1_origin_check = pf_l1_origin_check prefix,
             sp_genesis_timestamp = 0, sp_chain_id = 0, sp_batches = batches, sp_origin_bits = [],
             sp_block_tx_counts = []\<rparr>))))"

section \<open>Building a span\<close>

text \<open>A \<open>SpanBatch\<close> with the transaction columns it caches.\<close>

record span_builder = span_batch +
  spb_txs :: span_txs

definition span_builder_new :: "u64 \<Rightarrow> u64 \<Rightarrow> span_builder" where
  "span_builder_new genesis_timestamp chain_id =
     \<lparr>sp_parent_check = replicate 20 0, sp_l1_origin_check = replicate 20 0,
      sp_genesis_timestamp = genesis_timestamp, sp_chain_id = chain_id, sp_batches = [],
      sp_origin_bits = [], sp_block_tx_counts = [], spb_txs = span_txs_default\<rparr>"

text \<open>\<open>peek(n)\<close>, on a span that has the block.\<close>

definition span_peek :: "span_builder \<Rightarrow> nat \<Rightarrow> span_batch_element" where
  "span_peek sp n = sp_batches sp ! (length (sp_batches sp) - 1 - n)"

definition append_singular_batch ::
    "tx_codecs \<Rightarrow> single_batch \<Rightarrow> u64 \<Rightarrow> span_builder \<Rightarrow> span_batch_error failure + span_builder" where
  "append_singular_batch tc b seq_num sp =
     (if sp_batches sp \<noteq> [] \<and> el_timestamp (span_peek sp 0) > sb_timestamp b then Inl Panicking
      else
        let sp = sp\<lparr>sp_batches := sp_batches sp @ [element_of_single b],
                    sp_l1_origin_check := take 20 (sb_epoch_hash b)\<rparr>;
            sp = (if length (sp_batches sp) = 1 then sp\<lparr>sp_parent_check := take 20 (sb_parent_hash b)\<rparr> else sp);
            epoch_bit = (if length (sp_batches sp) = 1 then seq_num = 0
                         else el_epoch_num (span_peek sp 1) < el_epoch_num (span_peek sp 0));
            sp = sp\<lparr>sp_origin_bits := bits_set_bit (length (sp_batches sp) - 1) epoch_bit (sp_origin_bits sp)\<rparr>;
            new_txs = el_transactions (span_peek sp 0);
            sp = sp\<lparr>sp_block_tx_counts := sp_block_tx_counts sp @ [word_of_nat (length new_txs)]\<rparr>
        in and_then (add_txs tc new_txs (sp_chain_id sp) (spb_txs sp)) (\<lambda>t. Inr (sp\<lparr>spb_txs := t\<rparr>)))"

definition span_encode :: "varint \<Rightarrow> span_builder \<Rightarrow> span_batch_error failure + bytes" where
  "span_encode vi sp =
     (case sp_batches sp of
        [] \<Rightarrow> fails EmptySpanBatch
      | span_start # _ \<Rightarrow>
          let span_end = last (sp_batches sp);
              prefix = \<lparr>pf_rel_timestamp = el_timestamp span_start - sp_genesis_timestamp sp,
                pf_l1_origin_num = el_epoch_num span_end, pf_parent_check = sp_parent_check sp,
                pf_l1_origin_check = sp_l1_origin_check sp\<rparr>;
              block_count = length (sp_batches sp)
          in and_then (bits_encode block_count (sp_origin_bits sp)) (\<lambda>bits.
             and_then (span_txs_encode vi (spb_txs sp)) (\<lambda>txs.
               Inr (encode_prefix vi prefix @ vi_encode vi (word_of_nat block_count) @ bits @
                    concat (map (vi_encode vi) (sp_block_tx_counts sp)) @ txs))))"

section \<open>Batches\<close>

datatype batch_type = BatchSingle | BatchSpan

definition BATCH_TYPE_SINGLE :: u8 where
  "BATCH_TYPE_SINGLE = 0"

definition BATCH_TYPE_SPAN :: u8 where
  "BATCH_TYPE_SPAN = 1"

typedecl rlp_error

datatype batch_decoding_error =
    EmptyBuffer
  | AlloyRlpError rlp_error
  | BatchSpanError span_batch_error
  | InvalidBatchType u8

definition batch_type_of :: "u8 \<Rightarrow> batch_decoding_error + batch_type" where
  "batch_type_of val =
     (if val = BATCH_TYPE_SINGLE then Inr BatchSingle
      else if val = BATCH_TYPE_SPAN then Inr BatchSpan
      else Inl (InvalidBatchType val))"

fun span_failure :: "span_batch_error failure \<Rightarrow> batch_decoding_error failure" where
  "span_failure Panicking = Panicking"
| "span_failure (Failing e) = Failing (BatchSpanError e)"

text \<open>The derived RLP codec of a singular batch, from a third-party crate.\<close>

record single_codec =
  sc_encode :: "single_batch \<Rightarrow> bytes"
  sc_decode :: "bytes \<Rightarrow> rlp_error + single_batch \<times> bytes"

record batch_codecs =
  bc_varint :: varint
  bc_txs :: tx_codecs
  bc_single :: single_codec

definition batch_decode ::
    "batch_codecs \<Rightarrow> rollup_config \<Rightarrow> bytes \<Rightarrow> batch_decoding_error failure + batch \<times> bytes" where
  "batch_decode bc cfg r =
     (case r of
        [] \<Rightarrow> fails EmptyBuffer
      | ty # r \<Rightarrow>
          and_then (map_err Failing (batch_type_of ty)) (\<lambda>ty.
          case ty of
            BatchSingle \<Rightarrow>
              and_then (map_err (\<lambda>e. Failing (AlloyRlpError e)) (sc_decode (bc_single bc) r)) (\<lambda>(b, r).
                Inr (Single b, r))
          | BatchSpan \<Rightarrow>
              and_then (map_err span_failure (raw_span_decode (bc_varint bc) (tc_rlp (bc_txs bc)) r)) (\<lambda>(raw, r).
              and_then (map_err span_failure (raw_span_derive (bc_txs bc) (rc_block_time cfg)
                  (gen_l2_time (rc_genesis cfg)) (rc_l2_chain_id cfg) raw)) (\<lambda>sp.
                Inr (Span sp, r)))))"

text \<open>\<open>Batch::encode\<close>, on a batch whose span carries its columns.\<close>

definition batch_encode :: "batch_codecs \<Rightarrow> single_batch + span_builder \<Rightarrow> span_batch_error failure + bytes" where
  "batch_encode bc b =
     (case b of
        Inl sb \<Rightarrow> Inr (BATCH_TYPE_SINGLE # sc_encode (bc_single bc) sb)
      | Inr sp \<Rightarrow> and_then (span_encode (bc_varint bc) sp) (\<lambda>bs. Inr (BATCH_TYPE_SPAN # bs)))"

section \<open>Decoding is safe\<close>

lemma no_panic_span_failure [simp]: "no_panic (map_err span_failure r) \<longleftrightarrow> no_panic r"
proof (cases r)
  case (Inl f)
  then show ?thesis by (cases f) simp_all
qed simp

lemma origin_nums_calm: "no_panic (origin_nums bits n cur)"
  by (induction bits n cur rule: origin_nums.induct) auto

lemma origin_nums_length: "origin_nums bits n cur = Inr ns \<Longrightarrow> length ns = n"
  by (induction bits n cur arbitrary: ns rule: origin_nums.induct) (auto simp: and_then_Inr_iff)

lemma column_calm [simp]: "no_panic (column xs i)"
  by (simp add: column_def)

lemma to_signed_tx_calm [simp]: "no_panic (to_signed_tx d nonce gas to c sig p)"
  by (simp add: to_signed_tx_def split: span_tx_data.split option.split)

text \<open>A computation that does not panic and yields a list of a given length when it succeeds.\<close>

definition yields :: "nat \<Rightarrow> 'e failure + 'a list \<Rightarrow> bool" where
  "yields n r \<longleftrightarrow> no_panic r \<and> (\<forall>xs. r = Inr xs \<longrightarrow> length xs = n)"

lemma yields_and_then: "no_panic x \<Longrightarrow> (\<And>a. x = Inr a \<Longrightarrow> yields n (f a)) \<Longrightarrow> yields n (and_then x f)"
  by (cases x) (auto simp: yields_def)

lemma yields_Cons: "yields n r \<Longrightarrow> yields (Suc n) (and_then r (\<lambda>xs. Inr (x # xs)))"
  by (cases r) (auto simp: yields_def)

lemma full_txs_loop_calm:
  assumes "\<forall>i \<in> set js. i < length (stx_tx_data t)"
  shows "yields (length js) (full_txs_loop tc t c js to_idx prot_idx aa_idx)"
  using assms
proof (induction js arbitrary: to_idx prot_idx aa_idx)
  case (Cons i js)
  then show ?case
    by (auto intro!: yields_and_then yields_Cons simp: Let_def split: span_tx_data.split)
qed (simp add: yields_def)

lemma full_txs_calm:
  assumes "columns_ok t"
  shows "no_panic (full_txs tc t c)"
    and "full_txs tc t c = Inr txs \<Longrightarrow> length txs = unat (stx_total_block_tx_count t)"
  using full_txs_loop_calm [of "[0..<unat (stx_total_block_tx_count t)]" t tc c 0 0 0] columns_okD(6) [OF assms]
  by (auto simp: full_txs_def yields_def)

lemma derive_blocks_ok:
  assumes "length counts = k + m" and "length txs = sum_list (map unat (drop k counts))"
  shows "\<exists>es. derive_blocks start bt nums counts [k..<k + m] txs = Inr es \<and> length es = m \<and>
    (\<forall>i<m. el_timestamp (es ! i) = start + bt * word_of_nat (k + i) \<and> el_epoch_num (es ! i) = nums ! (k + i))"
  using assms
proof (induction m arbitrary: k txs)
  case (Suc m)
  have k: "k < length counts" using Suc.prems(1) by simp
  then have d: "drop k counts = counts ! k # drop (Suc k) counts" by (simp add: Cons_nth_drop_Suc)
  let ?n = "unat (counts ! k)"
  have "length (drop ?n txs) = sum_list (map unat (drop (Suc k) counts))" "?n \<le> length txs"
    using Suc.prems(2) by (simp_all add: d)
  then obtain es where es: "derive_blocks start bt nums counts [Suc k..<Suc k + m] (drop ?n txs) = Inr es"
    "length es = m" "\<forall>i<m. el_timestamp (es ! i) = start + bt * word_of_nat (k + Suc i) \<and>
      el_epoch_num (es ! i) = nums ! (k + Suc i)"
    using Suc.IH [of "Suc k" "drop ?n txs"] Suc.prems(1) by (auto simp del: of_nat_add of_nat_Suc upt_Suc)
  have u: "[k..<k + Suc m] = k # [Suc k..<Suc k + m]"
    using upt_conv_Cons [of k "k + Suc m"] by (simp del: upt_Suc)
  show ?case
    unfolding u using k es \<open>?n \<le> length txs\<close>
    by (auto simp: less_Suc_eq_0_disj simp del: upt_Suc of_nat_add of_nat_Suc add_Suc_right)
qed simp

lemma raw_span_derive_calm:
  assumes "raw_ok raw"
  shows "no_panic (raw_span_derive tc bt g c raw)"
proof -
  let ?p = "raw_payload raw"
  note p = assms [unfolded raw_ok_def payload_ok_def]
  have "no_panic (derive_blocks start bt nums (pl_block_tx_counts ?p) [0..<unat (pl_block_count ?p)] txs)"
    if "full_txs tc (pl_txs ?p) c = Inr txs" for start nums txs
    using derive_blocks_ok [of "pl_block_tx_counts ?p" 0 "unat (pl_block_count ?p)" txs start bt nums]
      full_txs_calm(2) [OF _ that] p by auto
  then show ?thesis
    using full_txs_calm(1) [of "pl_txs ?p" tc c] p
    by (simp add: raw_span_derive_def Let_def origin_nums_calm)
qed

lemma batch_decode_Cons:
  "batch_decode bc cfg (ty # r) =
     (if ty = BATCH_TYPE_SINGLE then
        and_then (map_err (\<lambda>e. Failing (AlloyRlpError e)) (sc_decode (bc_single bc) r)) (\<lambda>(b, r). Inr (Single b, r))
      else if ty = BATCH_TYPE_SPAN then
        and_then (map_err span_failure (raw_span_decode (bc_varint bc) (tc_rlp (bc_txs bc)) r)) (\<lambda>(raw, r).
        and_then (map_err span_failure (raw_span_derive (bc_txs bc) (rc_block_time cfg)
            (gen_l2_time (rc_genesis cfg)) (rc_l2_chain_id cfg) raw)) (\<lambda>sp.
          Inr (Span sp, r)))
      else fails (InvalidBatchType ty))"
  by (simp add: batch_decode_def batch_type_of_def)

lemma batch_decode_calm: "no_panic (batch_decode bc cfg r)"
proof (cases r)
  case (Cons ty r')
  have "no_panic (raw_span_derive (bc_txs bc) bt g c raw)"
    if "map_err span_failure (raw_span_decode (bc_varint bc) (tc_rlp (bc_txs bc)) r') = Inr (raw, r'')" for raw r'' bt g c
    using that by (cases "raw_span_decode (bc_varint bc) (tc_rlp (bc_txs bc)) r'")
      (auto intro!: raw_span_derive_calm raw_span_decode_sound)
  then show ?thesis
    using Cons raw_span_decode_calm [of "bc_varint bc" "tc_rlp (bc_txs bc)" r']
    by (auto simp: batch_decode_Cons)
qed (simp add: batch_decode_def)

section \<open>What a decoded span looks like\<close>

text \<open>Neighbouring blocks have the same L1 origin or consecutive ones, in the arithmetic of the code.\<close>

definition origins_step :: "u64 list \<Rightarrow> bool" where
  "origins_step ns \<longleftrightarrow> successively (\<lambda>a b. b = a \<or> b = a + 1) ns"

lemma origin_nums_step:
  "origin_nums bits n cur = Inr ns \<Longrightarrow> origins_step ns \<and> (ns \<noteq> [] \<longrightarrow> last ns = cur)"
proof (induction bits n cur arbitrary: ns rule: origin_nums.induct)
  case (2 bits i cur)
  then obtain b ms where b: "bits_get_bit bits i = Some b" and ms: "ns = ms @ [cur]"
    "origin_nums bits i (if b = 1 \<and> i > 0 then cur - 1 else cur) = Inr ms"
    by (cases "bits_get_bit bits i") (auto simp: and_then_Inr_iff)
  have ih: "origins_step ms \<and> (ms \<noteq> [] \<longrightarrow> last ms = (if b = 1 \<and> i > 0 then cur - 1 else cur))"
    using "2.IH" [of b ms] b ms(2) by simp
  then show ?case
    unfolding ms(1) origins_step_def by (auto simp: successively_append_iff split: if_splits)
qed (simp add: origins_step_def)

definition span_shape :: "u64 \<Rightarrow> span_batch \<Rightarrow> bool" where
  "span_shape bt sp \<longleftrightarrow>
     sp_batches sp \<noteq> [] \<and> length (sp_batches sp) \<le> unat MAX_SPAN_BATCH_ELEMENTS \<and>
     length (sp_parent_check sp) = 20 \<and> length (sp_l1_origin_check sp) = 20 \<and>
     (\<forall>i<length (sp_batches sp).
        el_timestamp (sp_batches sp ! i) = el_timestamp (sp_batches sp ! 0) + bt * word_of_nat i) \<and>
     origins_step (map el_epoch_num (sp_batches sp))"

lemma raw_span_derive_shape:
  assumes "raw_ok raw" and "raw_span_derive tc bt g c raw = Inr sp"
  shows "span_shape bt sp"
proof -
  let ?p = "raw_payload raw" and ?f = "raw_prefix raw"
  let ?n = "unat (pl_block_count ?p)" and ?st = "g + pf_rel_timestamp (raw_prefix raw)"
  note p = assms(1) [unfolded raw_ok_def payload_ok_def]
  obtain nums txs bs where nums: "origin_nums (pl_origin_bits ?p) ?n (pf_l1_origin_num ?f) = Inr nums"
    and txs: "full_txs tc (pl_txs ?p) c = Inr txs"
    and bs: "derive_blocks ?st bt nums (pl_block_tx_counts ?p) [0..<?n] txs = Inr bs"
    and sp: "sp_batches sp = bs" "sp_parent_check sp = pf_parent_check ?f" "sp_l1_origin_check sp = pf_l1_origin_check ?f"
    using assms(2) by (auto simp: raw_span_derive_def Let_def and_then_Inr_iff split: if_splits)
  have "length txs = sum_list (map unat (pl_block_tx_counts ?p))"
    using full_txs_calm(2) [OF _ txs] p by simp
  then have b: "length bs = ?n"
    "\<forall>i<?n. el_timestamp (bs ! i) = ?st + bt * word_of_nat i \<and> el_epoch_num (bs ! i) = nums ! i"
    using derive_blocks_ok [of "pl_block_tx_counts ?p" 0 ?n txs ?st bt nums] bs p by auto
  have n: "0 < ?n" "?n \<le> unat MAX_SPAN_BATCH_ELEMENTS" using p by (simp_all add: unat_gt_0 word_le_nat_alt)
  have "map el_epoch_num bs = nums"
    using b origin_nums_length [OF nums] by (intro nth_equalityI) simp_all
  then show ?thesis
    using b n origin_nums_step [OF nums] p by (auto simp: span_shape_def sp)
qed

lemma batch_decode_span:
  assumes "batch_decode bc cfg r = Inr (Span sp, r')"
  shows "span_shape (rc_block_time cfg) sp"
proof -
  have inv: "\<exists>a. x = Inr a \<and> a = b" if "map_err span_failure x = Inr b" for x :: "span_batch_error failure + 'c" and b
    using that by (cases x) simp_all
  obtain ty r1 raw where "r = ty # r1"
    and raw: "map_err span_failure (raw_span_decode (bc_varint bc) (tc_rlp (bc_txs bc)) r1) = Inr (raw, r')"
    and sp: "map_err span_failure (raw_span_derive (bc_txs bc) (rc_block_time cfg)
        (gen_l2_time (rc_genesis cfg)) (rc_l2_chain_id cfg) raw) = Inr sp"
    using assms
    by (cases r) (auto simp: batch_decode_Cons batch_decode_def [of bc cfg "[]"] and_then_Inr_iff split: if_splits)
  then show ?thesis
    using inv [OF raw] inv [OF sp] by (auto intro: raw_span_derive_shape dest: raw_span_decode_sound)
qed

lemma unat_add_mult_nowrap:
  fixes a b :: u64
  assumes "unat a + i * unat b < 2 ^ 64"
  shows "unat (a + b * word_of_nat i) = unat a + i * unat b"
proof -
  have e: "a + b * word_of_nat i = word_of_nat (unat a + i * unat b)" by (simp add: mult.commute)
  show ?thesis unfolding e using assms by (simp only: unat_of_nat) simp
qed

text \<open>Without wrap-around the timestamps of a decoded span are evenly spaced.\<close>

lemma span_shape_even:
  assumes "span_shape bt sp"
    and "unat (el_timestamp (sp_batches sp ! 0)) + length (sp_batches sp) * unat bt < 2 ^ 64"
  shows "evenly_spaced bt (sp_batches sp)"
proof -
  let ?es = "sp_batches sp"
  have "unat (el_timestamp (?es ! i)) = unat (el_timestamp (?es ! 0)) + i * unat bt" if "i < length ?es" for i
  proof -
    have "i * unat bt \<le> length ?es * unat bt" using that by simp
    then have "unat (el_timestamp (?es ! 0)) + i * unat bt < 2 ^ 64" using assms(2) by linarith
    moreover have "el_timestamp (?es ! i) = el_timestamp (?es ! 0) + bt * word_of_nat i"
      using assms(1) that unfolding span_shape_def by blast
    ultimately show ?thesis by (simp only: unat_add_mult_nowrap)
  qed
  then show ?thesis unfolding evenly_spaced_def list_all_iff by (metis atLeastLessThan_iff set_upt)
qed

section \<open>A span built from singular batches\<close>

fun append_all :: "tx_codecs \<Rightarrow> (single_batch \<times> u64) list \<Rightarrow> span_builder \<Rightarrow> span_batch_error failure + span_builder" where
  "append_all tc [] sp = Inr sp"
| "append_all tc ((b, seq_num) # bs) sp =
     and_then (append_singular_batch tc b seq_num sp) (append_all tc bs)"

text \<open>Singular batches with the transactions they carry.\<close>

definition block_ok :: "tx_codecs \<Rightarrow> u64 \<Rightarrow> single_batch \<times> base_tx_envelope list \<Rightarrow> bool" where
  "block_ok tc c be \<longleftrightarrow>
     sb_transactions (fst be) = map (tc_env_encode tc) (snd be) \<and> list_all (env_ok tc c) (snd be) \<and>
     length (sb_parent_hash (fst be)) = 32 \<and> length (sb_epoch_hash (fst be)) = 32"

text \<open>The batches of consecutive blocks: one block time apart, with origins that stay or advance by one.\<close>

definition consecutive :: "u64 \<Rightarrow> single_batch list \<Rightarrow> bool" where
  "consecutive bt bs \<longleftrightarrow>
     successively (\<lambda>a b. sb_timestamp b = sb_timestamp a + bt \<and> sb_timestamp a \<le> sb_timestamp b \<and>
       (sb_epoch_num b = sb_epoch_num a \<or> sb_epoch_num b = sb_epoch_num a + 1 \<and> sb_epoch_num a < sb_epoch_num b)) bs"

definition builder_rep ::
    "tx_codecs \<Rightarrow> span_builder \<Rightarrow> (single_batch \<times> base_tx_envelope list) list \<Rightarrow> bool" where
  "builder_rep tc sp bes \<longleftrightarrow>
     (let bs = map fst bes; es = concat (map snd bes) in
      sp_batches sp = map element_of_single bs \<and>
      sp_block_tx_counts sp = map (\<lambda>be. word_of_nat (length (snd be))) bes \<and>
      columns_rep tc (spb_txs sp) es \<and> unat (stx_total_block_tx_count (spb_txs sp)) = length es \<and>
      (\<exists>vs. bits_rep (sp_origin_bits sp) vs \<and> length vs = length bs \<and>
         (\<forall>i. Suc i < length bs \<longrightarrow> vs ! Suc i = (sb_epoch_num (bs ! i) < sb_epoch_num (bs ! Suc i)))) \<and>
      (bs \<noteq> [] \<longrightarrow> sp_parent_check sp = take 20 (sb_parent_hash (hd bs)) \<and>
         sp_l1_origin_check sp = take 20 (sb_epoch_hash (last bs))))"

lemma builder_rep_new: "builder_rep tc (span_builder_new g c) []"
  unfolding builder_rep_def Let_def
  by (simp add: span_builder_new_def) (simp add: span_txs_default_def)

lemma append_rep:
  assumes rep: "builder_rep tc sp bes" and "sp_chain_id sp = c" and ok: "block_ok tc c (b, es)"
    and "bes \<noteq> [] \<Longrightarrow> sb_timestamp (fst (last bes)) \<le> sb_timestamp b"
    and l: "length (concat (map snd bes)) + length es < 2 ^ 64"
  shows "\<exists>sp'. append_singular_batch tc b seq_num sp = Inr sp' \<and> builder_rep tc sp' (bes @ [(b, es)]) \<and>
    sp_chain_id sp' = c \<and> sp_genesis_timestamp sp' = sp_genesis_timestamp sp"
proof -
  let ?bs = "map fst bes" and ?n = "length bes"
  note r = rep [unfolded builder_rep_def Let_def]
  obtain vs where vs: "bits_rep (sp_origin_bits sp) vs" "length vs = ?n"
    "\<forall>i. Suc i < ?n \<longrightarrow> vs ! Suc i = (sb_epoch_num (?bs ! i) < sb_epoch_num (?bs ! Suc i))"
    using r by auto
  define bt where "bt = (if bes = [] then seq_num = 0 else sb_epoch_num (fst (last bes)) < sb_epoch_num b)"
  have txs: "sb_transactions b = map (tc_env_encode tc) es" "list_all (env_ok tc c) es" using ok by (auto simp: block_ok_def)
  obtain t where t: "add_txs tc (sb_transactions b) c (spb_txs sp) = Inr t" "columns_rep tc t (concat (map snd bes) @ es)"
    "unat (stx_total_block_tx_count t) = length (concat (map snd bes) @ es)"
    using add_txs_rep [of tc "spb_txs sp" "concat (map snd bes)" c es] r txs l by auto
  have no_panic: "\<not> (sp_batches sp \<noteq> [] \<and> el_timestamp (span_peek sp 0) > sb_timestamp b)"
    using r assms(4) by (auto simp: span_peek_def element_of_single_def last_conv_nth)
  have peek1: "el_epoch_num ((map element_of_single ?bs @ [element_of_single b]) ! (?n - 1)) = sb_epoch_num (fst (last bes))"
    if "bes \<noteq> []"
    using that by (simp add: nth_append element_of_single_def last_conv_nth)
  let ?sp' = "sp\<lparr>sp_batches := sp_batches sp @ [element_of_single b], sp_l1_origin_check := take 20 (sb_epoch_hash b),
      sp_parent_check := (if bes = [] then take 20 (sb_parent_hash b) else sp_parent_check sp),
      sp_origin_bits := bits_set_bit ?n bt (sp_origin_bits sp),
      sp_block_tx_counts := sp_block_tx_counts sp @ [word_of_nat (length es)], spb_txs := t\<rparr>"
  have "append_singular_batch tc b seq_num sp = Inr ?sp'"
    using no_panic t(1) r assms(2) txs(1) peek1
    by (simp add: append_singular_batch_def Let_def span_peek_def nth_append bt_def element_of_single_def)
  moreover have "bits_rep (bits_set_bit ?n bt (sp_origin_bits sp)) (vs @ [bt])"
    using bits_rep_snoc [OF vs(1), of bt] vs(2) by simp
  moreover have "(vs @ [bt]) ! Suc i = (sb_epoch_num ((?bs @ [b]) ! i) < sb_epoch_num ((?bs @ [b]) ! Suc i))"
    if "i < ?n" for i
  proof (cases "Suc i < ?n")
    case True
    then show ?thesis using vs by (simp add: nth_append)
  next
    case False
    then have "i = ?n - 1" "bes \<noteq> []" using that by auto
    then show ?thesis using vs(2) by (simp add: nth_append bt_def last_conv_nth)
  qed
  ultimately show ?thesis
    using r t(2,3) vs(2) assms(2) unfolding builder_rep_def Let_def
    by (intro exI [of _ ?sp']) (auto simp: hd_append intro!: exI [of _ "vs @ [bt]"])
qed

lemma append_all_rep:
  assumes "builder_rep tc sp bes" and "sp_chain_id sp = c" and "list_all (block_ok tc c) bes'"
    and "consecutive bt (map fst (bes @ bes'))" and "length (concat (map snd (bes @ bes'))) < 2 ^ 64"
    and "length seqs = length bes'"
  shows "\<exists>sp'. append_all tc (zip (map fst bes') seqs) sp = Inr sp' \<and> builder_rep tc sp' (bes @ bes') \<and>
    sp_chain_id sp' = c \<and> sp_genesis_timestamp sp' = sp_genesis_timestamp sp"
  using assms
proof (induction bes' arbitrary: sp bes seqs)
  case (Cons be bes')
  obtain b es where be: "be = (b, es)" by (cases be)
  obtain s seqs' where s: "seqs = s # seqs'" "length seqs' = length bes'"
    using Cons.prems(6) by (cases seqs) auto
  have "sb_timestamp (fst (last bes)) \<le> sb_timestamp b" if "bes \<noteq> []"
    using Cons.prems(4) that by (auto simp: consecutive_def be successively_append_iff last_map)
  then obtain sp1 where sp1: "append_singular_batch tc b s sp = Inr sp1" "builder_rep tc sp1 (bes @ [be])"
    "sp_chain_id sp1 = c" "sp_genesis_timestamp sp1 = sp_genesis_timestamp sp"
    using append_rep [of tc sp bes c b es s] Cons.prems(1-3,5) by (auto simp: be)
  from Cons.IH [OF sp1(2,3), of seqs'] Cons.prems(3-5) s sp1
  show ?case by (simp add: be)
qed auto

text \<open>The raw span batch that \<open>encode\<close> writes without building it.\<close>

definition span_raw :: "span_builder \<Rightarrow> raw_span_batch" where
  "span_raw sp =
     \<lparr>raw_prefix = \<lparr>pf_rel_timestamp = el_timestamp (hd (sp_batches sp)) - sp_genesis_timestamp sp,
        pf_l1_origin_num = el_epoch_num (last (sp_batches sp)), pf_parent_check = sp_parent_check sp,
        pf_l1_origin_check = sp_l1_origin_check sp\<rparr>,
      raw_payload = \<lparr>pl_block_count = word_of_nat (length (sp_batches sp)), pl_origin_bits = sp_origin_bits sp,
        pl_block_tx_counts = sp_block_tx_counts sp, pl_txs = spb_txs sp\<rparr>\<rparr>"

lemma span_encode_raw:
  assumes "sp_batches sp \<noteq> []" and "length (sp_batches sp) < 2 ^ 64"
  shows "span_encode vi sp = raw_span_encode vi (span_raw sp)"
proof -
  have "unat (word_of_nat (length (sp_batches sp)) :: u64) = length (sp_batches sp)"
    using assms(2) by (simp add: unat_of_nat)
  moreover obtain e es where "sp_batches sp = e # es" using assms(1) by (cases "sp_batches sp") auto
  ultimately show ?thesis
    unfolding span_encode_def raw_span_encode_def span_raw_def encode_payload_def encode_origin_bits_def
      encode_block_tx_counts_def Let_def
    by (cases "bits_encode (length (sp_batches sp)) (sp_origin_bits sp)"; cases "span_txs_encode vi (spb_txs sp)")
      (simp_all add: encode_prefix_def)
qed

lemma sum_list_lengths: "length (concat xss) = sum_list (map length xss)"
  by (rule length_concat)

lemma span_raw_ok:
  assumes rep: "builder_rep tc sp bes" and "bes \<noteq> []" and "list_all (block_ok tc c) bes"
    and n: "length bes \<le> unat MAX_SPAN_BATCH_ELEMENTS"
    and m: "length (concat (map snd bes)) \<le> unat MAX_SPAN_BATCH_ELEMENTS"
  shows "raw_ok (span_raw sp)"
proof -
  note r = rep [unfolded builder_rep_def Let_def]
  have len: "length (sp_batches sp) = length bes" using r by simp
  then have bc: "unat (word_of_nat (length (sp_batches sp)) :: u64) = length bes"
    using unat_word_of_nat_le [OF n] by simp
  have b: "length (snd be) \<le> unat MAX_SPAN_BATCH_ELEMENTS" if "be \<in> set bes" for be
    using that m member_le_sum_list [of "length (snd be)" "map (\<lambda>be. length (snd be))  bes"]
    by (auto simp: length_concat comp_def)
  have u: "unat (word_of_nat (length (snd be)) :: u64) = length (snd be)" if "be \<in> set bes" for be
    using b [OF that] by (rule unat_word_of_nat_le)
  have "list_all (env_ok tc c) (concat (map snd bes))"
    using assms(3) by (auto simp: list_all_iff block_ok_def)
  then have "columns_ok (spb_txs sp)"
    using columns_rep_ok [of tc "spb_txs sp" "concat (map snd bes)" c] r m by simp
  moreover have "sum_list (map unat (sp_block_tx_counts sp)) = unat (stx_total_block_tx_count (spb_txs sp))"
    using r u by (simp add: comp_def length_concat cong: map_cong)
  moreover have "list_all (\<lambda>n. n \<le> MAX_SPAN_BATCH_ELEMENTS) (sp_block_tx_counts sp)"
    using r b u by (auto simp: list_all_iff word_le_nat_alt)
  moreover have "bits_ok (length bes) (sp_origin_bits sp)"
    using r bits_rep_ok by (metis length_map)
  moreover have "length (sp_parent_check sp) = 20" "length (sp_l1_origin_check sp) = 20"
    using r assms(2,3) by (auto simp: list_all_iff block_ok_def last_map hd_map)
  moreover have "0 < length bes" using assms(2) by simp
  ultimately show ?thesis
    using r n bc by (simp add: raw_ok_def payload_ok_def span_raw_def word_le_nat_alt unat_eq_zero [symmetric])
qed

lemma origin_nums_rep:
  assumes "bits_rep bits vs" and "length vs = length es"
    and "\<forall>i. Suc i < length es \<longrightarrow> vs ! Suc i = (es ! i < es ! Suc i) \<and> (es ! Suc i = es ! i \<or> es ! Suc i = es ! i + 1 \<and> es ! i < es ! Suc i)"
  shows "k \<le> length es \<Longrightarrow> (k \<noteq> 0 \<Longrightarrow> cur = es ! (k - 1)) \<Longrightarrow> origin_nums bits k cur = Inr (take k es)"
proof (induction k arbitrary: cur)
  case (Suc i)
  have b: "bits_get_bit bits i = Some (if vs ! i then 1 else 0)"
    using bits_rep_get [OF assms(1), of i] Suc.prems(1) assms(2) by simp
  let ?next = "if (if vs ! i then 1 else 0) = (1 :: u8) \<and> i > 0 then cur - 1 else cur"
  have "?next = es ! (i - 1)" if i: "i \<noteq> 0"
  proof -
    obtain j where j: "i = Suc j" using i by (cases i) auto
    have "vs ! i = (es ! j < es ! i)" "es ! i = es ! j \<or> es ! i = es ! j + 1 \<and> es ! j < es ! i" "cur = es ! i"
      using assms(3) Suc.prems j by auto
    then show ?thesis using j by auto
  qed
  then have "origin_nums bits i ?next = Inr (take i es)" using Suc.IH [of ?next] Suc.prems(1) by simp
  then show ?case using b Suc.prems by (cases "vs ! i") (auto simp: take_Suc_conv_app_nth split: if_splits)
qed simp

lemma consecutive_nth:
  assumes "consecutive bt bs" and "Suc i < length bs"
  shows "sb_timestamp (bs ! Suc i) = sb_timestamp (bs ! i) + bt"
    and "sb_epoch_num (bs ! Suc i) = sb_epoch_num (bs ! i) \<or>
      sb_epoch_num (bs ! Suc i) = sb_epoch_num (bs ! i) + 1 \<and> sb_epoch_num (bs ! i) < sb_epoch_num (bs ! Suc i)"
  using assms successively_conv_nth [THEN iffD1, OF assms(1) [unfolded consecutive_def], rule_format, OF assms(2)]
  by auto

lemma consecutive_timestamp:
  "consecutive bt bs \<Longrightarrow> i < length bs \<Longrightarrow> sb_timestamp (bs ! i) = sb_timestamp (bs ! 0) + bt * word_of_nat i"
proof (induction i)
  case (Suc i)
  then have "sb_timestamp (bs ! Suc i) = sb_timestamp (bs ! 0) + bt * word_of_nat i + bt"
    using consecutive_nth(1) [of bt bs i] by simp
  then show ?case by (simp add: algebra_simps)
qed simp

lemma derive_blocks_rep:
  assumes "\<And>i. i < length bs \<Longrightarrow> sb_timestamp (bs ! i) = start + bt * word_of_nat i"
    and "nums = map sb_epoch_num bs" and "length counts = length bs"
    and "\<And>i. i < length bs \<Longrightarrow> unat (counts ! i) = length (sb_transactions (bs ! i))"
  shows "k \<le> length bs \<Longrightarrow> derive_blocks start bt nums counts [k..<length bs] (concat (map sb_transactions (drop k bs))) =
    Inr (map element_of_single (drop k bs))"
proof (induction "length bs - k" arbitrary: k)
  case (Suc m)
  then have k: "k < length bs" by simp
  then have d: "drop k bs = bs ! k # drop (Suc k) bs" by (simp add: Cons_nth_drop_Suc)
  have "derive_blocks start bt nums counts [Suc k..<length bs] (concat (map sb_transactions (drop (Suc k) bs))) =
      Inr (map element_of_single (drop (Suc k) bs))"
    using Suc(1) [of "Suc k"] Suc(2) k by simp
  then show ?case
    using k assms(2,3) assms(1) [OF k] assms(4) [OF k]
    by (simp add: upt_conv_Cons [OF k] d element_of_single_def del: upt_Suc drop_Suc)
qed simp

lemma span_raw_derive:
  assumes rlp: "rlp_ok (tc_rlp tc)" and rep: "builder_rep tc sp bes" and "bes \<noteq> []"
    and ok: "list_all (block_ok tc c) bes" and con: "consecutive bt (map fst bes)"
    and n: "length bes \<le> unat MAX_SPAN_BATCH_ELEMENTS"
    and m: "length (concat (map snd bes)) \<le> unat MAX_SPAN_BATCH_ELEMENTS"
    and "sp_genesis_timestamp sp = g"
  shows "raw_span_derive tc bt g c (span_raw sp) =
    Inr \<lparr>sp_parent_check = take 20 (sb_parent_hash (fst (hd bes))),
         sp_l1_origin_check = take 20 (sb_epoch_hash (fst (last bes))), sp_genesis_timestamp = 0, sp_chain_id = 0,
         sp_batches = map (\<lambda>be. element_of_single (fst be)) bes, sp_origin_bits = [], sp_block_tx_counts = []\<rparr>"
proof -
  let ?bs = "map fst bes" and ?es = "map sb_epoch_num (map fst bes)"
  note r = rep [unfolded builder_rep_def Let_def]
  have bc: "unat (word_of_nat (length bes) :: u64) = length bes" using unat_word_of_nat_le [OF n] .
  obtain vs where vs: "bits_rep (sp_origin_bits sp) vs" "length vs = length ?es"
    "\<forall>i. Suc i < length ?bs \<longrightarrow> vs ! Suc i = (sb_epoch_num (?bs ! i) < sb_epoch_num (?bs ! Suc i))"
    using r by auto
  have "\<forall>i. Suc i < length ?es \<longrightarrow> vs ! Suc i = (?es ! i < ?es ! Suc i) \<and>
      (?es ! Suc i = ?es ! i \<or> ?es ! Suc i = ?es ! i + 1 \<and> ?es ! i < ?es ! Suc i)"
    using vs(3) consecutive_nth(2) [OF con] by simp
  from origin_nums_rep [OF vs(1,2) this, of "length bes" "sb_epoch_num (fst (last bes))"]
  have nums: "origin_nums (sp_origin_bits sp) (length bes) (sb_epoch_num (fst (last bes))) = Inr ?es"
    using assms(3) by (simp add: last_conv_nth)
  have "list_all (env_ok tc c) (concat (map snd bes))"
    using ok by (auto simp: list_all_iff block_ok_def)
  then have txs: "full_txs tc (spb_txs sp) c = Inr (concat (map sb_transactions ?bs))"
  proof -
    have "map sb_transactions ?bs = map (map (tc_env_encode tc)) (map snd bes)"
      using ok by (simp add: list_all_iff block_ok_def)
    then have "concat (map sb_transactions ?bs) = map (tc_env_encode tc) (concat (map snd bes))"
      by (simp only: map_concat)
    then show ?thesis
      using full_txs_rep [OF rlp, of "spb_txs sp" "concat (map snd bes)" c] r
        \<open>list_all (env_ok tc c) (concat (map snd bes))\<close> by simp
  qed
  have count: "unat (map (\<lambda>be. word_of_nat (length (snd be)) :: u64) bes ! i) = length (sb_transactions (?bs ! i))"
    if "i < length ?bs" for i
  proof -
    have "length (snd (bes ! i)) \<le> length (concat (map snd bes))"
      using that member_le_sum_list [of "length (snd (bes ! i))" "map (\<lambda>be. length (snd be)) bes"]
      by (simp add: length_concat comp_def)
    then have "unat (word_of_nat (length (snd (bes ! i))) :: u64) = length (snd (bes ! i))"
      using m by (intro unat_word_of_nat_le [of _ MAX_SPAN_BATCH_ELEMENTS]) simp
    moreover have "sb_transactions (fst (bes ! i)) = map (tc_env_encode tc) (snd (bes ! i))"
      using ok that by (simp add: list_all_length block_ok_def)
    ultimately show ?thesis using that by simp
  qed
  have "derive_blocks (sb_timestamp (?bs ! 0)) bt ?es (map (\<lambda>be. word_of_nat (length (snd be))) bes) [0..<length ?bs]
      (concat (map sb_transactions (drop 0 ?bs))) = Inr (map element_of_single (drop 0 ?bs))"
    by (rule derive_blocks_rep) (use consecutive_timestamp [OF con] count in auto)
  then have "derive_blocks (g + (el_timestamp (hd (sp_batches sp)) - g)) bt ?es (sp_block_tx_counts sp) [0..<length bes]
      (concat (map sb_transactions ?bs)) = Inr (map element_of_single ?bs)"
    using r assms(3) by (simp add: element_of_single_def hd_map hd_conv_nth)
  moreover have "word_of_nat (length bes) \<noteq> (0 :: u64)"
    using bc assms(3) by (metis length_greater_0_conv less_irrefl unat_0)
  moreover have "sp_batches sp = map element_of_single ?bs" using r by simp
  moreover from this have "el_epoch_num (last (sp_batches sp)) = sb_epoch_num (fst (last bes))"
    using assms(3) by (simp add: last_map element_of_single_def)
  ultimately show ?thesis
    using r assms(3,8) nums txs bc
    by (simp add: raw_span_derive_def span_raw_def Let_def hd_map last_map comp_def)
qed

text \<open>The span that a decoder gives back for the batches.\<close>

definition span_of_singles :: "single_batch list \<Rightarrow> span_batch" where
  "span_of_singles bs =
     \<lparr>sp_parent_check = take 20 (sb_parent_hash (hd bs)), sp_l1_origin_check = take 20 (sb_epoch_hash (last bs)),
      sp_genesis_timestamp = 0, sp_chain_id = 0, sp_batches = map element_of_single bs, sp_origin_bits = [],
      sp_block_tx_counts = []\<rparr>"

lemma span_enc_dec:
  assumes "varint_ok (bc_varint bc)" and rlp: "rlp_ok (tc_rlp (bc_txs bc))" and ne: "bes \<noteq> []"
    and ok: "list_all (block_ok (bc_txs bc) (rc_l2_chain_id cfg)) bes"
    and con: "consecutive (rc_block_time cfg) (map fst bes)"
    and n: "length bes \<le> unat MAX_SPAN_BATCH_ELEMENTS"
    and m: "length (concat (map snd bes)) \<le> unat MAX_SPAN_BATCH_ELEMENTS" and "length seqs = length bes"
  shows "\<exists>sp bs. append_all (bc_txs bc) (zip (map fst bes) seqs)
        (span_builder_new (gen_l2_time (rc_genesis cfg)) (rc_l2_chain_id cfg)) = Inr sp \<and>
      batch_encode bc (Inr sp) = Inr bs \<and>
      batch_decode bc cfg (bs @ r) = Inr (Span (span_of_singles (map fst bes)), r)"
proof -
  let ?tc = "bc_txs bc" and ?c = "rc_l2_chain_id cfg" and ?g = "gen_l2_time (rc_genesis cfg)"
  have lt: "unat MAX_SPAN_BATCH_ELEMENTS < 2 ^ 64" by (simp add: MAX_SPAN_BATCH_ELEMENTS_def)
  obtain sp where sp: "append_all ?tc (zip (map fst bes) seqs) (span_builder_new ?g ?c) = Inr sp"
    "builder_rep ?tc sp bes" "sp_genesis_timestamp sp = ?g"
    using append_all_rep [OF builder_rep_new [of ?tc ?g ?c] _ ok, of "rc_block_time cfg" seqs] con m lt assms(8)
    by (auto simp: span_builder_new_def)
  have len: "length (sp_batches sp) = length bes" "columns_rep ?tc (spb_txs sp) (concat (map snd bes))"
    using sp(2) by (auto simp: builder_rep_def Let_def)
  have "list_all (env_ok ?tc ?c) (concat (map snd bes))" using ok by (auto simp: list_all_iff block_ok_def)
  then have "items_ok (tc_rlp ?tc) (pl_txs (raw_payload (span_raw sp)))"
    using columns_rep_items [OF rlp len(2)] by (simp add: span_raw_def)
  then obtain bs where bs: "raw_span_encode (bc_varint bc) (span_raw sp) = Inr bs"
    "raw_span_decode (bc_varint bc) (tc_rlp ?tc) (bs @ r) = Inr (span_raw sp, r)"
    using raw_span_enc_dec [OF assms(1) span_raw_ok [OF sp(2) ne ok n m]] by blast
  have "span_encode (bc_varint bc) sp = Inr bs"
    using bs(1) span_encode_raw [of sp "bc_varint bc"] ne n lt len(1) by (cases "sp_batches sp") auto
  then have "batch_encode bc (Inr sp) = Inr (BATCH_TYPE_SPAN # bs)" by (simp add: batch_encode_def)
  moreover have "batch_decode bc cfg ((BATCH_TYPE_SPAN # bs) @ r) = Inr (Span (span_of_singles (map fst bes)), r)"
    using bs(2) span_raw_derive [OF rlp sp(2) ne ok con n m sp(3)] ne
    by (simp add: batch_decode_Cons BATCH_TYPE_SPAN_def BATCH_TYPE_SINGLE_def span_of_singles_def hd_map last_map comp_def)
  ultimately show ?thesis using sp(1) by blast
qed

text \<open>
  C6. A span batch built from singular batches comes back as them: appending the batches of
  consecutive blocks to an empty span and encoding it succeeds, and decoding the bytes, whatever
  follows them, gives exactly the blocks of the batches, with every transaction of every kind,
  and the 20-byte prefixes of the first parent hash and the last epoch hash as its checks.
\<close>

theorem span_batch_roundtrip:
  assumes "varint_ok (bc_varint bc)" and "rlp_ok (tc_rlp (bc_txs bc))" and "bes \<noteq> []"
    and "list_all (block_ok (bc_txs bc) (rc_l2_chain_id cfg)) bes"
    and "consecutive (rc_block_time cfg) (map fst bes)"
    and "length bes \<le> unat MAX_SPAN_BATCH_ELEMENTS"
    and "length (concat (map snd bes)) \<le> unat MAX_SPAN_BATCH_ELEMENTS" and "length seqs = length bes"
  shows "\<exists>sp bs. append_all (bc_txs bc) (zip (map fst bes) seqs)
        (span_builder_new (gen_l2_time (rc_genesis cfg)) (rc_l2_chain_id cfg)) = Inr sp \<and>
      batch_encode bc (Inr sp) = Inr bs \<and>
      batch_decode bc cfg (bs @ r) = Inr (Span (span_of_singles (map fst bes)), r)"
  using assms by (rule span_enc_dec)

text \<open>A sample: two blocks of a chain, the first with a legacy transaction, and codecs that fit it.\<close>

definition sample_env :: base_tx_envelope where
  "sample_env = EnvLegacy \<lparr>lg_chain_id = Some 8453, lg_nonce = 3, lg_gas_price = 1, lg_gas_limit = 21000,
     lg_to = Some (replicate 20 9), lg_value = 5, lg_input = []\<rparr> \<lparr>sig_r = 11, sig_s = 12, sig_v = True\<rparr>"

definition unused_codec :: "'a codec" where
  "unused_codec = \<lparr>cd_encode = \<lambda>_. [], cd_decode = \<lambda>_. None\<rparr>"

definition sample_codecs :: batch_codecs where
  "sample_codecs =
     \<lparr>bc_varint = leb128,
      bc_txs = \<lparr>tc_rlp = rlp_format,
        tc_legacy = \<lparr>cd_encode = \<lambda>_. [0xC0],
          cd_decode = \<lambda>r. Some (\<lparr>d0_value = 5, d0_gas_price = 1, d0_data = []\<rparr>, drop 1 r)\<rparr>,
        tc_eip2930 = unused_codec, tc_eip1559 = unused_codec, tc_eip7702 = unused_codec,
        tc_account_changes = unused_codec, tc_calls = unused_codec,
        tc_env_encode = \<lambda>_. [1, 2, 3], tc_env_decode = \<lambda>_. Some sample_env\<rparr>,
      bc_single = \<lparr>sc_encode = \<lambda>_. [], sc_decode = \<lambda>r. Inr (\<lparr>sb_parent_hash = [], sb_epoch_num = 0,
        sb_epoch_hash = [], sb_timestamp = 0, sb_transactions = []\<rparr>, r)\<rparr>\<rparr>"

definition sample_blocks :: "(single_batch \<times> base_tx_envelope list) list" where
  "sample_blocks =
     [(\<lparr>sb_parent_hash = replicate 32 1, sb_epoch_num = 7, sb_epoch_hash = replicate 32 2, sb_timestamp = 100,
        sb_transactions = [[1, 2, 3]]\<rparr>, [sample_env]),
      (\<lparr>sb_parent_hash = replicate 32 3, sb_epoch_num = 8, sb_epoch_hash = replicate 32 4, sb_timestamp = 102,
        sb_transactions = []\<rparr>, [])]"

definition sample_config :: rollup_config where
  "sample_config = rollup_config_default\<lparr>rc_block_time := 2, rc_l2_chain_id := 8453\<rparr>"

lemma sample_blocks_ok:
  "list_all (block_ok (bc_txs sample_codecs) (rc_l2_chain_id sample_config)) sample_blocks"
  "consecutive (rc_block_time sample_config) (map fst sample_blocks)"
  "varint_ok (bc_varint sample_codecs)" "rlp_ok (tc_rlp (bc_txs sample_codecs))" "sample_blocks \<noteq> []"
  "length sample_blocks \<le> unat MAX_SPAN_BATCH_ELEMENTS"
  "length (concat (map snd sample_blocks)) \<le> unat MAX_SPAN_BATCH_ELEMENTS"
  "length [0, 0 :: u64] = length sample_blocks"
proof -
  have "is_rlp_list rlp_format [0xC0]"
    unfolding is_rlp_list_def
    by (intro conjI exI [of _ "[]"])
      (simp_all add: rlp_format_def rlp_format_header_def MAX_SPAN_BATCH_ELEMENTS_def)
  then have "env_ok (bc_txs sample_codecs) 8453 sample_env"
    by (simp add: env_ok_def sample_env_def sample_codecs_def data_of_envelope_def env_data_def data_codec_ok_def
        codec_at_def)
  then show "list_all (block_ok (bc_txs sample_codecs) (rc_l2_chain_id sample_config)) sample_blocks"
    by (simp add: sample_blocks_def block_ok_def sample_config_def sample_codecs_def)
qed (simp_all add: sample_blocks_def consecutive_def sample_config_def sample_codecs_def leb128_ok rlp_format_ok
    MAX_SPAN_BATCH_ELEMENTS_def)

theorem span_batch_roundtrip_witness:
  "list_all (block_ok (bc_txs sample_codecs) (rc_l2_chain_id sample_config)) sample_blocks \<and>
   (\<exists>sp bs. append_all (bc_txs sample_codecs) (zip (map fst sample_blocks) [0, 0])
        (span_builder_new (gen_l2_time (rc_genesis sample_config)) (rc_l2_chain_id sample_config)) = Inr sp \<and>
      batch_encode sample_codecs (Inr sp) = Inr bs \<and>
      batch_decode sample_codecs sample_config (bs @ [77]) =
        Inr (Span (span_of_singles (map fst sample_blocks)), [77]))"
  using span_batch_roundtrip [OF sample_blocks_ok(3,4,5,1,2,6,7,8), of "[77]"] sample_blocks_ok(1) by blast

text \<open>
  C18. Decoding a batch is safe: on no input does it panic, whatever the codecs of the
  third-party crates return, and a span batch it accepts has at least one and at most ten
  million blocks, one block time apart in the arithmetic of the code, with L1 origins that
  stay or advance by one from block to block, and checks of 20 bytes.
\<close>

theorem batch_decode_safe:
  "no_panic (batch_decode bc cfg r) \<and>
   (\<forall>sp r'. batch_decode bc cfg r = Inr (Span sp, r') \<longrightarrow> span_shape (rc_block_time cfg) sp)"
  using batch_decode_calm batch_decode_span by blast

theorem batch_decode_safe_witness:
  "\<exists>r. batch_decode sample_codecs sample_config r = Inr (Span (span_of_singles (map fst sample_blocks)), []) \<and>
     span_shape 2 (span_of_singles (map fst sample_blocks)) \<and> no_panic (batch_decode sample_codecs sample_config r)"
proof -
  obtain r where r: "batch_decode sample_codecs sample_config (r @ []) =
      Inr (Span (span_of_singles (map fst sample_blocks)), [])"
    using span_enc_dec [OF sample_blocks_ok(3,4,5,1,2,6,7,8)] by blast
  moreover have "rc_block_time sample_config = 2" by (simp add: sample_config_def)
  ultimately show ?thesis
    using batch_decode_safe [of sample_codecs sample_config r] by auto
qed

end
