(* ===== verification/Batch_Reader.thy ===== *)
theory Batch_Reader
  imports Span_Derive
begin

text \<open>
  Reading batches out of a channel (\<open>src/crates/consensus/protocol/src/brotli.rs\<close> and \<open>batch/reader.rs\<close>):
  decompression of the channel with a limit on its output, and the reader that takes one batch
  after the other from the decompressed data. The zlib and brotli decompressors of third-party
  crates are parameters. The lemmas show that decompression returns whatever the decompressor
  does and truncates at the limit, and that the reader gives back the batches that were
  written.
\<close>

section \<open>Brotli\<close>

datatype brotli_result =
    ResultSuccess
  | NeedsMoreInput
  | NeedsMoreOutput
  | ResultFailure

text \<open>
  \<open>BrotliDecompressStream\<close>: its state \<open>'b\<close> holds the compressed data and the position in it, a call is
  given the free space of the output buffer and yields the bytes it writes there.
\<close>

record 'b brotli =
  br_start :: "bytes \<Rightarrow> 'b"
  br_step :: "'b \<Rightarrow> nat \<Rightarrow> brotli_result \<times> bytes \<times> 'b"

datatype brotli_decompression_error = DecompressionFailed brotli_result

record 'b brotli_vars =
  bl_output :: bytes
  bl_available_out :: nat
  bl_output_offset :: nat
  bl_written :: nat
  bl_state :: 'b

definition brotli_init :: "'b brotli \<Rightarrow> bytes \<Rightarrow> nat \<Rightarrow> 'b brotli_vars" where
  "brotli_init br data max_rlp =
     (let n = min (length data) max_rlp in
      \<lparr>bl_output = replicate n 0, bl_available_out = n, bl_output_offset = 0, bl_written = 0,
       bl_state = br_start br data\<rparr>)"

text \<open>One call of the decompressor: it fills the buffer from the offset on.\<close>

definition brotli_call :: "'b brotli \<Rightarrow> 'b brotli_vars \<Rightarrow> brotli_result \<times> 'b brotli_vars" where
  "brotli_call br l =
     (let (res, chunk, s) = br_step br (bl_state l) (bl_available_out l); off = bl_output_offset l; k = length chunk in
      (res, \<lparr>bl_output = take off (bl_output l) @ chunk @ drop (off + k) (bl_output l),
             bl_available_out = bl_available_out l - k, bl_output_offset = off + k,
             bl_written = bl_written l + k, bl_state = s\<rparr>))"

definition brotli_grow :: "nat \<Rightarrow> 'b brotli_vars \<Rightarrow> 'b brotli_vars" where
  "brotli_grow max_rlp l =
     (let old_len = length (bl_output l); new_len = min (max (old_len * 2) 1) max_rlp in
      l\<lparr>bl_output := bl_output l @ replicate (new_len - old_len) 0,
        bl_available_out := bl_available_out l + (new_len - old_len)\<rparr>)"

text \<open>The loop; \<open>None\<close> would be a loop that does not end.\<close>

partial_function (option) brotli_loop ::
    "'b brotli \<Rightarrow> nat \<Rightarrow> 'b brotli_vars \<Rightarrow> (brotli_decompression_error + 'b brotli_vars) option" where
  "brotli_loop br max_rlp l =
     (let res = fst (brotli_call br l); l = snd (brotli_call br l) in
      if res = NeedsMoreOutput \<and> length (bl_output l) \<ge> max_rlp then Some (Inr l)
      else if res = NeedsMoreOutput then brotli_loop br max_rlp (brotli_grow max_rlp l)
      else if bl_written l = 0 then Some (Inl (DecompressionFailed res))
      else Some (Inr l))"

definition brotli_decompress :: "'b brotli \<Rightarrow> bytes \<Rightarrow> nat \<Rightarrow> (brotli_decompression_error + bytes) option" where
  "brotli_decompress br data max_rlp =
     (case brotli_loop br max_rlp (brotli_init br data max_rlp) of
        None \<Rightarrow> None
      | Some (Inl e) \<Rightarrow> Some (Inl e)
      | Some (Inr l) \<Rightarrow> Some (Inr (take (bl_written l) (bl_output l))))"

section \<open>The batch reader\<close>

text \<open>\<open>decompress_to_vec_zlib_with_limit\<close>, whose error carries a status and the output so far.\<close>

record zlib_failure =
  zf_has_more_output :: bool
  zf_output :: bytes

record 'b decompressors =
  dc_zlib :: "bytes \<Rightarrow> nat \<Rightarrow> zlib_failure + bytes"
  dc_brotli :: "'b brotli"

datatype decompression_error =
    EmptyData
  | UnsupportedType u8
  | BrotliError brotli_decompression_error
  | ZlibError

text \<open>The payload of the RLP error is left out.\<close>

datatype batch_reader_error =
    ReaderDecompression decompression_error
  | ReaderRlp
  | ReaderBatch batch_decoding_error

record batch_reader =
  rd_data :: "bytes option"
  rd_decompressed :: bytes
  rd_cursor :: nat
  rd_max_rlp_bytes_per_channel :: nat
  rd_brotli_used :: bool
  rd_brotli_supported :: bool

definition ZLIB_DEFLATE_COMPRESSION_METHOD :: u8 where
  "ZLIB_DEFLATE_COMPRESSION_METHOD = 8"

definition ZLIB_RESERVED_COMPRESSION_METHOD :: u8 where
  "ZLIB_RESERVED_COMPRESSION_METHOD = 15"

definition CHANNEL_VERSION_BROTLI :: u8 where
  "CHANNEL_VERSION_BROTLI = 1"

definition batch_reader_new :: "bytes \<Rightarrow> nat \<Rightarrow> bool \<Rightarrow> batch_reader" where
  "batch_reader_new data max_rlp brotli_supported =
     \<lparr>rd_data = Some data, rd_decompressed = [], rd_cursor = 0, rd_max_rlp_bytes_per_channel = max_rlp,
      rd_brotli_used = False, rd_brotli_supported = brotli_supported\<rparr>"

definition decompress_zlib ::
    "'b decompressors \<Rightarrow> bytes \<Rightarrow> batch_reader \<Rightarrow> (decompression_error + unit) \<times> batch_reader" where
  "decompress_zlib dc data rd =
     (case dc_zlib dc data (rd_max_rlp_bytes_per_channel rd) of
        Inr decompressed \<Rightarrow> (Inr (), rd\<lparr>rd_decompressed := decompressed\<rparr>)
      | Inl e \<Rightarrow>
          if zf_has_more_output e \<or> zf_output e \<noteq> [] then (Inr (), rd\<lparr>rd_decompressed := zf_output e\<rparr>)
          else (Inl ZlibError, rd))"

definition decompress_brotli ::
    "'b decompressors \<Rightarrow> bytes \<Rightarrow> batch_reader \<Rightarrow> ((decompression_error + unit) \<times> batch_reader) option" where
  "decompress_brotli dc data rd =
     (let rd = rd\<lparr>rd_brotli_used := True\<rparr> in
      case brotli_decompress (dc_brotli dc) (drop 1 data) (rd_max_rlp_bytes_per_channel rd) of
        None \<Rightarrow> None
      | Some (Inl e) \<Rightarrow> Some (Inl (BrotliError e), rd)
      | Some (Inr decompressed) \<Rightarrow> Some (Inr (), rd\<lparr>rd_decompressed := decompressed\<rparr>))"

definition reader_decompress ::
    "'b decompressors \<Rightarrow> batch_reader \<Rightarrow> ((decompression_error + unit) \<times> batch_reader) option" where
  "reader_decompress dc rd =
     (if rd_decompressed rd \<noteq> [] then Some (Inr (), rd)
      else
        let data = rd_data rd; rd = rd\<lparr>rd_data := None\<rparr> in
        case data of
          None \<Rightarrow> Some (Inl EmptyData, rd)
        | Some [] \<Rightarrow> Some (Inl EmptyData, rd)
        | Some (compression_type # cs) \<Rightarrow>
            if compression_type AND 0x0F = ZLIB_DEFLATE_COMPRESSION_METHOD \<or>
               compression_type AND 0x0F = ZLIB_RESERVED_COMPRESSION_METHOD
            then Some (decompress_zlib dc (compression_type # cs) rd)
            else if compression_type = CHANNEL_VERSION_BROTLI \<and> rd_brotli_supported rd
            then decompress_brotli dc (compression_type # cs) rd
            else Some (Inl (UnsupportedType compression_type), rd))"

definition next_batch_strict ::
    "'b decompressors \<Rightarrow> batch_codecs \<Rightarrow> rollup_config \<Rightarrow> batch_reader
     \<Rightarrow> ((batch_reader_error + batch option) \<times> batch_reader) option" where
  "next_batch_strict dc bc cfg rd =
     (case reader_decompress dc rd of
        None \<Rightarrow> None
      | Some (Inl e, rd) \<Rightarrow> Some (Inl (ReaderDecompression e), rd)
      | Some (Inr _, rd) \<Rightarrow>
          if rd_cursor rd \<ge> length (rd_decompressed rd) then Some (Inr None, rd)
          else
            case rlp_bytes_decode (tc_rlp (bc_txs bc)) (drop (rd_cursor rd) (rd_decompressed rd)) of
              None \<Rightarrow> Some (Inl ReaderRlp, rd)
            | Some (bs, decompressed_reader) \<Rightarrow>
                case batch_decode bc cfg bs of
                  Inl Panicking \<Rightarrow> None
                | Inl (Failing e) \<Rightarrow> Some (Inl (ReaderBatch e), rd)
                | Inr (b, _) \<Rightarrow>
                    Some (Inr (Some b), rd\<lparr>rd_cursor := length (rd_decompressed rd) - length decompressed_reader\<rparr>))"

definition reader_next_batch ::
    "'b decompressors \<Rightarrow> batch_codecs \<Rightarrow> rollup_config \<Rightarrow> batch_reader \<Rightarrow> (batch option \<times> batch_reader) option" where
  "reader_next_batch dc bc cfg rd =
     (case next_batch_strict dc bc cfg rd of
        None \<Rightarrow> None
      | Some (Inl _, rd) \<Rightarrow> Some (None, rd)
      | Some (Inr b, rd) \<Rightarrow> Some (b, rd))"

section \<open>Decompression returns\<close>

lemma brotli_call_grows: "length (bl_output l) \<le> length (bl_output (snd (brotli_call br l)))"
  by (auto simp: brotli_call_def Let_def split: prod.split)

lemma brotli_grow_length:
  "length (bl_output l) < max_rlp \<Longrightarrow> length (bl_output l) < length (bl_output (brotli_grow max_rlp l))"
  by (auto simp: brotli_grow_def Let_def)

lemma brotli_loop_returns: "\<exists>r. brotli_loop br max_rlp l = Some r"
proof (induction "max_rlp - length (bl_output l)" arbitrary: l rule: less_induct)
  case less
  let ?l = "snd (brotli_call br l)"
  show ?case
  proof (cases "fst (brotli_call br l) = NeedsMoreOutput \<and> length (bl_output ?l) < max_rlp")
    case True
    then have "\<exists>r. brotli_loop br max_rlp (brotli_grow max_rlp ?l) = Some r"
      using brotli_call_grows [of l br] brotli_grow_length [of ?l max_rlp] by (intro less) linarith
    then show ?thesis using True by (subst brotli_loop.simps) (simp add: Let_def)
  next
    case False
    then show ?thesis by (subst brotli_loop.simps) (auto simp: Let_def)
  qed
qed

text \<open>
  What the decompressor promises: from a state on it has \<open>rest\<close> to write. A call writes the next
  part of it into the space it is given, asks for more space only when it filled it, and
  otherwise has written everything.
\<close>

definition brotli_ok :: "'b brotli \<Rightarrow> ('b \<Rightarrow> bytes) \<Rightarrow> bool" where
  "brotli_ok br rest \<longleftrightarrow>
     (\<forall>s n res chunk s'. br_step br s n = (res, chunk, s') \<longrightarrow>
        rest s = chunk @ rest s' \<and> length chunk \<le> n \<and>
        (if res = NeedsMoreOutput then length chunk = n else rest s' = []))"

text \<open>The loop has written the first part of the full output.\<close>

definition brotli_inv :: "('b \<Rightarrow> bytes) \<Rightarrow> nat \<Rightarrow> bytes \<Rightarrow> 'b brotli_vars \<Rightarrow> bool" where
  "brotli_inv rest max_rlp out l \<longleftrightarrow>
     bl_output_offset l = bl_written l \<and> length (bl_output l) = bl_written l + bl_available_out l \<and>
     length (bl_output l) \<le> max_rlp \<and> out = take (bl_written l) (bl_output l) @ rest (bl_state l)"

lemma brotli_call_inv:
  assumes "brotli_ok br rest" and "brotli_inv rest max_rlp out l" and "brotli_call br l = (res, l')"
  shows "brotli_inv rest max_rlp out l'" and "length (bl_output l') = length (bl_output l)"
    and "if res = NeedsMoreOutput then bl_available_out l' = 0 else rest (bl_state l') = []"
proof -
  obtain chunk s where s: "br_step br (bl_state l) (bl_available_out l) = (res, chunk, s)"
    using assms(3) by (auto simp: brotli_call_def Let_def split: prod.splits)
  have ok: "rest (bl_state l) = chunk @ rest s" "length chunk \<le> bl_available_out l"
    "if res = NeedsMoreOutput then length chunk = bl_available_out l else rest s = []"
    using assms(1) s unfolding brotli_ok_def by metis+
  have l': "l' = \<lparr>bl_output = take (bl_written l) (bl_output l) @ chunk @ drop (bl_written l + length chunk) (bl_output l),
      bl_available_out = bl_available_out l - length chunk, bl_output_offset = bl_written l + length chunk,
      bl_written = bl_written l + length chunk, bl_state = s\<rparr>"
    using assms(2,3) s by (auto simp: brotli_call_def brotli_inv_def Let_def)
  show "length (bl_output l') = length (bl_output l)" using ok(2) assms(2) by (simp add: l' brotli_inv_def)
  show "brotli_inv rest max_rlp out l'" using ok(1,2) assms(2) by (simp add: l' brotli_inv_def)
  show "if res = NeedsMoreOutput then bl_available_out l' = 0 else rest (bl_state l') = []"
    using ok(3) by (simp add: l')
qed

lemma brotli_grow_inv:
  "brotli_inv rest max_rlp out l \<Longrightarrow> brotli_inv rest max_rlp out (brotli_grow max_rlp l)"
  by (auto simp: brotli_inv_def brotli_grow_def Let_def)

lemma brotli_loop_result:
  assumes "brotli_ok br rest" and "brotli_inv rest max_rlp out l" and "0 < max_rlp"
  shows "if out = [] then \<exists>e. brotli_loop br max_rlp l = Some (Inl e)
    else \<exists>l'. brotli_loop br max_rlp l = Some (Inr l') \<and> take (bl_written l') (bl_output l') = take max_rlp out"
  using assms(2)
proof (induction "max_rlp - length (bl_output l)" arbitrary: l rule: less_induct)
  case less
  obtain res l' where c: "brotli_call br l = (res, l')" by (cases "brotli_call br l")
  note i = brotli_call_inv [OF assms(1) less.prems c]
  consider (more) "res = NeedsMoreOutput" "length (bl_output l') < max_rlp"
    | (full) "res = NeedsMoreOutput" "length (bl_output l') \<ge> max_rlp" | (stop) "res \<noteq> NeedsMoreOutput"
    by linarith
  then show ?case
  proof cases
    case more
    then have "brotli_loop br max_rlp l = brotli_loop br max_rlp (brotli_grow max_rlp l')"
      by (subst brotli_loop.simps) (simp add: c)
    then show ?thesis
      using less.hyps [OF _ brotli_grow_inv [OF i(1)]] more i(2) brotli_grow_length [OF more(2)] by simp
  next
    case full
    then have "bl_written l' = max_rlp" "take max_rlp out = take (bl_written l') (bl_output l')"
      using i(1,3) by (auto simp: brotli_inv_def)
    moreover have "brotli_loop br max_rlp l = Some (Inr l')"
      using full by (subst brotli_loop.simps) (simp add: c)
    ultimately show ?thesis using i(1) assms(3) full(2) by (auto simp: brotli_inv_def)
  next
    case stop
    then have "out = take (bl_written l') (bl_output l')" "bl_written l' \<le> max_rlp" "bl_written l' = length out"
      using i(1,3) by (auto simp: brotli_inv_def)
    moreover have "brotli_loop br max_rlp l =
        Some (if bl_written l' = 0 then Inl (DecompressionFailed res) else Inr l')"
      using stop by (subst brotli_loop.simps) (simp add: c)
    ultimately show ?thesis by auto
  qed
qed

lemma brotli_decompress_returns: "\<exists>r. brotli_decompress br data max_rlp = Some r"
  using brotli_loop_returns [of br max_rlp "brotli_init br data max_rlp"]
  by (auto simp: brotli_decompress_def split: sum.split)

lemma brotli_decompress_result:
  assumes "brotli_ok br rest" and "0 < max_rlp"
  shows "if rest (br_start br data) = [] then \<exists>e. brotli_decompress br data max_rlp = Some (Inl e)
    else brotli_decompress br data max_rlp = Some (Inr (take max_rlp (rest (br_start br data))))"
proof -
  have "brotli_inv rest max_rlp (rest (br_start br data)) (brotli_init br data max_rlp)"
    by (simp add: brotli_inv_def brotli_init_def Let_def)
  from brotli_loop_result [OF assms(1) this assms(2)] show ?thesis
    by (auto simp: brotli_decompress_def split: if_splits)
qed

text \<open>
  C37. Decompression ends: for every decompressor, input and limit the loop around the brotli
  decompressor returns. When the decompressor keeps its promise, the result is its whole output
  cut at the limit, independent of how the output buffer grew, and an error exactly when there
  is no output.
\<close>

theorem brotli_terminates:
  "(\<exists>r. brotli_decompress br data max_rlp = Some r) \<and>
   (brotli_ok br rest \<longrightarrow> 0 < max_rlp \<longrightarrow>
      (if rest (br_start br data) = [] then \<exists>e. brotli_decompress br data max_rlp = Some (Inl e)
       else brotli_decompress br data max_rlp = Some (Inr (take max_rlp (rest (br_start br data))))))"
  using brotli_decompress_returns brotli_decompress_result by blast

text \<open>A decompressor that hands out a stored output, as far as there is space.\<close>

definition stored_brotli :: "bytes brotli" where
  "stored_brotli =
     \<lparr>br_start = \<lambda>data. data,
      br_step = \<lambda>s n. if length s < n then (ResultSuccess, s, []) else (NeedsMoreOutput, take n s, drop n s)\<rparr>"

lemma stored_brotli_ok: "brotli_ok stored_brotli (\<lambda>s. s)"
  by (auto simp: brotli_ok_def stored_brotli_def split: if_splits)

theorem brotli_terminates_witness:
  "brotli_ok stored_brotli (\<lambda>s. s) \<and> brotli_decompress stored_brotli [5, 6, 7] 2 = Some (Inr [5, 6]) \<and>
   brotli_decompress stored_brotli [5, 6, 7] 10 = Some (Inr [5, 6, 7])"
  using brotli_terminates [of stored_brotli "[5, 6, 7]" 2 "\<lambda>s. s"]
    brotli_terminates [of stored_brotli "[5, 6, 7]" 10 "\<lambda>s. s"] stored_brotli_ok
  by (simp add: stored_brotli_def [THEN arg_cong [of _ _ br_start]])

section \<open>Reading batches\<close>

lemma reader_decompress_returns: "\<exists>r. reader_decompress dc rd = Some r"
proof -
  have "\<exists>r. decompress_brotli dc data rd = Some r" for data rd
    using brotli_decompress_returns [of "dc_brotli dc" "drop 1 data" "rd_max_rlp_bytes_per_channel rd"]
    by (auto simp: decompress_brotli_def Let_def split: sum.split)
  then show ?thesis by (auto simp: reader_decompress_def Let_def split: option.split list.split)
qed

lemma reader_next_batch_returns: "\<exists>r. reader_next_batch dc bc cfg rd = Some r"
proof -
  have "batch_decode bc cfg bs \<noteq> Inl Panicking" for bs
    using batch_decode_calm [of bc cfg bs] by (simp add: no_panic_def)
  then have "\<exists>r. next_batch_strict dc bc cfg rd = Some r"
    using reader_decompress_returns [of dc rd]
    by (auto simp: next_batch_strict_def split: option.split sum.split failure.split prod.split)
  then show ?thesis by (auto simp: reader_next_batch_def split: sum.split)
qed

text \<open>Only well-formed spans come out.\<close>

lemma reader_next_batch_span:
  assumes "reader_next_batch dc bc cfg rd = Some (Some (Span sp), rd')"
  shows "span_shape (rc_block_time cfg) sp"
  using assms
  by (auto simp: reader_next_batch_def next_batch_strict_def intro: batch_decode_span
      split: option.splits sum.splits prod.splits failure.splits if_splits)

text \<open>When the data of a channel decompresses to a payload: by one of the two methods, complete or cut.\<close>

definition decompresses :: "'b decompressors \<Rightarrow> nat \<Rightarrow> bool \<Rightarrow> bytes \<Rightarrow> bytes \<Rightarrow> bool" where
  "decompresses dc max_rlp brotli_supported data payload \<longleftrightarrow>
     (case data of
        [] \<Rightarrow> False
      | ty # cs \<Rightarrow>
          if ty AND 0x0F \<in> {8, 15} then
            (case dc_zlib dc data max_rlp of
               Inr out \<Rightarrow> payload = out
             | Inl e \<Rightarrow> (zf_has_more_output e \<or> zf_output e \<noteq> []) \<and> payload = zf_output e)
          else ty = 1 \<and> brotli_supported \<and> brotli_decompress (dc_brotli dc) cs max_rlp = Some (Inr payload))"

lemma reader_decompress_new:
  assumes "decompresses dc max_rlp br data payload"
  shows "\<exists>rd. reader_decompress dc (batch_reader_new data max_rlp br) = Some (Inr (), rd) \<and>
    rd_decompressed rd = payload \<and> rd_cursor rd = 0 \<and> rd_data rd = None"
  using assms
  by (auto simp: decompresses_def reader_decompress_def batch_reader_new_def decompress_zlib_def decompress_brotli_def
      ZLIB_DEFLATE_COMPRESSION_METHOD_def ZLIB_RESERVED_COMPRESSION_METHOD_def CHANNEL_VERSION_BROTLI_def
      Let_def split: list.splits sum.splits if_splits)

lemma rlp_bytes_encode_nonempty:
  assumes "rlp_ok rlp" and "length b < 2 ^ 64"
  shows "rlp_bytes_encode rlp b \<noteq> []"
proof
  assume e: "rlp_bytes_encode rlp b = []"
  obtain b' :: bytes where b': "b' \<noteq> b" "length b' < 2 ^ 64" by (cases b) (auto intro: that [of "[0]"] that [of "[]"])
  have dec: "rlp_bytes_decode rlp (rlp_bytes_encode rlp c @ r) = Some (c, r)" if "length c < 2 ^ 64" for c r
    using assms(1) that by (simp add: rlp_ok_def)
  show False using dec [OF assms(2), of "rlp_bytes_encode rlp b'"] dec [OF b'(2), of "[]"] e b'(1) by simp
qed

text \<open>The encodings of batches as the batcher concatenates them in a channel.\<close>

definition batch_payload :: "rlp \<Rightarrow> bytes list \<Rightarrow> bytes" where
  "batch_payload rlp encs = concat (map (rlp_bytes_encode rlp) encs)"

definition decodes_to :: "batch_codecs \<Rightarrow> rollup_config \<Rightarrow> bytes \<Rightarrow> batch \<Rightarrow> bool" where
  "decodes_to bc cfg enc b \<longleftrightarrow> length enc < 2 ^ 64 \<and> (\<exists>r. batch_decode bc cfg enc = Inr (b, r))"

text \<open>What may follow the batches: nothing, or a batch that was cut off.\<close>

definition payload_end :: "rlp \<Rightarrow> bytes \<Rightarrow> bool" where
  "payload_end rlp tail \<longleftrightarrow> tail = [] \<or> rlp_bytes_decode rlp tail = None"

lemma reader_takes_batch:
  assumes "rlp_ok (tc_rlp (bc_txs bc))" and "decodes_to bc cfg enc b"
    and "rd_decompressed rd = pre @ rlp_bytes_encode (tc_rlp (bc_txs bc)) enc @ post" and "rd_cursor rd = length pre"
  shows "reader_next_batch dc bc cfg rd =
    Some (Some b, rd\<lparr>rd_cursor := length pre + length (rlp_bytes_encode (tc_rlp (bc_txs bc)) enc)\<rparr>)"
proof -
  let ?rlp = "tc_rlp (bc_txs bc)"
  have len: "length enc < 2 ^ 64" using assms(2) by (simp add: decodes_to_def)
  have ne: "rlp_bytes_encode ?rlp enc \<noteq> []" by (rule rlp_bytes_encode_nonempty [OF assms(1) len])
  have "rlp_bytes_decode ?rlp (rlp_bytes_encode ?rlp enc @ post) = Some (enc, post)"
    using assms(1) len by (simp add: rlp_ok_def)
  moreover have "reader_decompress dc rd = Some (Inr (), rd)"
    using ne assms(3) by (simp add: reader_decompress_def)
  moreover obtain r where "batch_decode bc cfg enc = Inr (b, r)" using assms(2) by (auto simp: decodes_to_def)
  ultimately show ?thesis
    using ne assms(3,4) by (simp add: reader_next_batch_def next_batch_strict_def)
qed

lemma reader_ends:
  assumes "payload_end (tc_rlp (bc_txs bc)) tail" and "rd_decompressed rd = pre @ tail" and "rd_cursor rd = length pre"
    and "rd_data rd = None"
  shows "\<exists>rd'. reader_next_batch dc bc cfg rd = Some (None, rd')"
proof (cases "pre @ tail = []")
  case True
  then show ?thesis
    using assms by (simp add: reader_next_batch_def next_batch_strict_def reader_decompress_def Let_def)
next
  case False
  then have "reader_decompress dc rd = Some (Inr (), rd)" using assms(2) by (simp add: reader_decompress_def)
  then show ?thesis
    using assms by (auto simp: reader_next_batch_def next_batch_strict_def payload_end_def)
qed

end
