(* ===== verification/Batch_Stream.thy ===== *)
theory Batch_Stream
  imports Pipeline_Types
begin

text \<open>
  The batch stream stage (\<open>src/crates/consensus/derive/src/stages/batch/batch_stream.rs\<close>): from
  Holocene on it stages one span batch, checks its prefix and hands its blocks out one by one
  as singular batches. The lemmas show that an accepted span is delivered block by block in
  order, each block on top of the parent it is asked for, and that a span and a buffer are
  never held at the same time.
\<close>

section \<open>Operations that may panic\<close>

text \<open>
  The checks of span batches can panic (see \<^term>\<open>check_batch_prefix\<close>), and so can the stages
  that run them: \<open>None\<close> is a panic.
\<close>

type_synonym ('s, 'a) pop = "'s \<Rightarrow> ((pipeline_error_kind + 'a) \<times> 's) option"

definition pop_then ::
    "((pipeline_error_kind + 'a) \<times> 's) option \<Rightarrow> ('a \<Rightarrow> ('s, 'b) pop) \<Rightarrow> ((pipeline_error_kind + 'b) \<times> 's) option" where
  "pop_then r f = (case r of None \<Rightarrow> None | Some (Inl e, s) \<Rightarrow> Some (Inl e, s) | Some (Inr a, s) \<Rightarrow> f a s)"

definition pop_on_prev :: "('s \<Rightarrow> 'p) \<Rightarrow> ('p \<Rightarrow> 's \<Rightarrow> 's) \<Rightarrow> ('p, 'a) pop \<Rightarrow> ('s, 'a) pop" where
  "pop_on_prev get put f s = map_option (\<lambda>(r, p). (r, put p s)) (f (get s))"

lemma pop_then_simps [simp]:
  "pop_then None f = None"
  "pop_then (Some (Inl e, s)) f = Some (Inl e, s)"
  "pop_then (Some (Inr a, s)) f = f a s"
  by (simp_all add: pop_then_def)

lemma pop_then_Inr:
  "pop_then r f = Some (Inr b, s') \<longleftrightarrow> (\<exists>a s. r = Some (Inr a, s) \<and> f a s = Some (Inr b, s'))"
  by (cases r; cases "fst (the r)") (auto simp: pop_then_def split: sum.splits)

section \<open>The stage\<close>

text \<open>What the stage asks of the channel reader (\<open>BatchStreamProvider\<close>).\<close>

record 'p batch_stream_provider =
  bsp_next_batch :: "('p, batch) op"
  bsp_flush :: "'p \<Rightarrow> 'p"

record 'p batch_stream =
  bst_prev :: 'p
  bst_span :: "span_batch option"
  bst_buffer :: "single_batch list"
  bst_config :: rollup_config

definition bst_new :: "'p \<Rightarrow> rollup_config \<Rightarrow> 'p batch_stream" where
  "bst_new prev cfg = \<lparr>bst_prev = prev, bst_span = None, bst_buffer = [], bst_config = cfg\<rparr>"

abbreviation bst_on_prev :: "('p, 'a) op \<Rightarrow> ('p batch_stream, 'a) op" where
  "bst_on_prev \<equiv> on_prev bst_prev (\<lambda>p. bst_prev_update (\<lambda>_. p))"

definition bst_is_active :: "registry \<Rightarrow> 'p stage \<Rightarrow> 'p batch_stream \<Rightarrow> pipeline_error_kind + bool" where
  "bst_is_active reg prev_stage bst =
     (case st_origin prev_stage (bst_prev bst) of
        None \<Rightarrow> Inl (crit MissingOrigin)
      | Some orig \<Rightarrow> Inr (is_holocene_active reg (bst_config bst) (bi_timestamp orig)))"

definition bst_try_hydrate_buffer ::
    "l2_block_info \<Rightarrow> block_info list \<Rightarrow> 'p batch_stream \<Rightarrow> (span_batch_error + unit) \<times> 'p batch_stream" where
  "bst_try_hydrate_buffer parent l1_origins bst =
     (case bst_span bst of
        None \<Rightarrow> (Inr (), bst)
      | Some span \<Rightarrow>
          let bst = bst\<lparr>bst_span := None\<rparr> in
          (case get_singular_batches span l1_origins parent of
             Inl e \<Rightarrow> (Inl e, bst)
           | Inr bs \<Rightarrow> (Inr (), bst\<lparr>bst_buffer := bst_buffer bst @ bs\<rparr>)))"

definition bst_get_single_batch ::
    "l2_block_info \<Rightarrow> block_info list \<Rightarrow> 'p batch_stream
     \<Rightarrow> (span_batch_error + single_batch option) \<times> 'p batch_stream" where
  "bst_get_single_batch parent l1_origins bst =
     (case bst_try_hydrate_buffer parent l1_origins bst of
        (Inl e, bst) \<Rightarrow> (Inl e, bst)
      | (Inr _, bst) \<Rightarrow>
          (case bst_buffer bst of
             [] \<Rightarrow> (Inr None, bst)
           | b # bs \<Rightarrow>
               (Inr (Some (b\<lparr>sb_parent_hash := bi_hash (l2_block parent)\<rparr>)), bst\<lparr>bst_buffer := bs\<rparr>)))"

definition bst_flush ::
    "registry \<Rightarrow> 'p stage \<Rightarrow> 'p batch_stream_provider \<Rightarrow> 'p batch_stream \<Rightarrow> 'p batch_stream" where
  "bst_flush reg prev_stage bsp bst =
     (if bst_is_active reg prev_stage bst = Inr True
      then bst\<lparr>bst_prev := bsp_flush bsp (bst_prev bst), bst_span := None, bst_buffer := []\<rparr>
      else bst)"

definition bst_span_buffer_size :: "'p batch_stream \<Rightarrow> nat" where
  "bst_span_buffer_size bst = length (bst_buffer bst)"

text \<open>The end of \<open>next_batch\<close>: a singular batch out of the staged span or the buffer.\<close>

definition bst_emit ::
    "registry \<Rightarrow> 'p stage \<Rightarrow> 'p batch_stream_provider \<Rightarrow> l2_block_info \<Rightarrow> block_info list
     \<Rightarrow> ('p batch_stream, batch) op" where
  "bst_emit reg prev_stage bsp parent l1_origins bst =
     (case bst_get_single_batch parent l1_origins bst of
        (Inr (Some b), bst) \<Rightarrow> (Inr (Single b), bst)
      | (Inr None, bst) \<Rightarrow> (Inl (temp NotEnoughData), bst)
      | (Inl e, bst) \<Rightarrow> (Inl (temp NotEnoughData), bst_flush reg prev_stage bsp bst))"

text \<open>A batch is pulled from the previous stage when the buffer is empty.\<close>

definition bst_pull ::
    "registry \<Rightarrow> 'p stage \<Rightarrow> 'p batch_stream_provider \<Rightarrow> batch_validation_provider
     \<Rightarrow> l2_block_info \<Rightarrow> block_info list \<Rightarrow> ('p batch_stream, batch) pop" where
  "bst_pull reg prev_stage bsp fetcher parent l1_origins bst =
     (case st_origin prev_stage (bst_prev bst) of
        None \<Rightarrow> Some (Inl (crit MissingOrigin), bst)
      | Some orig \<Rightarrow>
          pop_then (Some (bst_on_prev (bsp_next_batch bsp) bst)) (\<lambda>b bst.
            case b of
              Single b \<Rightarrow> Some (Inr (Single b), bst)
            | Span b \<Rightarrow>
                (case check_batch_prefix reg (bst_config bst) b l1_origins parent orig fetcher of
                   None \<Rightarrow> None
                 | Some (v, _) \<Rightarrow>
                     (case v of
                        Accept \<Rightarrow>
                          Some (bst_emit reg prev_stage bsp parent l1_origins (bst\<lparr>bst_span := Some b\<rparr>))
                      | Drop _ \<Rightarrow> Some (Inl (temp NotEnoughData), bst_flush reg prev_stage bsp bst)
                      | Past \<Rightarrow>
                          (case bst_is_active reg prev_stage bst of
                             Inl e \<Rightarrow> Some (Inl e, bst)
                           | Inr False \<Rightarrow> Some (Inl (crit InvalidBatchValidity), bst)
                           | Inr True \<Rightarrow> Some (Inl (temp NotEnoughData), bst))
                      | Undecided \<Rightarrow> Some (Inl (temp NotEnoughData), bst)
                      | Future \<Rightarrow> Some (Inl (temp NotEnoughData), bst)))))"

definition bst_next_batch ::
    "registry \<Rightarrow> 'p stage \<Rightarrow> 'p batch_stream_provider \<Rightarrow> batch_validation_provider
     \<Rightarrow> l2_block_info \<Rightarrow> block_info list \<Rightarrow> ('p batch_stream, batch) pop" where
  "bst_next_batch reg prev_stage bsp fetcher parent l1_origins bst =
     (case bst_is_active reg prev_stage bst of
        Inl e \<Rightarrow> Some (Inl e, bst)
      | Inr False \<Rightarrow> Some (bst_on_prev (bsp_next_batch bsp) bst)
      | Inr True \<Rightarrow>
          let cfg = bst_config bst; next = bi_number (l2_block parent) + 1 in
          if is_denim_active reg cfg (l2_block_timestamp reg cfg next) \<and>
             (bst_span bst \<noteq> None \<or> bst_buffer bst \<noteq> [])
          then Some (Inl (temp NotEnoughData), bst_flush reg prev_stage bsp bst)
          else if bst_buffer bst = [] then bst_pull reg prev_stage bsp fetcher parent l1_origins bst
          else Some (bst_emit reg prev_stage bsp parent l1_origins bst))"

definition bst_after_prev :: "('p, unit) op \<Rightarrow> ('p batch_stream, unit) op" where
  "bst_after_prev f bst =
     op_then (bst_on_prev f bst) (\<lambda>_ bst. (Inr (), bst\<lparr>bst_buffer := [], bst_span := None\<rparr>))"

definition bst_stage :: "'p stage \<Rightarrow> 'p batch_stream stage" where
  "bst_stage prev_stage =
     \<lparr>st_origin = (\<lambda>bst. st_origin prev_stage (bst_prev bst)),
      st_advance_origin = bst_on_prev (st_advance_origin prev_stage),
      st_reset = (\<lambda>l1_origin sys. bst_after_prev (st_reset prev_stage l1_origin sys)),
      st_activate = bst_after_prev (st_activate prev_stage),
      st_flush_channel = bst_after_prev (st_flush_channel prev_stage)\<rparr>"

text \<open>What the stage offers to the next one (\<open>NextBatchProvider\<close>).\<close>

record 'p next_batch_provider =
  nbp_next_batch :: "l2_block_info \<Rightarrow> block_info list \<Rightarrow> ('p, batch) pop"
  nbp_flush :: "'p \<Rightarrow> 'p"
  nbp_span_buffer_size :: "'p \<Rightarrow> nat"

definition bst_provider ::
    "registry \<Rightarrow> 'p stage \<Rightarrow> 'p batch_stream_provider \<Rightarrow> batch_validation_provider
     \<Rightarrow> 'p batch_stream next_batch_provider" where
  "bst_provider reg prev_stage bsp fetcher =
     \<lparr>nbp_next_batch = bst_next_batch reg prev_stage bsp fetcher,
      nbp_flush = bst_flush reg prev_stage bsp, nbp_span_buffer_size = bst_span_buffer_size\<rparr>"

section \<open>Delivery of a span\<close>

text \<open>Calls of \<open>next_batch\<close> for a sequence of parents, as the safe head advances.\<close>

fun bst_run ::
    "registry \<Rightarrow> 'p stage \<Rightarrow> 'p batch_stream_provider \<Rightarrow> batch_validation_provider
     \<Rightarrow> block_info list \<Rightarrow> l2_block_info list \<Rightarrow> 'p batch_stream
     \<Rightarrow> ((pipeline_error_kind + batch) list \<times> 'p batch_stream) option" where
  "bst_run reg prev_stage bsp fetcher l1_origins [] bst = Some ([], bst)"
| "bst_run reg prev_stage bsp fetcher l1_origins (parent # parents) bst =
     (case bst_next_batch reg prev_stage bsp fetcher parent l1_origins bst of
        None \<Rightarrow> None
      | Some (r, bst) \<Rightarrow>
          map_option (\<lambda>(rs, bst). (r # rs, bst))
            (bst_run reg prev_stage bsp fetcher l1_origins parents bst))"

definition on_top_of :: "l2_block_info \<Rightarrow> single_batch \<Rightarrow> single_batch" where
  "on_top_of parent b = b\<lparr>sb_parent_hash := bi_hash (l2_block parent)\<rparr>"

definition before_denim :: "registry \<Rightarrow> rollup_config \<Rightarrow> l2_block_info \<Rightarrow> bool" where
  "before_denim reg cfg parent \<longleftrightarrow>
     \<not> is_denim_active reg cfg (l2_block_timestamp reg cfg (bi_number (l2_block parent) + 1))"

lemma emit_buffered:
  "bst_span bst = None \<Longrightarrow> bst_buffer bst = b # bs \<Longrightarrow>
   bst_emit reg prev_stage bsp parent l1 bst = (Inr (Single (on_top_of parent b)), bst\<lparr>bst_buffer := bs\<rparr>)"
  by (simp add: bst_emit_def bst_get_single_batch_def bst_try_hydrate_buffer_def on_top_of_def)

lemma run_buffered:
  assumes "bst_span bst = None" "bst_is_active reg prev_stage bst = Inr True"
    "length parents = length (bst_buffer bst)" "list_all (before_denim reg (bst_config bst)) parents"
  shows "bst_run reg prev_stage bsp fetcher l1 parents bst =
    Some (map2 (\<lambda>p b. Inr (Single (on_top_of p b))) parents (bst_buffer bst), bst\<lparr>bst_buffer := []\<rparr>)"
  using assms
proof (induction parents arbitrary: bst)
  case Nil
  then show ?case by (cases bst) simp
next
  case (Cons p ps)
  then obtain b bs where buf: "bst_buffer bst = b # bs" "length ps = length bs"
    by (cases "bst_buffer bst") auto
  have act: "bst_is_active reg prev_stage (bst\<lparr>bst_buffer := bs\<rparr>) = Inr True"
    using Cons.prems(2) by (auto simp: bst_is_active_def split: option.splits)
  have "bst_next_batch reg prev_stage bsp fetcher p l1 bst =
      Some (Inr (Single (on_top_of p b)), bst\<lparr>bst_buffer := bs\<rparr>)"
    using Cons.prems buf
    by (simp add: bst_next_batch_def Let_def before_denim_def emit_buffered)
  then show ?case
    using Cons.IH [of "bst\<lparr>bst_buffer := bs\<rparr>"] Cons.prems buf act by simp
qed

text \<open>
  C32. An accepted span is delivered block by block: when the channel reader yields a span
  whose prefix check accepts it, successive calls of \<open>next_batch\<close>, one for each new safe head,
  return the singular batches of the span in order, each on top of the safe head it was asked
  for, without touching the previous stage again; nothing is left staged afterwards.
\<close>

theorem stream_delivers_span:
  assumes "bst_span bst = None" and "bst_buffer bst = []"
    and "st_origin prev_stage (bst_prev bst) = Some orig"
    and "is_holocene_active reg (bst_config bst) (bi_timestamp orig)"
    and "bsp_next_batch bsp (bst_prev bst) = (Inr (Span sp), p)"
    and "st_origin prev_stage p = Some orig"
    and "check_batch_prefix reg (bst_config bst) sp l1_origins parent orig fetcher = Some (Accept, x)"
    and "get_singular_batches sp l1_origins parent = Inr bs" and "bs \<noteq> []"
    and "length (parent # parents) = length bs"
    and "list_all (before_denim reg (bst_config bst)) (parent # parents)"
  shows "bst_run reg prev_stage bsp fetcher l1_origins (parent # parents) bst =
    Some (map2 (\<lambda>p b. Inr (Single (on_top_of p b))) (parent # parents) bs, bst\<lparr>bst_prev := p\<rparr>)"
proof -
  obtain b bs' where bs: "bs = b # bs'" using assms(9) by (cases bs) auto
  let ?bst = "bst\<lparr>bst_prev := p, bst_buffer := bs'\<rparr>"
  have "bst_emit reg prev_stage bsp parent l1_origins (bst\<lparr>bst_prev := p, bst_span := Some sp\<rparr>) =
      (Inr (Single (on_top_of parent b)), ?bst)"
    using assms(1,2,8) bs
    by (cases bst)
      (simp add: bst_emit_def bst_get_single_batch_def bst_try_hydrate_buffer_def on_top_of_def)
  then have "bst_next_batch reg prev_stage bsp fetcher parent l1_origins bst =
      Some (Inr (Single (on_top_of parent b)), ?bst)"
    using assms(1-7)
    by (simp add: bst_next_batch_def bst_is_active_def bst_pull_def on_prev_def Let_def)
  moreover have "bst_run reg prev_stage bsp fetcher l1_origins parents ?bst =
      Some (map2 (\<lambda>p b. Inr (Single (on_top_of p b))) parents bs', ?bst\<lparr>bst_buffer := []\<rparr>)"
    using run_buffered [of ?bst reg prev_stage parents bsp fetcher l1_origins] assms(1,4,6,10,11) bs
    by (simp add: bst_is_active_def)
  moreover have "?bst\<lparr>bst_buffer := []\<rparr> = bst\<lparr>bst_prev := p\<rparr>" using assms(2) by (cases bst) simp
  ultimately show ?thesis by (simp add: bs)
qed

text \<open>The configuration of the examples: two second blocks, Delta and Holocene active from the start.\<close>

definition holocene_config :: rollup_config where
  "holocene_config = rollup_config_default\<lparr>rc_block_time := 2, rc_seq_window_size := 10,
     rc_max_sequencer_drift := 600,
     rc_upgrades := upgrade_config_default\<lparr>uc_delta_time := Some 0, uc_holocene_time := Some 0\<rparr>\<rparr>"

lemma holocene_config_simps [simp]:
  "rc_block_time holocene_config = 2" "rc_seq_window_size holocene_config = 10"
  "rc_max_sequencer_drift holocene_config = 600"
  by (simp_all add: holocene_config_def)

lemma holocene_config_forks [simp]:
  "is_holocene_active Map.empty holocene_config t" "is_delta_active Map.empty holocene_config t"
  "\<not> is_denim_active Map.empty holocene_config t"
  by (simp_all add: holocene_config_def is_holocene_active_def is_delta_active_def is_denim_active_def fork_defs)

lemma holocene_config_drift [simp]: "max_sequencer_drift Map.empty holocene_config t = 1800"
proof -
  have "is_fjord_active Map.empty holocene_config t"
    using holocene_config_forks(1) [of t] by (simp add: is_fjord_active_def is_granite_active_def)
  then show ?thesis by (simp add: max_sequencer_drift_def FJORD_MAX_SEQUENCER_DRIFT_def)
qed

lemma holocene_config_jovian [simp]: "\<not> is_jovian_active Map.empty holocene_config t"
  by (simp add: holocene_config_def is_jovian_active_def fork_defs)

lemma holocene_config_timestamp [simp]:
  "l2_block_timestamp Map.empty holocene_config n = sat_mul (sat_mul n 2) 1000 div 1000"
  by (simp add: holocene_config_def l2_block_timestamp_def l2_block_timestamp_millis_def
      denim_timestamp_schedule_def fork_defs chain_genesis_default_def)

theorem stream_delivers_span_witness:
  fixes safe safe' sp l1 bsp
  defines "safe \<equiv> l2_block_info_new (block_info_new (replicate 32 1) 0 [] 0)
        \<lparr>bnh_number = 0, bnh_hash = replicate 32 4\<rparr> 0"
    and "safe' \<equiv> l2_block_info_new (block_info_new (replicate 32 2) 1 (replicate 32 1) 2)
        \<lparr>bnh_number = 0, bnh_hash = replicate 32 4\<rparr> 1"
    and "sp \<equiv> \<lparr>sp_parent_check = replicate 20 1, sp_l1_origin_check = replicate 20 4, sp_genesis_timestamp = 0,
      sp_chain_id = 0, sp_batches = [\<lparr>el_epoch_num = 0, el_timestamp = 2, el_transactions = [[7]]\<rparr>,
         \<lparr>el_epoch_num = 0, el_timestamp = 4, el_transactions = [[9]]\<rparr>], sp_origin_bits = [],
      sp_block_tx_counts = []\<rparr>"
    and "l1 \<equiv> block_info_new (replicate 32 4) 0 B256_ZERO 0"
    and "bsp \<equiv> \<lparr>bsp_next_batch = Pair (Inr (Span sp)), bsp_flush = id\<rparr>"
  shows "map_option fst (bst_run Map.empty (fixed_stage l1) bsp
      \<lparr>bvp_l2_block_info_by_number = Map.empty, bvp_block_by_number = Map.empty\<rparr>
      [l1] [safe, safe'] (bst_new () holocene_config)) =
    Some [Inr (Single \<lparr>sb_parent_hash = replicate 32 1, sb_epoch_num = 0, sb_epoch_hash = replicate 32 4,
            sb_timestamp = 2, sb_transactions = [[7]]\<rparr>),
          Inr (Single \<lparr>sb_parent_hash = replicate 32 2, sb_epoch_num = 0, sb_epoch_hash = replicate 32 4,
            sb_timestamp = 4, sb_transactions = [[9]]\<rparr>)]"
proof -
  let ?fetcher = "\<lparr>bvp_l2_block_info_by_number = Map.empty, bvp_block_by_number = Map.empty\<rparr>"
  let ?bs = "map (\<lambda>e. \<lparr>sb_parent_hash = B256_ZERO, sb_epoch_num = 0, sb_epoch_hash = replicate 32 4,
      sb_timestamp = el_timestamp e, sb_transactions = el_transactions e\<rparr>) (sp_batches sp)"
  have 1: "check_batch_prefix Map.empty holocene_config sp [l1] safe l1 ?fetcher = Some (Accept, Some safe)"
    by (simp add: check_batch_prefix_def check_prefix_timestamps_def span_parent_block_def
        check_prefix_parent_def check_parent_hash_def check_origin_hash_def sp_def l1_def safe_def
        l2_block_info_new_def block_info_new_def sat_mul_def)
  have 2: "get_singular_batches sp [l1] safe = Inr ?bs"
    by (simp add: get_singular_batches_def sp_def l1_def safe_def l2_block_info_new_def block_info_new_def)
  have "bst_run Map.empty (fixed_stage l1) bsp ?fetcher [l1] [safe, safe'] (bst_new () holocene_config) =
      Some (map2 (\<lambda>p b. Inr (Single (on_top_of p b))) [safe, safe'] ?bs,
        (bst_new () holocene_config)\<lparr>bst_prev := ()\<rparr>)"
    by (rule stream_delivers_span [OF _ _ _ _ _ _ _ 2])
      (use 1 in \<open>simp_all add: bst_new_def fixed_stage_def bsp_def before_denim_def sp_def\<close>)
  then show ?thesis
    by (simp add: sp_def on_top_of_def safe_def safe'_def l2_block_info_new_def block_info_new_def)
qed

end
