(* ===== verification/Channel_Reader.thy ===== *)
theory Channel_Reader
  imports Batch_Reader Channel_Provider Batch_Stream
begin

text \<open>
  The channel reader (\<open>src/crates/consensus/derive/src/stages/channel/channel_reader.rs\<close>): the stage that
  takes the data of a channel from the channel provider and hands out its batches. The lemmas
  show that it never panics and hands out only well-formed spans, and that it delivers the
  batches of a channel in order, up to the point where the data was cut.
\<close>

section \<open>The stage\<close>

record 'p channel_reader =
  cr_prev :: 'p
  cr_next_batch :: "batch_reader option"
  cr_cfg :: rollup_config

definition cr_new :: "'p \<Rightarrow> rollup_config \<Rightarrow> 'p channel_reader" where
  "cr_new prev cfg = \<lparr>cr_prev = prev, cr_next_batch = None, cr_cfg = cfg\<rparr>"

abbreviation cr_on_prev :: "('p, 'a) op \<Rightarrow> ('p channel_reader, 'a) op" where
  "cr_on_prev \<equiv> on_prev cr_prev (\<lambda>p. cr_prev_update (\<lambda>_. p))"

definition cr_set_batch_reader ::
    "registry \<Rightarrow> 'p stage \<Rightarrow> ('p, bytes option) op \<Rightarrow> ('p channel_reader, unit) op" where
  "cr_set_batch_reader reg prev_stage next_data cr =
     (if cr_next_batch cr \<noteq> None then (Inr (), cr)
      else op_then (cr_on_prev next_data cr) (\<lambda>data cr.
        case data of
          None \<Rightarrow> (Inl (temp ChannelReaderEmpty), cr)
        | Some channel \<Rightarrow>
            (case st_origin prev_stage (cr_prev cr) of
               None \<Rightarrow> (Inl (crit MissingOrigin), cr)
             | Some orig \<Rightarrow>
                 let fjord_active = is_fjord_active reg (cr_cfg cr) (bi_timestamp orig);
                     max_rlp = (if fjord_active then MAX_RLP_BYTES_PER_CHANNEL_FJORD
                                else MAX_RLP_BYTES_PER_CHANNEL_BEDROCK)
                 in (Inr (), cr\<lparr>cr_next_batch := Some (batch_reader_new channel (unat max_rlp) fjord_active)\<rparr>))))"

definition cr_next_channel :: "'p channel_reader \<Rightarrow> 'p channel_reader" where
  "cr_next_channel cr = cr\<lparr>cr_next_batch := None\<rparr>"

definition cr_read_batch ::
    "registry \<Rightarrow> 'p stage \<Rightarrow> ('p, bytes option) op \<Rightarrow> 'b decompressors \<Rightarrow> batch_codecs
     \<Rightarrow> ('p channel_reader, batch) pop" where
  "cr_read_batch reg prev_stage next_data dc bc cr =
     (case cr_set_batch_reader reg prev_stage next_data cr of
        (Inl e, cr) \<Rightarrow> Some (Inl e, cr_next_channel cr)
      | (Inr _, cr) \<Rightarrow>
          (case cr_next_batch cr of
             None \<Rightarrow> None
           | Some rd \<Rightarrow>
               (case reader_decompress dc rd of
                  None \<Rightarrow> None
                | Some (Inl err, rd) \<Rightarrow> Some (Inl (temp NotEnoughData), cr_next_channel cr)
                | Some (Inr _, rd) \<Rightarrow>
                    (case reader_next_batch dc bc (cr_cfg cr) rd of
                       None \<Rightarrow> None
                     | Some (Some b, rd) \<Rightarrow> Some (Inr b, cr\<lparr>cr_next_batch := Some rd\<rparr>)
                     | Some (None, rd) \<Rightarrow> Some (Inl (temp NotEnoughData), cr_next_channel cr)))))"

definition cr_stage :: "'p stage \<Rightarrow> 'p channel_reader stage" where
  "cr_stage prev_stage =
     \<lparr>st_origin = (\<lambda>cr. st_origin prev_stage (cr_prev cr)),
      st_advance_origin = cr_on_prev (st_advance_origin prev_stage),
      st_reset = (\<lambda>l1_origin sys cr.
        op_then (cr_on_prev (st_reset prev_stage l1_origin sys) cr) (\<lambda>_ cr. (Inr (), cr_next_channel cr))),
      st_activate = (\<lambda>cr.
        op_then (cr_on_prev (st_activate prev_stage) cr) (\<lambda>_ cr. (Inr (), cr_next_channel cr))),
      st_flush_channel = (\<lambda>cr. (Inr (), cr\<lparr>cr_next_batch := None\<rparr>))\<rparr>"

text \<open>
  The interface to the batch stream. By lemma \<open>cr_read_batch_returns\<close> below, reading never panics, so
  its result can be taken out of the option.
\<close>

definition cr_provider ::
    "registry \<Rightarrow> 'p stage \<Rightarrow> ('p, bytes option) op \<Rightarrow> 'b decompressors \<Rightarrow> batch_codecs
     \<Rightarrow> 'p channel_reader batch_stream_provider" where
  "cr_provider reg prev_stage next_data dc bc =
     \<lparr>bsp_next_batch = (\<lambda>cr. the (cr_read_batch reg prev_stage next_data dc bc cr)),
      bsp_flush = cr_next_channel\<rparr>"

section \<open>Reading is safe\<close>

lemma cr_set_batch_reader_Inr:
  "cr_set_batch_reader reg prev_stage next_data cr = (Inr u, cr') \<Longrightarrow>
     (\<exists>rd. cr_next_batch cr' = Some rd) \<and> cr_cfg cr' = cr_cfg cr"
  by (auto simp: cr_set_batch_reader_def op_then_def on_prev_def Let_def
      split: if_splits option.splits prod.splits sum.splits)

lemma cr_read_batch_returns: "\<exists>r. cr_read_batch reg prev_stage next_data dc bc cr = Some r"
proof (cases "cr_set_batch_reader reg prev_stage next_data cr")
  case (Pair r cr')
  show ?thesis
  proof (cases r)
    case (Inr u)
    then obtain rd where rd: "cr_next_batch cr' = Some rd" using cr_set_batch_reader_Inr Pair by blast
    obtain d rd' where d: "reader_decompress dc rd = Some (d, rd')" using reader_decompress_returns [of dc rd] by auto
    obtain b rd'' where "reader_next_batch dc bc (cr_cfg cr') rd' = Some (b, rd'')"
      using reader_next_batch_returns [of dc bc "cr_cfg cr'" rd'] by auto
    then show ?thesis
      using Pair Inr rd d by (auto simp: cr_read_batch_def split: sum.split option.split)
  qed (simp add: Pair cr_read_batch_def)
qed

lemma cr_read_batch_span:
  assumes "cr_read_batch reg prev_stage next_data dc bc cr = Some (Inr (Span sp), cr')"
  shows "span_shape (rc_block_time (cr_cfg cr)) sp"
proof -
  obtain u cr1 where "cr_set_batch_reader reg prev_stage next_data cr = (Inr u, cr1)"
    "\<exists>rd rd'. reader_next_batch dc bc (cr_cfg cr1) rd = Some (Some (Span sp), rd')"
    using assms by (auto simp: cr_read_batch_def split: prod.splits sum.splits option.splits)
  then show ?thesis using cr_set_batch_reader_Inr reader_next_batch_span by metis
qed

lemma cr_read_batch_error:
  "cr_read_batch reg prev_stage next_data dc bc cr = Some (Inl e, cr') \<Longrightarrow> cr_next_batch cr' = None"
  by (auto simp: cr_read_batch_def cr_next_channel_def split: prod.splits sum.splits option.splits)

section \<open>Delivery\<close>

text \<open>
  A source of batches: it holds some, hands them out one after the other without moving the
  origin, and then has not enough data.
\<close>

locale batch_source =
  fixes next_batch :: "('p, batch) op"
    and orig_of :: "'p \<Rightarrow> block_info option"
    and holds :: "'p \<Rightarrow> batch list \<Rightarrow> bool"
  assumes next_held: "holds p (b # bs) \<Longrightarrow>
      \<exists>p'. next_batch p = (Inr b, p') \<and> holds p' bs \<and> orig_of p' = orig_of p"
    and next_none: "holds p [] \<Longrightarrow> \<exists>p'. next_batch p = (Inl (temp NotEnoughData), p') \<and> orig_of p' = orig_of p"
begin

lemma delivers_held:
  "holds p bs \<Longrightarrow> \<exists>p'. op_repeat (Suc (length bs)) next_batch p =
     (map Inr bs @ [Inl (temp NotEnoughData)], p') \<and> orig_of p' = orig_of p"
proof (induction bs arbitrary: p)
  case Nil
  then show ?case using next_none [of p] by auto
next
  case (Cons b bs)
  then obtain p1 where p1: "next_batch p = (Inr b, p1)" "holds p1 bs" "orig_of p1 = orig_of p"
    using next_held by blast
  obtain p2 where "op_repeat (Suc (length bs)) next_batch p1 = (map Inr bs @ [Inl (temp NotEnoughData)], p2)"
    "orig_of p2 = orig_of p1"
    using Cons.IH [OF p1(2)] by blast
  moreover have "op_repeat (Suc (length (b # bs))) next_batch p =
      (let (rs, p') = op_repeat (Suc (length bs)) next_batch p1 in (Inr b # rs, p'))"
    by (simp add: p1(1))
  ultimately show ?case using p1(3) by simp
qed

end

text \<open>The reader holds the batches between its cursor and the end of the decompressed data.\<close>

definition cr_holds :: "batch_codecs \<Rightarrow> 'p channel_reader \<Rightarrow> batch list \<Rightarrow> bool" where
  "cr_holds bc cr bs \<longleftrightarrow>
     rlp_ok (tc_rlp (bc_txs bc)) \<and>
     (\<exists>rd pre encs tail. cr_next_batch cr = Some rd \<and> rd_data rd = None \<and>
        rd_decompressed rd = pre @ batch_payload (tc_rlp (bc_txs bc)) encs @ tail \<and> rd_cursor rd = length pre \<and>
        list_all2 (decodes_to bc (cr_cfg cr)) encs bs \<and> payload_end (tc_rlp (bc_txs bc)) tail)"

lemma cr_holdsI:
  "rlp_ok (tc_rlp (bc_txs bc)) \<Longrightarrow> cr_next_batch cr = Some rd \<Longrightarrow> rd_data rd = None \<Longrightarrow>
   rd_decompressed rd = pre @ batch_payload (tc_rlp (bc_txs bc)) encs @ tail \<Longrightarrow> rd_cursor rd = length pre \<Longrightarrow>
   list_all2 (decodes_to bc (cr_cfg cr)) encs bs \<Longrightarrow> payload_end (tc_rlp (bc_txs bc)) tail \<Longrightarrow> cr_holds bc cr bs"
  unfolding cr_holds_def by blast

lemma cr_read_held:
  assumes "cr_holds bc cr (b # bs)"
  shows "\<exists>rd'. cr_read_batch reg prev_stage next_data dc bc cr = Some (Inr b, cr\<lparr>cr_next_batch := Some rd'\<rparr>) \<and>
    cr_holds bc (cr\<lparr>cr_next_batch := Some rd'\<rparr>) bs"
proof -
  let ?rlp = "tc_rlp (bc_txs bc)"
  obtain rd pre enc encs tail where rd: "cr_next_batch cr = Some rd" "rd_data rd = None"
    "rd_decompressed rd = pre @ rlp_bytes_encode ?rlp enc @ batch_payload ?rlp encs @ tail" "rd_cursor rd = length pre"
    and b: "decodes_to bc (cr_cfg cr) enc b" "list_all2 (decodes_to bc (cr_cfg cr)) encs bs" "payload_end ?rlp tail"
    and rlp: "rlp_ok ?rlp"
    using assms by (auto simp: cr_holds_def list_all2_Cons2 batch_payload_def)
  let ?rd = "rd\<lparr>rd_cursor := length pre + length (rlp_bytes_encode ?rlp enc)\<rparr>"
  have "rlp_bytes_encode ?rlp enc \<noteq> []"
    using rlp_bytes_encode_nonempty [OF rlp] b(1) by (simp add: decodes_to_def)
  then have "reader_decompress dc rd = Some (Inr (), rd)" using rd(3) by (simp add: reader_decompress_def)
  then have "cr_read_batch reg prev_stage next_data dc bc cr = Some (Inr b, cr\<lparr>cr_next_batch := Some ?rd\<rparr>)"
    using reader_takes_batch [OF rlp b(1) rd(3,4), of dc] rd(1) by (simp add: cr_read_batch_def cr_set_batch_reader_def)
  moreover have "cr_holds bc (cr\<lparr>cr_next_batch := Some ?rd\<rparr>) bs"
    using rlp rd b(2,3) by (intro cr_holdsI [of bc _ ?rd "pre @ rlp_bytes_encode ?rlp enc" encs tail]) auto
  ultimately show ?thesis by blast
qed

lemma cr_read_end:
  assumes "cr_holds bc cr []"
  shows "cr_read_batch reg prev_stage next_data dc bc cr = Some (Inl (temp NotEnoughData), cr_next_channel cr)"
proof -
  obtain rd pre tail where rd: "cr_next_batch cr = Some rd" "rd_data rd = None"
    "rd_decompressed rd = pre @ tail" "rd_cursor rd = length pre" "payload_end (tc_rlp (bc_txs bc)) tail"
    using assms by (auto simp: cr_holds_def batch_payload_def)
  obtain d rd1 where d: "reader_decompress dc rd = Some (d, rd1)" using reader_decompress_returns by fastforce
  then have "d = Inr () \<longrightarrow> rd1 = rd"
    using rd(2) by (auto simp: reader_decompress_def Let_def split: if_splits)
  moreover obtain rd2 where "reader_next_batch dc bc (cr_cfg cr) rd = Some (None, rd2)"
    using reader_ends [OF rd(5,3,4,2)] by blast
  ultimately show ?thesis
    using d rd(1) by (auto simp: cr_read_batch_def cr_set_batch_reader_def split: sum.split)
qed

interpretation crs: batch_source "bsp_next_batch (cr_provider reg prev_stage next_data dc bc)"
    "st_origin (cr_stage prev_stage)" "cr_holds bc"
  for reg prev_stage next_data dc bc
proof
  show "\<exists>cr'. bsp_next_batch (cr_provider reg prev_stage next_data dc bc) cr = (Inr b, cr') \<and>
      cr_holds bc cr' bs \<and> st_origin (cr_stage prev_stage) cr' = st_origin (cr_stage prev_stage) cr"
    if "cr_holds bc cr (b # bs)" for cr b bs
    using cr_read_held [OF that, of reg prev_stage next_data dc] by (auto simp: cr_provider_def cr_stage_def)
  show "\<exists>cr'. bsp_next_batch (cr_provider reg prev_stage next_data dc bc) cr = (Inl (temp NotEnoughData), cr') \<and>
      st_origin (cr_stage prev_stage) cr' = st_origin (cr_stage prev_stage) cr"
    if "cr_holds bc cr []" for cr
    using cr_read_end [OF that, of reg prev_stage next_data dc]
    by (auto simp: cr_provider_def cr_stage_def cr_next_channel_def)
qed

lemma cr_read_loads:
  assumes "cr_next_batch cr = None" and "next_data (cr_prev cr) = (Inr (Some data), p)"
    and "st_origin prev_stage p = Some orig"
    and "decompresses dc (unat (max_rlp_bytes_per_channel reg (cr_cfg cr) (bi_timestamp orig)))
      (is_fjord_active reg (cr_cfg cr) (bi_timestamp orig)) data payload"
  shows "\<exists>rd. rd_decompressed rd = payload \<and> rd_cursor rd = 0 \<and> rd_data rd = None \<and>
    cr_read_batch reg prev_stage next_data dc bc cr =
    cr_read_batch reg prev_stage next_data dc bc (cr\<lparr>cr_prev := p, cr_next_batch := Some rd\<rparr>)"
proof -
  let ?fjord = "is_fjord_active reg (cr_cfg cr) (bi_timestamp orig)"
  let ?max = "unat (max_rlp_bytes_per_channel reg (cr_cfg cr) (bi_timestamp orig))"
  obtain rd where rd: "reader_decompress dc (batch_reader_new data ?max ?fjord) = Some (Inr (), rd)"
    "rd_decompressed rd = payload" "rd_cursor rd = 0" "rd_data rd = None"
    using reader_decompress_new [OF assms(4)] by blast
  have load: "cr_set_batch_reader reg prev_stage next_data cr =
      (Inr (), cr\<lparr>cr_prev := p, cr_next_batch := Some (batch_reader_new data ?max ?fjord)\<rparr>)"
    using assms(1-3) by (simp add: cr_set_batch_reader_def on_prev_def Let_def max_rlp_bytes_per_channel_def)
  have "reader_decompress dc rd = Some (if payload = [] then (Inl EmptyData, rd\<lparr>rd_data := None\<rparr>) else (Inr (), rd))"
    using rd(2,4) by (simp add: reader_decompress_def)
  moreover from this have "payload = [] \<Longrightarrow> \<exists>rd'. reader_next_batch dc bc (cr_cfg cr) rd = Some (None, rd')"
    by (simp add: reader_next_batch_def next_batch_strict_def)
  ultimately show ?thesis
    using rd by (intro exI [of _ rd]) (auto simp: cr_read_batch_def load cr_next_channel_def
      cr_set_batch_reader_def [of _ _ _ "cr\<lparr>cr_prev := p, cr_next_batch := Some rd\<rparr>"] split: option.split)
qed

lemma cr_delivers:
  assumes "cr_next_batch cr = None" and "next_data (cr_prev cr) = (Inr (Some data), p)"
    and "st_origin prev_stage p = Some orig"
    and "decompresses dc (unat (max_rlp_bytes_per_channel reg (cr_cfg cr) (bi_timestamp orig)))
      (is_fjord_active reg (cr_cfg cr) (bi_timestamp orig)) data (batch_payload (tc_rlp (bc_txs bc)) encs @ tail)"
    and "rlp_ok (tc_rlp (bc_txs bc))" and "list_all2 (decodes_to bc (cr_cfg cr)) encs bs"
    and "payload_end (tc_rlp (bc_txs bc)) tail"
  shows "\<exists>cr'. op_repeat (Suc (length bs)) (bsp_next_batch (cr_provider reg prev_stage next_data dc bc)) cr =
    (map Inr bs @ [Inl (temp NotEnoughData)], cr') \<and> st_origin (cr_stage prev_stage) cr' = Some orig"
proof -
  let ?f = "bsp_next_batch (cr_provider reg prev_stage next_data dc bc)"
  obtain rd where rd: "rd_decompressed rd = batch_payload (tc_rlp (bc_txs bc)) encs @ tail" "rd_cursor rd = 0"
    "rd_data rd = None" "?f cr = ?f (cr\<lparr>cr_prev := p, cr_next_batch := Some rd\<rparr>)"
    using cr_read_loads [where cr = cr and next_data = next_data and bc = bc and payload = "batch_payload (tc_rlp (bc_txs bc)) encs @ tail", OF assms(1-4)]
    by (auto simp: cr_provider_def)
  have "cr_holds bc (cr\<lparr>cr_prev := p, cr_next_batch := Some rd\<rparr>) bs"
    using assms(5-7) rd(1-3) by (intro cr_holdsI [of bc _ rd "[]" encs tail]) auto
  from crs.delivers_held [OF this, of reg prev_stage next_data dc] show ?thesis
    using assms(3) rd(4) by (simp add: cr_stage_def)
qed

text \<open>
  C12. The channel reader delivers what is in a channel: given a channel whose data decompresses,
  with either method and possibly cut at the limit, to encoded batches and an incomplete rest,
  one call per batch hands out the batches in order, and the call after them reports that
  there is not enough data.
\<close>

theorem reader_delivers:
  assumes "cr_next_batch cr = None" and "next_data (cr_prev cr) = (Inr (Some data), p)"
    and "st_origin prev_stage p = Some orig"
    and "decompresses dc (unat (max_rlp_bytes_per_channel reg (cr_cfg cr) (bi_timestamp orig)))
      (is_fjord_active reg (cr_cfg cr) (bi_timestamp orig)) data (batch_payload (tc_rlp (bc_txs bc)) encs @ tail)"
    and "rlp_ok (tc_rlp (bc_txs bc))" and "list_all2 (decodes_to bc (cr_cfg cr)) encs bs"
    and "payload_end (tc_rlp (bc_txs bc)) tail"
  shows "\<exists>cr'. op_repeat (Suc (length bs)) (bsp_next_batch (cr_provider reg prev_stage next_data dc bc)) cr =
    (map Inr bs @ [Inl (temp NotEnoughData)], cr') \<and> st_origin (cr_stage prev_stage) cr' = Some orig"
  using assms by (rule cr_delivers)

text \<open>A decompressor for examples: the zlib header byte and the plain data.\<close>

definition plain_decompressors :: "bytes decompressors" where
  "plain_decompressors =
     \<lparr>dc_zlib = \<lambda>data n. if length data \<le> Suc n then Inr (drop 1 data)
        else Inl \<lparr>zf_has_more_output = True, zf_output = take n (drop 1 data)\<rparr>,
      dc_brotli = stored_brotli\<rparr>"

lemma plain_decompresses:
  "length payload \<le> n \<Longrightarrow> decompresses plain_decompressors n br (0x78 # payload) payload"
  by (simp add: decompresses_def plain_decompressors_def)

theorem reader_delivers_witness:
  fixes rlp enc b data cfg
  defines "cfg \<equiv> rollup_config_default\<lparr>rc_block_time := 2\<rparr>"
    and "rlp \<equiv> tc_rlp (bc_txs sample_codecs)"
    and "enc \<equiv> [BATCH_TYPE_SINGLE]"
    and "b \<equiv> Single \<lparr>sb_parent_hash = [], sb_epoch_num = 0, sb_epoch_hash = [], sb_timestamp = 0, sb_transactions = []\<rparr>"
    and "data \<equiv> 0x78 # batch_payload rlp [enc, enc]"
  shows "\<exists>cr'. op_repeat 3 (bsp_next_batch (cr_provider Map.empty (fixed_stage block_info_default)
      (Pair (Inr (Some data))) plain_decompressors sample_codecs)) (cr_new () cfg) =
    ([Inr b, Inr b, Inl (temp NotEnoughData)], cr')"
proof -
  let ?cr = "cr_new () cfg" and ?t = "bi_timestamp block_info_default"
  have rlp: "rlp = rlp_format" "rlp_ok rlp" by (simp_all add: rlp_def sample_codecs_def rlp_format_ok)
  have dec: "list_all2 (decodes_to sample_codecs (cr_cfg ?cr)) [enc, enc] [b, b]"
    by (simp add: decodes_to_def enc_def b_def batch_decode_Cons sample_codecs_def)
  have f: "is_fjord_active Map.empty (cr_cfg ?cr) t = False" for t
    by (simp add: Rollup_Config.fork_defs default_forks_inactive cfg_def cr_new_def)
  have len: "length (batch_payload rlp [enc, enc]) = 2"
    by (simp add: rlp batch_payload_def enc_def BATCH_TYPE_SINGLE_def rlp_format_def rlp_format_bytes_def)
  have tail: "payload_end rlp []" by (simp add: payload_end_def)
  have "decompresses plain_decompressors (unat (max_rlp_bytes_per_channel Map.empty (cr_cfg ?cr) ?t))
      (is_fjord_active Map.empty (cr_cfg ?cr) ?t) data (batch_payload rlp [enc, enc] @ [])"
    using len by (simp add: data_def f max_rlp_bytes_per_channel_def MAX_RLP_BYTES_PER_CHANNEL_BEDROCK_def
        plain_decompresses)
  from reader_delivers [OF _ _ _ this [unfolded rlp_def] rlp(2) [unfolded rlp_def] dec tail [unfolded rlp_def],
      of "Pair (Inr (Some data))" "()" "fixed_stage block_info_default"] show ?thesis
    by (auto simp: cr_new_def fixed_stage_def numeral_3_eq_3)
qed

text \<open>
  C36. The channel reader is safe: on every channel, whatever its bytes are, reading a batch ends
  without a panic, the channel is dropped when an error is reported, and a span batch that is
  handed out is well formed.
\<close>

theorem reader_safe:
  "\<exists>r cr'. cr_read_batch reg prev_stage next_data dc bc cr = Some (r, cr') \<and>
    (case r of
       Inl e \<Rightarrow> cr_next_batch cr' = None
     | Inr (Span sp) \<Rightarrow> span_shape (rc_block_time (cr_cfg cr)) sp
     | Inr (Single sb) \<Rightarrow> True)"
proof -
  obtain r cr' where "cr_read_batch reg prev_stage next_data dc bc cr = Some (r, cr')"
    using cr_read_batch_returns by fastforce
  then show ?thesis using cr_read_batch_span cr_read_batch_error by (fastforce split: sum.split batch.split)
qed

end
