(* ===== verification/Upgrade_Txs.thy ===== *)
theory Upgrade_Txs
  imports Deposit_Txs
begin

text \<open>
  The transactions that network upgrades insert into their first block (\<open>src/crates/consensus/upgrades/src\<close>: \<open>ecotone.rs\<close>,
  \<open>fjord.rs\<close>, \<open>isthmus.rs\<close>, \<open>jovian.rs\<close>, \<open>utils.rs\<close>, and the deployer addresses of \<open>predeploys.rs\<close>). The contents of the
  bytecode files and the address of a created contract are arguments. The lemmas show that all
  upgrade transactions are plain deposits that mint and transfer nothing, and that no two of them
  share a source hash.
\<close>

section \<open>Building blocks\<close>

definition ascii :: "string \<Rightarrow> bytes" where
  "ascii s = map (\<lambda>c. word_of_nat (of_char c)) s"

definition upgrade_source :: "keccak \<Rightarrow> string \<Rightarrow> hash32" where
  "upgrade_source k intent = source_hash k (SourceUpgrade (ascii intent))"

definition UPGRADE_TO_SELECTOR :: bytes where
  "UPGRADE_TO_SELECTOR = [0x36, 0x59, 0xcf, 0xe6]"

text \<open>\<open>UpgradeCalldata::build\<close>.\<close>

definition upgrade_calldata :: "address \<Rightarrow> bytes" where
  "upgrade_calldata addr = UPGRADE_TO_SELECTOR @ replicate 12 0 @ addr"

definition DEPLOYER_ECOTONE_L1_BLOCK :: address where
  "DEPLOYER_ECOTONE_L1_BLOCK = to_be 20 0x4210000000000000000000000000000000000000"

definition DEPLOYER_ECOTONE_GAS_PRICE_ORACLE :: address where
  "DEPLOYER_ECOTONE_GAS_PRICE_ORACLE = to_be 20 0x4210000000000000000000000000000000000001"

definition DEPLOYER_FJORD_GAS_PRICE_ORACLE :: address where
  "DEPLOYER_FJORD_GAS_PRICE_ORACLE = to_be 20 0x4210000000000000000000000000000000000002"

definition DEPLOYER_ISTHMUS_L1_BLOCK :: address where
  "DEPLOYER_ISTHMUS_L1_BLOCK = to_be 20 0x4210000000000000000000000000000000000003"

definition DEPLOYER_ISTHMUS_GAS_PRICE_ORACLE :: address where
  "DEPLOYER_ISTHMUS_GAS_PRICE_ORACLE = to_be 20 0x4210000000000000000000000000000000000004"

definition DEPLOYER_ISTHMUS_OPERATOR_FEE_VAULT :: address where
  "DEPLOYER_ISTHMUS_OPERATOR_FEE_VAULT = to_be 20 0x4210000000000000000000000000000000000005"

definition DEPLOYER_JOVIAN_L1_BLOCK :: address where
  "DEPLOYER_JOVIAN_L1_BLOCK = to_be 20 0x4210000000000000000000000000000000000006"

definition DEPLOYER_JOVIAN_GAS_PRICE_ORACLE :: address where
  "DEPLOYER_JOVIAN_GAS_PRICE_ORACLE = to_be 20 0x4210000000000000000000000000000000000007"

text \<open>The contents of the bytecode files, and \<open>Address::create\<close>.\<close>

record upgrade_env =
  ue_keccak :: keccak
  ue_bytecode :: "string \<Rightarrow> bytes"
  ue_create :: "address \<Rightarrow> u64 \<Rightarrow> address"

text \<open>What all entries of the lists have in common: nothing is minted or transferred.\<close>

definition upgrade_tx ::
    "upgrade_env \<Rightarrow> string \<Rightarrow> address \<Rightarrow> address option \<Rightarrow> u64 \<Rightarrow> bytes \<Rightarrow> tx_deposit" where
  "upgrade_tx ue intent sender to gas input =
     \<lparr>dt_source_hash = upgrade_source (ue_keccak ue) intent, dt_from = sender, dt_to = to, dt_mint = 0,
      dt_value = 0, dt_gas_limit = gas, dt_is_system_transaction = False, dt_input = input\<rparr>"

section \<open>Ecotone\<close>

definition ECOTONE_GAS_PRICE_ORACLE :: address where
  "ECOTONE_GAS_PRICE_ORACLE = to_be 20 0xb528d11cc114e026f138fe568744c6d45ce6da7a"

definition ENABLE_ECOTONE_INPUT :: bytes where
  "ENABLE_ECOTONE_INPUT = [0x22, 0xb9, 0x0a, 0xb3]"

definition ECOTONE_NEW_L1_BLOCK :: address where
  "ECOTONE_NEW_L1_BLOCK = to_be 20 0x07dbe8500fc591d1852b76fee44d5a05e13097ff"

definition EIP4788_FROM :: address where
  "EIP4788_FROM = to_be 20 0x0B799C86a49DEeb90402691F1041aa3AF2d3C875"

definition ecotone_deposits :: "upgrade_env \<Rightarrow> tx_deposit list" where
  "ecotone_deposits ue =
     [upgrade_tx ue ''Ecotone: L1 Block Deployment'' DEPLOYER_ECOTONE_L1_BLOCK None 375000 (ue_bytecode ue ''l1_block_ecotone''),
      upgrade_tx ue ''Ecotone: Gas Price Oracle Deployment'' DEPLOYER_ECOTONE_GAS_PRICE_ORACLE None 1000000 (ue_bytecode ue ''gpo_ecotone''),
      upgrade_tx ue ''Ecotone: L1 Block Proxy Update'' ADDRESS_ZERO (Some L1_BLOCK_INFO) 50000
        (upgrade_calldata ECOTONE_NEW_L1_BLOCK),
      upgrade_tx ue ''Ecotone: Gas Price Oracle Proxy Update'' ADDRESS_ZERO (Some GAS_PRICE_ORACLE) 50000
        (upgrade_calldata ECOTONE_GAS_PRICE_ORACLE),
      upgrade_tx ue ''Ecotone: Gas Price Oracle Set Ecotone'' DEPOSITOR_ACCOUNT (Some GAS_PRICE_ORACLE) 80000
        ENABLE_ECOTONE_INPUT,
      upgrade_tx ue ''Ecotone: beacon block roots contract deployment'' EIP4788_FROM None 250000
        (ue_bytecode ue ''eip4788_ecotone'')]"

definition ecotone_txs :: "rlp \<Rightarrow> upgrade_env \<Rightarrow> bytes list" where
  "ecotone_txs rlp ue = map (dep_encode_2718 rlp) (ecotone_deposits ue)"

section \<open>Fjord\<close>

definition FJORD_GAS_PRICE_ORACLE :: address where
  "FJORD_GAS_PRICE_ORACLE = to_be 20 0xa919894851548179a0750865e7974da599c0fac7"

definition SET_FJORD_METHOD_SIGNATURE :: bytes where
  "SET_FJORD_METHOD_SIGNATURE = [0x8e, 0x98, 0xb1, 0x06]"

definition fjord_deposits :: "upgrade_env \<Rightarrow> tx_deposit list" where
  "fjord_deposits ue =
     [upgrade_tx ue ''Fjord: Gas Price Oracle Deployment'' DEPLOYER_FJORD_GAS_PRICE_ORACLE None 1450000 (ue_bytecode ue ''gpo_fjord''),
      upgrade_tx ue ''Fjord: Gas Price Oracle Proxy Update'' ADDRESS_ZERO (Some GAS_PRICE_ORACLE) 50000
        (upgrade_calldata FJORD_GAS_PRICE_ORACLE),
      upgrade_tx ue ''Fjord: Gas Price Oracle Set Fjord'' DEPOSITOR_ACCOUNT (Some GAS_PRICE_ORACLE) 90000
        SET_FJORD_METHOD_SIGNATURE]"

definition fjord_txs :: "rlp \<Rightarrow> upgrade_env \<Rightarrow> bytes list" where
  "fjord_txs rlp ue = map (dep_encode_2718 rlp) (fjord_deposits ue)"

section \<open>Isthmus\<close>

definition ENABLE_ISTHMUS_INPUT :: bytes where
  "ENABLE_ISTHMUS_INPUT = [0x29, 0x1b, 0x03, 0x83]"

definition EIP2935_FROM :: address where
  "EIP2935_FROM = to_be 20 0x3462413Af4609098e1E27A490f554f260213D685"

definition ISTHMUS_NEW_L1_BLOCK :: address where
  "ISTHMUS_NEW_L1_BLOCK = to_be 20 0xff256497d61dcd71a9e9ff43967c13fde1f72d12"

definition ISTHMUS_GAS_PRICE_ORACLE :: address where
  "ISTHMUS_GAS_PRICE_ORACLE = to_be 20 0x93e57a196454cb919193fa9946f14943cf733845"

definition ISTHMUS_OPERATOR_FEE_VAULT :: address where
  "ISTHMUS_OPERATOR_FEE_VAULT = to_be 20 0x4fa2be8cd41504037f1838bce3bcc93bc68ff537"

definition isthmus_deposits :: "upgrade_env \<Rightarrow> tx_deposit list" where
  "isthmus_deposits ue =
     [upgrade_tx ue ''Isthmus: L1 Block Deployment'' DEPLOYER_ISTHMUS_L1_BLOCK None 425000 (ue_bytecode ue ''l1_block_isthmus''),
      upgrade_tx ue ''Isthmus: Gas Price Oracle Deployment'' DEPLOYER_ISTHMUS_GAS_PRICE_ORACLE None 1625000 (ue_bytecode ue ''gpo_isthmus''),
      upgrade_tx ue ''Isthmus: Operator Fee Vault Deployment'' DEPLOYER_ISTHMUS_OPERATOR_FEE_VAULT None 500000 (ue_bytecode ue ''ofv_isthmus''),
      upgrade_tx ue ''Isthmus: L1 Block Proxy Update'' ADDRESS_ZERO (Some L1_BLOCK_INFO) 50000
        (upgrade_calldata ISTHMUS_NEW_L1_BLOCK),
      upgrade_tx ue ''Isthmus: Gas Price Oracle Proxy Update'' ADDRESS_ZERO (Some GAS_PRICE_ORACLE) 50000
        (upgrade_calldata ISTHMUS_GAS_PRICE_ORACLE),
      upgrade_tx ue ''Isthmus: Operator Fee Vault Proxy Update'' ADDRESS_ZERO (Some OPERATOR_FEE_VAULT) 50000
        (upgrade_calldata ISTHMUS_OPERATOR_FEE_VAULT),
      upgrade_tx ue ''Isthmus: Gas Price Oracle Set Isthmus'' DEPOSITOR_ACCOUNT (Some GAS_PRICE_ORACLE) 90000
        ENABLE_ISTHMUS_INPUT,
      upgrade_tx ue ''Isthmus: EIP-2935 Contract Deployment'' EIP2935_FROM None 250000
        (ue_bytecode ue ''eip2935_isthmus'')]"

definition isthmus_txs :: "rlp \<Rightarrow> upgrade_env \<Rightarrow> bytes list" where
  "isthmus_txs rlp ue = map (dep_encode_2718 rlp) (isthmus_deposits ue)"

section \<open>Jovian\<close>

definition jovian_l1_block_address :: "upgrade_env \<Rightarrow> address" where
  "jovian_l1_block_address ue = ue_create ue DEPLOYER_JOVIAN_L1_BLOCK 0"

definition jovian_gas_price_oracle_address :: "upgrade_env \<Rightarrow> address" where
  "jovian_gas_price_oracle_address ue = ue_create ue DEPLOYER_JOVIAN_GAS_PRICE_ORACLE 0"

definition gas_price_oracle_enable_jovian_bytecode :: "upgrade_env \<Rightarrow> bytes" where
  "gas_price_oracle_enable_jovian_bytecode ue = take 4 (ue_keccak ue (ascii ''setJovian()''))"

definition jovian_deposits :: "upgrade_env \<Rightarrow> tx_deposit list" where
  "jovian_deposits ue =
     [upgrade_tx ue ''Jovian: L1 Block Deployment'' DEPLOYER_JOVIAN_L1_BLOCK None 447315
        (ue_bytecode ue ''jovian-l1-block-deployment''),
      upgrade_tx ue ''Jovian: L1 Block Proxy Update'' ADDRESS_ZERO (Some L1_BLOCK_INFO) 50000
        (upgrade_calldata (jovian_l1_block_address ue)),
      upgrade_tx ue ''Jovian: Gas Price Oracle Deployment'' DEPLOYER_JOVIAN_GAS_PRICE_ORACLE None 1750714
        (ue_bytecode ue ''jovian-gas-price-oracle-deployment''),
      upgrade_tx ue ''Jovian: Gas Price Oracle Proxy Update'' ADDRESS_ZERO (Some GAS_PRICE_ORACLE) 50000
        (upgrade_calldata (jovian_gas_price_oracle_address ue)),
      upgrade_tx ue ''Jovian: Gas Price Oracle Set Jovian'' DEPOSITOR_ACCOUNT (Some GAS_PRICE_ORACLE) 90000
        (gas_price_oracle_enable_jovian_bytecode ue)]"

definition jovian_txs :: "rlp \<Rightarrow> upgrade_env \<Rightarrow> bytes list" where
  "jovian_txs rlp ue = map (dep_encode_2718 rlp) (jovian_deposits ue)"

section \<open>Properties\<close>

lemma of_char_word_inj: "(word_of_nat (of_char c) :: u8) = word_of_nat (of_char d) \<Longrightarrow> c = d"
proof -
  assume "(word_of_nat (of_char c) :: u8) = word_of_nat (of_char d)"
  then have "(of_char c :: nat) mod 256 = of_char d mod 256"
    by (simp add: word_of_nat_eq_iff take_bit_eq_mod)
  then have "(of_char c :: nat) = of_char d" by simp
  then show "c = d" by (simp only: of_char_eq_iff)
qed

lemma ascii_inj: "ascii s = ascii t \<Longrightarrow> s = t"
  unfolding ascii_def by (metis (no_types, lifting) injI inj_map_eq_map of_char_word_inj)

definition upgrade_deposits :: "upgrade_env \<Rightarrow> tx_deposit list" where
  "upgrade_deposits ue = ecotone_deposits ue @ fjord_deposits ue @ isthmus_deposits ue @ jovian_deposits ue"

definition upgrade_intents :: "string list" where
  "upgrade_intents =
     [''Ecotone: L1 Block Deployment'', ''Ecotone: Gas Price Oracle Deployment'', ''Ecotone: L1 Block Proxy Update'',
      ''Ecotone: Gas Price Oracle Proxy Update'', ''Ecotone: Gas Price Oracle Set Ecotone'',
      ''Ecotone: beacon block roots contract deployment'', ''Fjord: Gas Price Oracle Deployment'',
      ''Fjord: Gas Price Oracle Proxy Update'', ''Fjord: Gas Price Oracle Set Fjord'', ''Isthmus: L1 Block Deployment'',
      ''Isthmus: Gas Price Oracle Deployment'', ''Isthmus: Operator Fee Vault Deployment'',
      ''Isthmus: L1 Block Proxy Update'', ''Isthmus: Gas Price Oracle Proxy Update'',
      ''Isthmus: Operator Fee Vault Proxy Update'', ''Isthmus: Gas Price Oracle Set Isthmus'',
      ''Isthmus: EIP-2935 Contract Deployment'', ''Jovian: L1 Block Deployment'', ''Jovian: L1 Block Proxy Update'',
      ''Jovian: Gas Price Oracle Deployment'', ''Jovian: Gas Price Oracle Proxy Update'',
      ''Jovian: Gas Price Oracle Set Jovian'']"

definition upgrade_hash_inputs :: "keccak \<Rightarrow> bytes set" where
  "upgrade_hash_inputs k = (\<Union>s\<in>set upgrade_intents. hash_inputs k (SourceUpgrade (ascii s)))"

lemma upgrade_sources:
  "map dt_source_hash (upgrade_deposits ue) = map (upgrade_source (ue_keccak ue)) upgrade_intents"
  by (simp add: upgrade_deposits_def ecotone_deposits_def fjord_deposits_def isthmus_deposits_def jovian_deposits_def
      upgrade_tx_def upgrade_intents_def)

lemma upgrade_source_inj:
  assumes "\<not> collides k (upgrade_hash_inputs k)"
  shows "inj_on (upgrade_source k) (set upgrade_intents)"
proof (rule inj_onI)
  fix s t assume st: "s \<in> set upgrade_intents" "t \<in> set upgrade_intents" "upgrade_source k s = upgrade_source k t"
  then have "\<not> collides k (hash_inputs k (SourceUpgrade (ascii s)) \<union> hash_inputs k (SourceUpgrade (ascii t)))"
    using assms collides_mono unfolding upgrade_hash_inputs_def by (meson UN_upper Un_least)
  then have "SourceUpgrade (ascii s) = SourceUpgrade (ascii t)"
    using st(3) unfolding upgrade_source_def by (intro source_hash_inj) (simp_all add: source_wf_def)
  then show "s = t" using ascii_inj by simp
qed

lemma upgrade_sources_distinct:
  "distinct (map dt_source_hash (upgrade_deposits ue)) \<or> collides (ue_keccak ue) (upgrade_hash_inputs (ue_keccak ue))"
proof -
  have "distinct upgrade_intents" by (simp add: upgrade_intents_def)
  then show ?thesis unfolding upgrade_sources using upgrade_source_inj by (auto simp: distinct_map)
qed

lemma upgrade_deposits_plain:
  assumes "tx \<in> set (upgrade_deposits ue)"
  shows "dt_mint tx = 0 \<and> dt_value tx = 0 \<and> \<not> dt_is_system_transaction tx"
  using assms
  by (auto simp: upgrade_deposits_def ecotone_deposits_def fjord_deposits_def isthmus_deposits_def jovian_deposits_def
      upgrade_tx_def)

end
