(* ===== verification/Attributes.thy ===== *)
theory Attributes
  imports Upgrade_Txs Batch_Stream
begin

text \<open>
  Payload attributes (\<open>src/crates/common/rpc-types-engine/src/attributes.rs\<close>, \<open>src/crates/consensus/protocol/src/attributes.rs\<close>)
  and their builder (\<open>src/crates/consensus/derive/src/attributes/stateful.rs\<close>): the template of an L2 block on top
  of a parent and an L1 origin. The lemmas show when the builder succeeds and with which error it
  fails, that the template holds deposits only, and that a block built from it is read back with
  the L1 origin, sequence number and time it was built for.
\<close>

section \<open>Payload attributes\<close>

text \<open>Withdrawals are never built here, so the element type of their list does not matter.\<close>

record payload_attributes =
  pa_timestamp :: u64
  pa_prev_randao :: hash32
  pa_suggested_fee_recipient :: address
  pa_withdrawals :: "unit list option"
  pa_parent_beacon_block_root :: "hash32 option"
  pa_slot_number :: "u64 option"
  pa_target_gas_limit :: "u64 option"

record base_payload_attributes =
  at_payload_attributes :: payload_attributes
  at_transactions :: "bytes list option"
  at_no_tx_pool :: "bool option"
  at_gas_limit :: "u64 option"
  at_eip_1559_params :: "bytes option"
  at_min_base_fee :: "u64 option"

record attributes_with_parent =
  awp_attributes :: base_payload_attributes
  awp_parent :: l2_block_info
  awp_derived_from :: "block_info option"
  awp_is_last_in_span :: bool

definition awp_new ::
    "base_payload_attributes \<Rightarrow> l2_block_info \<Rightarrow> block_info option \<Rightarrow> bool \<Rightarrow> attributes_with_parent" where
  "awp_new attributes parent derived_from is_last_in_span =
     \<lparr>awp_attributes = attributes, awp_parent = parent, awp_derived_from = derived_from,
      awp_is_last_in_span = is_last_in_span\<rparr>"

definition awp_block_number :: "attributes_with_parent \<Rightarrow> u64" where
  "awp_block_number a = sat_add (bi_number (l2_block (awp_parent a))) 1"

definition is_deposit_bytes :: "bytes \<Rightarrow> bool" where
  "is_deposit_bytes tx = (case tx of [] \<Rightarrow> False | b # _ \<Rightarrow> b = DEPOSIT_TX_TYPE)"

definition is_deposits_only :: "attributes_with_parent \<Rightarrow> bool" where
  "is_deposits_only a =
     (case at_transactions (awp_attributes a) of None \<Rightarrow> True | Some txs \<Rightarrow> list_all is_deposit_bytes txs)"

definition as_deposits_only :: "attributes_with_parent \<Rightarrow> attributes_with_parent" where
  "as_deposits_only a =
     a\<lparr>awp_attributes := (awp_attributes a)
         \<lparr>at_transactions := map_option (filter is_deposit_bytes) (at_transactions (awp_attributes a))\<rparr>\<rparr>"

definition count_transactions :: "attributes_with_parent \<Rightarrow> u64" where
  "count_transactions a =
     word_of_nat (case at_transactions (awp_attributes a) of None \<Rightarrow> 0 | Some txs \<Rightarrow> length txs)"

section \<open>The builder\<close>

text \<open>What the builder reads of an L1 header beyond what the L1 information needs.\<close>

record l1_block_header = l1_header +
  lh_parent_hash :: hash32
  lh_mix_hash :: hash32
  lh_parent_beacon_block_root :: "hash32 option"

text \<open>The chain providers, and the third-party codecs and functions.\<close>

record attr_providers =
  ap_system_config_by_l2_hash :: "hash32 \<Rightarrow> pipeline_error_kind + system_config"
  ap_header_by_hash :: "hash32 \<Rightarrow> pipeline_error_kind + l1_block_header"
  ap_receipts_by_hash :: "hash32 \<Rightarrow> pipeline_error_kind + receipt list"

record attr_env =
  ae_rlp :: rlp
  ae_abi :: abi
  ae_upgrades :: upgrade_env

abbreviation ae_keccak :: "attr_env \<Rightarrow> keccak" where
  "ae_keccak ae \<equiv> ue_keccak (ae_upgrades ae)"

record 'bp stateful_builder =
  sab_rollup_cfg :: rollup_config
  sab_l1_cfg :: "'bp l1_chain_config"
  sab_parent_system_config :: "(l2_block_info \<times> system_config) option"

definition sab_new :: "rollup_config \<Rightarrow> 'bp l1_chain_config \<Rightarrow> 'bp stateful_builder" where
  "sab_new rcfg l1_cfg = \<lparr>sab_rollup_cfg = rcfg, sab_l1_cfg = l1_cfg, sab_parent_system_config = None\<rparr>"

definition seed_parent_system_config ::
    "l2_block_info \<Rightarrow> system_config \<Rightarrow> 'bp stateful_builder \<Rightarrow> 'bp stateful_builder" where
  "seed_parent_system_config parent config b = b\<lparr>sab_parent_system_config := Some (parent, config)\<rparr>"

definition DENIM_GAS_PARAMETER_SCALING_FACTOR :: u32 where
  "DENIM_GAS_PARAMETER_SCALING_FACTOR = 10"

definition requires_system_config_refresh :: "registry \<Rightarrow> rollup_config \<Rightarrow> u64 \<Rightarrow> u64 \<Rightarrow> bool" where
  "requires_system_config_refresh reg cfg two_blocks_back_l2_time target_l2_time =
     list_ex (\<lambda>upgrade.
       case upgrade_activation_timestamp reg cfg upgrade of
         None \<Rightarrow> False
       | Some t \<Rightarrow> two_blocks_back_l2_time < t \<and> t \<le> target_l2_time) CONTRACT_VARIANTS"

definition sab_system_config ::
    "registry \<Rightarrow> attr_providers \<Rightarrow> 'bp stateful_builder \<Rightarrow> l2_block_info \<Rightarrow> bool \<Rightarrow> pipeline_error_kind + system_config" where
  "sab_system_config reg ap b l2_parent refresh =
     (let fetched = ap_system_config_by_l2_hash ap (bi_hash (l2_block l2_parent)) in
      case sab_parent_system_config b of
        Some (parent, config) \<Rightarrow> if parent = l2_parent \<and> \<not> refresh then Inr config else fetched
      | None \<Rightarrow> fetched)"

text \<open>The header of the epoch, the deposits of its first block, the configuration and the sequence number.\<close>

definition sab_epoch ::
    "registry \<Rightarrow> attr_env \<Rightarrow> attr_providers \<Rightarrow> rollup_config \<Rightarrow> l2_block_info \<Rightarrow> block_num_hash \<Rightarrow> system_config
     \<Rightarrow> pipeline_error_kind failure + l1_block_header \<times> bytes list \<times> system_config \<times> u64" where
  "sab_epoch reg ae ap cfg l2_parent epoch sys_config =
     (let orig = l2_l1_origin l2_parent in
      if bnh_number orig \<noteq> bnh_number epoch then
        and_then (map_err Failing (ap_header_by_hash ap (bnh_hash epoch))) (\<lambda>header.
          if bnh_hash orig \<noteq> lh_parent_hash header
          then fails (Reset (ResetAttributesBuilder (BlockMismatchEpochReset epoch orig (lh_parent_hash header))))
          else and_then (map_err Failing (ap_receipts_by_hash ap (bnh_hash epoch))) (\<lambda>receipts.
            and_then
              (map_err (map_failure (\<lambda>e. crit (BadEncoding (EncDepositDecodeError e))))
                (derive_deposits (ae_keccak ae) (ae_rlp ae) (bnh_hash epoch) receipts
                  (rc_deposit_contract_address cfg))) (\<lambda>deposits.
              Inr (header, deposits,
                snd (update_with_receipts (ae_abi ae) receipts (rc_l1_system_config_address cfg)
                  (is_ecotone_active reg cfg (lh_timestamp header)) sys_config), 0))))
      else if bnh_hash orig \<noteq> bnh_hash epoch
      then fails (Reset (ResetAttributesBuilder (BlockMismatch epoch orig)))
      else and_then (map_err Failing (ap_header_by_hash ap (bnh_hash epoch))) (\<lambda>header.
        Inr (header, [], sys_config, l2_seq_num l2_parent + 1)))"

definition denim_scaled :: "system_config \<Rightarrow> system_config" where
  "denim_scaled c =
     c\<lparr>sc_gas_limit := sc_gas_limit c div ucast DENIM_GAS_PARAMETER_SCALING_FACTOR,
       sc_eip1559_denominator :=
         map_option (\<lambda>d. sat_mul d DENIM_GAS_PARAMETER_SCALING_FACTOR) (sc_eip1559_denominator c)\<rparr>"

definition upgrade_transactions ::
    "registry \<Rightarrow> attr_env \<Rightarrow> rollup_config \<Rightarrow> u64 \<Rightarrow> u64 \<Rightarrow> bytes list" where
  "upgrade_transactions reg ae cfg target_l2_time parent_time =
     (let first = (\<lambda>active txs. if active reg cfg target_l2_time \<and> \<not> active reg cfg parent_time
                                then txs (ae_rlp ae) (ae_upgrades ae) else []) in
      first is_ecotone_active ecotone_txs @ first is_fjord_active fjord_txs @
      first is_isthmus_active isthmus_txs @ first is_jovian_active jovian_txs)"

fun block_info_error_text :: "block_info_error \<Rightarrow> string" where
  "block_info_error_text L1BlobBaseFeeScalar = ''Failed to parse the L1 blob base fee scalar''"
| "block_info_error_text BaseFeeScalar = ''Failed to parse the base fee scalar''"
| "block_info_error_text Eip1559Denominator = ''Failed to parse the EIP-1559 denominator''"
| "block_info_error_text Eip1559Elasticity = ''Failed to parse the EIP-1559 elasticity parameter''"
| "block_info_error_text OperatorFeeScalar = ''Failed to parse the Operator fee scalar parameter''"
| "block_info_error_text OperatorFeeConstant = ''Failed to parse the Operator fee constant parameter''"

definition base_time_transactions ::
    "registry \<Rightarrow> attr_env \<Rightarrow> rollup_config \<Rightarrow> u64 \<Rightarrow> u64 \<Rightarrow> u16 \<Rightarrow> pipeline_error_kind failure + bytes list" where
  "base_time_transactions reg ae cfg target_l2_number target_l2_time target_l2_millis =
     (if is_denim_active reg cfg target_l2_time then
        and_then (map_err (\<lambda>e. Failing (crit (AttributesBuilderError (BaseTimeUpdate e))))
            (base_time_new target_l2_millis)) (\<lambda>base_time.
          Inr [dep_encode_2718 (ae_rlp ae) (base_time_into_deposit_tx (ae_keccak ae) target_l2_number base_time)])
      else Inr [])"

definition prepare_payload_attributes ::
    "registry \<Rightarrow> attr_env \<Rightarrow> attr_providers \<Rightarrow> 'bp stateful_builder \<Rightarrow> l2_block_info \<Rightarrow> block_num_hash
     \<Rightarrow> pipeline_error_kind failure + base_payload_attributes" where
  "prepare_payload_attributes reg ae ap b l2_parent epoch =
     (let cfg = sab_rollup_cfg b;
          parent_time = bi_timestamp (l2_block l2_parent);
          target_l2_number = bi_number (l2_block l2_parent) + 1;
          (target_l2_time, target_l2_millis) = l2_block_timestamp_parts reg cfg target_l2_number;
          two_blocks_back_l2_time = l2_block_timestamp reg cfg (sat_sub target_l2_number 2);
          refresh = requires_system_config_refresh reg cfg two_blocks_back_l2_time target_l2_time
      in
      and_then (map_err Failing (sab_system_config reg ap b l2_parent refresh)) (\<lambda>sys_config.
      and_then (sab_epoch reg ae ap cfg l2_parent epoch sys_config)
        (\<lambda>(l1_header, deposit_transactions, sys_config, sequence_number).
      if target_l2_time < lh_timestamp l1_header
      then fails (Reset (ResetAttributesBuilder (BrokenTimeInvariant (l2_l1_origin l2_parent) target_l2_time
        \<lparr>bnh_number = lh_number l1_header, bnh_hash = lh_hash l1_header\<rparr> (lh_timestamp l1_header))))
      else
        let sys_config = (if is_first_denim_block reg cfg target_l2_time parent_time
                          then denim_scaled sys_config else sys_config) in
        and_then (map_err (\<lambda>e. Failing (crit (AttributesBuilderError (BuilderCustom (block_info_error_text e)))))
            (try_new_with_deposit_tx (ae_keccak ae) reg cfg (sab_l1_cfg b) sys_config sequence_number
              (l1_header.truncate l1_header) parent_time target_l2_time)) (\<lambda>(_, l1_info_tx_envelope).
        and_then (base_time_transactions reg ae cfg target_l2_number target_l2_time target_l2_millis) (\<lambda>base_time.
        Inr \<lparr>at_payload_attributes =
               \<lparr>pa_timestamp = target_l2_time, pa_prev_randao = lh_mix_hash l1_header,
                pa_suggested_fee_recipient = SEQUENCER_FEE_VAULT,
                pa_withdrawals = (if is_canyon_active reg cfg target_l2_time then Some [] else None),
                pa_parent_beacon_block_root =
                  (if is_ecotone_active reg cfg target_l2_time
                   then Some (case lh_parent_beacon_block_root l1_header of None \<Rightarrow> B256_ZERO | Some r \<Rightarrow> r)
                   else None),
                pa_slot_number = None, pa_target_gas_limit = None\<rparr>,
             at_transactions = Some (dep_encode_2718 (ae_rlp ae) l1_info_tx_envelope # base_time @
               deposit_transactions @ upgrade_transactions reg ae cfg target_l2_time parent_time),
             at_no_tx_pool = Some True, at_gas_limit = Some (sc_gas_limit sys_config),
             at_eip_1559_params = eip_1559_params reg cfg parent_time target_l2_time sys_config,
             at_min_base_fee =
               (if is_jovian_active reg cfg target_l2_time
                then Some (case sc_min_base_fee sys_config of None \<Rightarrow> 0 | Some f \<Rightarrow> f) else None)\<rparr>)))))"

section \<open>When the builder succeeds\<close>

text \<open>
  The L1 origin may stay at the parent's, or move to a block on top of it, and is never in
  the future of the block.
\<close>

definition epoch_links :: "l2_block_info \<Rightarrow> block_num_hash \<Rightarrow> l1_block_header \<Rightarrow> bool" where
  "epoch_links l2_parent epoch header \<longleftrightarrow>
     (if bnh_number (l2_l1_origin l2_parent) = bnh_number epoch
      then bnh_hash (l2_l1_origin l2_parent) = bnh_hash epoch
      else bnh_hash (l2_l1_origin l2_parent) = lh_parent_hash header)"

definition next_seq_num :: "l2_block_info \<Rightarrow> block_num_hash \<Rightarrow> u64" where
  "next_seq_num l2_parent epoch =
     (if bnh_number (l2_l1_origin l2_parent) = bnh_number epoch then l2_seq_num l2_parent + 1 else 0)"

definition epoch_deposits ::
    "attr_env \<Rightarrow> rollup_config \<Rightarrow> l2_block_info \<Rightarrow> block_num_hash \<Rightarrow> receipt list \<Rightarrow> deposit_decode_error failure + bytes list" where
  "epoch_deposits ae cfg l2_parent epoch receipts =
     (if bnh_number (l2_l1_origin l2_parent) = bnh_number epoch then Inr []
      else derive_deposits (ae_keccak ae) (ae_rlp ae) (bnh_hash epoch) receipts (rc_deposit_contract_address cfg))"

abbreviation target_time :: "registry \<Rightarrow> rollup_config \<Rightarrow> l2_block_info \<Rightarrow> u64" where
  "target_time reg cfg l2_parent \<equiv> l2_block_timestamp reg cfg (bi_number (l2_block l2_parent) + 1)"

lemma timestamp_parts:
  "l2_block_timestamp_parts reg cfg n =
     (l2_block_timestamp reg cfg n, ucast (l2_block_timestamp_millis reg cfg n mod 1000))"
  by (simp add: l2_block_timestamp_parts_def l2_block_timestamp_def Let_def)

lemma no_panic_derive [simp]: "derive_deposits k rlp h receipts contract \<noteq> Inl Panicking"
  using derive_deposits_calm [of k rlp h receipts contract] by (auto simp: no_panic_def)

lemma sab_epoch_Inr:
  assumes "sab_epoch reg ae ap cfg l2_parent epoch sys = Inr (header, deposits, sys', seq)"
  shows "ap_header_by_hash ap (bnh_hash epoch) = Inr header" and "epoch_links l2_parent epoch header"
    and "seq = next_seq_num l2_parent epoch"
    and "\<exists>receipts. epoch_deposits ae cfg l2_parent epoch receipts = Inr deposits"
  using assms
  by (auto simp: sab_epoch_def epoch_links_def next_seq_num_def epoch_deposits_def Let_def map_err_def and_then_def
      split: if_splits sum.splits)

text \<open>The outcome as a list of conditions in the order in which they are tested.\<close>

definition builder_verdict ::
    "registry \<Rightarrow> attr_env \<Rightarrow> rollup_config \<Rightarrow> l2_block_info \<Rightarrow> block_num_hash \<Rightarrow> l1_block_header \<Rightarrow> receipt list
     \<Rightarrow> pipeline_error_kind option" where
  "builder_verdict reg ae cfg l2_parent epoch header receipts =
     (let orig = l2_l1_origin l2_parent; n = bi_number (l2_block l2_parent) + 1;
          t = l2_block_timestamp reg cfg n; ms = ucast (l2_block_timestamp_millis reg cfg n mod 1000) in
      if \<not> epoch_links l2_parent epoch header
      then Some (Reset (ResetAttributesBuilder
        (if bnh_number orig = bnh_number epoch then BlockMismatch epoch orig
         else BlockMismatchEpochReset epoch orig (lh_parent_hash header))))
      else case epoch_deposits ae cfg l2_parent epoch receipts of
        Inl (Failing e) \<Rightarrow> Some (crit (BadEncoding (EncDepositDecodeError e)))
      | _ \<Rightarrow>
        if t < lh_timestamp header
        then Some (Reset (ResetAttributesBuilder (BrokenTimeInvariant orig t
          \<lparr>bnh_number = lh_number header, bnh_hash = lh_hash header\<rparr> (lh_timestamp header))))
        else if is_denim_active reg cfg t \<and> \<not> is_valid_timestamp_millis_part ms
        then Some (crit (AttributesBuilderError (BaseTimeUpdate (InvalidTimestampMillisPart ms))))
        else None)"

lemma try_new_with_deposit_tx_total:
  "\<exists>x. try_new reg cfg l1 sys s h pt t = Inr x \<and>
     try_new_with_deposit_tx k reg cfg l1 sys s h pt t = Inr (x, l1_info_into_deposit_tx k reg cfg t x)"
  using try_new_total [of reg cfg l1 sys s h pt t] by (auto simp: try_new_with_deposit_tx_def)

lemma base_time_transactions_cases:
  "base_time_transactions reg ae cfg n t ms =
     (if is_denim_active reg cfg t \<and> \<not> is_valid_timestamp_millis_part ms
      then Inl (Failing (crit (AttributesBuilderError (BaseTimeUpdate (InvalidTimestampMillisPart ms)))))
      else Inr (if is_denim_active reg cfg t
        then [dep_encode_2718 (ae_rlp ae) (base_time_into_deposit_tx (ae_keccak ae) n \<lparr>bt_timestamp_millis_part = ms\<rparr>)]
        else []))"
  by (simp add: base_time_transactions_def base_time_new_def)

lemma sab_epoch_verdict:
  assumes "ap_header_by_hash ap (bnh_hash epoch) = Inr header" and "ap_receipts_by_hash ap (bnh_hash epoch) = Inr receipts"
  shows "case sab_epoch reg ae ap cfg l2_parent epoch sys of
      Inr (header', deposits, _, _) \<Rightarrow> header' = header \<and> epoch_links l2_parent epoch header \<and>
        epoch_deposits ae cfg l2_parent epoch receipts = Inr deposits
    | Inl (Failing e) \<Rightarrow> builder_verdict reg ae cfg l2_parent epoch header receipts = Some e
    | Inl Panicking \<Rightarrow> False"
  using assms
  by (cases "derive_deposits (ae_keccak ae) (ae_rlp ae) (bnh_hash epoch) receipts (rc_deposit_contract_address cfg)")
    (auto simp: sab_epoch_def builder_verdict_def epoch_links_def epoch_deposits_def Let_def
      split: failure.splits)

lemma prepare_verdict:
  assumes "\<And>refresh. \<exists>sys. sab_system_config reg ap b l2_parent refresh = Inr sys"
    and "ap_header_by_hash ap (bnh_hash epoch) = Inr header" and "ap_receipts_by_hash ap (bnh_hash epoch) = Inr receipts"
  shows "case prepare_payload_attributes reg ae ap b l2_parent epoch of
      Inr _ \<Rightarrow> builder_verdict reg ae (sab_rollup_cfg b) l2_parent epoch header receipts = None
    | Inl (Failing e) \<Rightarrow> builder_verdict reg ae (sab_rollup_cfg b) l2_parent epoch header receipts = Some e
    | Inl Panicking \<Rightarrow> False"
proof -
  let ?cfg = "sab_rollup_cfg b" and ?n = "bi_number (l2_block l2_parent) + 1"
  let ?t = "target_time reg ?cfg l2_parent"
  let ?refresh = "requires_system_config_refresh reg ?cfg (l2_block_timestamp reg ?cfg (sat_sub ?n 2)) ?t"
  obtain sys where sys: "sab_system_config reg ap b l2_parent ?refresh = Inr sys" using assms(1) by blast
  note v = sab_epoch_verdict [OF assms(2,3), of reg ae "sab_rollup_cfg b" l2_parent sys]
  show ?thesis
  proof (cases "sab_epoch reg ae ap ?cfg l2_parent epoch sys")
    case (Inl e)
    then show ?thesis using v sys
      by (cases e) (simp_all add: prepare_payload_attributes_def timestamp_parts Let_def)
  next
    case (Inr r)
    obtain header' deposits sys' seq where r: "r = (header', deposits, sys', seq)" by (cases r)
    have h: "header' = header" "epoch_links l2_parent epoch header"
      "epoch_deposits ae ?cfg l2_parent epoch receipts = Inr deposits"
      using v Inr r by auto
    let ?s = "if is_first_denim_block reg ?cfg ?t (bi_timestamp (l2_block l2_parent)) then denim_scaled sys' else sys'"
    obtain x where x: "try_new_with_deposit_tx (ae_keccak ae) reg ?cfg (sab_l1_cfg b) ?s seq (l1_header.truncate header)
        (bi_timestamp (l2_block l2_parent)) ?t = Inr x"
      using try_new_with_deposit_tx_total by blast
    show ?thesis
      using h x sys Inr
      by (auto simp: prepare_payload_attributes_def timestamp_parts Let_def r builder_verdict_def
          base_time_transactions_cases split: prod.split)
  qed
qed

text \<open>
  C9. The outcome of building attributes: given what the providers answer for the parent and the epoch, the
  builder succeeds exactly when the epoch is the parent's or a block on top of it, all deposits
  of a new epoch decode, the block is not older than its L1 origin, and the milliseconds of a
  Denim block are those of a slot; otherwise it returns the error of the first of these
  conditions that fails, and it never panics.
\<close>

theorem attributes_outcome:
  assumes "\<And>refresh. \<exists>sys. sab_system_config reg ap b l2_parent refresh = Inr sys"
    and "ap_header_by_hash ap (bnh_hash epoch) = Inr header" and "ap_receipts_by_hash ap (bnh_hash epoch) = Inr receipts"
  shows "case prepare_payload_attributes reg ae ap b l2_parent epoch of
      Inr _ \<Rightarrow> builder_verdict reg ae (sab_rollup_cfg b) l2_parent epoch header receipts = None
    | Inl (Failing e) \<Rightarrow> builder_verdict reg ae (sab_rollup_cfg b) l2_parent epoch header receipts = Some e
    | Inl Panicking \<Rightarrow> False"
  using assms by (rule prepare_verdict)

section \<open>What a block built from the attributes says\<close>

text \<open>What is asked of the third-party codecs and of the providers.\<close>

definition attr_env_ok :: "attr_env \<Rightarrow> bool" where
  "attr_env_ok ae \<longleftrightarrow>
     rlp_ok (ae_rlp ae) \<and> rlp_compact (ae_rlp ae) \<and> abi_ok (ae_abi ae) \<and> (\<forall>x. length (ae_keccak ae x) = 32)"

definition epoch_known :: "attr_providers \<Rightarrow> block_num_hash \<Rightarrow> bool" where
  "epoch_known ap epoch \<longleftrightarrow>
     length (bnh_hash epoch) = 32 \<and>
     (\<forall>header. ap_header_by_hash ap (bnh_hash epoch) = Inr header \<longrightarrow>
        lh_number header = bnh_number epoch \<and> lh_hash header = bnh_hash epoch)"

definition configs_known :: "attr_providers \<Rightarrow> 'bp stateful_builder \<Rightarrow> bool" where
  "configs_known ap b \<longleftrightarrow>
     (\<forall>h c. ap_system_config_by_l2_hash ap h = Inr c \<longrightarrow> length (sc_batcher_address c) = 20) \<and>
     (\<forall>p c. sab_parent_system_config b = Some (p, c) \<longrightarrow> length (sc_batcher_address c) = 20)"

lemma sab_system_config_length:
  "configs_known ap b \<Longrightarrow> sab_system_config reg ap b l2_parent refresh = Inr sys \<Longrightarrow>
     length (sc_batcher_address sys) = 20"
  by (auto simp: configs_known_def sab_system_config_def Let_def split: option.splits if_splits)

lemma sab_epoch_length:
  assumes "abi_ok (ae_abi ae)" and "length (sc_batcher_address sys) = 20"
    and "sab_epoch reg ae ap cfg l2_parent epoch sys = Inr (header, deposits, sys', seq)"
  shows "length (sc_batcher_address sys') = 20"
  using assms(3) batcher_length_kept [OF assms(1,2)] assms(2)
  by (auto simp: sab_epoch_def Let_def map_err_def and_then_def split: if_splits sum.splits)

text \<open>The parts of a template.\<close>

lemma prepare_Inr:
  assumes "prepare_payload_attributes reg ae ap b l2_parent epoch = Inr at"
  obtains sys header deposits sys' info where
    "sab_epoch reg ae ap (sab_rollup_cfg b) l2_parent epoch sys =
       Inr (header, deposits, sys', next_seq_num l2_parent epoch)"
    "\<exists>refresh. sab_system_config reg ap b l2_parent refresh = Inr sys"
    "\<exists>sys''. (sys'' = sys' \<or> sys'' = denim_scaled sys') \<and>
       try_new reg (sab_rollup_cfg b) (sab_l1_cfg b) sys'' (next_seq_num l2_parent epoch) (l1_header.truncate header)
         (bi_timestamp (l2_block l2_parent)) (target_time reg (sab_rollup_cfg b) l2_parent) = Inr info"
    "lh_timestamp header \<le> target_time reg (sab_rollup_cfg b) l2_parent"
    "pa_timestamp (at_payload_attributes at) = target_time reg (sab_rollup_cfg b) l2_parent"
    "at_no_tx_pool at = Some True"
    "\<exists>bt. base_time_transactions reg ae (sab_rollup_cfg b) (bi_number (l2_block l2_parent) + 1)
         (target_time reg (sab_rollup_cfg b) l2_parent)
         (ucast (l2_block_timestamp_millis reg (sab_rollup_cfg b) (bi_number (l2_block l2_parent) + 1) mod 1000)) = Inr bt \<and>
       at_transactions at = Some (dep_encode_2718 (ae_rlp ae)
         (l1_info_into_deposit_tx (ae_keccak ae) reg (sab_rollup_cfg b) (target_time reg (sab_rollup_cfg b) l2_parent) info) #
         bt @ deposits @ upgrade_transactions reg ae (sab_rollup_cfg b) (target_time reg (sab_rollup_cfg b) l2_parent)
           (bi_timestamp (l2_block l2_parent)))"
proof -
  let ?cfg = "sab_rollup_cfg b" and ?n = "bi_number (l2_block l2_parent) + 1"
  let ?t = "target_time reg ?cfg l2_parent"
  let ?refresh = "requires_system_config_refresh reg ?cfg (l2_block_timestamp reg ?cfg (sat_sub ?n 2)) ?t"
  obtain sys where sys: "sab_system_config reg ap b l2_parent ?refresh = Inr sys"
    using assms by (auto simp: prepare_payload_attributes_def timestamp_parts Let_def and_then_Inr map_err_Inr)
  obtain header deposits sys' seq where e: "sab_epoch reg ae ap ?cfg l2_parent epoch sys = Inr (header, deposits, sys', seq)"
    using assms sys by (auto simp: prepare_payload_attributes_def timestamp_parts Let_def and_then_Inr)
  have seq: "seq = next_seq_num l2_parent epoch" by (rule sab_epoch_Inr(3) [OF e])
  let ?s = "if is_first_denim_block reg ?cfg ?t (bi_timestamp (l2_block l2_parent)) then denim_scaled sys' else sys'"
  obtain info where info: "try_new reg ?cfg (sab_l1_cfg b) ?s seq (l1_header.truncate header)
      (bi_timestamp (l2_block l2_parent)) ?t = Inr info"
    "try_new_with_deposit_tx (ae_keccak ae) reg ?cfg (sab_l1_cfg b) ?s seq (l1_header.truncate header)
      (bi_timestamp (l2_block l2_parent)) ?t = Inr (info, l1_info_into_deposit_tx (ae_keccak ae) reg ?cfg ?t info)"
    using try_new_with_deposit_tx_total by blast
  show ?thesis
    by (rule that [of sys header deposits sys' info])
      (use assms sys e info in \<open>auto simp: prepare_payload_attributes_def timestamp_parts Let_def and_then_Inr seq
        split: if_splits\<close>)
qed

text \<open>All transactions of a template are deposits.\<close>

lemma dep_encode_is_deposit [simp]: "is_deposit_bytes (dep_encode_2718 rlp tx)"
  by (simp add: is_deposit_bytes_def dep_encode_2718_def)

lemma deposit_decode_is_deposit:
  "deposit_decode k rlp h i lg = Inr bs \<Longrightarrow> is_deposit_bytes bs"
  by (auto simp: deposit_decode_def Let_def and_then_Inr split: if_splits)

lemma derive_deposits_are_deposits:
  assumes "derive_deposits k rlp h receipts contract = Inr ds"
  shows "list_all is_deposit_bytes ds"
proof -
  have "list_all is_deposit_bytes ds" if "decode_each (\<lambda>(i, l). deposit_decode k rlp h i l) xs = Inr ds" for xs ds
    using that by (induction xs arbitrary: ds) (auto simp: and_then_Inr intro: deposit_decode_is_deposit)
  then show ?thesis
    using assms unfolding derive_deposits_def derive_receipt_deposits_eq by (auto simp: and_then_Inr)
qed

lemma upgrade_transactions_are_deposits: "list_all is_deposit_bytes (upgrade_transactions reg ae cfg t pt)"
  by (auto simp: upgrade_transactions_def Let_def ecotone_txs_def fjord_txs_def isthmus_txs_def jovian_txs_def
      list_all_iff)

lemma base_time_are_deposits:
  "base_time_transactions reg ae cfg n t ms = Inr bt \<Longrightarrow> list_all is_deposit_bytes bt"
  by (auto simp: base_time_transactions_cases split: if_splits)

text \<open>The two system deposits are read back from their encoding.\<close>

lemma decode_calldata_length: "decode_calldata r = Inr info \<Longrightarrow> length r < 2 ^ 63"
  by (auto simp: decode_calldata_def bedrock_decode_calldata_def ecotone_decode_calldata_def Let_def and_then_Inr
      isthmus_decode_calldata_def jovian_decode_calldata_def BEDROCK_TX_LEN_def ECOTONE_TX_LEN_def
      ISTHMUS_TX_LEN_def JOVIAN_TX_LEN_def split: if_splits)

lemma calldata_length: "info_wf info \<Longrightarrow> length (encode_calldata info) < 2 ^ 63"
  by (rule decode_calldata_length [OF calldata_roundtrip])

lemma l1_info_deposit_decodes:
  assumes "attr_env_ok ae" and "info_wf info"
  shows "dep_decode_2718 (ae_rlp ae) (dep_encode_2718 (ae_rlp ae)
      (l1_info_into_deposit_tx (ae_keccak ae) reg cfg t info)) =
    Some (l1_info_into_deposit_tx (ae_keccak ae) reg cfg t info, [])"
proof -
  let ?tx = "l1_info_into_deposit_tx (ae_keccak ae) reg cfg t info"
  have "tx_deposit_wf (ae_rlp ae) ?tx"
    using assms calldata_length [OF assms(2)]
    by (intro tx_deposit_wfI) (simp_all add: attr_env_ok_def l1_info_into_deposit_tx_def Let_def source_hash_alt
        DEPOSITOR_ACCOUNT_def L1_BLOCK_INFO_def del: source_hash.simps)
  then show ?thesis
    using dep_roundtrip [of "ae_rlp ae" ?tx "[]"] assms(1) by (simp add: attr_env_ok_def)
qed

lemma base_time_deposit_decodes:
  assumes "attr_env_ok ae"
  shows "dep_decode_2718 (ae_rlp ae) (dep_encode_2718 (ae_rlp ae) (base_time_into_deposit_tx (ae_keccak ae) n b)) =
    Some (base_time_into_deposit_tx (ae_keccak ae) n b, [])"
proof -
  let ?tx = "base_time_into_deposit_tx (ae_keccak ae) n b"
  have "tx_deposit_wf (ae_rlp ae) ?tx"
    using assms
    by (intro tx_deposit_wfI) (simp_all add: attr_env_ok_def base_time_into_deposit_tx_def source_hash_alt
        base_time_encode_calldata_def BT_SELECTOR_def DEPOSITOR_ACCOUNT_def BASE_TIME_def del: source_hash.simps)
  then show ?thesis
    using dep_roundtrip [of "ae_rlp ae" ?tx "[]"] assms by (simp add: attr_env_ok_def)
qed

lemma denim_second_tx:
  fixes n reg cfg
  defines "ms \<equiv> l2_block_timestamp_millis reg cfg n"
  assumes "attr_env_ok ae" and "is_denim_active reg cfg t"
    and "base_time_transactions reg ae cfg n t (ucast (ms mod 1000)) = Inr bt" and "t = l2_block_timestamp reg cfg n"
  shows "\<exists>d1. bt = [dep_encode_2718 (ae_rlp ae) d1] \<and>
    dep_decode_2718 (ae_rlp ae) (dep_encode_2718 (ae_rlp ae) d1) = Some (d1, []) \<and>
    extract_timestamp_ms (ae_keccak ae) (d0 # Some d1 # more_txs) n t = Inr ms"
proof -
  let ?b = "\<lparr>bt_timestamp_millis_part = ucast (ms mod 1000)\<rparr>"
  let ?d1 = "base_time_into_deposit_tx (ae_keccak ae) n ?b"
  have v: "base_time_new (ucast (ms mod 1000)) = Inr ?b" "bt = [dep_encode_2718 (ae_rlp ae) ?d1]"
    using assms(3,4) by (auto simp: base_time_transactions_cases base_time_new_def split: if_splits)
  then show ?thesis
    using base_time_deposit_decodes [OF assms(2), of n ?b] validate_own_deposit [OF v(1), of "ae_keccak ae" n]
      join_millis [of ms] assms(5)
    by (intro exI [of _ ?d1]) (simp add: extract_timestamp_ms_def extract_from_transactions_def l2_block_timestamp_def ms_def)
qed

lemma template_deposits:
  assumes "prepare_payload_attributes reg ae ap b l2_parent epoch = Inr at"
  shows "\<exists>tx0 txs. at_transactions at = Some (tx0 # txs) \<and> list_all is_deposit_bytes (tx0 # txs) \<and>
    pa_timestamp (at_payload_attributes at) = target_time reg (sab_rollup_cfg b) l2_parent"
  using assms
proof (rule prepare_Inr)
  fix sys header deposits sys' info
  assume e: "sab_epoch reg ae ap (sab_rollup_cfg b) l2_parent epoch sys =
      Inr (header, deposits, sys', next_seq_num l2_parent epoch)"
  then have "list_all is_deposit_bytes deposits"
    using sab_epoch_Inr(4) [OF e] derive_deposits_are_deposits
    by (fastforce simp: epoch_deposits_def split: if_splits)
  moreover assume "pa_timestamp (at_payload_attributes at) = target_time reg (sab_rollup_cfg b) l2_parent"
    "\<exists>bt. base_time_transactions reg ae (sab_rollup_cfg b) (bi_number (l2_block l2_parent) + 1)
         (target_time reg (sab_rollup_cfg b) l2_parent)
         (ucast (l2_block_timestamp_millis reg (sab_rollup_cfg b) (bi_number (l2_block l2_parent) + 1) mod 1000)) = Inr bt \<and>
       at_transactions at = Some (dep_encode_2718 (ae_rlp ae)
         (l1_info_into_deposit_tx (ae_keccak ae) reg (sab_rollup_cfg b) (target_time reg (sab_rollup_cfg b) l2_parent) info) #
         bt @ deposits @ upgrade_transactions reg ae (sab_rollup_cfg b) (target_time reg (sab_rollup_cfg b) l2_parent)
           (bi_timestamp (l2_block l2_parent)))"
  ultimately show ?thesis
    using base_time_are_deposits upgrade_transactions_are_deposits by auto
qed

lemma prepare_binds_block:
  fixes at
  assumes "prepare_payload_attributes reg ae ap b l2_parent epoch = Inr at"
    and "attr_env_ok ae" and "epoch_known ap epoch" and "configs_known ap b"
    and "bi_number bi \<noteq> bnh_number (gen_l2 genesis)"
  defines "n \<equiv> bi_number (l2_block l2_parent) + 1" and "t \<equiv> pa_timestamp (at_payload_attributes at)"
  shows "\<exists>tx0 txs d0.
    at_transactions at = Some (tx0 # txs) \<and> list_all is_deposit_bytes (tx0 # txs) \<and> at_no_tx_pool at = Some True \<and>
    t = l2_block_timestamp reg (sab_rollup_cfg b) n \<and>
    (\<exists>header. ap_header_by_hash ap (bnh_hash epoch) = Inr header \<and> lh_timestamp header \<le> t) \<and>
    dep_decode_2718 (ae_rlp ae) tx0 = Some (d0, []) \<and>
    from_block_and_genesis \<lparr>ob_info = bi, ob_transactions =
        \<lparr>tx_type = DEPOSIT_TX_TYPE, tx_is_deposit = True, tx_encoded = tx0, tx_input = dt_input d0\<rparr> # rest\<rparr> genesis =
      Inr \<lparr>l2_block = bi, l2_l1_origin = epoch, l2_seq_num = next_seq_num l2_parent epoch\<rparr> \<and>
    (is_denim_active reg (sab_rollup_cfg b) t \<longrightarrow>
      (\<exists>tx1 txs' d1. txs = tx1 # txs' \<and> dep_decode_2718 (ae_rlp ae) tx1 = Some (d1, []) \<and>
        extract_timestamp_ms (ae_keccak ae) (Some d0 # Some d1 # more_txs) n t =
          Inr (l2_block_timestamp_millis reg (sab_rollup_cfg b) n)))"
proof -
  let ?cfg = "sab_rollup_cfg b" and ?ms = "l2_block_timestamp_millis reg (sab_rollup_cfg b) n"
  obtain sys header deposits sys' sys'' info bt where
    e: "sab_epoch reg ae ap ?cfg l2_parent epoch sys = Inr (header, deposits, sys', next_seq_num l2_parent epoch)"
    and c: "\<exists>refresh. sab_system_config reg ap b l2_parent refresh = Inr sys"
    and i: "sys'' = sys' \<or> sys'' = denim_scaled sys'"
      "try_new reg ?cfg (sab_l1_cfg b) sys'' (next_seq_num l2_parent epoch) (l1_header.truncate header)
        (bi_timestamp (l2_block l2_parent)) t = Inr info"
    and time: "lh_timestamp header \<le> t" "t = l2_block_timestamp reg ?cfg n" and pool: "at_no_tx_pool at = Some True"
    and bt: "base_time_transactions reg ae ?cfg n t (ucast (?ms mod 1000)) = Inr bt"
    and txs: "at_transactions at = Some (dep_encode_2718 (ae_rlp ae)
      (l1_info_into_deposit_tx (ae_keccak ae) reg ?cfg t info) # bt @ deposits @
      upgrade_transactions reg ae ?cfg t (bi_timestamp (l2_block l2_parent)))"
    using prepare_Inr [OF assms(1)] unfolding n_def t_def by metis
  let ?d0 = "l1_info_into_deposit_tx (ae_keccak ae) reg ?cfg t info"
  note h = sab_epoch_Inr [OF e]
  have hdr: "lh_number header = bnh_number epoch" "lh_hash header = bnh_hash epoch" "length (lh_hash header) = 32"
    using assms(3) h(1) by (auto simp: epoch_known_def)
  have "length (sc_batcher_address sys) = 20" using c sab_system_config_length [OF assms(4)] by blast
  then have "length (sc_batcher_address sys'') = 20"
    using sab_epoch_length [OF _ _ e] assms(2) i(1) by (auto simp: attr_env_ok_def denim_scaled_def)
  then have wf: "info_wf info" "info_id info = epoch" "info_sequence_number info = next_seq_num l2_parent epoch"
    using try_new_wf [OF _ _ i(2)] hdr by (auto simp: l1_header.truncate_def)
  have "dt_input ?d0 = encode_calldata info" by (simp add: l1_info_into_deposit_tx_def Let_def)
  then have block: "from_block_and_genesis \<lparr>ob_info = bi, ob_transactions =
        \<lparr>tx_type = DEPOSIT_TX_TYPE, tx_is_deposit = True, tx_encoded = tx0, tx_input = dt_input ?d0\<rparr> # rest\<rparr> genesis =
      Inr \<lparr>l2_block = bi, l2_l1_origin = epoch, l2_seq_num = next_seq_num l2_parent epoch\<rparr>" for tx0
    using assms(5) calldata_roundtrip [OF wf(1)] wf(2,3) by (simp add: from_block_and_genesis_def Let_def)
  have "list_all is_deposit_bytes deposits"
    using h(4) derive_deposits_are_deposits by (fastforce simp: epoch_deposits_def split: if_splits)
  then have all: "list_all is_deposit_bytes (bt @ deposits @ upgrade_transactions reg ae ?cfg t (bi_timestamp (l2_block l2_parent)))"
    using base_time_are_deposits [OF bt] upgrade_transactions_are_deposits by simp
  note denim = denim_second_tx [OF assms(2) _ bt time(2), of "Some ?d0" more_txs]
  show ?thesis
    using txs all pool time h(1) block l1_info_deposit_decodes [OF assms(2) wf(1), of reg ?cfg t] denim
    by (auto intro!: exI [of _ "?d0"])
qed

text \<open>
  C8. A template says which block it is for. When the builder succeeds, the template holds deposits only; its
  time is that of the schedule and not before the L1 origin; the first transaction decodes to a
  deposit from which a block is read back with the epoch as L1 origin and the sequence number
  that continues the parent's or starts at 0; and from Denim on the second transaction
  decodes to a deposit that, together with the time of the block, gives back the scheduled
  time in milliseconds.
\<close>

theorem attributes_bind_block:
  fixes at
  assumes "prepare_payload_attributes reg ae ap b l2_parent epoch = Inr at"
    and "attr_env_ok ae" and "epoch_known ap epoch" and "configs_known ap b"
    and "bi_number bi \<noteq> bnh_number (gen_l2 genesis)"
  defines "n \<equiv> bi_number (l2_block l2_parent) + 1" and "t \<equiv> pa_timestamp (at_payload_attributes at)"
  shows "\<exists>tx0 txs d0.
    at_transactions at = Some (tx0 # txs) \<and> list_all is_deposit_bytes (tx0 # txs) \<and> at_no_tx_pool at = Some True \<and>
    t = l2_block_timestamp reg (sab_rollup_cfg b) n \<and>
    (\<exists>header. ap_header_by_hash ap (bnh_hash epoch) = Inr header \<and> lh_timestamp header \<le> t) \<and>
    dep_decode_2718 (ae_rlp ae) tx0 = Some (d0, []) \<and>
    from_block_and_genesis \<lparr>ob_info = bi, ob_transactions =
        \<lparr>tx_type = DEPOSIT_TX_TYPE, tx_is_deposit = True, tx_encoded = tx0, tx_input = dt_input d0\<rparr> # rest\<rparr> genesis =
      Inr \<lparr>l2_block = bi, l2_l1_origin = epoch, l2_seq_num = next_seq_num l2_parent epoch\<rparr> \<and>
    (is_denim_active reg (sab_rollup_cfg b) t \<longrightarrow>
      (\<exists>tx1 txs' d1. txs = tx1 # txs' \<and> dep_decode_2718 (ae_rlp ae) tx1 = Some (d1, []) \<and>
        extract_timestamp_ms (ae_keccak ae) (Some d0 # Some d1 # more_txs) n t =
          Inr (l2_block_timestamp_millis reg (sab_rollup_cfg b) n)))"
  unfolding n_def t_def using assms(1-5) by (rule prepare_binds_block)

text \<open>A chain at Holocene, for examples.\<close>

definition sample_attr_env :: attr_env where
  "sample_attr_env =
     \<lparr>ae_rlp = rlp_format, ae_abi = std_abi,
      ae_upgrades = \<lparr>ue_keccak = \<lambda>_. replicate 32 7, ue_bytecode = \<lambda>_. [], ue_create = \<lambda>a _. a\<rparr>\<rparr>"

definition sample_header :: l1_block_header where
  "sample_header =
     \<lparr>lh_number = 1, lh_timestamp = 3, lh_base_fee_per_gas = None, lh_hash = B256_ZERO,
      lh_parent_hash = replicate 32 2, lh_mix_hash = B256_ZERO, lh_parent_beacon_block_root = None\<rparr>"

definition sample_providers :: attr_providers where
  "sample_providers =
     \<lparr>ap_system_config_by_l2_hash = \<lambda>_. Inr (system_config_default\<lparr>sc_batcher_address := replicate 20 1\<rparr>),
      ap_header_by_hash = \<lambda>_. Inr sample_header, ap_receipts_by_hash = \<lambda>_. Inr []\<rparr>"

definition sample_builder :: "unit stateful_builder" where
  "sample_builder = sab_new holocene_config
     \<lparr>lc_scheduled_params = \<lambda>_. None, lc_osaka_time = None, lc_prague_time = None,
      lc_osaka = (), lc_prague = (), lc_cancun = (), lc_blob_fee = \<lambda>_ _. None\<rparr>"

definition sample_epoch :: block_num_hash where
  "sample_epoch = \<lparr>bnh_number = 1, bnh_hash = B256_ZERO\<rparr>"

definition sample_parent :: l2_block_info where
  "sample_parent = l2_block_info_new (block_info_new B256_ZERO 5 B256_ZERO 10) sample_epoch 3"

lemma sample_ok:
  "attr_env_ok sample_attr_env" "epoch_known sample_providers sample_epoch" "configs_known sample_providers sample_builder"
  by (simp_all add: attr_env_ok_def sample_attr_env_def rlp_format_ok rlp_format_compact abi_ok_def std_abi_def
      epoch_known_def sample_providers_def sample_epoch_def sample_header_def B256_ZERO_def configs_known_def
      sample_builder_def sab_new_def)

lemma sample_answers:
  "\<exists>sys. sab_system_config Map.empty sample_providers sample_builder sample_parent refresh = Inr sys"
  "ap_header_by_hash sample_providers h = Inr sample_header" "ap_receipts_by_hash sample_providers h = Inr []"
  by (simp_all add: sab_system_config_def sample_providers_def sample_builder_def sab_new_def)

lemma sample_time: "target_time Map.empty (sab_rollup_cfg sample_builder) sample_parent = 12"
  "is_denim_active Map.empty (sab_rollup_cfg sample_builder) t = False"
  by (simp_all add: sample_builder_def sab_new_def sample_parent_def l2_block_info_new_def block_info_new_def
      sat_mul_def)

lemma sample_verdict:
  "builder_verdict Map.empty sample_attr_env (sab_rollup_cfg sample_builder) sample_parent sample_epoch sample_header [] = None"
  using sample_time(1)
  by (simp add: builder_verdict_def sample_time(2) Let_def)
    (simp add: epoch_links_def epoch_deposits_def sample_parent_def l2_block_info_new_def sample_header_def)

theorem attributes_outcome_witness:
  "(\<exists>at. prepare_payload_attributes Map.empty sample_attr_env sample_providers sample_builder sample_parent sample_epoch = Inr at) \<and>
   (\<exists>at. prepare_payload_attributes Map.empty sample_attr_env sample_providers sample_builder sample_parent
      \<lparr>bnh_number = 1, bnh_hash = replicate 32 9\<rparr> = Inl (Failing (Reset (ResetAttributesBuilder
        (BlockMismatch \<lparr>bnh_number = 1, bnh_hash = replicate 32 9\<rparr> sample_epoch)))))"
proof -
  let ?e = "\<lparr>bnh_number = 1, bnh_hash = replicate 32 9\<rparr>"
  have "builder_verdict Map.empty sample_attr_env (sab_rollup_cfg sample_builder) sample_parent ?e sample_header [] =
      Some (Reset (ResetAttributesBuilder (BlockMismatch ?e sample_epoch)))"
    by (simp add: builder_verdict_def Let_def epoch_links_def sample_parent_def l2_block_info_new_def sample_epoch_def
        B256_ZERO_def)
  then show ?thesis
    using attributes_outcome [where epoch = sample_epoch and ae = sample_attr_env, OF sample_answers]
      attributes_outcome [where epoch = ?e and ae = sample_attr_env, OF sample_answers] sample_verdict
    by (auto split: sum.splits failure.splits)
qed

theorem attributes_bind_block_witness:
  "\<exists>at tx0 txs d0.
    prepare_payload_attributes Map.empty sample_attr_env sample_providers sample_builder sample_parent sample_epoch = Inr at \<and>
    at_transactions at = Some (tx0 # txs) \<and> dep_decode_2718 rlp_format tx0 = Some (d0, []) \<and>
    from_block_and_genesis \<lparr>ob_info = block_info_new B256_ZERO 6 B256_ZERO 12, ob_transactions =
        [\<lparr>tx_type = DEPOSIT_TX_TYPE, tx_is_deposit = True, tx_encoded = tx0, tx_input = dt_input d0\<rparr>]\<rparr>
        chain_genesis_default =
      Inr \<lparr>l2_block = block_info_new B256_ZERO 6 B256_ZERO 12, l2_l1_origin = sample_epoch, l2_seq_num = 4\<rparr>"
proof -
  obtain at where at: "prepare_payload_attributes Map.empty sample_attr_env sample_providers sample_builder sample_parent
      sample_epoch = Inr at"
    using prepare_verdict [where epoch = sample_epoch and ae = sample_attr_env, OF sample_answers] sample_verdict
    by (auto split: sum.splits failure.splits)
  have n: "bi_number (block_info_new B256_ZERO 6 B256_ZERO 12) \<noteq> bnh_number (gen_l2 chain_genesis_default)"
    by (simp add: block_info_new_def chain_genesis_default_def)
  have s: "next_seq_num sample_parent sample_epoch = 4" "ae_rlp sample_attr_env = rlp_format"
    by (simp_all add: next_seq_num_def sample_parent_def l2_block_info_new_def sample_attr_env_def)
  show ?thesis using attributes_bind_block [OF at sample_ok n, of "[]"] at unfolding s by blast
qed

section \<open>Deposits-only payloads\<close>

text \<open>The batch checks let through no transaction that is empty or a deposit.\<close>

lemma as_deposits_only_template:
  assumes "list_all is_deposit_bytes txs" and "list_all (\<lambda>tx. \<not> is_deposit_bytes tx) batch_txs"
    and "at_transactions (awp_attributes a) = Some (txs @ batch_txs)"
  shows "as_deposits_only a = a\<lparr>awp_attributes := (awp_attributes a)\<lparr>at_transactions := Some txs\<rparr>\<rparr>"
    and "is_deposits_only (as_deposits_only a)"
  using assms by (auto simp: as_deposits_only_def is_deposits_only_def list_all_iff filter_id_conv filter_empty_conv)

end
