(* ===== verification/L1_Window.thy ===== *)
theory L1_Window
  imports Batch_Stream
begin

text \<open>
  The window of L1 blocks the batch queue and the batch validator keep
  (\<open>src/crates/consensus/derive/src/stages/batch/\<close>): both append the pipeline's origin when it
  advances and drop the blocks before the epoch of the safe head. The interface of a stage
  with such a window, and that the window stays a chain of consecutive L1 blocks that ends at
  the stage's origin.
\<close>

section \<open>Updating the window\<close>

definition is_origin_behind :: "block_info option \<Rightarrow> l2_block_info \<Rightarrow> bool" where
  "is_origin_behind prev_origin parent \<longleftrightarrow>
     (case prev_origin of None \<Rightarrow> True | Some orig \<Rightarrow> bi_number orig < bnh_number (l2_l1_origin parent))"

text \<open>The loop that drains the blocks before the parent's L1 origin, if that is in the window.\<close>

definition advance_epoch :: "l2_block_info \<Rightarrow> block_info list \<Rightarrow> block_info list" where
  "advance_epoch parent l1_blocks =
     (if l1_blocks \<noteq> [] \<and> bnh_number (l2_l1_origin parent) > bi_number (l1_blocks ! 0)
      then case find_origin (bnh_number (l2_l1_origin parent)) l1_blocks of
        None \<Rightarrow> l1_blocks
      | Some (i, _) \<Rightarrow> drop i l1_blocks
      else l1_blocks)"

text \<open>The window after the stage has taken over the origin of the previous one.\<close>

definition sync_window ::
    "block_info option \<Rightarrow> block_info option \<Rightarrow> l2_block_info \<Rightarrow> block_info list \<Rightarrow> block_info list" where
  "sync_window orig prev_origin parent l1_blocks =
     (if orig = prev_origin then l1_blocks
      else case prev_origin of
        None \<Rightarrow> []
      | Some p \<Rightarrow> if is_origin_behind prev_origin parent then [] else l1_blocks @ [p])"

section \<open>The window invariant\<close>

definition window_ok :: "block_info option \<Rightarrow> block_info list \<Rightarrow> bool" where
  "window_ok orig l1_blocks \<longleftrightarrow>
     successively is_parent_of l1_blocks \<and> (l1_blocks \<noteq> [] \<longrightarrow> orig = Some (last l1_blocks))"

text \<open>The origin of the pipeline moves from a block to its child.\<close>

definition origin_step :: "block_info option \<Rightarrow> block_info option \<Rightarrow> bool" where
  "origin_step orig orig' \<longleftrightarrow>
     orig' = orig \<or> orig = None \<or> orig' = None \<or> is_parent_of (the orig) (the orig')"

lemma sat_add_1: "n \<noteq> - 1 \<Longrightarrow> sat_add n 1 = n + 1" for n :: u64
  using unat_Suc_less [of n] by (simp add: sat_add_def)

lemma successively_drop: "successively P xs \<Longrightarrow> successively P (drop n xs)"
proof (induction xs arbitrary: n)
  case (Cons x xs)
  then show ?case by (cases n; cases xs) auto
qed simp

lemma drop_none [simp]: "\<exists>n. xs = drop n xs"
  by (rule exI [of _ 0]) simp

lemma drop_some [simp]: "\<exists>m. drop n xs = drop m xs"
  by blast

lemma advance_epoch_drop: "\<exists>n. advance_epoch parent ws = drop n ws"
  by (auto simp: advance_epoch_def split: option.split intro: exI [of _ 0])

lemma window_ok_drop: "window_ok orig ws \<Longrightarrow> window_ok orig (drop n ws)"
  by (auto simp: window_ok_def successively_drop)

lemma window_ok_sync:
  assumes "window_ok orig ws" and "origin_step orig prev_origin"
  shows "window_ok prev_origin (sync_window orig prev_origin parent ws)"
proof (cases "orig = prev_origin \<or> prev_origin = None \<or> ws = []")
  case True
  then show ?thesis using assms(1) by (auto simp: window_ok_def sync_window_def split: option.split)
next
  case False
  then obtain p where "prev_origin = Some p" "orig = Some (last ws)" "is_parent_of (last ws) p"
    using assms by (auto simp: window_ok_def origin_step_def)
  then show ?thesis
    using assms(1) False by (auto simp: window_ok_def sync_window_def successively_append_iff)
qed

text \<open>
  A stage with a window: a call of \<open>next_batch\<close> leaves window and origin alone, or takes over the
  origin of the previous stage and drops blocks from the front.
\<close>

locale window_stage =
  fixes next_of :: "l2_block_info \<Rightarrow> ('s, single_batch) pop"
    and window :: "'s \<Rightarrow> block_info list"
    and stage_origin :: "'s \<Rightarrow> block_info option"
    and prev_origin :: "'s \<Rightarrow> block_info option"
  assumes next_window: "next_of parent s = Some (r, s') \<Longrightarrow>
    stage_origin s' = stage_origin s \<and> window s' = window s \<or>
    stage_origin s' = prev_origin s \<and>
    (\<exists>m n. window s' = drop n (sync_window (stage_origin s) (prev_origin s) parent (drop m (window s))))"
begin

lemma window_kept:
  assumes "next_of parent s = Some (r, s')" and "window_ok (stage_origin s) (window s)"
    and "origin_step (stage_origin s) (prev_origin s)"
  shows "window_ok (stage_origin s') (window s')"
  using next_window [OF assms(1)] assms(2,3) by (auto simp: window_ok_drop window_ok_sync)

end

end
