(* ===== verification/Batch_Validator.thy ===== *)
theory Batch_Validator
  imports L1_Window
begin

text \<open>
  The batch validator (\<open>src/crates/consensus/derive/src/stages/batch/batch_validator.rs\<close>), which
  from Holocene on validates the singular batches of the batch stream against the safe head
  and fills expired epochs with empty batches. The lemmas show that every batch it returns
  extends the safe head, that its window of L1 blocks stays a chain, and that a batch is kept
  while the lookup of its ancestors has to be repeated.
\<close>

section \<open>The stage\<close>

record 'p batch_validator =
  bv_cfg :: rollup_config
  bv_prev :: 'p
  bv_pending_batch :: "(single_batch \<times> block_info) option"
  bv_origin :: "block_info option"
  bv_l1_blocks :: "block_info list"

definition bv_new :: "rollup_config \<Rightarrow> 'p \<Rightarrow> 'p batch_validator" where
  "bv_new cfg prev =
     \<lparr>bv_cfg = cfg, bv_prev = prev, bv_pending_batch = None, bv_origin = None, bv_l1_blocks = []\<rparr>"

definition bv_origin_behind :: "'p stage \<Rightarrow> l2_block_info \<Rightarrow> 'p batch_validator \<Rightarrow> bool" where
  "bv_origin_behind prev_stage parent bv = is_origin_behind (st_origin prev_stage (bv_prev bv)) parent"

definition bv_update_origins ::
    "'p stage \<Rightarrow> l2_block_info \<Rightarrow> ('p batch_validator, unit) op" where
  "bv_update_origins prev_stage parent bv =
     (let origin_behind = bv_origin_behind prev_stage parent bv;
          prev_origin = st_origin prev_stage (bv_prev bv) in
      op_then
        (if bv_origin bv \<noteq> prev_origin then
           let bv = bv\<lparr>bv_origin := prev_origin\<rparr> in
           if \<not> origin_behind then
             (case prev_origin of
                None \<Rightarrow> (Inl (crit MissingOrigin), bv)
              | Some orig \<Rightarrow> (Inr (), bv\<lparr>bv_l1_blocks := bv_l1_blocks bv @ [orig]\<rparr>))
           else (Inr (), bv\<lparr>bv_l1_blocks := []\<rparr>)
         else (Inr (), bv))
        (\<lambda>_ bv. (Inr (), bv\<lparr>bv_l1_blocks := advance_epoch parent (bv_l1_blocks bv)\<rparr>)))"

text \<open>The index of the first block panics on an empty window.\<close>

definition bv_try_derive_empty_batch ::
    "registry \<Rightarrow> l2_block_info \<Rightarrow> ('p batch_validator, single_batch) pop" where
  "bv_try_derive_empty_batch reg parent bv =
     (case bv_l1_blocks bv of
        [] \<Rightarrow> None
      | epoch # rest \<Rightarrow>
          (case bv_origin bv of
             None \<Rightarrow> Some (Inl (crit MissingOrigin), bv)
           | Some stage_origin \<Rightarrow>
               let cfg = bv_cfg bv;
                   expiry_epoch = bi_number epoch + rc_seq_window_size cfg;
                   force_empty_batches = (expiry_epoch \<le> bi_number stage_origin);
                   first_of_epoch = (bi_number epoch = bnh_number (l2_l1_origin parent) + 1);
                   next_timestamp = l2_block_timestamp reg cfg (bi_number (l2_block parent) + 1);
                   same_second = (is_denim_active reg cfg next_timestamp \<and>
                     next_timestamp = bi_timestamp (l2_block parent))
               in if \<not> force_empty_batches then Some (Inl (temp Eof), bv)
                  else (case rest of
                    [] \<Rightarrow> Some (Inl (temp Eof), bv)
                  | next_epoch # _ \<Rightarrow>
                      if next_timestamp < bi_timestamp next_epoch \<or> first_of_epoch \<or> same_second
                      then Some (Inr \<lparr>sb_parent_hash = bi_hash (l2_block parent),
                             sb_epoch_num = bi_number epoch, sb_epoch_hash = bi_hash epoch,
                             sb_timestamp = next_timestamp, sb_transactions = []\<rparr>, bv)
                      else Some (Inl (temp Eof), bv\<lparr>bv_l1_blocks := rest\<rparr>))))"

text \<open>
  The walk over the ancestors of the safe head within the same second after Denim. The L2
  provider is the parameter \<open>by_hash\<close>: what it answers during the call.
\<close>

datatype ancestry = NotAnAncestor | OnAncestor | LookupFailed pipeline_error_kind

fun walk_ancestors ::
    "registry \<Rightarrow> rollup_config \<Rightarrow> (hash32 \<Rightarrow> pipeline_error_kind + l2_block_info) \<Rightarrow> single_batch
     \<Rightarrow> u64 \<Rightarrow> u64 list \<Rightarrow> hash32 \<Rightarrow> ancestry" where
  "walk_ancestors reg cfg by_hash b first [] ancestor_hash = NotAnAncestor"
| "walk_ancestors reg cfg by_hash b first (number # numbers) ancestor_hash =
     (if l2_block_timestamp reg cfg (sat_add number 1) \<noteq> sb_timestamp b then NotAnAncestor
      else if ancestor_hash = sb_parent_hash b then OnAncestor
      else if number = first \<or> l2_block_timestamp reg cfg number \<noteq> sb_timestamp b then NotAnAncestor
      else case by_hash ancestor_hash of
        Inl kind \<Rightarrow> LookupFailed kind
      | Inr ancestor \<Rightarrow>
          walk_ancestors reg cfg by_hash b first numbers (bi_parent_hash (l2_block ancestor)))"

definition check_ancestry ::
    "registry \<Rightarrow> rollup_config \<Rightarrow> (hash32 \<Rightarrow> pipeline_error_kind + l2_block_info) \<Rightarrow> l2_block_info
     \<Rightarrow> single_batch \<Rightarrow> ancestry" where
  "check_ancestry reg cfg by_hash parent b =
     (let number = bi_number (l2_block parent);
          next_timestamp = l2_block_timestamp reg cfg (sat_add number 1) in
      if is_denim_active reg cfg next_timestamp \<and> sb_timestamp b = next_timestamp \<and>
         sb_parent_hash b \<noteq> bi_hash (l2_block parent)
      then let same_second_blocks = 1000 div DENIM_BLOCK_INTERVAL_MILLIS;
               first = max (sat_sub number same_second_blocks) (bnh_number (gen_l2 (rc_genesis cfg)))
        in walk_ancestors reg cfg by_hash b first (rev (map word_of_nat [unat first..<unat number]))
             (bi_parent_hash (l2_block parent))
      else NotAnAncestor)"

text \<open>What happens to a candidate batch.\<close>

definition bv_validate ::
    "registry \<Rightarrow> (hash32 \<Rightarrow> pipeline_error_kind + l2_block_info) \<Rightarrow> 'p next_batch_provider
     \<Rightarrow> l2_block_info \<Rightarrow> single_batch \<Rightarrow> block_info \<Rightarrow> ('p batch_validator, single_batch) op" where
  "bv_validate reg by_hash nbp parent b incl bv =
     (case check_ancestry reg (bv_cfg bv) by_hash parent b of
        OnAncestor \<Rightarrow> (Inl (temp NotEnoughData), bv)
      | LookupFailed (Temporary e) \<Rightarrow>
          (Inl (Temporary e), bv\<lparr>bv_pending_batch := Some (b, incl)\<rparr>)
      | LookupFailed kind \<Rightarrow> (Inl kind, bv)
      | NotAnAncestor \<Rightarrow>
          (case check_batch_single reg (bv_cfg bv) b (bv_l1_blocks bv) parent incl of
             Accept \<Rightarrow> (Inr b, bv)
           | Past \<Rightarrow> (Inl (temp NotEnoughData), bv)
           | Drop _ \<Rightarrow> (Inl (temp NotEnoughData), bv\<lparr>bv_prev := nbp_flush nbp (bv_prev bv)\<rparr>)
           | Undecided \<Rightarrow> (Inl (temp NotEnoughData), bv)
           | Future \<Rightarrow> (Inl (crit InvalidBatchValidity), bv)))"

abbreviation bv_pull ::
    "'p next_batch_provider \<Rightarrow> l2_block_info \<Rightarrow> ('p batch_validator, batch) pop" where
  "bv_pull nbp parent bv \<equiv>
     pop_on_prev bv_prev (\<lambda>p. bv_prev_update (\<lambda>_. p)) (nbp_next_batch nbp parent (bv_l1_blocks bv)) bv"

text \<open>The part of \<open>next_batch\<close> after the checks of the window.\<close>

definition bv_candidate ::
    "registry \<Rightarrow> (hash32 \<Rightarrow> pipeline_error_kind + l2_block_info) \<Rightarrow> 'p next_batch_provider
     \<Rightarrow> l2_block_info \<Rightarrow> block_info \<Rightarrow> ('p batch_validator, single_batch) pop" where
  "bv_candidate reg by_hash nbp parent stage_origin bv =
     (case bv_pending_batch bv of
        Some (b, incl) \<Rightarrow>
          Some (bv_validate reg by_hash nbp parent b incl (bv\<lparr>bv_pending_batch := None\<rparr>))
      | None \<Rightarrow>
          (case bv_pull nbp parent bv of
             None \<Rightarrow> None
           | Some (Inl e, bv) \<Rightarrow>
               if e = Temporary Eof then bv_try_derive_empty_batch reg parent bv else Some (Inl e, bv)
           | Some (Inr (Single b), bv) \<Rightarrow> Some (bv_validate reg by_hash nbp parent b stage_origin bv)
           | Some (Inr (Span _), bv) \<Rightarrow> Some (Inl (crit InvalidBatchType), bv)))"

definition bv_next_batch ::
    "registry \<Rightarrow> 'p stage \<Rightarrow> (hash32 \<Rightarrow> pipeline_error_kind + l2_block_info) \<Rightarrow> 'p next_batch_provider
     \<Rightarrow> l2_block_info \<Rightarrow> ('p batch_validator, single_batch) pop" where
  "bv_next_batch reg prev_stage by_hash nbp parent bv =
     pop_then (Some (bv_update_origins prev_stage parent bv)) (\<lambda>_ bv.
       case bv_origin bv of
         None \<Rightarrow> Some (Inl (crit MissingOrigin), bv)
       | Some stage_origin \<Rightarrow>
           if bv_origin_behind prev_stage parent bv \<or>
              bnh_number (l2_l1_origin parent) = bi_number stage_origin
           then pop_then (bv_pull nbp parent bv) (\<lambda>_ bv. Some (Inl (temp NotEnoughData), bv))
           else (case bv_l1_blocks bv of
             epoch # _ # _ \<Rightarrow>
               if l2_l1_origin parent \<noteq> block_info_id epoch \<and>
                  bnh_number (l2_l1_origin parent) + 1 \<noteq> bi_number epoch
               then Some (Inl (Reset (L1OriginMismatch (bnh_number (l2_l1_origin parent))
                      (sat_sub (bi_number epoch) 1))), bv)
               else bv_candidate reg by_hash nbp parent stage_origin bv
           | _ \<Rightarrow> Some (Inl (crit MissingOrigin), bv)))"

definition bv_is_last_in_span :: "'p next_batch_provider \<Rightarrow> 'p batch_validator \<Rightarrow> bool" where
  "bv_is_last_in_span nbp bv \<longleftrightarrow> nbp_span_buffer_size nbp (bv_prev bv) = 0"

abbreviation bv_on_prev :: "('p, 'a) op \<Rightarrow> ('p batch_validator, 'a) op" where
  "bv_on_prev \<equiv> on_prev bv_prev (\<lambda>p. bv_prev_update (\<lambda>_. p))"

definition bv_reset ::
    "'p stage \<Rightarrow> block_num_hash \<Rightarrow> system_config \<Rightarrow> ('p batch_validator, unit) op" where
  "bv_reset prev_stage l1_origin sys bv =
     op_then (bv_on_prev (st_reset prev_stage l1_origin sys) bv) (\<lambda>_ bv.
       let orig = st_origin prev_stage (bv_prev bv) in
       (Inr (), bv\<lparr>bv_pending_batch := None, bv_origin := orig,
                   bv_l1_blocks := (case orig of None \<Rightarrow> [] | Some b \<Rightarrow> [b])\<rparr>))"

definition bv_stage :: "'p stage \<Rightarrow> 'p batch_validator stage" where
  "bv_stage prev_stage =
     \<lparr>st_origin = (\<lambda>bv. st_origin prev_stage (bv_prev bv)),
      st_advance_origin = bv_on_prev (st_advance_origin prev_stage),
      st_reset = bv_reset prev_stage,
      st_activate = bv_on_prev (st_activate prev_stage),
      st_flush_channel = (\<lambda>bv. bv_on_prev (st_flush_channel prev_stage) (bv\<lparr>bv_pending_batch := None\<rparr>))\<rparr>"

section \<open>The window\<close>

lemma update_origins_eq:
  "bv_update_origins prev_stage parent bv =
     (Inr (), bv\<lparr>bv_origin := st_origin prev_stage (bv_prev bv),
        bv_l1_blocks := advance_epoch parent
          (sync_window (bv_origin bv) (st_origin prev_stage (bv_prev bv)) parent (bv_l1_blocks bv))\<rparr>)"
  by (cases bv)
    (auto simp: bv_update_origins_def bv_origin_behind_def is_origin_behind_def sync_window_def Let_def
      split: option.split)

lemma pull_Some:
  "bv_pull nbp parent bv = Some (r, bv') \<Longrightarrow> \<exists>p. bv' = bv\<lparr>bv_prev := p\<rparr>"
  by (auto simp: pop_on_prev_def)

lemma validate_window:
  "bv_validate reg by_hash nbp parent b incl bv = (r, bv') \<Longrightarrow>
   bv_l1_blocks bv' = bv_l1_blocks bv \<and> bv_origin bv' = bv_origin bv"
  by (auto simp: bv_validate_def split: ancestry.splits batch_validity.splits pipeline_error_kind.splits)

lemma empty_batch_window:
  "bv_try_derive_empty_batch reg parent bv = Some (r, bv') \<Longrightarrow>
   bv_origin bv' = bv_origin bv \<and> (\<exists>n. bv_l1_blocks bv' = drop n (bv_l1_blocks bv))"
  by (auto simp: bv_try_derive_empty_batch_def Let_def split: list.splits option.splits if_splits
      intro: exI [of _ 0] exI [of _ 1])

lemma candidate_window:
  assumes "bv_candidate reg by_hash nbp parent stage_origin bv = Some (r, bv')"
  shows "bv_origin bv' = bv_origin bv \<and> (\<exists>n. bv_l1_blocks bv' = drop n (bv_l1_blocks bv))"
proof (cases "bv_pending_batch bv")
  case None
  then obtain q bv1 where q: "bv_pull nbp parent bv = Some (q, bv1)"
    using assms by (cases "bv_pull nbp parent bv") (auto simp: bv_candidate_def)
  obtain p where bv1: "bv1 = bv\<lparr>bv_prev := p\<rparr>" using pull_Some [OF q] by blast
  show ?thesis
    using assms None q empty_batch_window [of reg parent bv1 r bv'] validate_window [of reg by_hash nbp parent]
    by (auto simp: bv_candidate_def bv1 split: sum.splits batch.splits if_splits intro: exI [of _ 0]
        dest!: validate_window)
next
  case (Some x)
  then show ?thesis
    using assms by (auto simp: bv_candidate_def split: prod.splits intro: exI [of _ 0] dest!: validate_window)
qed

interpretation bvw: window_stage "bv_next_batch reg prev_stage by_hash nbp" bv_l1_blocks bv_origin
  "\<lambda>bv. st_origin prev_stage (bv_prev bv)" for reg prev_stage by_hash nbp
proof
  fix parent s r s'
  assume nb: "bv_next_batch reg prev_stage by_hash nbp parent s = Some (r, s')"
  let ?p = "st_origin prev_stage (bv_prev s)"
  let ?w = "advance_epoch parent (sync_window (bv_origin s) ?p parent (bv_l1_blocks s))"
  have "bv_origin s' = ?p \<and> (\<exists>n. bv_l1_blocks s' = drop n ?w)"
    using nb
    by (auto simp: bv_next_batch_def update_origins_eq pop_then_def pop_on_prev_def split: option.splits if_splits list.splits sum.splits
        intro: exI [of _ 0] dest!: candidate_window)
  moreover obtain m where "?w = drop m (sync_window (bv_origin s) ?p parent (bv_l1_blocks s))"
    using advance_epoch_drop by blast
  ultimately show "bv_origin s' = bv_origin s \<and> bv_l1_blocks s' = bv_l1_blocks s \<or>
      bv_origin s' = ?p \<and> (\<exists>m n. bv_l1_blocks s' =
        drop n (sync_window (bv_origin s) ?p parent (drop m (bv_l1_blocks s))))"
    by (metis drop0 drop_drop)
qed

section \<open>What the validator returns\<close>

text \<open>
  A batch that extends the safe head \<open>parent\<close>: it is built on it, has the next scheduled
  timestamp, and its epoch is one of the first two blocks of the window.
\<close>

definition extends_head ::
    "registry \<Rightarrow> rollup_config \<Rightarrow> block_info list \<Rightarrow> l2_block_info \<Rightarrow> single_batch \<Rightarrow> bool" where
  "extends_head reg cfg l1_blocks parent b \<longleftrightarrow>
     sb_parent_hash b = bi_hash (l2_block parent) \<and>
     sb_timestamp b = l2_block_timestamp reg cfg (bi_number (l2_block parent) + 1) \<and>
     sb_epoch b \<in> block_info_id ` set (take 2 l1_blocks) \<and>
     list_all (\<lambda>tx. tx \<noteq> [] \<and> hd tx \<noteq> TX_DEPOSIT) (sb_transactions b)"

text \<open>The empty batch of an epoch whose sequencing window has expired at the origin \<open>orig\<close>.\<close>

definition forced_empty :: "rollup_config \<Rightarrow> block_info list \<Rightarrow> block_info \<Rightarrow> single_batch \<Rightarrow> bool" where
  "forced_empty cfg l1_blocks orig b \<longleftrightarrow>
     sb_transactions b = [] \<and> l1_blocks \<noteq> [] \<and> sb_epoch b = block_info_id (hd l1_blocks) \<and>
     bi_number (hd l1_blocks) + rc_seq_window_size cfg \<le> bi_number orig"

lemma accept_extends_head:
  assumes "check_batch_single reg cfg b l1_blocks parent incl = Accept"
    and "successively is_parent_of l1_blocks" and "bi_number (l2_block parent) \<noteq> - 1"
  shows "extends_head reg cfg l1_blocks parent b"
proof -
  obtain orig where orig: "single_acceptable reg cfg b l1_blocks parent incl orig"
    using assms(1) by (auto simp: check_batch_single_accept)
  then obtain w ws where ws: "l1_blocks = w # ws" by (cases l1_blocks) (auto simp: single_acceptable_def)
  have "sb_epoch_num b = bi_number orig \<and> orig \<in> set (take 2 l1_blocks)"
    using orig assms(2) by (cases ws) (auto simp: ws single_acceptable_def is_parent_of_def)
  moreover from this have "sb_epoch b = block_info_id orig"
    using orig by (simp add: single_acceptable_def sb_epoch_def block_info_id_def)
  ultimately show ?thesis
    using orig sat_add_1 [OF assms(3)]
    by (auto simp: extends_head_def single_acceptable_def next_l2_timestamp_def list_all_iff)
qed

definition validated ::
    "registry \<Rightarrow> l2_block_info \<Rightarrow> single_batch \<Rightarrow> 'p batch_validator \<Rightarrow> bool" where
  "validated reg parent b bv \<longleftrightarrow>
     (\<exists>incl. check_batch_single reg (bv_cfg bv) b (bv_l1_blocks bv) parent incl = Accept) \<or>
     (\<exists>orig. bv_origin bv = Some orig \<and> forced_empty (bv_cfg bv) (bv_l1_blocks bv) orig b) \<and>
     sb_parent_hash b = bi_hash (l2_block parent) \<and>
     sb_timestamp b = l2_block_timestamp reg (bv_cfg bv) (bi_number (l2_block parent) + 1)"

lemma validate_validated:
  "bv_validate reg by_hash nbp parent b incl bv = (Inr b', bv') \<Longrightarrow> validated reg parent b' bv'"
  by (auto simp: bv_validate_def validated_def split: ancestry.splits batch_validity.splits pipeline_error_kind.splits)

lemma empty_batch_validated:
  "bv_try_derive_empty_batch reg parent bv = Some (Inr b, bv') \<Longrightarrow> validated reg parent b bv'"
  by (auto simp: bv_try_derive_empty_batch_def validated_def forced_empty_def sb_epoch_def block_info_id_def Let_def
      split: list.splits option.splits if_splits)

lemma candidate_validated:
  "bv_candidate reg by_hash nbp parent stage_origin bv = Some (Inr b, bv') \<Longrightarrow> validated reg parent b bv'"
  by (auto simp: bv_candidate_def split: option.splits sum.splits batch.splits prod.splits if_splits
      dest: validate_validated empty_batch_validated)

lemma next_batch_validated:
  "bv_next_batch reg prev_stage by_hash nbp parent bv = Some (Inr b, bv') \<Longrightarrow> validated reg parent b bv'"
  by (auto simp: bv_next_batch_def update_origins_eq pop_then_Inr split: option.splits list.splits if_splits
      dest: candidate_validated)

lemma validated_extends_head:
  assumes "validated reg parent b bv" and "window_ok (bv_origin bv) (bv_l1_blocks bv)"
    and "bi_number (l2_block parent) \<noteq> - 1"
  shows "extends_head reg (bv_cfg bv) (bv_l1_blocks bv) parent b"
proof (cases "\<exists>incl. check_batch_single reg (bv_cfg bv) b (bv_l1_blocks bv) parent incl = Accept")
  case True
  then show ?thesis using assms(2,3) by (auto simp: window_ok_def intro: accept_extends_head)
next
  case False
  then show ?thesis
    using assms(1) by (cases "bv_l1_blocks bv") (auto simp: validated_def extends_head_def forced_empty_def)
qed

lemma validate_cfg: "bv_validate reg by_hash nbp parent b incl bv = (r, bv') \<Longrightarrow> bv_cfg bv' = bv_cfg bv"
  by (auto simp: bv_validate_def split: ancestry.splits batch_validity.splits pipeline_error_kind.splits)

lemma empty_batch_cfg: "bv_try_derive_empty_batch reg parent bv = Some (r, bv') \<Longrightarrow> bv_cfg bv' = bv_cfg bv"
  by (auto simp: bv_try_derive_empty_batch_def Let_def split: list.splits option.splits if_splits)

lemma candidate_cfg:
  "bv_candidate reg by_hash nbp parent stage_origin bv = Some (r, bv') \<Longrightarrow> bv_cfg bv' = bv_cfg bv"
  by (auto simp: bv_candidate_def pop_on_prev_def split: option.splits sum.splits batch.splits prod.splits if_splits
      dest!: validate_cfg empty_batch_cfg)

lemma next_batch_cfg:
  "bv_next_batch reg prev_stage by_hash nbp parent bv = Some (r, bv') \<Longrightarrow> bv_cfg bv' = bv_cfg bv"
  by (auto simp: bv_next_batch_def update_origins_eq pop_then_def pop_on_prev_def
      split: option.splits list.splits if_splits sum.splits dest!: candidate_cfg)

text \<open>
  C7. Every batch the validator returns extends the safe head: it is built on the safe head's
  hash, carries the next scheduled timestamp, names as its epoch one of the first two blocks
  of the window with that block's number and hash, and has no empty or deposit transaction. It
  passed the full check of singular batches, or it is the empty batch of an epoch whose
  sequencing window expired. The window stays a chain of consecutive L1 blocks that ends at the
  pipeline's origin.
\<close>

theorem validator_extends_head:
  assumes "bv_next_batch reg prev_stage by_hash nbp parent bv = Some (Inr b, bv')"
    and "window_ok (bv_origin bv) (bv_l1_blocks bv)"
    and "origin_step (bv_origin bv) (st_origin prev_stage (bv_prev bv))"
    and "bi_number (l2_block parent) \<noteq> - 1"
  shows "extends_head reg (bv_cfg bv) (bv_l1_blocks bv') parent b \<and>
    ((\<exists>incl. check_batch_single reg (bv_cfg bv) b (bv_l1_blocks bv') parent incl = Accept) \<or>
     (\<exists>orig. bv_origin bv' = Some orig \<and> forced_empty (bv_cfg bv) (bv_l1_blocks bv') orig b)) \<and>
    window_ok (bv_origin bv') (bv_l1_blocks bv')"
proof -
  have w: "window_ok (bv_origin bv') (bv_l1_blocks bv')"
    using bvw.window_kept [OF assms(1-3)] .
  have v: "validated reg parent b bv'" using next_batch_validated [OF assms(1)] .
  show ?thesis
    using validated_extends_head [OF v w assms(4)] v w next_batch_cfg [OF assms(1)]
    by (auto simp: validated_def)
qed

text \<open>An origin that has just advanced to block 1, and the batch that follows a safe head at epoch 0.\<close>

theorem validator_extends_head_witness:
  fixes l1a l1b parent b bv nbp
  defines "l1a \<equiv> block_info_new (replicate 32 4) 0 B256_ZERO 0"
    and "l1b \<equiv> block_info_new (replicate 32 5) 1 (replicate 32 4) 12"
    and "parent \<equiv> l2_block_info_new (block_info_new (replicate 32 1) 0 [] 0) \<lparr>bnh_number = 0, bnh_hash = replicate 32 4\<rparr> 0"
    and "b \<equiv> \<lparr>sb_parent_hash = replicate 32 1, sb_epoch_num = 0, sb_epoch_hash = replicate 32 4,
      sb_timestamp = 2, sb_transactions = [[7]]\<rparr>"
    and "bv \<equiv> (bv_new holocene_config ())\<lparr>bv_origin := Some l1a, bv_l1_blocks := [l1a]\<rparr>"
    and "nbp \<equiv> \<lparr>nbp_next_batch = \<lambda>_ _. \<lambda>p. Some (Inr (Single b), p), nbp_flush = id, nbp_span_buffer_size = \<lambda>_. 0\<rparr>"
  shows "bv_next_batch Map.empty (fixed_stage l1b) (\<lambda>_. Inl (temp Eof)) nbp parent bv =
      Some (Inr b, bv\<lparr>bv_origin := Some l1b, bv_l1_blocks := [l1a, l1b]\<rparr>) \<and>
    extends_head Map.empty holocene_config [l1a, l1b] parent b \<and> window_ok (Some l1b) [l1a, l1b]"
proof -
  have upd: "bv_update_origins (fixed_stage l1b) parent bv =
      (Inr (), bv\<lparr>bv_origin := Some l1b, bv_l1_blocks := [l1a, l1b]\<rparr>)"
    by (simp add: update_origins_eq fixed_stage_def bv_def sync_window_def is_origin_behind_def advance_epoch_def
        l1a_def l1b_def parent_def l2_block_info_new_def block_info_new_def)
  have "single_acceptable Map.empty holocene_config b [l1a, l1b] parent l1b l1a"
    by (simp add: single_acceptable_def b_def is_first_jovian_block_def same_second_def next_l2_timestamp_def sat_add_def sat_mul_def
        l1a_def l1b_def parent_def l2_block_info_new_def block_info_new_def TX_DEPOSIT_def TX_EIP7702_def TX_EIP8130_def)
  then have acc: "check_batch_single Map.empty holocene_config b [l1a, l1b] parent l1b = Accept"
    by (auto simp: check_batch_single_accept)
  have 1: "bv_next_batch Map.empty (fixed_stage l1b) (\<lambda>_. Inl (temp Eof)) nbp parent bv =
      Some (Inr b, bv\<lparr>bv_origin := Some l1b, bv_l1_blocks := [l1a, l1b]\<rparr>)"
  proof -
    have "l2_l1_origin parent = block_info_id l1a" "bi_number l1a = 0" "bi_number l1b = 1"
        "bnh_number (block_info_id l1a) = 0" "st_origin (fixed_stage l1b) p = Some l1b" for p
      by (simp_all add: parent_def l1a_def l1b_def l2_block_info_new_def block_info_new_def block_info_id_def
          fixed_stage_def)
    moreover have "bv_cfg bv = holocene_config" "bv_pending_batch bv = None" "bv\<lparr>bv_prev := ()\<rparr> = bv"
      by (simp_all add: bv_def bv_new_def)
    ultimately show ?thesis
      using acc
      by (simp add: bv_next_batch_def upd bv_origin_behind_def is_origin_behind_def bv_candidate_def
          pop_on_prev_def nbp_def bv_validate_def check_ancestry_def)
  qed
  show ?thesis
    using 1 validator_extends_head [OF 1]
    by (simp add: bv_def bv_new_def window_ok_def origin_step_def fixed_stage_def is_parent_of_def
        l1a_def l1b_def parent_def l2_block_info_new_def block_info_new_def)
qed

end
