(* ===== verification/Batch_Queue.thy ===== *)
theory Batch_Queue
  imports L1_Window
begin

text \<open>
  The batch queue (\<open>src/crates/consensus/derive/src/stages/batch/batch_queue.rs\<close>), the stage
  before Holocene that orders batches and fills expired epochs. The lemmas show which batch it
  takes and which it keeps, that its window of L1 blocks stays a chain, and that its panics
  cannot happen.
\<close>

section \<open>The stage\<close>

record 'p batch_queue =
  bq_cfg :: rollup_config
  bq_prev :: 'p
  bq_origin :: "block_info option"
  bq_l1_blocks :: "block_info list"
  bq_batches :: "batch_with_inclusion list"
  bq_next_spans :: "single_batch list"

definition bq_new :: "rollup_config \<Rightarrow> 'p \<Rightarrow> 'p batch_queue" where
  "bq_new cfg prev =
     \<lparr>bq_cfg = cfg, bq_prev = prev, bq_origin = None, bq_l1_blocks = [], bq_batches = [],
      bq_next_spans = []\<rparr>"

text \<open>\<open>None\<close> is the panic on an empty cache.\<close>

definition bq_pop_next_batch ::
    "l2_block_info \<Rightarrow> 'p batch_queue \<Rightarrow> (single_batch option \<times> 'p batch_queue) option" where
  "bq_pop_next_batch parent bq =
     (case bq_next_spans bq of
        [] \<Rightarrow> None
      | b # bs \<Rightarrow>
          Some (Some (b\<lparr>sb_parent_hash := bi_hash (l2_block parent)\<rparr>), bq\<lparr>bq_next_spans := bs\<rparr>))"

text \<open>
  The loop over the queued batches: how it ends, the retention decisions made until then, and
  the previous stage, which is flushed when a batch is dropped.
\<close>

datatype scan_end = ScanAccept | ScanUndecided | ScanPast | ScanAll | ScanPanic

fun bq_scan ::
    "(batch_with_inclusion \<Rightarrow> batch_validity option) \<Rightarrow> bool \<Rightarrow> ('p \<Rightarrow> 'p)
     \<Rightarrow> batch_with_inclusion list \<Rightarrow> bool list \<Rightarrow> 'p \<Rightarrow> scan_end \<times> bool list \<times> 'p" where
  "bq_scan check holocene flush [] retention p = (ScanAll, retention, p)"
| "bq_scan check holocene flush (bw # bws) retention p =
     (case check bw of
        None \<Rightarrow> (ScanPanic, retention, p)
      | Some Future \<Rightarrow>
          if \<not> holocene then bq_scan check holocene flush bws (retention @ [True]) p
          else bq_scan check holocene flush bws (retention @ [False]) (flush p)
      | Some (Drop _) \<Rightarrow> bq_scan check holocene flush bws (retention @ [False]) (flush p)
      | Some Accept \<Rightarrow> (ScanAccept, retention, p)
      | Some Undecided \<Rightarrow> (ScanUndecided, retention, p)
      | Some Past \<Rightarrow>
          if \<not> holocene then (ScanPast, retention, p)
          else bq_scan check holocene flush bws (retention @ [False]) p)"

text \<open>\<open>retain\<close> with the decisions made; batches without a decision are kept.\<close>

fun retain :: "bool list \<Rightarrow> 'a list \<Rightarrow> 'a list" where
  "retain (k # ks) (x # xs) = (if k then x # retain ks xs else retain ks xs)"
| "retain [] xs = xs"
| "retain ks [] = []"

text \<open>The forced empty batches at the end of \<open>derive_next_batch\<close>.\<close>

definition bq_force_empty ::
    "registry \<Rightarrow> bool \<Rightarrow> l2_block_info \<Rightarrow> block_info \<Rightarrow> ('p batch_queue, batch) op" where
  "bq_force_empty reg no_data parent orig bq =
     (let cfg = bq_cfg bq; epoch = bq_l1_blocks bq ! 0;
          next_timestamp = l2_block_timestamp reg cfg (bi_number (l2_block parent) + 1);
          expiry_epoch = bi_number epoch + rc_seq_window_size cfg;
          force_empty_batches =
            (expiry_epoch = bi_number orig \<and> no_data \<or> expiry_epoch < bi_number orig);
          first_of_epoch = (bi_number epoch = bnh_number (l2_l1_origin parent) + 1);
          same_second = (is_denim_active reg cfg next_timestamp \<and>
            next_timestamp = bi_timestamp (l2_block parent))
      in if \<not> force_empty_batches then (Inl (temp Eof), bq)
         else if length (bq_l1_blocks bq) < 2 then (Inl (temp Eof), bq)
         else let next_epoch = bq_l1_blocks bq ! 1 in
           if next_timestamp < bi_timestamp next_epoch \<or> first_of_epoch \<or> same_second
           then (Inr (Single \<lparr>sb_parent_hash = bi_hash (l2_block parent), sb_epoch_num = bi_number epoch,
                   sb_epoch_hash = bi_hash epoch, sb_timestamp = next_timestamp, sb_transactions = []\<rparr>), bq)
           else (Inl (temp Eof), bq\<lparr>bq_l1_blocks := tl (bq_l1_blocks bq)\<rparr>))"

definition bq_derive_next_batch ::
    "registry \<Rightarrow> batch_validation_provider \<Rightarrow> 'p next_batch_provider \<Rightarrow> bool \<Rightarrow> l2_block_info
     \<Rightarrow> ('p batch_queue, batch) pop" where
  "bq_derive_next_batch reg fetcher nbp no_data parent bq =
     (case bq_l1_blocks bq of
        [] \<Rightarrow> Some (Inl (crit MissingOrigin), bq)
      | epoch # _ \<Rightarrow>
          let previous_epoch = (if bi_number epoch = 0 then None else Some (bi_number epoch - 1)) in
          if l2_l1_origin parent \<noteq> block_info_id epoch \<and>
             (case previous_epoch of None \<Rightarrow> True | Some n \<Rightarrow> bnh_number (l2_l1_origin parent) \<noteq> n)
          then Some (Inl (Reset (L1OriginMismatch (bnh_number (l2_l1_origin parent))
                 (case previous_epoch of None \<Rightarrow> bi_number epoch | Some n \<Rightarrow> n))), bq)
          else (case bq_origin bq of
            None \<Rightarrow> Some (Inl (crit MissingOrigin), bq)
          | Some orig \<Rightarrow>
              let check = (\<lambda>bw. check_batch reg (bq_cfg bq) bw (bq_l1_blocks bq) parent fetcher);
                  (scan, retention, p) = bq_scan check
                    (is_holocene_active reg (bq_cfg bq) (bi_timestamp orig)) (nbp_flush nbp)
                    (bq_batches bq) [] (bq_prev bq);
                  index = length retention;
                  bq = bq\<lparr>bq_prev := p\<rparr>
              in (case scan of
                    ScanPanic \<Rightarrow> None
                  | ScanAccept \<Rightarrow>
                      Some (Inr (bw_batch (bq_batches bq ! index)),
                        bq\<lparr>bq_batches := retain retention
                             (take index (bq_batches bq) @ drop (Suc index) (bq_batches bq))\<rparr>)
                  | ScanUndecided \<Rightarrow>
                      Some (Inl (temp Eof), bq\<lparr>bq_batches := retain retention (bq_batches bq)\<rparr>)
                  | ScanPast \<Rightarrow> Some (Inl (crit InvalidBatchValidity), bq)
                  | ScanAll \<Rightarrow>
                      Some (bq_force_empty reg no_data parent orig
                        (bq\<lparr>bq_batches := retain retention (bq_batches bq)\<rparr>)))))"

text \<open>\<open>add_batch\<close> panics without an origin block; the outer \<open>None\<close>.\<close>

definition bq_add_batch ::
    "registry \<Rightarrow> batch_validation_provider \<Rightarrow> 'p next_batch_provider \<Rightarrow> batch \<Rightarrow> l2_block_info
     \<Rightarrow> ('p batch_queue, unit) pop" where
  "bq_add_batch reg fetcher nbp b parent bq =
     (if bq_l1_blocks bq = [] then None
      else case bq_origin bq of
        None \<Rightarrow> Some (Inl (crit MissingOrigin), bq)
      | Some orig \<Rightarrow>
          let data = \<lparr>bw_inclusion_block = orig, bw_batch = b\<rparr> in
          (case check_batch reg (bq_cfg bq) data (bq_l1_blocks bq) parent fetcher of
             None \<Rightarrow> None
           | Some v \<Rightarrow>
               if is_drop v \<or> is_holocene_active reg (bq_cfg bq) (bi_timestamp orig) \<and> is_future v
               then Some (Inr (), bq\<lparr>bq_prev := nbp_flush nbp (bq_prev bq)\<rparr>)
               else if is_outdated v then Some (Inr (), bq)
               else Some (Inr (), bq\<lparr>bq_batches := bq_batches bq @ [data]\<rparr>)))"

text \<open>The first part of \<open>next_batch\<close>: the cache of a span batch, and the window of L1 blocks.\<close>

definition bq_drop_denim_spans :: "registry \<Rightarrow> l2_block_info \<Rightarrow> 'p batch_queue \<Rightarrow> 'p batch_queue" where
  "bq_drop_denim_spans reg parent bq =
     (if is_denim_active reg (bq_cfg bq)
           (l2_block_timestamp reg (bq_cfg bq) (bi_number (l2_block parent) + 1)) \<and> bq_next_spans bq \<noteq> []
      then bq\<lparr>bq_next_spans := []\<rparr> else bq)"

definition bq_update_window :: "'p stage \<Rightarrow> l2_block_info \<Rightarrow> ('p batch_queue, unit) op" where
  "bq_update_window prev_stage parent bq =
     (let prev_origin = st_origin prev_stage (bq_prev bq);
          bq = bq\<lparr>bq_l1_blocks := advance_epoch parent (bq_l1_blocks bq)\<rparr>;
          origin_behind = is_origin_behind prev_origin parent in
      if bq_origin bq \<noteq> prev_origin then
        let bq = bq\<lparr>bq_origin := prev_origin\<rparr> in
        if \<not> origin_behind then
          (case prev_origin of
             None \<Rightarrow> (Inl (crit MissingOrigin), bq)
           | Some orig \<Rightarrow> (Inr (), bq\<lparr>bq_l1_blocks := bq_l1_blocks bq @ [orig]\<rparr>))
        else (Inr (), bq\<lparr>bq_l1_blocks := []\<rparr>)
      else (Inr (), bq))"

text \<open>Loading a batch: whether the previous stage is out of data.\<close>

definition bq_load ::
    "registry \<Rightarrow> batch_validation_provider \<Rightarrow> 'p next_batch_provider \<Rightarrow> bool \<Rightarrow> l2_block_info
     \<Rightarrow> ('p batch_queue, bool) pop" where
  "bq_load reg fetcher nbp origin_behind parent bq =
     (case pop_on_prev bq_prev (\<lambda>p. bq_prev_update (\<lambda>_. p))
             (nbp_next_batch nbp parent (bq_l1_blocks bq)) bq of
        None \<Rightarrow> None
      | Some (Inr b, bq) \<Rightarrow>
          if origin_behind then Some (Inr False, bq)
          else map_option (\<lambda>(_, bq). (Inr False, bq)) (bq_add_batch reg fetcher nbp b parent bq)
      | Some (Inl e, bq) \<Rightarrow>
          if e = Temporary Eof then Some (Inr True, bq) else Some (Inl e, bq))"

text \<open>The end of \<open>next_batch\<close>: a singular batch, or the first of a span.\<close>

definition bq_finish :: "l2_block_info \<Rightarrow> batch \<Rightarrow> ('p batch_queue, single_batch) pop" where
  "bq_finish parent b bq =
     (case b of
        Single sb \<Rightarrow> Some (Inr sb, bq)
      | Span sp \<Rightarrow>
          (case get_singular_batches sp (bq_l1_blocks bq) parent of
             Inl e \<Rightarrow> Some (Inl (crit (BadEncoding (EncSpanBatchError e))), bq)
           | Inr bs \<Rightarrow>
               (case bq_pop_next_batch parent (bq\<lparr>bq_next_spans := bs\<rparr>) of
                  None \<Rightarrow> None
                | Some (None, bq) \<Rightarrow> Some (Inl (crit BatchQueueEmpty), bq)
                | Some (Some sb, bq) \<Rightarrow> Some (Inr sb, bq))))"

definition bq_settle ::
    "registry \<Rightarrow> batch_validation_provider \<Rightarrow> 'p next_batch_provider \<Rightarrow> bool \<Rightarrow> bool \<Rightarrow> l2_block_info
     \<Rightarrow> ('p batch_queue, single_batch) pop" where
  "bq_settle reg fetcher nbp origin_behind out_of_data parent bq =
     (if origin_behind then Some (Inl (if out_of_data then temp Eof else temp NotEnoughData), bq)
      else (case bq_derive_next_batch reg fetcher nbp out_of_data parent bq of
        None \<Rightarrow> None
      | Some (Inr b, bq) \<Rightarrow> bq_finish parent b bq
      | Some (Inl e, bq) \<Rightarrow>
          if e = Temporary Eof
          then Some (Inl (if out_of_data then temp Eof else temp NotEnoughData), bq)
          else Some (Inl e, bq)))"

definition bq_derive ::
    "registry \<Rightarrow> 'p stage \<Rightarrow> batch_validation_provider \<Rightarrow> 'p next_batch_provider \<Rightarrow> l2_block_info
     \<Rightarrow> ('p batch_queue, single_batch) pop" where
  "bq_derive reg prev_stage fetcher nbp parent bq =
     (let origin_behind = is_origin_behind (st_origin prev_stage (bq_prev bq)) parent in
      pop_then (Some (bq_update_window prev_stage parent bq)) (\<lambda>_ bq.
      pop_then (bq_load reg fetcher nbp origin_behind parent bq) (\<lambda>out_of_data.
        bq_settle reg fetcher nbp origin_behind out_of_data parent)))"

definition bq_next_batch ::
    "registry \<Rightarrow> 'p stage \<Rightarrow> batch_validation_provider \<Rightarrow> 'p next_batch_provider \<Rightarrow> l2_block_info
     \<Rightarrow> ('p batch_queue, single_batch) pop" where
  "bq_next_batch reg prev_stage fetcher nbp parent bq =
     (let bq = bq_drop_denim_spans reg parent bq in
      case bq_next_spans bq of
        [] \<Rightarrow> bq_derive reg prev_stage fetcher nbp parent bq
      | b # _ \<Rightarrow>
          if sb_timestamp b = l2_block_timestamp reg (bq_cfg bq) (bi_number (l2_block parent) + 1)
          then (case bq_pop_next_batch parent bq of
                  None \<Rightarrow> None
                | Some (None, bq) \<Rightarrow> Some (Inl (crit BatchQueueEmpty), bq)
                | Some (Some sb, bq) \<Rightarrow> Some (Inr sb, bq))
          else bq_derive reg prev_stage fetcher nbp parent (bq\<lparr>bq_next_spans := []\<rparr>))"

definition bq_is_last_in_span :: "'p batch_queue \<Rightarrow> bool" where
  "bq_is_last_in_span bq \<longleftrightarrow> bq_next_spans bq = []"

abbreviation bq_on_prev :: "('p, 'a) op \<Rightarrow> ('p batch_queue, 'a) op" where
  "bq_on_prev \<equiv> on_prev bq_prev (\<lambda>p. bq_prev_update (\<lambda>_. p))"

definition bq_reset ::
    "'p stage \<Rightarrow> block_num_hash \<Rightarrow> system_config \<Rightarrow> ('p batch_queue, unit) op" where
  "bq_reset prev_stage l1_origin sys bq =
     op_then (bq_on_prev (st_reset prev_stage l1_origin sys) bq) (\<lambda>_ bq.
       let orig = st_origin prev_stage (bq_prev bq) in
       (Inr (), bq\<lparr>bq_origin := orig, bq_batches := [],
                   bq_l1_blocks := (case orig of None \<Rightarrow> [] | Some b \<Rightarrow> [b]), bq_next_spans := []\<rparr>))"

definition bq_after_prev :: "('p, unit) op \<Rightarrow> ('p batch_queue, unit) op" where
  "bq_after_prev f bq =
     op_then (bq_on_prev f bq) (\<lambda>_ bq. (Inr (), bq\<lparr>bq_batches := [], bq_next_spans := []\<rparr>))"

definition bq_stage :: "'p stage \<Rightarrow> 'p batch_queue stage" where
  "bq_stage prev_stage =
     \<lparr>st_origin = (\<lambda>bq. st_origin prev_stage (bq_prev bq)),
      st_advance_origin = bq_on_prev (st_advance_origin prev_stage),
      st_reset = bq_reset prev_stage,
      st_activate = bq_after_prev (st_activate prev_stage),
      st_flush_channel = bq_after_prev (st_flush_channel prev_stage)\<rparr>"

section \<open>Which batch is taken\<close>

text \<open>When the loop over the queue stops, and which of the batches before that are kept.\<close>

definition stops :: "bool \<Rightarrow> batch_validity \<Rightarrow> bool" where
  "stops holocene v \<longleftrightarrow> v = Accept \<or> v = Undecided \<or> v = Past \<and> \<not> holocene"

definition keeps :: "bool \<Rightarrow> batch_validity \<Rightarrow> bool" where
  "keeps holocene v \<longleftrightarrow> v = Future \<and> \<not> holocene"

definition flushes :: "bool \<Rightarrow> batch_validity \<Rightarrow> bool" where
  "flushes holocene v \<longleftrightarrow> is_drop v \<or> v = Future \<and> holocene"

fun scan_end_of :: "batch_validity \<Rightarrow> scan_end" where
  "scan_end_of Accept = ScanAccept"
| "scan_end_of Undecided = ScanUndecided"
| "scan_end_of _ = ScanPast"

lemma bq_scan_spec:
  fixes hol :: bool
  assumes "list_all (\<lambda>bw. check bw = Some (verdict bw)) bws"
  defines "pre \<equiv> takeWhile (\<lambda>bw. \<not> stops hol (verdict bw)) bws"
    and "rest \<equiv> dropWhile (\<lambda>bw. \<not> stops hol (verdict bw)) bws"
  shows "bq_scan check hol flush bws retention p =
    (case rest of [] \<Rightarrow> ScanAll | bw # _ \<Rightarrow> scan_end_of (verdict bw),
     retention @ map (\<lambda>bw. keeps hol (verdict bw)) pre,
     (flush ^^ length (filter (\<lambda>bw. flushes hol (verdict bw)) pre)) p)"
  using assms(1) unfolding pre_def rest_def
proof (induction bws arbitrary: retention p)
  case (Cons bw bws)
  then show ?case
    by (cases "verdict bw"; cases hol) (simp_all add: stops_def keeps_def flushes_def funpow_swap1)
qed simp

lemma retain_map: "retain (map k xs) (xs @ ys) = filter k xs @ ys"
  by (induction xs) (cases ys; simp)+

lemma retain_all: "retain (map k xs) xs = filter k xs"
  using retain_map [of k xs "[]"] by simp

text \<open>The epoch check at the start of \<open>derive_next_batch\<close>.\<close>

definition epoch_matches :: "l2_block_info \<Rightarrow> block_info \<Rightarrow> bool" where
  "epoch_matches parent epoch \<longleftrightarrow>
     l2_l1_origin parent = block_info_id epoch \<or>
     bi_number epoch \<noteq> 0 \<and> bnh_number (l2_l1_origin parent) = bi_number epoch - 1"

definition bq_verdict ::
    "registry \<Rightarrow> batch_validation_provider \<Rightarrow> l2_block_info \<Rightarrow> 'p batch_queue \<Rightarrow> batch_with_inclusion
     \<Rightarrow> batch_validity option" where
  "bq_verdict reg fetcher parent bq bw = check_batch reg (bq_cfg bq) bw (bq_l1_blocks bq) parent fetcher"

lemma derive_next_batch_scan:
  assumes "bq_l1_blocks bq = epoch # ws" and "epoch_matches parent epoch" and "bq_origin bq = Some orig"
    and "list_all (\<lambda>bw. bq_verdict reg fetcher parent bq bw = Some (verdict bw)) (bq_batches bq)"
    and "hol = is_holocene_active reg (bq_cfg bq) (bi_timestamp orig)"
    and "takeWhile (\<lambda>bw. \<not> stops hol (verdict bw)) (bq_batches bq) = pre"
    and "dropWhile (\<lambda>bw. \<not> stops hol (verdict bw)) (bq_batches bq) = rest"
  shows "\<exists>p. bq_derive_next_batch reg fetcher nbp no_data parent bq =
    (let kept = filter (\<lambda>bw. keeps hol (verdict bw)) pre in
     case rest of
       [] \<Rightarrow> Some (bq_force_empty reg no_data parent orig (bq\<lparr>bq_prev := p, bq_batches := kept\<rparr>))
     | bw # later \<Rightarrow>
         (case verdict bw of
            Accept \<Rightarrow> Some (Inr (bw_batch bw), bq\<lparr>bq_prev := p, bq_batches := kept @ later\<rparr>)
          | Undecided \<Rightarrow> Some (Inl (temp Eof), bq\<lparr>bq_prev := p, bq_batches := kept @ bw # later\<rparr>)
          | _ \<Rightarrow> Some (Inl (crit InvalidBatchValidity), bq\<lparr>bq_prev := p\<rparr>)))"
proof -
  have bws: "bq_batches bq = pre @ rest" using assms(6,7) takeWhile_dropWhile_id by metis
  have check: "list_all (\<lambda>bw. check_batch reg (bq_cfg bq) bw (epoch # ws) parent fetcher = Some (verdict bw))
      (bq_batches bq)"
    using assms(4) by (simp add: bq_verdict_def assms(1))
  note scan = bq_scan_spec [OF check, where hol = hol and flush = "nbp_flush nbp" and retention = "[]"
      and p = "bq_prev bq", unfolded assms(6,7), simplified]
  have "\<not> (l2_l1_origin parent \<noteq> block_info_id epoch \<and>
      (case if bi_number epoch = 0 then None else Some (bi_number epoch - 1) of
         None \<Rightarrow> True | Some n \<Rightarrow> bnh_number (l2_l1_origin parent) \<noteq> n))"
    using assms(2) by (auto simp: epoch_matches_def)
  then show ?thesis
    using assms(1,3) scan
    by (intro exI [of _ "(nbp_flush nbp ^^ length (filter (\<lambda>bw. flushes hol (verdict bw)) pre)) (bq_prev bq)"])
      (auto simp: bq_derive_next_batch_def Let_def assms(5) [symmetric] bws retain_map retain_all
        split: list.split batch_validity.split)
qed

section \<open>The window\<close>

lemma update_window_eq:
  "bq_update_window prev_stage parent bq =
     (Inr (), bq\<lparr>bq_origin := st_origin prev_stage (bq_prev bq),
        bq_l1_blocks := sync_window (bq_origin bq) (st_origin prev_stage (bq_prev bq)) parent
          (advance_epoch parent (bq_l1_blocks bq))\<rparr>)"
  by (cases bq)
    (auto simp: bq_update_window_def is_origin_behind_def sync_window_def Let_def split: option.split)

text \<open>What the steps after the update leave of configuration, origin and window.\<close>

definition same_window :: "'p batch_queue \<Rightarrow> 'p batch_queue \<Rightarrow> bool" where
  "same_window bq bq' \<longleftrightarrow>
     bq_cfg bq' = bq_cfg bq \<and> bq_origin bq' = bq_origin bq \<and> bq_l1_blocks bq' = bq_l1_blocks bq"

lemma same_window_refl [simp]: "same_window bq bq"
  by (simp add: same_window_def)

lemma add_batch_window: "bq_add_batch reg fetcher nbp b parent bq = Some (r, bq') \<Longrightarrow> same_window bq bq'"
  by (auto simp: bq_add_batch_def same_window_def Let_def split: if_splits option.splits)

lemma load_window: "bq_load reg fetcher nbp behind parent bq = Some (r, bq') \<Longrightarrow> same_window bq bq'"
  by (auto simp: bq_load_def pop_on_prev_def same_window_def split: option.splits sum.splits if_splits
      dest!: add_batch_window)

lemma finish_window: "bq_finish parent b bq = Some (r, bq') \<Longrightarrow> same_window bq bq'"
  by (auto simp: bq_finish_def bq_pop_next_batch_def same_window_def
      split: batch.splits sum.splits option.splits list.splits)

lemma force_empty_window:
  "bq_force_empty reg no_data parent orig bq = (r, bq') \<Longrightarrow>
   bq_origin bq' = bq_origin bq \<and> (\<exists>n. bq_l1_blocks bq' = drop n (bq_l1_blocks bq)) \<and>
   (bq_l1_blocks bq \<noteq> [] \<longrightarrow> bq_l1_blocks bq' \<noteq> []) \<and> bq_batches bq' = bq_batches bq \<and> bq_cfg bq' = bq_cfg bq \<and>
   (\<forall>b. r = Inr b \<longrightarrow> (\<exists>sb. b = Single sb))"
  by (auto simp: bq_force_empty_def Let_def drop_Suc [of 0, simplified, symmetric] tl_Nil split: if_splits)

lemma derive_next_batch_window:
  "bq_derive_next_batch reg fetcher nbp no_data parent bq = Some (r, bq') \<Longrightarrow>
   bq_origin bq' = bq_origin bq \<and> (\<exists>n. bq_l1_blocks bq' = drop n (bq_l1_blocks bq)) \<and>
   (bq_l1_blocks bq \<noteq> [] \<longrightarrow> bq_l1_blocks bq' \<noteq> [])"
  by (auto simp: bq_derive_next_batch_def Let_def split: list.splits option.splits if_splits prod.splits scan_end.splits
      dest!: force_empty_window)

lemma settle_window:
  assumes "bq_settle reg fetcher nbp behind od parent bq = Some (r, bq')"
  shows "bq_origin bq' = bq_origin bq \<and> (\<exists>n. bq_l1_blocks bq' = drop n (bq_l1_blocks bq)) \<and>
    (bq_l1_blocks bq \<noteq> [] \<longrightarrow> bq_l1_blocks bq' \<noteq> [])"
proof (cases "behind \<or> bq_derive_next_batch reg fetcher nbp od parent bq = None")
  case True
  then show ?thesis using assms by (auto simp: bq_settle_def split: if_splits)
next
  case False
  then obtain q bq1 where 1: "bq_derive_next_batch reg fetcher nbp od parent bq = Some (q, bq1)" "\<not> behind"
    by auto
  have "same_window bq1 bq'"
    using assms 1 finish_window [of parent _ bq1 r bq']
    by (cases q) (auto simp: bq_settle_def split: if_splits)
  then show ?thesis using derive_next_batch_window [OF 1(1)] by (simp add: same_window_def)
qed

lemma derive_window:
  assumes "bq_derive reg prev_stage fetcher nbp parent bq = Some (r, bq')"
  shows "bq_origin bq' = st_origin prev_stage (bq_prev bq) \<and>
    (\<exists>n. bq_l1_blocks bq' = drop n (sync_window (bq_origin bq) (st_origin prev_stage (bq_prev bq)) parent
      (advance_epoch parent (bq_l1_blocks bq))))"
  using assms
  by (auto simp: bq_derive_def update_window_eq pop_then_def same_window_def Let_def split: option.splits sum.splits
      dest!: load_window settle_window)

interpretation bqw: window_stage "bq_next_batch reg prev_stage fetcher nbp" bq_l1_blocks bq_origin
  "\<lambda>bq. st_origin prev_stage (bq_prev bq)" for reg prev_stage fetcher nbp
proof
  fix parent s r s'
  assume nb: "bq_next_batch reg prev_stage fetcher nbp parent s = Some (r, s')"
  let ?p = "st_origin prev_stage (bq_prev s)"
  let ?w = "sync_window (bq_origin s) ?p parent (advance_epoch parent (bq_l1_blocks s))"
  obtain m where m: "advance_epoch parent (bq_l1_blocks s) = drop m (bq_l1_blocks s)"
    using advance_epoch_drop by blast
  let ?s = "bq_drop_denim_spans reg parent s"
  have s: "bq_origin ?s = bq_origin s" "bq_l1_blocks ?s = bq_l1_blocks s" "bq_prev ?s = bq_prev s"
    by (simp_all add: bq_drop_denim_spans_def)
  have "bq_origin s' = bq_origin s \<and> bq_l1_blocks s' = bq_l1_blocks s \<or>
      bq_origin s' = ?p \<and> (\<exists>n. bq_l1_blocks s' = drop n ?w)"
    using nb derive_window [of reg prev_stage fetcher nbp parent "?s\<lparr>bq_next_spans := []\<rparr>" r s']
      derive_window [of reg prev_stage fetcher nbp parent ?s r s'] s
    by (auto simp: bq_next_batch_def bq_pop_next_batch_def Let_def split: list.splits if_splits)
  then show "bq_origin s' = bq_origin s \<and> bq_l1_blocks s' = bq_l1_blocks s \<or>
      bq_origin s' = ?p \<and> (\<exists>m n. bq_l1_blocks s' = drop n (sync_window (bq_origin s) ?p parent (drop m (bq_l1_blocks s))))"
    using m by auto
qed

section \<open>No panics\<close>

definition spans_even :: "rollup_config \<Rightarrow> batch \<Rightarrow> bool" where
  "spans_even cfg b \<longleftrightarrow>
     (case b of Single _ \<Rightarrow> True | Span sp \<Rightarrow> evenly_spaced (rc_block_time cfg) (sp_batches sp))"

text \<open>The conditions on chain, provider and safe head under which span checks do not panic.\<close>

definition span_checks_safe ::
    "registry \<Rightarrow> rollup_config \<Rightarrow> batch_validation_provider \<Rightarrow> l2_block_info \<Rightarrow> bool" where
  "span_checks_safe reg cfg fetcher parent \<longleftrightarrow>
     rc_block_time cfg \<noteq> 0 \<and> bi_number (l2_block parent) \<noteq> - 1 \<and>
     bi_timestamp (l2_block parent) < next_l2_timestamp reg cfg parent \<and>
     (\<forall>n p. bvp_l2_block_info_by_number fetcher n = Some p \<longrightarrow> bi_number (l2_block p) = n)"

lemma check_batch_safe:
  assumes "span_checks_safe reg cfg fetcher parent" and "spans_even cfg (bw_batch bw)"
  shows "\<exists>v. check_batch reg cfg bw ws parent fetcher = Some v"
  using assms check_batch_span_no_panic [of cfg _ parent reg fetcher]
  by (cases "bw_batch bw") (auto simp: check_batch_def span_checks_safe_def spans_even_def)

text \<open>An accepted span has a block after the safe head, so its singular batches are not empty.\<close>

lemma singular_batches_nonempty:
  "get_singular_batches_loop ws safe es i = Inr bs \<Longrightarrow>
   \<exists>e \<in> set es. bi_timestamp (l2_block safe) < el_timestamp e \<Longrightarrow> bs \<noteq> []"
  by (induction ws safe es i arbitrary: bs rule: get_singular_batches_loop.induct)
    (auto simp: and_then_def not_less [symmetric] split: if_splits option.splits sum.splits)

lemma accepted_span_new_block:
  assumes "check_batch_span reg cfg sp ws safe incl fetcher = Some Accept"
    and "bi_number (l2_block safe) \<noteq> - 1"
    and "bi_timestamp (l2_block safe) < next_l2_timestamp reg cfg safe"
  shows "\<exists>e \<in> set (sp_batches sp). bi_timestamp (l2_block safe) < el_timestamp e"
proof -
  obtain x where "check_batch_prefix reg cfg sp ws safe incl fetcher = Some (Accept, x)"
    using assms(1) by (auto simp: check_batch_span_def split: option.splits prod.splits if_splits)
  then have "sp_batches sp \<noteq> [] \<and>
      l2_block_timestamp reg cfg (bi_number (l2_block safe) + 1) \<le> el_timestamp (last (sp_batches sp))"
    by (auto simp: check_batch_prefix_def check_prefix_timestamps_def Let_def
        split: list.splits if_splits sum.splits)
  then show ?thesis
    using assms(2,3) by (intro bexI [of _ "last (sp_batches sp)"]) (auto simp: next_l2_timestamp_def sat_add_1)
qed

definition queue_even :: "'p batch_queue \<Rightarrow> bool" where
  "queue_even bq \<longleftrightarrow> list_all (\<lambda>bw. spans_even (bq_cfg bq) (bw_batch bw)) (bq_batches bq)"

lemma add_batch_safe:
  assumes "span_checks_safe reg (bq_cfg bq) fetcher parent" and "spans_even (bq_cfg bq) b"
    and "bq_l1_blocks bq \<noteq> []" and "queue_even bq"
  shows "\<exists>r bq'. bq_add_batch reg fetcher nbp b parent bq = Some (r, bq') \<and> queue_even bq'"
proof (cases "bq_origin bq")
  case None
  then show ?thesis using assms by (simp add: bq_add_batch_def)
next
  case (Some orig)
  obtain v where "check_batch reg (bq_cfg bq) \<lparr>bw_inclusion_block = orig, bw_batch = b\<rparr>
      (bq_l1_blocks bq) parent fetcher = Some v"
    using check_batch_safe [OF assms(1)] assms(2) by fastforce
  then show ?thesis using assms Some by (auto simp: bq_add_batch_def queue_even_def)
qed

lemma load_safe:
  assumes "span_checks_safe reg (bq_cfg bq) fetcher parent" and "queue_even bq"
    and "nbp_next_batch nbp parent (bq_l1_blocks bq) (bq_prev bq) = Some (q, p)"
    and "\<And>b. q = Inr b \<Longrightarrow> spans_even (bq_cfg bq) b"
    and "\<not> behind \<Longrightarrow> bq_l1_blocks bq \<noteq> []"
  shows "\<exists>r bq'. bq_load reg fetcher nbp behind parent bq = Some (r, bq') \<and> queue_even bq'"
proof -
  have even: "queue_even (bq\<lparr>bq_prev := p\<rparr>)" using assms(2) by (simp add: queue_even_def)
  show ?thesis
  proof (cases q)
    case (Inl e)
    then show ?thesis using assms(3) even by (simp add: bq_load_def pop_on_prev_def)
  next
    case (Inr b)
    then show ?thesis
      using assms even add_batch_safe [of reg "bq\<lparr>bq_prev := p\<rparr>" fetcher parent b nbp]
      by (auto simp: bq_load_def pop_on_prev_def)
  qed
qed

text \<open>A batch that is taken from the queue was accepted on the window it is taken with.\<close>

definition taken_ok ::
    "registry \<Rightarrow> batch_validation_provider \<Rightarrow> l2_block_info \<Rightarrow> 'p batch_queue
     \<Rightarrow> ((pipeline_error_kind + batch) \<times> 'p batch_queue) option \<Rightarrow> bool" where
  "taken_ok reg fetcher parent bq d \<longleftrightarrow>
     (\<exists>r bq'. d = Some (r, bq') \<and> queue_even bq' \<and>
       (\<forall>sp. r = Inr (Span sp) \<longrightarrow> same_window bq bq' \<and>
         (\<exists>incl. check_batch_span reg (bq_cfg bq) sp (bq_l1_blocks bq) parent incl fetcher = Some Accept)))"

lemma taken_force_empty:
  assumes "queue_even bq'" and "bq_cfg bq' = bq_cfg bq"
  shows "taken_ok reg fetcher parent bq (Some (bq_force_empty reg od parent orig bq'))"
proof -
  obtain r bq1 where 1: "bq_force_empty reg od parent orig bq' = (r, bq1)" by fastforce
  show ?thesis
    using force_empty_window [OF 1] assms by (auto simp: taken_ok_def 1 queue_even_def)
qed

lemma taken_first:
  assumes "bq_verdict reg fetcher parent bq bw = Some v"
    and "list_all (\<lambda>bw. spans_even (bq_cfg bq) (bw_batch bw)) (kept @ bw # later)" and "queue_even bq"
  shows "taken_ok reg fetcher parent bq
    (case v of
       Accept \<Rightarrow> Some (Inr (bw_batch bw), bq\<lparr>bq_prev := p, bq_batches := kept @ later\<rparr>)
     | Undecided \<Rightarrow> Some (Inl (temp Eof), bq\<lparr>bq_prev := p, bq_batches := kept @ bw # later\<rparr>)
     | _ \<Rightarrow> Some (Inl (crit InvalidBatchValidity), bq\<lparr>bq_prev := p\<rparr>))"
  using assms
  by (cases v)
    (auto simp: taken_ok_def queue_even_def same_window_def bq_verdict_def check_batch_def split: batch.splits)

lemma derive_next_batch_safe:
  assumes safe: "span_checks_safe reg (bq_cfg bq) fetcher parent" and even: "queue_even bq"
  shows "taken_ok reg fetcher parent bq (bq_derive_next_batch reg fetcher nbp od parent bq)"
proof (cases "\<exists>epoch ws orig. bq_l1_blocks bq = epoch # ws \<and> epoch_matches parent epoch \<and> bq_origin bq = Some orig")
  case True
  then obtain epoch ws orig where *: "bq_l1_blocks bq = epoch # ws" "epoch_matches parent epoch" "bq_origin bq = Some orig"
    by blast
  define verdict where "verdict = (\<lambda>bw. the (bq_verdict reg fetcher parent bq bw))"
  have v: "list_all (\<lambda>bw. bq_verdict reg fetcher parent bq bw = Some (verdict bw)) (bq_batches bq)"
    using check_batch_safe [OF safe] even by (fastforce simp: queue_even_def list_all_iff verdict_def bq_verdict_def)
  let ?hol = "is_holocene_active reg (bq_cfg bq) (bi_timestamp orig)"
  define pre where "pre = takeWhile (\<lambda>bw. \<not> stops ?hol (verdict bw)) (bq_batches bq)"
  define rest where "rest = dropWhile (\<lambda>bw. \<not> stops ?hol (verdict bw)) (bq_batches bq)"
  define kept where "kept = filter (\<lambda>bw. keeps ?hol (verdict bw)) pre"
  have bws: "bq_batches bq = pre @ rest" by (simp add: pre_def rest_def)
  then have even': "list_all (\<lambda>bw. spans_even (bq_cfg bq) (bw_batch bw)) (kept @ rest)"
    using even by (auto simp: queue_even_def list_all_iff kept_def)
  obtain p where d: "bq_derive_next_batch reg fetcher nbp od parent bq =
    (case rest of
       [] \<Rightarrow> Some (bq_force_empty reg od parent orig (bq\<lparr>bq_prev := p, bq_batches := kept\<rparr>))
     | bw # later \<Rightarrow>
         (case verdict bw of
            Accept \<Rightarrow> Some (Inr (bw_batch bw), bq\<lparr>bq_prev := p, bq_batches := kept @ later\<rparr>)
          | Undecided \<Rightarrow> Some (Inl (temp Eof), bq\<lparr>bq_prev := p, bq_batches := kept @ bw # later\<rparr>)
          | _ \<Rightarrow> Some (Inl (crit InvalidBatchValidity), bq\<lparr>bq_prev := p\<rparr>)))"
    using derive_next_batch_scan [OF * v refl pre_def [symmetric] rest_def [symmetric]]
    unfolding Let_def kept_def [symmetric] by blast
  show ?thesis
  proof (cases rest)
    case Nil
    then show ?thesis using even' by (simp add: d taken_force_empty queue_even_def)
  next
    case (Cons bw later)
    then have "bq_verdict reg fetcher parent bq bw = Some (verdict bw)" using v bws by simp
    then show ?thesis using taken_first [OF _ _ even] even' Cons by (simp add: d)
  qed
next
  case False
  then show ?thesis
    using even by (auto simp: bq_derive_next_batch_def epoch_matches_def taken_ok_def Let_def split: list.split option.split)
qed

lemma finish_safe:
  assumes "span_checks_safe reg (bq_cfg bq) fetcher parent"
    and "\<And>sp. b = Span sp \<Longrightarrow>
      \<exists>incl. check_batch_span reg (bq_cfg bq) sp (bq_l1_blocks bq) parent incl fetcher = Some Accept"
  shows "\<exists>r bq'. bq_finish parent b bq = Some (r, bq') \<and> bq_batches bq' = bq_batches bq"
proof (cases b)
  case (Span sp)
  have "\<exists>e \<in> set (sp_batches sp). bi_timestamp (l2_block parent) < el_timestamp e"
    using assms(2) [OF Span] assms(1) accepted_span_new_block by (auto simp: span_checks_safe_def)
  then show ?thesis
    using singular_batches_nonempty [of "bq_l1_blocks bq" parent "sp_batches sp" 0]
    by (auto simp: bq_finish_def Span bq_pop_next_batch_def get_singular_batches_def split: sum.split list.split)
qed (simp add: bq_finish_def)

lemma settle_safe:
  assumes "span_checks_safe reg (bq_cfg bq) fetcher parent" and "queue_even bq"
  shows "\<exists>r bq'. bq_settle reg fetcher nbp behind od parent bq = Some (r, bq') \<and> queue_even bq'"
proof (cases behind)
  case True
  then show ?thesis using assms(2) by (simp add: bq_settle_def)
next
  case False
  obtain r1 bq1 where 1: "bq_derive_next_batch reg fetcher nbp od parent bq = Some (r1, bq1)" "queue_even bq1"
      "\<And>sp. r1 = Inr (Span sp) \<Longrightarrow> same_window bq bq1 \<and>
        (\<exists>incl. check_batch_span reg (bq_cfg bq) sp (bq_l1_blocks bq) parent incl fetcher = Some Accept)"
    using derive_next_batch_safe [OF assms, of nbp od] by (auto simp: taken_ok_def)
  show ?thesis
  proof (cases r1)
    case (Inl e)
    then show ?thesis using 1(1,2) False by (simp add: bq_settle_def)
  next
    case (Inr b)
    then have "\<exists>r bq'. bq_finish parent b bq1 = Some (r, bq') \<and> bq_batches bq' = bq_batches bq1"
      using 1(3) assms(1) finish_safe [of reg bq1 fetcher parent b]
      by (cases b) (auto simp: same_window_def bq_finish_def)
    then show ?thesis
      using 1(1,2) False Inr finish_window [of parent b bq1]
      by (fastforce simp: bq_settle_def queue_even_def same_window_def)
  qed
qed

text \<open>The window is only empty while the pipeline's origin is behind the safe head's.\<close>

definition window_live :: "l2_block_info \<Rightarrow> 'p batch_queue \<Rightarrow> bool" where
  "window_live parent bq \<longleftrightarrow> bq_l1_blocks bq \<noteq> [] \<or> is_origin_behind (bq_origin bq) parent"

lemma advance_epoch_nonempty: "ws \<noteq> [] \<Longrightarrow> advance_epoch parent ws \<noteq> []"
proof -
  have "find_origin n ws = Some (i, b) \<Longrightarrow> i < length ws" for n ws i b
    by (induction ws arbitrary: i) (auto split: if_splits)
  then show "ws \<noteq> [] \<Longrightarrow> ?thesis" by (auto simp: advance_epoch_def not_le split: option.split)
qed

lemma derive_safe:
  assumes safe: "span_checks_safe reg (bq_cfg bq) fetcher parent" and even: "queue_even bq"
    and live: "window_live parent bq"
    and prev: "\<And>ws. \<exists>q p. nbp_next_batch nbp parent ws (bq_prev bq) = Some (q, p) \<and>
      (\<forall>b. q = Inr b \<longrightarrow> spans_even (bq_cfg bq) b)"
  shows "\<exists>r bq'. bq_derive reg prev_stage fetcher nbp parent bq = Some (r, bq') \<and>
    queue_even bq' \<and> window_live parent bq'"
proof -
  let ?p = "st_origin prev_stage (bq_prev bq)"
  let ?behind = "is_origin_behind ?p parent"
  let ?bq = "bq\<lparr>bq_origin := ?p, bq_l1_blocks := sync_window (bq_origin bq) ?p parent
    (advance_epoch parent (bq_l1_blocks bq))\<rparr>"
  have ws: "\<not> ?behind \<Longrightarrow> bq_l1_blocks ?bq \<noteq> []"
    using live advance_epoch_nonempty [of "bq_l1_blocks bq" parent]
    by (auto simp: window_live_def sync_window_def is_origin_behind_def split: option.splits)
  obtain q p where "nbp_next_batch nbp parent (bq_l1_blocks ?bq) (bq_prev ?bq) = Some (q, p)"
      "\<And>b. q = Inr b \<Longrightarrow> spans_even (bq_cfg ?bq) b"
    using prev [of "bq_l1_blocks ?bq"] by auto
  then obtain od bq1 where 1: "bq_load reg fetcher nbp ?behind parent ?bq = Some (od, bq1)" "queue_even bq1"
    using load_safe [of reg ?bq fetcher parent nbp q p ?behind] safe even ws by (auto simp: queue_even_def)
  note sw = load_window [OF 1(1)]
  then have safe1: "span_checks_safe reg (bq_cfg bq1) fetcher parent" using safe by (simp add: same_window_def)
  have live1: "window_live parent bq1"
    using ws sw by (auto simp: window_live_def same_window_def)
  show ?thesis
  proof (cases od)
    case (Inl e)
    then show ?thesis using 1 live1 by (simp add: bq_derive_def update_window_eq)
  next
    case (Inr out)
    obtain r bq' where 2: "bq_settle reg fetcher nbp ?behind out parent bq1 = Some (r, bq')" "queue_even bq'"
      using settle_safe [OF safe1 1(2), of nbp ?behind out] by blast
    have "window_live parent bq'" using settle_window [OF 2(1)] live1 by (auto simp: window_live_def)
    then show ?thesis using 1 2 Inr by (simp add: bq_derive_def update_window_eq)
  qed
qed

section \<open>Properties\<close>

text \<open>
  C33. \<open>derive_next_batch\<close> takes the first batch, in order of arrival, that can be decided to be
  valid: if every batch before it is invalid, outdated or in the future, and it is accepted, it
  is returned and removed; if it is undecided, nothing is taken. Of the batches before it
  exactly the future ones are kept, before Holocene, and the later ones are not touched.
\<close>

theorem queue_takes_first_acceptable:
  assumes "bq_l1_blocks bq = epoch # ws" and "epoch_matches parent epoch" and "bq_origin bq = Some orig"
    and "list_all (\<lambda>bw. bq_verdict reg fetcher parent bq bw = Some (verdict bw)) (bq_batches bq)"
    and "hol = is_holocene_active reg (bq_cfg bq) (bi_timestamp orig)"
    and "bq_batches bq = earlier @ bw # later"
    and "list_all (\<lambda>bw. \<not> stops hol (verdict bw)) earlier"
    and "kept = filter (\<lambda>bw. verdict bw = Future \<and> \<not> hol) earlier"
  shows "(verdict bw = Accept \<longrightarrow> (\<exists>p. bq_derive_next_batch reg fetcher nbp no_data parent bq =
      Some (Inr (bw_batch bw), bq\<lparr>bq_prev := p, bq_batches := kept @ later\<rparr>))) \<and>
    (verdict bw = Undecided \<longrightarrow> (\<exists>p. bq_derive_next_batch reg fetcher nbp no_data parent bq =
      Some (Inl (temp Eof), bq\<lparr>bq_prev := p, bq_batches := kept @ bw # later\<rparr>)))"
proof -
  have "stops hol (verdict bw) \<Longrightarrow>
      takeWhile (\<lambda>bw. \<not> stops hol (verdict bw)) (bq_batches bq) = earlier \<and>
      dropWhile (\<lambda>bw. \<not> stops hol (verdict bw)) (bq_batches bq) = bw # later"
    using assms(6,7) by (simp add: list_all_iff)
  note * = derive_next_batch_scan [OF assms(1-5) conjunct1 [OF this] conjunct2 [OF this], of nbp no_data]
  show ?thesis
    using * assms(8) by (auto simp: stops_def keeps_def Let_def)
qed

theorem queue_takes_first_acceptable_witness:
  fixes cfg l1 parent b ahead bad bq nbp
  defines "cfg \<equiv> rollup_config_default\<lparr>rc_block_time := 2\<rparr>"
    and "l1 \<equiv> block_info_new (replicate 32 4) 0 B256_ZERO 2"
    and "parent \<equiv> l2_block_info_new (block_info_new (replicate 32 1) 0 [] 0) \<lparr>bnh_number = 0, bnh_hash = replicate 32 4\<rparr> 0"
    and "b \<equiv> \<lambda>h t. \<lparr>bw_inclusion_block = l1, bw_batch = Single \<lparr>sb_parent_hash = h, sb_epoch_num = 0,
      sb_epoch_hash = replicate 32 4, sb_timestamp = t, sb_transactions = [[7]]\<rparr>\<rparr>"
    and "ahead \<equiv> b (replicate 32 9) 8" and "bad \<equiv> b (replicate 32 9) 2"
    and "bq \<equiv> \<lparr>bq_cfg = cfg, bq_prev = (), bq_origin = Some l1, bq_l1_blocks = [l1],
      bq_batches = [ahead, bad, b (replicate 32 1) 2, bad], bq_next_spans = []\<rparr>"
    and "nbp \<equiv> \<lparr>nbp_next_batch = \<lambda>_ _ p. Some (Inl (temp Eof), p), nbp_flush = id, nbp_span_buffer_size = \<lambda>_. 0\<rparr>"
  shows "bq_derive_next_batch Map.empty \<lparr>bvp_l2_block_info_by_number = Map.empty, bvp_block_by_number = Map.empty\<rparr>
      nbp False parent bq =
    Some (Inr (bw_batch (b (replicate 32 1) 2)), bq\<lparr>bq_batches := [ahead, bad]\<rparr>)"
proof -
  let ?f = "\<lparr>bvp_l2_block_info_by_number = Map.empty, bvp_block_by_number = Map.empty\<rparr>"
  let ?v = "\<lambda>bw. if bw = ahead then Future else if bw = bad then Drop ParentHashMismatch else Accept"
  have forks: "\<not> is_holocene_active Map.empty cfg t" "\<not> is_denim_active Map.empty cfg t"
      "\<not> is_fjord_active Map.empty cfg t" "\<not> is_jovian_active Map.empty cfg t"
      "\<not> is_isthmus_active Map.empty cfg t" for t
    by (simp_all add: is_holocene_active_def is_denim_active_def is_fjord_active_def is_granite_active_def
        is_isthmus_active_def is_jovian_active_def cfg_def default_forks_inactive)
  have next_ts: "next_l2_timestamp Map.empty cfg parent = 2"
    by (simp add: next_l2_timestamp_def cfg_def default_timestamp)
      (simp add: parent_def l2_block_info_new_def block_info_new_def sat_add_def sat_mul_def)
  have seq: "rc_seq_window_size cfg = 0" "rc_max_sequencer_drift cfg = 0"
    by (simp_all add: cfg_def rollup_config_default_def)
  have v: "bq_verdict Map.empty ?f parent bq (b h t) = Some
      (if t > 2 then Future else if t < 2 then Drop PastTimestampPreHolocene
       else if h \<noteq> replicate 32 1 then Drop ParentHashMismatch else Accept)" for h t
    by (simp add: bq_verdict_def bq_def check_batch_def b_def check_batch_single_def check_batch_timestamp_def
        next_ts forks is_accept_def same_second_def single_batch_origin_def or_verdict_def checked_add_def
        max_sequencer_drift_def check_drift_def is_first_jovian_block_def seq TX_DEPOSIT_def TX_EIP7702_def
        TX_EIP8130_def Let_def)
      (simp add: l1_def parent_def l2_block_info_new_def block_info_new_def)
  have ne: "b h t = b h' t' \<longleftrightarrow> h = h' \<and> t = t'" for h h' t t' by (auto simp: b_def)
  have "\<exists>p. bq_derive_next_batch Map.empty ?f nbp False parent bq =
      Some (Inr (bw_batch (b (replicate 32 1) 2)),
        bq\<lparr>bq_prev := p, bq_batches := [ahead] @ [bad]\<rparr>)"
    by (rule queue_takes_first_acceptable [THEN conjunct1, rule_format, where verdict = ?v and hol = False
          and earlier = "[ahead, bad]" and epoch = l1 and ws = "[]" and orig = l1])
      (use forks v in \<open>simp_all add: bq_def ahead_def bad_def ne stops_def epoch_matches_def parent_def l1_def
        l2_block_info_new_def block_info_new_def block_info_id_def\<close>)
  then show ?thesis by (simp add: bq_def)
qed

text \<open>
  C34. The batch queue never panics: on evenly spaced spans, a positive block time, an honest
  provider and a safe head before the next scheduled timestamp, a call of \<open>next_batch\<close> ends with
  a result, whatever the previous stage yields. The queue then holds evenly spaced spans and a
  usable window again, so the same holds of the next call on a safe head that is not older.
\<close>

theorem queue_never_panics:
  assumes "span_checks_safe reg (bq_cfg bq) fetcher parent" and "queue_even bq" and "window_live parent bq"
    and "\<And>ws. \<exists>q p. nbp_next_batch nbp parent ws (bq_prev bq) = Some (q, p) \<and>
      (\<forall>b. q = Inr b \<longrightarrow> spans_even (bq_cfg bq) b)"
    and "bnh_number (l2_l1_origin parent) \<le> bnh_number (l2_l1_origin parent')"
  shows "\<exists>r bq'. bq_next_batch reg prev_stage fetcher nbp parent bq = Some (r, bq') \<and>
    queue_even bq' \<and> window_live parent' bq'"
proof -
  have later: "window_live parent s \<Longrightarrow> window_live parent' s" for s :: "'a batch_queue"
    using assms(5) by (auto simp: window_live_def is_origin_behind_def split: option.splits)
  let ?bq = "bq_drop_denim_spans reg parent bq"
  have bq: "bq_cfg ?bq = bq_cfg bq" "bq_batches ?bq = bq_batches bq" "bq_l1_blocks ?bq = bq_l1_blocks bq"
      "bq_origin ?bq = bq_origin bq" "bq_prev ?bq = bq_prev bq"
    by (simp_all add: bq_drop_denim_spans_def)
  show ?thesis
  proof (cases "\<exists>b bs. bq_next_spans ?bq = b # bs \<and>
      sb_timestamp b = l2_block_timestamp reg (bq_cfg ?bq) (bi_number (l2_block parent) + 1)")
    case True
    then show ?thesis
      using assms(2,3) bq later [of bq]
      by (auto simp: bq_next_batch_def bq_pop_next_batch_def queue_even_def window_live_def Let_def)
  next
    case False
    have "bq_next_batch reg prev_stage fetcher nbp parent bq =
        bq_derive reg prev_stage fetcher nbp parent (?bq\<lparr>bq_next_spans := []\<rparr>)"
    proof (cases "bq_next_spans ?bq")
      case Nil
      then have eq: "?bq\<lparr>bq_next_spans := []\<rparr> = ?bq" by (cases ?bq) simp
      from Nil show ?thesis by (simp add: bq_next_batch_def eq)
    qed (use False in \<open>simp add: bq_next_batch_def\<close>)
    then show ?thesis
      using derive_safe [of reg "?bq\<lparr>bq_next_spans := []\<rparr>" fetcher parent nbp prev_stage] assms(1-4) bq later
      by (auto simp: queue_even_def window_live_def)
  qed
qed

theorem queue_never_panics_witness:
  fixes cfg l1 parent bq nbp
  defines "cfg \<equiv> rollup_config_default\<lparr>rc_block_time := 2\<rparr>"
    and "l1 \<equiv> block_info_new (replicate 32 4) 0 B256_ZERO 2"
    and "parent \<equiv> l2_block_info_new (block_info_new (replicate 32 1) 0 [] 0) \<lparr>bnh_number = 0, bnh_hash = replicate 32 4\<rparr> 0"
    and "bq \<equiv> (bq_new cfg ())\<lparr>bq_origin := Some l1, bq_l1_blocks := [l1]\<rparr>"
    and "nbp \<equiv> \<lparr>nbp_next_batch = \<lambda>_ _ p. Some (Inl (temp Eof), p), nbp_flush = id, nbp_span_buffer_size = \<lambda>_. 0\<rparr>"
  shows "\<exists>r bq'. bq_next_batch Map.empty (fixed_stage l1)
      \<lparr>bvp_l2_block_info_by_number = Map.empty, bvp_block_by_number = Map.empty\<rparr> nbp parent bq = Some (r, bq') \<and>
    queue_even bq' \<and> window_live parent bq'"
proof (rule queue_never_panics)
  have "next_l2_timestamp Map.empty cfg parent = 2"
    by (simp add: next_l2_timestamp_def cfg_def default_timestamp)
      (simp add: parent_def l2_block_info_new_def block_info_new_def sat_add_def sat_mul_def)
  then show "span_checks_safe Map.empty (bq_cfg bq)
      \<lparr>bvp_l2_block_info_by_number = Map.empty, bvp_block_by_number = Map.empty\<rparr> parent"
    by (simp add: span_checks_safe_def bq_def bq_new_def)
      (simp add: cfg_def parent_def l2_block_info_new_def block_info_new_def)
  show "window_live parent bq" by (simp add: window_live_def bq_def)
  show "\<exists>q p. nbp_next_batch nbp parent ws (bq_prev bq) = Some (q, p) \<and>
      (\<forall>b. q = Inr b \<longrightarrow> spans_even (bq_cfg bq) b)" for ws
    by (simp add: nbp_def)
qed (simp_all add: queue_even_def bq_def bq_new_def)

end
