(* ===== verification/Batch_Provider.thy ===== *)
theory Batch_Provider
  imports Batch_Validator Batch_Queue
begin

text \<open>
  The mux of the batch stages (\<open>src/crates/consensus/derive/src/stages/batch/batch_provider.rs\<close>):
  the batch queue before Holocene and the batch validator from Holocene on. The lemmas show
  that exactly one of them is in charge and hands the previous stage and the window over, and
  what the way back from the validator to the queue does to the window.
\<close>

section \<open>The stage\<close>

record 'p batch_provider =
  bp_cfg :: rollup_config
  bp_prev :: "'p option"
  bp_batch_queue :: "'p batch_queue option"
  bp_batch_validator :: "'p batch_validator option"

definition bp_new :: "rollup_config \<Rightarrow> 'p \<Rightarrow> 'p batch_provider" where
  "bp_new cfg prev =
     \<lparr>bp_cfg = cfg, bp_prev = Some prev, bp_batch_queue = None, bp_batch_validator = None\<rparr>"

definition bp_origin :: "'p stage \<Rightarrow> 'p batch_provider \<Rightarrow> block_info option" where
  "bp_origin prev_stage bp =
     (case bp_batch_validator bp of
        Some bv \<Rightarrow> st_origin (bv_stage prev_stage) bv
      | None \<Rightarrow>
          (case bp_batch_queue bp of
             Some bq \<Rightarrow> st_origin (bq_stage prev_stage) bq
           | None \<Rightarrow> (case bp_prev bp of None \<Rightarrow> None | Some p \<Rightarrow> st_origin prev_stage p)))"

definition bp_attempt_update :: "registry \<Rightarrow> 'p stage \<Rightarrow> ('p batch_provider, unit) op" where
  "bp_attempt_update reg prev_stage bp =
     (case bp_origin prev_stage bp of
        None \<Rightarrow> (Inl (crit MissingOrigin), bp)
      | Some orig \<Rightarrow>
          let holocene = is_holocene_active reg (bp_cfg bp) (bi_timestamp orig) in
          (case bp_prev bp of
             Some prev \<Rightarrow>
               let bp = bp\<lparr>bp_prev := None\<rparr> in
               (Inr (), if holocene then bp\<lparr>bp_batch_validator := Some (bv_new (bp_cfg bp) prev)\<rparr>
                        else bp\<lparr>bp_batch_queue := Some (bq_new (bp_cfg bp) prev)\<rparr>)
           | None \<Rightarrow>
               (case (bp_batch_queue bp, bp_batch_validator bp) of
                  (Some bq, bvo) \<Rightarrow>
                    if holocene then
                      let bv = (bv_new (bp_cfg bp) (bq_prev bq))
                            \<lparr>bv_l1_blocks := bq_l1_blocks bq, bv_origin := bq_origin bq\<rparr>
                      in (Inr (), bp\<lparr>bp_batch_queue := None, bp_batch_validator := Some bv\<rparr>)
                    else (case bvo of
                      None \<Rightarrow> (Inr (), bp)
                    | Some bv \<Rightarrow>
                        let bq = (bq_new (bp_cfg bp) (bv_prev bv))\<lparr>bq_l1_blocks := bv_l1_blocks bv\<rparr>
                        in (Inr (), bp\<lparr>bp_batch_validator := None, bp_batch_queue := Some bq\<rparr>))
                | (None, Some bv) \<Rightarrow>
                    if \<not> holocene then
                      let bq = (bq_new (bp_cfg bp) (bv_prev bv))\<lparr>bq_l1_blocks := bv_l1_blocks bv\<rparr>
                      in (Inr (), bp\<lparr>bp_batch_validator := None, bp_batch_queue := Some bq\<rparr>)
                    else (Inr (), bp)
                | (None, None) \<Rightarrow> (Inr (), bp))))"

text \<open>Each operation updates the mux and then calls the stage in charge.\<close>

definition bp_dispatch ::
    "registry \<Rightarrow> 'p stage \<Rightarrow> ('p batch_validator, 'a) op \<Rightarrow> ('p batch_queue, 'a) op
     \<Rightarrow> ('p batch_provider, 'a) op" where
  "bp_dispatch reg prev_stage f g bp =
     op_then (bp_attempt_update reg prev_stage bp) (\<lambda>_ bp.
       case bp_batch_validator bp of
         Some bv \<Rightarrow> (let (r, bv) = f bv in (r, bp\<lparr>bp_batch_validator := Some bv\<rparr>))
       | None \<Rightarrow>
           (case bp_batch_queue bp of
              Some bq \<Rightarrow> (let (r, bq) = g bq in (r, bp\<lparr>bp_batch_queue := Some bq\<rparr>))
            | None \<Rightarrow> (Inl (temp NotEnoughData), bp)))"

definition bp_stage :: "registry \<Rightarrow> 'p stage \<Rightarrow> 'p batch_provider stage" where
  "bp_stage reg prev_stage =
     (let bvs = bv_stage prev_stage; bqs = bq_stage prev_stage; d = bp_dispatch reg prev_stage in
      \<lparr>st_origin = bp_origin prev_stage,
       st_advance_origin = d (st_advance_origin bvs) (st_advance_origin bqs),
       st_reset = (\<lambda>l1_origin sys. d (st_reset bvs l1_origin sys) (st_reset bqs l1_origin sys)),
       st_activate = d (st_activate bvs) (st_activate bqs),
       st_flush_channel = d (st_flush_channel bvs) (st_flush_channel bqs)\<rparr>)"

definition bp_is_last_in_span :: "'p next_batch_provider \<Rightarrow> 'p batch_provider \<Rightarrow> bool" where
  "bp_is_last_in_span nbp bp =
     (case bp_batch_validator bp of
        Some bv \<Rightarrow> bv_is_last_in_span nbp bv
      | None \<Rightarrow> (case bp_batch_queue bp of None \<Rightarrow> False | Some bq \<Rightarrow> bq_is_last_in_span bq))"

definition bp_next_batch ::
    "registry \<Rightarrow> 'p stage \<Rightarrow> batch_validation_provider \<Rightarrow> (hash32 \<Rightarrow> pipeline_error_kind + l2_block_info)
     \<Rightarrow> 'p next_batch_provider \<Rightarrow> l2_block_info \<Rightarrow> ('p batch_provider, single_batch) pop" where
  "bp_next_batch reg prev_stage fetcher by_hash nbp parent bp =
     pop_then (Some (bp_attempt_update reg prev_stage bp)) (\<lambda>_ bp.
       case bp_batch_validator bp of
         Some bv \<Rightarrow>
           map_option (\<lambda>(r, bv). (r, bp\<lparr>bp_batch_validator := Some bv\<rparr>))
             (bv_next_batch reg prev_stage by_hash nbp parent bv)
       | None \<Rightarrow>
           (case bp_batch_queue bp of
              Some bq \<Rightarrow>
                map_option (\<lambda>(r, bq). (r, bp\<lparr>bp_batch_queue := Some bq\<rparr>))
                  (bq_next_batch reg prev_stage fetcher nbp parent bq)
            | None \<Rightarrow> Some (Inl (temp NotEnoughData), bp)))"

section \<open>Ownership\<close>

text \<open>Exactly one of the three fields is set, and it holds the previous stage.\<close>

definition bp_owner :: "'p batch_provider \<Rightarrow> 'p option" where
  "bp_owner bp =
     (case (bp_prev bp, bp_batch_queue bp, bp_batch_validator bp) of
        (Some p, None, None) \<Rightarrow> Some p
      | (None, Some bq, None) \<Rightarrow> Some (bq_prev bq)
      | (None, None, Some bv) \<Rightarrow> Some (bv_prev bv)
      | _ \<Rightarrow> None)"

definition bp_window :: "'p batch_provider \<Rightarrow> block_info list" where
  "bp_window bp =
     (case (bp_batch_queue bp, bp_batch_validator bp) of
        (_, Some bv) \<Rightarrow> bv_l1_blocks bv
      | (Some bq, None) \<Rightarrow> bq_l1_blocks bq
      | _ \<Rightarrow> [])"

lemma bp_owner_cases:
  assumes "bp_owner bp = Some p"
  obtains (prev) "bp_prev bp = Some p" "bp_batch_queue bp = None" "bp_batch_validator bp = None"
    | (queue) bq where "bp_prev bp = None" "bp_batch_queue bp = Some bq" "bp_batch_validator bp = None"
        "bq_prev bq = p"
    | (validator) bv where "bp_prev bp = None" "bp_batch_queue bp = None"
        "bp_batch_validator bp = Some bv" "bv_prev bv = p"
  using assms by (auto simp: bp_owner_def split: option.splits)

lemma bp_origin_owner: "bp_owner bp = Some p \<Longrightarrow> bp_origin prev_stage bp = st_origin prev_stage p"
  by (erule bp_owner_cases) (auto simp: bp_origin_def bv_stage_def bq_stage_def)

text \<open>
  C35. The switch at Holocene: after \<open>attempt_update\<close> the stage the origin's time asks for, and
  only that one, owns the previous stage, which is handed over unchanged together with the
  window of L1 blocks; a stage that stays active is left as it is, a stage entered anew has no
  batches, and updating twice is updating once.
\<close>

theorem batch_mux_switch:
  assumes "bp_owner bp = Some p" and "st_origin prev_stage p = Some orig"
  shows "\<exists>bp'. bp_attempt_update reg prev_stage bp = (Inr (), bp') \<and> bp_owner bp' = Some p \<and>
    bp_window bp' = bp_window bp \<and> bp_attempt_update reg prev_stage bp' = (Inr (), bp') \<and>
    (if is_holocene_active reg (bp_cfg bp) (bi_timestamp orig)
     then bp_batch_validator bp' = Some (case bp_batch_validator bp of Some bv \<Rightarrow> bv
       | None \<Rightarrow> (bv_new (bp_cfg bp) p)\<lparr>bv_l1_blocks := bp_window bp,
           bv_origin := Option.bind (bp_batch_queue bp) bq_origin\<rparr>)
     else bp_batch_queue bp' = Some (case bp_batch_queue bp of Some bq \<Rightarrow> bq
       | None \<Rightarrow> (bq_new (bp_cfg bp) p)\<lparr>bq_l1_blocks := bp_window bp\<rparr>))"
  using assms(1)
  by (cases rule: bp_owner_cases)
    (use assms(2) in \<open>auto simp: bp_attempt_update_def bp_origin_def bv_stage_def bq_stage_def
      bp_owner_def bp_window_def bv_new_def bq_new_def Let_def\<close>)

theorem batch_mux_switch_witness:
  fixes bq bp
  defines "bq \<equiv> (bq_new holocene_config ())\<lparr>bq_l1_blocks := [block_info_default],
      bq_origin := Some block_info_default\<rparr>"
    and "bp \<equiv> \<lparr>bp_cfg = holocene_config, bp_prev = None, bp_batch_queue = Some bq, bp_batch_validator = None\<rparr>"
  shows "bp_owner bp = Some () \<and>
    (\<exists>bp'. bp_attempt_update Map.empty (fixed_stage block_info_default) bp = (Inr (), bp') \<and>
       bp_batch_validator bp' = Some ((bv_new holocene_config ())\<lparr>bv_l1_blocks := [block_info_default],
         bv_origin := Some block_info_default\<rparr>) \<and> bp_owner bp' = Some ())"
proof -
  have 1: "bp_owner bp = Some ()" by (simp add: bp_owner_def bp_def)
  have 2: "st_origin (fixed_stage block_info_default) () = Some block_info_default"
    by (simp add: fixed_stage_def)
  show ?thesis
    using 1 batch_mux_switch [OF 1 2, of Map.empty] by (auto simp: bp_def bq_def bp_window_def)
qed

text \<open>
  On the way back from the validator the queue gets the window but not the origin that belongs
  to it: the next update of the window appends the current origin once more, and the window
  is no longer a chain of consecutive blocks.
\<close>

lemma switch_back_repeats_origin:
  assumes "bp_owner bp = Some p" and "bp_batch_validator bp = Some bv"
    and "st_origin prev_stage p = Some orig" and "bv_origin bv = Some orig"
    and "window_ok (bv_origin bv) (bv_l1_blocks bv)" and "bv_l1_blocks bv \<noteq> []"
    and "\<not> is_holocene_active reg (bp_cfg bp) (bi_timestamp orig)"
    and "\<not> is_origin_behind (Some orig) parent" and "\<not> is_parent_of orig orig"
  shows "let bq = (bq_new (bp_cfg bp) p)\<lparr>bq_l1_blocks := bv_l1_blocks bv\<rparr>;
        ws = sync_window (bq_origin bq) (st_origin prev_stage (bq_prev bq)) parent (bq_l1_blocks bq)
    in bp_attempt_update reg prev_stage bp = (Inr (), bp\<lparr>bp_batch_validator := None, bp_batch_queue := Some bq\<rparr>) \<and>
      ws = bv_l1_blocks bv @ [last (bv_l1_blocks bv)] \<and> \<not> window_ok (Some orig) ws"
proof -
  have p: "bp_prev bp = None" "bp_batch_queue bp = None" "bv_prev bv = p"
    using assms(1,2) by (auto elim!: bp_owner_cases)
  have l: "last (bv_l1_blocks bv) = orig"
    using assms(4,5,6) by (simp add: window_ok_def)
  show ?thesis
    using assms p l
    by (simp add: bp_attempt_update_def bp_origin_owner bq_new_def Let_def sync_window_def
        window_ok_def successively_append_iff)
qed

end
