(* ===== verification/Attributes_Queue.thy ===== *)
theory Attributes_Queue
  imports Attributes Batch_Provider
begin

text \<open>
  The attributes queue (\<open>src/crates/consensus/derive/src/stages/attributes_queue.rs\<close>): the last stage, which
  turns singular batches into payload attributes on top of a parent. The lemmas show that a
  batch is kept until its attributes are built and used exactly once, and that the attributes of
  an accepted batch are the template of its L1 origin followed by its transactions, from
  which the template can be recovered.
\<close>

section \<open>The stage\<close>

text \<open>What the stage asks of the batch stage (\<open>AttributesProvider\<close>) and of the builder.\<close>

record 'p attributes_provider =
  apr_next_batch :: "l2_block_info \<Rightarrow> ('p, single_batch) pop"
  apr_is_last_in_span :: "'p \<Rightarrow> bool"

type_synonym 'b attributes_builder = "l2_block_info \<Rightarrow> block_num_hash \<Rightarrow> ('b, base_payload_attributes) pop"

record ('p, 'b) attributes_queue =
  aq_cfg :: rollup_config
  aq_prev :: 'p
  aq_is_last_in_span :: bool
  aq_batch :: "single_batch option"
  aq_builder :: 'b

definition aq_new :: "rollup_config \<Rightarrow> 'p \<Rightarrow> 'b \<Rightarrow> ('p, 'b) attributes_queue" where
  "aq_new cfg prev builder =
     \<lparr>aq_cfg = cfg, aq_prev = prev, aq_is_last_in_span = False, aq_batch = None, aq_builder = builder\<rparr>"

definition aq_load_batch ::
    "'p attributes_provider \<Rightarrow> l2_block_info \<Rightarrow> (('p, 'b) attributes_queue, single_batch) pop" where
  "aq_load_batch apr parent aq =
     pop_then
       (if aq_batch aq = None then
          pop_then (pop_on_prev aq_prev (\<lambda>p. aq_prev_update (\<lambda>_. p)) (apr_next_batch apr parent) aq) (\<lambda>b aq.
            Some (Inr (), aq\<lparr>aq_batch := Some b, aq_is_last_in_span := apr_is_last_in_span apr (aq_prev aq)\<rparr>))
        else Some (Inr (), aq))
       (\<lambda>_ aq. Some (ok_or (temp Eof) (aq_batch aq), aq))"

definition aq_create_next_attributes ::
    "'b attributes_builder \<Rightarrow> single_batch \<Rightarrow> l2_block_info
     \<Rightarrow> (('p, 'b) attributes_queue, base_payload_attributes) pop" where
  "aq_create_next_attributes build_template b parent aq =
     (if sb_parent_hash b \<noteq> bi_hash (l2_block parent)
      then Some (Inl (Reset (BadParentHash (sb_parent_hash b) (bi_hash (l2_block parent)))), aq)
      else
        pop_then (pop_on_prev aq_builder (\<lambda>x. aq_builder_update (\<lambda>_. x)) (build_template parent (sb_epoch b)) aq)
          (\<lambda>at aq.
            let at = at\<lparr>at_no_tx_pool := Some True\<rparr> in
            Some (Inr (case at_transactions at of
                Some txs \<Rightarrow> at\<lparr>at_transactions := Some (txs @ sb_transactions b)\<rparr>
              | None \<Rightarrow> if sb_transactions b \<noteq> [] then at\<lparr>at_transactions := Some (sb_transactions b)\<rparr> else at), aq)))"

definition aq_next_attributes ::
    "'p stage \<Rightarrow> 'p attributes_provider \<Rightarrow> 'b attributes_builder \<Rightarrow> l2_block_info
     \<Rightarrow> (('p, 'b) attributes_queue, attributes_with_parent) pop" where
  "aq_next_attributes prev_stage apr build_template parent aq =
     pop_then (aq_load_batch apr parent aq) (\<lambda>b aq.
     pop_then (aq_create_next_attributes build_template b parent aq) (\<lambda>attributes aq.
       case st_origin prev_stage (aq_prev aq) of
         None \<Rightarrow> Some (Inl (crit MissingOrigin), aq)
       | Some orig \<Rightarrow>
           Some (Inr (awp_new attributes parent (Some orig) (aq_is_last_in_span aq)),
                 aq\<lparr>aq_batch := None, aq_is_last_in_span := False\<rparr>)))"

abbreviation aq_on_prev :: "('p, 'a) op \<Rightarrow> (('p, 'b) attributes_queue, 'a) op" where
  "aq_on_prev \<equiv> on_prev aq_prev (\<lambda>p. aq_prev_update (\<lambda>_. p))"

definition aq_after_prev :: "('p, unit) op \<Rightarrow> (('p, 'b) attributes_queue, unit) op" where
  "aq_after_prev f aq =
     op_then (aq_on_prev f aq) (\<lambda>_ aq. (Inr (), aq\<lparr>aq_batch := None, aq_is_last_in_span := False\<rparr>))"

definition aq_stage :: "'p stage \<Rightarrow> ('p, 'b) attributes_queue stage" where
  "aq_stage prev_stage =
     \<lparr>st_origin = (\<lambda>aq. st_origin prev_stage (aq_prev aq)),
      st_advance_origin = aq_on_prev (st_advance_origin prev_stage),
      st_reset = (\<lambda>l1_origin sys. aq_after_prev (st_reset prev_stage l1_origin sys)),
      st_activate = aq_after_prev (st_activate prev_stage),
      st_flush_channel = (\<lambda>aq. aq_on_prev (st_flush_channel prev_stage) (aq\<lparr>aq_batch := None\<rparr>))\<rparr>"

text \<open>The stateful builder as the builder of the stage; it does not change in a call.\<close>

definition sab_build ::
    "registry \<Rightarrow> attr_env \<Rightarrow> attr_providers \<Rightarrow> 'bp stateful_builder attributes_builder" where
  "sab_build reg ae ap l2_parent epoch b =
     (case prepare_payload_attributes reg ae ap b l2_parent epoch of
        Inl Panicking \<Rightarrow> None
      | Inl (Failing e) \<Rightarrow> Some (Inl e, b)
      | Inr at \<Rightarrow> Some (Inr at, b))"

section \<open>A batch is used once\<close>

lemma aq_load_batch_held:
  "aq_batch aq = Some b \<Longrightarrow> aq_load_batch apr parent aq = Some (Inr b, aq)"
  by (simp add: aq_load_batch_def)

lemma aq_load_batch_empty:
  assumes "aq_batch aq = None" and "apr_next_batch apr parent (aq_prev aq) = Some (r, p)"
  shows "aq_load_batch apr parent aq =
    (case r of
       Inl e \<Rightarrow> Some (Inl e, aq\<lparr>aq_prev := p\<rparr>)
     | Inr b \<Rightarrow> Some (Inr b, aq\<lparr>aq_prev := p, aq_batch := Some b, aq_is_last_in_span := apr_is_last_in_span apr p\<rparr>))"
  using assms by (simp add: aq_load_batch_def pop_on_prev_def split: sum.split)

lemma aq_create_keeps:
  assumes "aq_create_next_attributes build_template b parent aq = Some (r, aq')"
  shows "aq_prev aq' = aq_prev aq \<and> aq_batch aq' = aq_batch aq \<and> aq_is_last_in_span aq' = aq_is_last_in_span aq"
  using assms
  by (auto simp: aq_create_next_attributes_def pop_on_prev_def pop_then_def Let_def
      split: if_splits option.splits sum.splits prod.splits)

text \<open>The template with the transactions of the batch after its own.\<close>

definition filled :: "base_payload_attributes \<Rightarrow> bytes list \<Rightarrow> base_payload_attributes" where
  "filled template txs = template\<lparr>at_no_tx_pool := Some True, at_transactions :=
     (if at_transactions template = None \<and> txs = [] then None
      else Some (case_option [] id (at_transactions template) @ txs))\<rparr>"

lemma aq_create_Inr:
  assumes "aq_create_next_attributes build_template b parent aq = Some (Inr at, aq')"
  obtains template where "sb_parent_hash b = bi_hash (l2_block parent)"
    "build_template parent (sb_epoch b) (aq_builder aq) = Some (Inr template, aq_builder aq')"
    "at = filled template (sb_transactions b)"
  using assms
  by (auto simp: aq_create_next_attributes_def pop_on_prev_def pop_then_def Let_def filled_def
      split: if_splits option.splits sum.splits prod.splits)

text \<open>
  What a call says about the batch \<open>b\<close> it works on: an error leaves the batch in the stage; the
  attributes are those of the batch, on the parent, and the stage is empty again.
\<close>

definition works_on ::
    "'p stage \<Rightarrow> 'b attributes_builder \<Rightarrow> l2_block_info \<Rightarrow> single_batch \<Rightarrow> bool \<Rightarrow> 'b
     \<Rightarrow> pipeline_error_kind + attributes_with_parent \<Rightarrow> ('p, 'b) attributes_queue \<Rightarrow> bool" where
  "works_on prev_stage build_template parent b is_last builder r aq' \<longleftrightarrow>
     (case r of
        Inl e \<Rightarrow> aq_batch aq' = Some b \<and> aq_is_last_in_span aq' = is_last
      | Inr a \<Rightarrow>
          aq_batch aq' = None \<and> \<not> aq_is_last_in_span aq' \<and> sb_parent_hash b = bi_hash (l2_block parent) \<and>
          (\<exists>template orig.
             build_template parent (sb_epoch b) builder = Some (Inr template, aq_builder aq') \<and>
             st_origin prev_stage (aq_prev aq') = Some orig \<and>
             a = awp_new (filled template (sb_transactions b)) parent (Some orig) is_last))"

lemma aq_next_held:
  assumes "aq_batch aq = Some b" and "aq_next_attributes prev_stage apr build_template parent aq = Some (r, aq')"
  shows "aq_prev aq' = aq_prev aq \<and>
    works_on prev_stage build_template parent b (aq_is_last_in_span aq) (aq_builder aq) r aq'"
proof -
  note load = aq_load_batch_held [OF assms(1), of apr parent]
  obtain r1 aq1 where c: "aq_create_next_attributes build_template b parent aq = Some (r1, aq1)"
    using assms(2) load
    by (cases "aq_create_next_attributes build_template b parent aq") (auto simp: aq_next_attributes_def)
  note k = aq_create_keeps [OF c]
  show ?thesis
  proof (cases r1)
    case (Inl e)
    then show ?thesis
      using assms c k by (auto simp: aq_next_attributes_def load works_on_def)
  next
    case (Inr at)
    then obtain template where "sb_parent_hash b = bi_hash (l2_block parent)"
      "build_template parent (sb_epoch b) (aq_builder aq) = Some (Inr template, aq_builder aq1)"
      "at = filled template (sb_transactions b)"
      using c aq_create_Inr by blast
    then show ?thesis
      using assms c k Inr by (auto simp: aq_next_attributes_def load works_on_def split: option.splits)
  qed
qed

lemma aq_next_loads:
  assumes "aq_batch aq = None" and "apr_next_batch apr parent (aq_prev aq) = Some (Inr b, p)"
  shows "aq_next_attributes prev_stage apr build_template parent aq =
    aq_next_attributes prev_stage apr build_template parent
      (aq\<lparr>aq_prev := p, aq_batch := Some b, aq_is_last_in_span := apr_is_last_in_span apr p\<rparr>)"
  using aq_load_batch_empty [OF assms] by (simp add: aq_next_attributes_def aq_load_batch_held)

lemma aq_next_no_batch:
  assumes "aq_batch aq = None" and "apr_next_batch apr parent (aq_prev aq) = Some (Inl e, p)"
  shows "aq_next_attributes prev_stage apr build_template parent aq = Some (Inl e, aq\<lparr>aq_prev := p\<rparr>)"
  using aq_load_batch_empty [OF assms] by (simp add: aq_next_attributes_def)

text \<open>
  The batch a call has at hand, with the stage below as it is then: the one the queue holds, or what the stage
  below gives for the parent.
\<close>

definition offered ::
    "'p attributes_provider \<Rightarrow> l2_block_info \<Rightarrow> ('p, 'b) attributes_queue
     \<Rightarrow> ((pipeline_error_kind + single_batch) \<times> 'p) option" where
  "offered apr parent aq =
     (case aq_batch aq of Some b \<Rightarrow> Some (Inr b, aq_prev aq) | None \<Rightarrow> apr_next_batch apr parent (aq_prev aq))"

lemma aq_next_offered:
  assumes "aq_next_attributes prev_stage apr build_template parent aq = Some (r, aq')"
  shows "case offered apr parent aq of
      None \<Rightarrow> False
    | Some (Inl e, p) \<Rightarrow> r = Inl e \<and> aq_batch aq' = None \<and> aq_prev aq' = p
    | Some (Inr b, p) \<Rightarrow> aq_prev aq' = p \<and>
        (\<exists>is_last. works_on prev_stage build_template parent b is_last (aq_builder aq) r aq')"
proof (cases "aq_batch aq")
  case (Some b)
  then show ?thesis using aq_next_held [OF Some assms] by (auto simp: offered_def)
next
  case None
  then obtain r1 p where n: "apr_next_batch apr parent (aq_prev aq) = Some (r1, p)"
    using assms by (cases "apr_next_batch apr parent (aq_prev aq)")
      (auto simp: aq_next_attributes_def aq_load_batch_def pop_on_prev_def pop_then_def)
  show ?thesis
  proof (cases r1)
    case (Inl e)
    then show ?thesis using assms aq_next_no_batch [OF None n [unfolded Inl]] None n by (auto simp: offered_def)
  next
    case (Inr b)
    let ?aq = "aq\<lparr>aq_prev := p, aq_batch := Some b, aq_is_last_in_span := apr_is_last_in_span apr p\<rparr>"
    have "aq_next_attributes prev_stage apr build_template parent ?aq = Some (r, aq')"
      using assms aq_next_loads [OF None n [unfolded Inr]] by simp
    from aq_next_held [OF _ this] show ?thesis using None n Inr by (auto simp: offered_def)
  qed
qed

section \<open>Suppliers of batches\<close>

text \<open>
  The previous stage keeps an invariant and promises that what it supplies while it is ready suits
  the parent; the queue passes the promise on, over any number of calls that fail in between.
\<close>

definition queue_ok ::
    "('p \<Rightarrow> bool) \<Rightarrow> (single_batch \<Rightarrow> bool) \<Rightarrow> ('p, 'b) attributes_queue \<Rightarrow> bool" where
  "queue_ok invar suits aq \<longleftrightarrow>
     invar (aq_prev aq) \<and> (case aq_batch aq of None \<Rightarrow> True | Some b \<Rightarrow> suits b)"

locale batch_supplier =
  fixes apr :: "'p attributes_provider"
    and invar :: "'p \<Rightarrow> bool"
    and ready :: "'p \<Rightarrow> bool"
    and suits :: "l2_block_info \<Rightarrow> single_batch \<Rightarrow> bool"
  assumes keeps: "invar p \<Longrightarrow> apr_next_batch apr parent p = Some (r, p') \<Longrightarrow> invar p'"
    and supplies: "invar p \<Longrightarrow> ready p \<Longrightarrow> apr_next_batch apr parent p = Some (Inr b, p') \<Longrightarrow> suits parent b"
begin

lemma offered_suits:
  assumes "queue_ok invar (suits parent) aq" and "ready (aq_prev aq)" and "offered apr parent aq = Some (r, p)"
  shows "invar p \<and> (case r of Inl e \<Rightarrow> True | Inr b \<Rightarrow> suits parent b)"
  using assms keeps supplies by (auto simp: queue_ok_def offered_def split: option.splits sum.split)

lemma next_suits:
  assumes "queue_ok invar (suits parent) aq" and "ready (aq_prev aq)"
    and "aq_next_attributes prev_stage apr build_template parent aq = Some (r, aq')"
  obtains (no_batch) e where "offered apr parent aq = Some (Inl e, aq_prev aq')" "invar (aq_prev aq')"
      "r = Inl e" "aq_batch aq' = None"
    | (batch) b is_last where "offered apr parent aq = Some (Inr b, aq_prev aq')" "invar (aq_prev aq')"
      "suits parent b" "works_on prev_stage build_template parent b is_last (aq_builder aq) r aq'"
proof -
  obtain r1 p where o: "offered apr parent aq = Some (r1, p)"
    using aq_next_offered [OF assms(3)] by (cases "offered apr parent aq") auto
  show thesis
    using aq_next_offered [OF assms(3)] offered_suits [OF assms(1,2) o] o that by (cases r1) auto
qed

lemma next_queue_ok:
  assumes "queue_ok invar (suits parent) aq" and "ready (aq_prev aq)"
    and "aq_next_attributes prev_stage apr build_template parent aq = Some (r, aq')"
  shows "queue_ok invar (suits parent) aq'"
  by (rule next_suits [OF assms]; cases r) (simp_all add: queue_ok_def works_on_def)

end

section \<open>The batch stage as supplier\<close>

definition bp_attributes_provider ::
    "registry \<Rightarrow> 'p stage \<Rightarrow> batch_validation_provider \<Rightarrow> (hash32 \<Rightarrow> pipeline_error_kind + l2_block_info)
     \<Rightarrow> 'p next_batch_provider \<Rightarrow> 'p batch_provider attributes_provider" where
  "bp_attributes_provider reg prev_stage fetcher by_hash nbp =
     \<lparr>apr_next_batch = bp_next_batch reg prev_stage fetcher by_hash nbp,
      apr_is_last_in_span = bp_is_last_in_span nbp\<rparr>"

text \<open>The stage and the validator in it have one configuration.\<close>

definition bp_configured :: "rollup_config \<Rightarrow> 'p batch_provider \<Rightarrow> bool" where
  "bp_configured cfg bp \<longleftrightarrow>
     bp_cfg bp = cfg \<and> (case bp_batch_validator bp of None \<Rightarrow> True | Some bv \<Rightarrow> bv_cfg bv = cfg)"

definition bp_in_holocene :: "registry \<Rightarrow> 'p stage \<Rightarrow> 'p batch_provider \<Rightarrow> bool" where
  "bp_in_holocene reg prev_stage bp \<longleftrightarrow>
     (case bp_origin prev_stage bp of
        None \<Rightarrow> True
      | Some orig \<Rightarrow> is_holocene_active reg (bp_cfg bp) (bi_timestamp orig))"

definition clean_batch :: "single_batch \<Rightarrow> bool" where
  "clean_batch b \<longleftrightarrow> list_all (\<lambda>tx. tx \<noteq> [] \<and> \<not> is_deposit_bytes tx) (sb_transactions b)"

definition suits_parent :: "registry \<Rightarrow> rollup_config \<Rightarrow> l2_block_info \<Rightarrow> single_batch \<Rightarrow> bool" where
  "suits_parent reg cfg parent b \<longleftrightarrow>
     sb_parent_hash b = bi_hash (l2_block parent) \<and> clean_batch b \<and>
     (bi_number (l2_block parent) \<noteq> - 1 \<longrightarrow>
       sb_timestamp b = l2_block_timestamp reg cfg (bi_number (l2_block parent) + 1))"

lemma validated_suits:
  assumes "validated reg parent b bv"
  shows "suits_parent reg (bv_cfg bv) parent b"
proof (cases "\<exists>incl. check_batch_single reg (bv_cfg bv) b (bv_l1_blocks bv) parent incl = Accept")
  case True
  then obtain incl orig where "single_acceptable reg (bv_cfg bv) b (bv_l1_blocks bv) parent incl orig"
    by (auto simp: check_batch_single_accept)
  then have "sb_timestamp b = next_l2_timestamp reg (bv_cfg bv) parent" "sb_parent_hash b = bi_hash (l2_block parent)"
    "\<forall>tx\<in>set (sb_transactions b). tx \<noteq> [] \<and> hd tx \<noteq> TX_DEPOSIT"
    by (simp_all add: single_acceptable_def)
  moreover from this(3) have "clean_batch b"
    by (auto simp: clean_batch_def list_all_iff is_deposit_bytes_def DEPOSIT_TX_TYPE_def TX_DEPOSIT_def split: list.split)
  ultimately show ?thesis by (simp add: suits_parent_def next_l2_timestamp_def sat_add_1)
next
  case False
  then show ?thesis
    using assms by (auto simp: validated_def forced_empty_def suits_parent_def clean_batch_def)
qed

lemma bp_update_configured:
  "bp_configured cfg bp \<Longrightarrow> bp_attempt_update reg prev_stage bp = (r, bp') \<Longrightarrow> bp_configured cfg bp'"
  by (auto simp: bp_configured_def bp_attempt_update_def bv_new_def Let_def split: option.splits if_splits)

lemma bp_update_holocene:
  assumes "bp_in_holocene reg prev_stage bp" and "bp_attempt_update reg prev_stage bp = (Inr (), bp')"
  shows "bp_batch_validator bp' \<noteq> None \<or> bp_batch_validator bp' = None \<and> bp_batch_queue bp' = None"
  using assms by (auto simp: bp_in_holocene_def bp_attempt_update_def Let_def split: option.splits if_splits)

lemma bp_next_configured:
  assumes "bp_configured cfg bp" and "bp_next_batch reg prev_stage fetcher by_hash nbp parent bp = Some (r, bp'')"
  shows "bp_configured cfg bp''"
proof -
  obtain r1 bp' where u: "bp_attempt_update reg prev_stage bp = (r1, bp')" by fastforce
  have c: "bp_configured cfg bp'" by (rule bp_update_configured [OF assms(1) u])
  show ?thesis
    using assms(2) u c
    by (cases r1) (auto simp: bp_next_batch_def bp_configured_def split: option.splits dest!: next_batch_cfg)
qed

lemma bp_supplies:
  assumes "bp_configured cfg bp" and "bp_in_holocene reg prev_stage bp"
    and "bp_next_batch reg prev_stage fetcher by_hash nbp parent bp = Some (Inr b, bp'')"
  shows "suits_parent reg cfg parent b"
proof -
  obtain bp' where u: "bp_attempt_update reg prev_stage bp = (Inr (), bp')"
    using assms(3) by (cases "bp_attempt_update reg prev_stage bp"; cases "fst (bp_attempt_update reg prev_stage bp)")
      (auto simp: bp_next_batch_def)
  then obtain bv bv' where n: "bp_batch_validator bp' = Some bv"
    "bv_next_batch reg prev_stage by_hash nbp parent bv = Some (Inr b, bv')"
    using assms(3) bp_update_holocene [OF assms(2) u] by (auto simp: bp_next_batch_def)
  then have "bv_cfg bv' = cfg"
    using bp_update_configured [OF assms(1) u] next_batch_cfg [OF n(2)] by (simp add: bp_configured_def)
  then show ?thesis using validated_suits [OF next_batch_validated [OF n(2)]] by simp
qed

interpretation bps: batch_supplier "bp_attributes_provider reg prev_stage fetcher by_hash nbp"
    "bp_configured cfg" "bp_in_holocene reg prev_stage" "suits_parent reg cfg"
  for reg cfg prev_stage fetcher by_hash nbp
  by unfold_locales (auto simp: bp_attributes_provider_def intro: bp_supplies bp_next_configured)

interpretation bpc: batch_supplier "bp_attributes_provider reg prev_stage fetcher by_hash nbp"
    "bp_configured cfg" "bp_in_holocene reg prev_stage" "\<lambda>_. clean_batch"
  for reg cfg prev_stage fetcher by_hash nbp
  by unfold_locales
    (auto simp: bp_attributes_provider_def suits_parent_def dest: bp_supplies bp_next_configured)

section \<open>From the batch stage to payload attributes\<close>

lemma sab_build_Inr:
  "sab_build reg ae ap parent epoch b = Some (Inr at, b') \<Longrightarrow>
     prepare_payload_attributes reg ae ap b parent epoch = Inr at \<and> b' = b"
  by (auto simp: sab_build_def split: sum.splits failure.splits)

text \<open>
  C4. From batches to payload attributes, from Holocene on. The stage works on a batch of the
  batch stage that suits the safe head, whether it takes it now or kept it after a failure.
  When it returns attributes, they are for the safe head, carry the batch's time and
  consist of a template of deposits followed by the batch's transactions; a block with these
  transactions is read back with the batch's epoch as L1 origin and the next sequence number;
  reducing the attributes to deposits gives the template again; and the batch is used up. When
  it returns an error, no batch is lost: a batch held or just taken from the stage below is in the queue
  afterwards, and without one the error is the one of the stage below.
\<close>

theorem attributes_from_batch:
  fixes reg :: registry and cfg :: rollup_config and prev_stage :: "'p stage" and parent :: l2_block_info and rest
  defines "ok \<equiv> \<lambda>aq. queue_ok (bp_configured cfg) (suits_parent reg cfg parent) aq"
  assumes "aq_next_attributes (bp_stage reg prev_stage) (bp_attributes_provider reg prev_stage fetcher by_hash nbp)
      (sab_build reg ae ap) parent aq = Some (r, aq')"
    and "ok aq" and "bp_in_holocene reg prev_stage (aq_prev aq)" and "bi_number (l2_block parent) \<noteq> - 1"
    and "sab_rollup_cfg (aq_builder aq) = cfg"
    and "attr_env_ok ae" and "configs_known ap (aq_builder aq)"
    and "bi_number bi \<noteq> bnh_number (gen_l2 genesis)"
  shows "case r of
      Inl e \<Rightarrow> ok aq' \<and>
        offered (bp_attributes_provider reg prev_stage fetcher by_hash nbp) parent aq =
          Some (case aq_batch aq' of None \<Rightarrow> Inl e | Some b \<Rightarrow> Inr b, aq_prev aq')
    | Inr a \<Rightarrow> \<exists>b tx0 txs.
        offered (bp_attributes_provider reg prev_stage fetcher by_hash nbp) parent aq = Some (Inr b, aq_prev aq') \<and>
        suits_parent reg cfg parent b \<and> aq_batch aq' = None \<and> awp_parent a = parent \<and>
        at_transactions (awp_attributes a) = Some ((tx0 # txs) @ sb_transactions b) \<and>
        at_no_tx_pool (awp_attributes a) = Some True \<and>
        pa_timestamp (at_payload_attributes (awp_attributes a)) = sb_timestamp b \<and>
        as_deposits_only a = a\<lparr>awp_attributes := (awp_attributes a)\<lparr>at_transactions := Some (tx0 # txs)\<rparr>\<rparr> \<and>
        is_deposits_only (as_deposits_only a) \<and>
        (epoch_known ap (sb_epoch b) \<longrightarrow>
          (\<exists>d0. dep_decode_2718 (ae_rlp ae) tx0 = Some (d0, []) \<and>
            from_block_and_genesis \<lparr>ob_info = bi, ob_transactions =
                \<lparr>tx_type = DEPOSIT_TX_TYPE, tx_is_deposit = True, tx_encoded = tx0, tx_input = dt_input d0\<rparr> # rest\<rparr> genesis =
              Inr \<lparr>l2_block = bi, l2_l1_origin = sb_epoch b, l2_seq_num = next_seq_num parent (sb_epoch b)\<rparr>))"
proof -
  let ?apr = "bp_attributes_provider reg prev_stage fetcher by_hash nbp"
  note ok = bps.next_queue_ok [OF assms(3) [unfolded ok_def] assms(4,2)]
  show ?thesis
  proof (rule bps.next_suits [OF assms(3) [unfolded ok_def] assms(4,2)], goal_cases no_batch batch)
    case no_batch
    then show ?case using ok by (simp add: ok_def)
  next
    case (batch b is_last)
    show ?case
    proof (cases r)
      case (Inl e)
      then show ?thesis using ok batch by (simp add: ok_def works_on_def)
    next
      case (Inr a)
      then obtain template orig where t: "prepare_payload_attributes reg ae ap (aq_builder aq) parent (sb_epoch b) = Inr template"
        and a: "a = awp_new (filled template (sb_transactions b)) parent (Some orig) is_last" "aq_batch aq' = None"
        using batch(4) by (auto simp: works_on_def dest!: sab_build_Inr)
      obtain tx0 txs where tx: "at_transactions template = Some (tx0 # txs)" "list_all is_deposit_bytes (tx0 # txs)"
        "pa_timestamp (at_payload_attributes template) = l2_block_timestamp reg cfg (bi_number (l2_block parent) + 1)"
        using template_deposits [OF t] assms(6) by blast
      have txs: "at_transactions (awp_attributes a) = Some ((tx0 # txs) @ sb_transactions b)"
        using tx(1) by (simp add: a awp_new_def filled_def)
      note only = as_deposits_only_template [OF tx(2) _ txs]
      have read: "\<exists>d0. dep_decode_2718 (ae_rlp ae) tx0 = Some (d0, []) \<and>
          from_block_and_genesis \<lparr>ob_info = bi, ob_transactions =
              \<lparr>tx_type = DEPOSIT_TX_TYPE, tx_is_deposit = True, tx_encoded = tx0, tx_input = dt_input d0\<rparr> # rest\<rparr> genesis =
            Inr \<lparr>l2_block = bi, l2_l1_origin = sb_epoch b, l2_seq_num = next_seq_num parent (sb_epoch b)\<rparr>"
        if "epoch_known ap (sb_epoch b)"
        using prepare_binds_block [OF t assms(7) that assms(8,9), of rest "[]"] tx(1) by auto
      have "list_all (\<lambda>tx. \<not> is_deposit_bytes tx) (sb_transactions b)"
        using batch(3) by (auto simp: suits_parent_def clean_batch_def list_all_iff)
      then show ?thesis
        using batch(1,3) a(2) txs only read tx(3) assms(5)
        by (auto simp: Inr a(1) awp_new_def filled_def suits_parent_def intro!: exI [of _ b])
    qed
  qed
qed

text \<open>A batch kept from an earlier call, on top of the parent of the examples.\<close>

definition sample_batch :: single_batch where
  "sample_batch =
     \<lparr>sb_parent_hash = B256_ZERO, sb_epoch_num = 1, sb_epoch_hash = B256_ZERO, sb_timestamp = 12,
      sb_transactions = [[2]]\<rparr>"

definition sample_queue :: "(unit batch_provider, unit stateful_builder) attributes_queue" where
  "sample_queue = (aq_new (sab_rollup_cfg sample_builder) (bp_new (sab_rollup_cfg sample_builder) ()) sample_builder)
     \<lparr>aq_batch := Some sample_batch\<rparr>"

text \<open>The same call twice: the providers answer, or the L2 chain does not yet know the system configuration.\<close>

theorem attributes_from_batch_witness:
  fixes prov call
  defines "prov \<equiv> bp_attributes_provider Map.empty (fixed_stage block_info_default)
      \<lparr>bvp_l2_block_info_by_number = \<lambda>_. None, bvp_block_by_number = \<lambda>_. None\<rparr> (\<lambda>_. Inl (temp Eof))
      \<lparr>nbp_next_batch = \<lambda>_ _ _. None, nbp_flush = id, nbp_span_buffer_size = \<lambda>_. 0\<rparr>"
    and "call \<equiv> \<lambda>ap. aq_next_attributes (bp_stage Map.empty (fixed_stage block_info_default)) prov
      (sab_build Map.empty sample_attr_env ap) sample_parent sample_queue"
  shows "(\<exists>a aq' tx0 txs d0. call sample_providers = Some (Inr a, aq') \<and>
    aq_batch aq' = None \<and> at_transactions (awp_attributes a) = Some ((tx0 # txs) @ [[2]]) \<and>
    dep_decode_2718 rlp_format tx0 = Some (d0, []) \<and>
    from_block_and_genesis \<lparr>ob_info = block_info_new B256_ZERO 6 B256_ZERO 12, ob_transactions =
        [\<lparr>tx_type = DEPOSIT_TX_TYPE, tx_is_deposit = True, tx_encoded = tx0, tx_input = dt_input d0\<rparr>]\<rparr>
        chain_genesis_default =
      Inr \<lparr>l2_block = block_info_new B256_ZERO 6 B256_ZERO 12, l2_l1_origin = sample_epoch, l2_seq_num = 4\<rparr>) \<and>
    (\<exists>aq'. call (sample_providers\<lparr>ap_system_config_by_l2_hash := \<lambda>_. Inl (temp Eof)\<rparr>) = Some (Inl (temp Eof), aq') \<and>
      aq_batch aq' = Some sample_batch)"
proof -
  let ?cfg = "sab_rollup_cfg sample_builder" and ?bi = "block_info_new B256_ZERO 6 B256_ZERO 12"
  let ?failing = "sample_providers\<lparr>ap_system_config_by_l2_hash := \<lambda>_. Inl (temp Eof)\<rparr>"
  have e: "sb_epoch sample_batch = sample_epoch" "sb_transactions sample_batch = [[2]]"
    "aq_batch sample_queue = Some sample_batch" "aq_builder sample_queue = sample_builder"
    by (simp_all add: sb_epoch_def sample_batch_def sample_epoch_def sample_queue_def aq_new_def)
  obtain at where at: "prepare_payload_attributes Map.empty sample_attr_env sample_providers sample_builder sample_parent
      sample_epoch = Inr at"
    using prepare_verdict [where epoch = sample_epoch and ae = sample_attr_env, OF sample_answers] sample_verdict
    by (auto split: sum.splits failure.splits)
  have hash: "bi_hash (l2_block sample_parent) = sb_parent_hash sample_batch"
    by (simp add: sample_parent_def l2_block_info_new_def block_info_new_def sample_batch_def)
  moreover have "st_origin (bp_stage Map.empty (fixed_stage block_info_default)) (aq_prev sample_queue) = Some block_info_default"
    by (simp add: bp_stage_def Let_def bp_origin_def fixed_stage_def sample_queue_def aq_new_def bp_new_def)
  ultimately obtain a aq' where n: "call sample_providers = Some (Inr a, aq')"
    using at e
    by (simp add: call_def aq_next_attributes_def aq_load_batch_held aq_create_next_attributes_def pop_on_prev_def
        sab_build_def Let_def split: option.splits)
  have "prepare_payload_attributes Map.empty sample_attr_env ?failing sample_builder sample_parent sample_epoch =
      Inl (Failing (temp Eof))"
    by (simp add: prepare_payload_attributes_def sab_system_config_def sample_builder_def sab_new_def Let_def
        split: prod.split)
  then obtain aq2 where n2: "call ?failing = Some (Inl (temp Eof), aq2)"
    using e hash
    by (simp add: call_def aq_next_attributes_def aq_load_batch_held aq_create_next_attributes_def pop_on_prev_def
        sab_build_def Let_def)
  have known: "configs_known ?failing sample_builder"
    using sample_ok by (auto simp: configs_known_def)
  have seq: "next_seq_num sample_parent sample_epoch = 4" "ae_rlp sample_attr_env = rlp_format"
    by (simp_all add: next_seq_num_def sample_parent_def l2_block_info_new_def sample_attr_env_def)
  have suits: "suits_parent Map.empty ?cfg sample_parent sample_batch"
    using sample_time(1)
    by (simp add: suits_parent_def clean_batch_def sample_batch_def sample_parent_def l2_block_info_new_def block_info_new_def
        is_deposit_bytes_def DEPOSIT_TX_TYPE_def)
  then have "queue_ok (bp_configured ?cfg) (suits_parent Map.empty ?cfg sample_parent) sample_queue"
    by (simp add: queue_ok_def e) (simp add: sample_queue_def aq_new_def bp_configured_def bp_new_def)
  moreover have "bi_number (block_info_new B256_ZERO 6 B256_ZERO 12) \<noteq> bnh_number (gen_l2 chain_genesis_default)"
    "bi_number (l2_block sample_parent) \<noteq> - 1"
    by (simp_all add: block_info_new_def chain_genesis_default_def sample_parent_def l2_block_info_new_def)
  moreover have "bp_in_holocene Map.empty (fixed_stage block_info_default) (aq_prev sample_queue)"
    by (simp add: bp_in_holocene_def bp_origin_def fixed_stage_def sample_queue_def aq_new_def bp_new_def
        sample_builder_def sab_new_def)
  ultimately show ?thesis
    using attributes_from_batch [OF n [unfolded call_def prov_def], of ?cfg ?bi chain_genesis_default "[]"]
      attributes_from_batch [OF n2 [unfolded call_def prov_def], of ?cfg ?bi chain_genesis_default "[]"]
      e sample_ok known n n2 seq
    by (auto simp: offered_def split: option.splits)
qed

end
