(* ===== verification/Pipeline.thy ===== *)
theory Pipeline
  imports L1_Retrieval Channel_Provider Channel_Reader Attributes_Queue
begin

text \<open>
  The derivation pipeline (\<open>src/crates/consensus/derive/src/pipeline/\<close>, \<open>src/crates/consensus/derive/src/types/signals.rs\<close>,
  \<open>src/crates/consensus/derive/src/types/results.rs\<close>): its signals, steps and prepared attributes, and the stack of
  all stages its builder composes. The lemmas show where a reset resumes and that finding this
  place terminates, that a reset empties every stage of the stack and puts it at that place,
  and that the attributes the pipeline prepares are sound in every reachable state.
\<close>

section \<open>Signals and results\<close>

record reset_signal =
  rs_l2_safe_head :: l2_block_info

record activation_signal =
  as_l2_safe_head :: l2_block_info

datatype signal = SignalReset reset_signal | SignalActivation activation_signal | SignalFlushChannel

datatype step_result =
  PreparedAttributes
| AdvancedOrigin
| OriginAdvanceErr pipeline_error_kind
| StepFailed pipeline_error_kind

section \<open>The pipeline\<close>

text \<open>The provider of L2 blocks, which is not part of the pipeline.\<close>

record 'l l2_chain_provider =
  lcp_l2_block_info_by_hash :: "hash32 \<Rightarrow> ('l, l2_block_info) op"
  lcp_system_config_by_l2_hash :: "hash32 \<Rightarrow> rollup_config \<Rightarrow> ('l, system_config) op"

record ('s, 'l) derivation_pipeline =
  dp_attributes :: 's
  dp_prepared :: "attributes_with_parent list"
  dp_rollup_config :: rollup_config
  dp_l2_chain_provider :: 'l

definition dp_new :: "'s \<Rightarrow> rollup_config \<Rightarrow> 'l \<Rightarrow> ('s, 'l) derivation_pipeline" where
  "dp_new attributes cfg l2_chain_provider =
     \<lparr>dp_attributes = attributes, dp_prepared = [], dp_rollup_config = cfg, dp_l2_chain_provider = l2_chain_provider\<rparr>"

abbreviation dp_on_attributes :: "('s, 'a) op \<Rightarrow> (('s, 'l) derivation_pipeline, 'a) op" where
  "dp_on_attributes \<equiv> on_prev dp_attributes (\<lambda>s. dp_attributes_update (\<lambda>_. s))"

text \<open>The loop of \<open>initial_reset\<close>; \<open>None\<close> is a loop that does not end.\<close>

partial_function (option) walk_back ::
    "'l l2_chain_provider \<Rightarrow> rollup_config \<Rightarrow> u64 \<Rightarrow> u64 \<Rightarrow> l2_block_info \<Rightarrow> 'l
     \<Rightarrow> ((pipeline_error_kind + l2_block_info) \<times> 'l) option" where
  [code]: "walk_back lcp cfg timeout l1_origin_number current l =
     (if bi_number (l2_block current) = bnh_number (gen_l2 (rc_genesis cfg)) then Some (Inr current, l)
      else if bnh_number (l2_l1_origin current) + timeout \<le> l1_origin_number then Some (Inr current, l)
      else case lcp_l2_block_info_by_hash lcp (bi_parent_hash (l2_block current)) l of
        (Inl e, l) \<Rightarrow> Some (Inl e, l)
      | (Inr b, l) \<Rightarrow> walk_back lcp cfg timeout l1_origin_number b l)"

definition reset_timeout :: "registry \<Rightarrow> rollup_config \<Rightarrow> l2_block_info \<Rightarrow> u64" where
  "reset_timeout reg cfg l2_safe_head =
     (let t = bi_timestamp (l2_block l2_safe_head) in
      channel_timeout reg cfg (sat_sub t (max_sequencer_drift reg cfg t)))"

abbreviation dp_on_l2 :: "('l, 'a) pop \<Rightarrow> (('s, 'l) derivation_pipeline, 'a) pop" where
  "dp_on_l2 \<equiv> pop_on_prev dp_l2_chain_provider (\<lambda>l. dp_l2_chain_provider_update (\<lambda>_. l))"

definition dp_system_config_by_l2_hash ::
    "'l l2_chain_provider \<Rightarrow> hash32 \<Rightarrow> (('s, 'l) derivation_pipeline, system_config) pop" where
  "dp_system_config_by_l2_hash lcp h dp =
     dp_on_l2 (\<lambda>l. Some (lcp_system_config_by_l2_hash lcp h (dp_rollup_config dp) l)) dp"

definition initial_reset ::
    "registry \<Rightarrow> 'l l2_chain_provider \<Rightarrow> l2_block_info
     \<Rightarrow> (('s, 'l) derivation_pipeline, block_num_hash \<times> system_config) pop" where
  "initial_reset reg lcp l2_safe_head dp =
     (let cfg = dp_rollup_config dp in
      pop_then (dp_on_l2 (walk_back lcp cfg (reset_timeout reg cfg l2_safe_head)
          (bnh_number (l2_l1_origin l2_safe_head)) l2_safe_head) dp) (\<lambda>current dp.
      pop_then (dp_on_l2 (\<lambda>l. Some (lcp_system_config_by_l2_hash lcp (bi_hash (l2_block current)) cfg l)) dp)
        (\<lambda>sys dp. Some (Inr (l2_l1_origin current, sys), dp))))"

definition dp_origin :: "'s stage \<Rightarrow> ('s, 'l) derivation_pipeline \<Rightarrow> block_info option" where
  "dp_origin stage dp = st_origin stage (dp_attributes dp)"

definition dp_next ::
    "('s, 'l) derivation_pipeline \<Rightarrow> attributes_with_parent option \<times> ('s, 'l) derivation_pipeline" where
  "dp_next dp =
     (case dp_prepared dp of
        [] \<Rightarrow> (None, dp)
      | a # as \<Rightarrow> (Some a, dp\<lparr>dp_prepared := as\<rparr>))"

definition dp_peek :: "('s, 'l) derivation_pipeline \<Rightarrow> attributes_with_parent option" where
  "dp_peek dp = (case dp_prepared dp of [] \<Rightarrow> None | a # _ \<Rightarrow> Some a)"

text \<open>The end of data does not make a reset or an activation fail.\<close>

definition allow_eof :: "(pipeline_error_kind + unit) \<times> 's \<Rightarrow> (pipeline_error_kind + unit) \<times> 's" where
  "allow_eof r = (case r of (Inl e, s) \<Rightarrow> if e = Temporary Eof then (Inr (), s) else (Inl e, s) | _ \<Rightarrow> r)"

definition dp_signal ::
    "registry \<Rightarrow> 's stage \<Rightarrow> 'l l2_chain_provider \<Rightarrow> signal \<Rightarrow> (('s, 'l) derivation_pipeline, unit) pop" where
  "dp_signal reg stage lcp sig dp =
     (case sig of
        SignalReset rs \<Rightarrow>
          pop_then (initial_reset reg lcp (rs_l2_safe_head rs) dp) (\<lambda>(l1_origin, sys) dp.
            Some (allow_eof (dp_on_attributes (st_reset stage l1_origin sys) dp)))
      | SignalActivation _ \<Rightarrow> Some (allow_eof (dp_on_attributes (st_activate stage) dp))
      | SignalFlushChannel \<Rightarrow> Some (dp_on_attributes (st_flush_channel stage) dp))"

definition dp_step ::
    "'s stage \<Rightarrow> (l2_block_info \<Rightarrow> ('s, attributes_with_parent) pop) \<Rightarrow> l2_block_info
     \<Rightarrow> ('s, 'l) derivation_pipeline \<Rightarrow> (step_result \<times> ('s, 'l) derivation_pipeline) option" where
  "dp_step stage next_attributes cursor dp =
     (case pop_on_prev dp_attributes (\<lambda>s. dp_attributes_update (\<lambda>_. s)) (next_attributes cursor) dp of
        None \<Rightarrow> None
      | Some (Inr a, dp) \<Rightarrow> Some (PreparedAttributes, dp\<lparr>dp_prepared := dp_prepared dp @ [a]\<rparr>)
      | Some (Inl err, dp) \<Rightarrow>
          if err = Temporary Eof then
            (case dp_on_attributes (st_advance_origin stage) dp of
               (Inl e, dp) \<Rightarrow> Some (OriginAdvanceErr e, dp)
             | (Inr _, dp) \<Rightarrow> Some (AdvancedOrigin, dp))
          else Some (StepFailed err, dp))"

section \<open>The stack of stages\<close>

type_synonym ('c, 'd) l1_retrieval_stage = "('d, 'c polling_traversal) l1_retrieval"
type_synonym ('c, 'd) frame_queue_stage = "('c, 'd) l1_retrieval_stage frame_queue"
type_synonym ('c, 'd) channel_provider_stage = "('c, 'd) frame_queue_stage channel_provider"
type_synonym ('c, 'd) channel_reader_stage = "('c, 'd) channel_provider_stage channel_reader"
type_synonym ('c, 'd) batch_stream_stage = "('c, 'd) channel_reader_stage batch_stream"
type_synonym ('c, 'd) batch_provider_stage = "('c, 'd) batch_stream_stage batch_provider"
type_synonym ('c, 'd, 'ab) attributes_queue_stage = "(('c, 'd) batch_provider_stage, 'ab) attributes_queue"

text \<open>The operations of the providers, codecs and the attributes builder the stages are given.\<close>

record ('c, 'd, 'z, 'ab) pipeline_env =
  pe_registry :: registry
  pe_abi :: abi
  pe_chain_provider :: "'c chain_provider"
  pe_da_provider :: "'d da_provider"
  pe_decompressors :: "'z decompressors"
  pe_batch_codecs :: batch_codecs
  pe_fetcher :: batch_validation_provider
  pe_block_by_hash :: "hash32 \<Rightarrow> pipeline_error_kind + l2_block_info"
  pe_build :: "'ab attributes_builder"

definition tw_traversal :: "('c, 'd, 'z, 'ab) pipeline_env \<Rightarrow> 'c polling_traversal stage" where
  "tw_traversal pe = pt_stage (pe_registry pe) (pe_abi pe) (pe_chain_provider pe)"

definition tw_retrieval :: "('c, 'd, 'z, 'ab) pipeline_env \<Rightarrow> ('c, 'd) l1_retrieval_stage stage" where
  "tw_retrieval pe = lr_stage (tw_traversal pe) (pe_da_provider pe)"

definition tw_frame_queue :: "('c, 'd, 'z, 'ab) pipeline_env \<Rightarrow> ('c, 'd) frame_queue_stage stage" where
  "tw_frame_queue pe = fq_stage (tw_retrieval pe)"

definition tw_channel_provider :: "('c, 'd, 'z, 'ab) pipeline_env \<Rightarrow> ('c, 'd) channel_provider_stage stage" where
  "tw_channel_provider pe = cp_stage (pe_registry pe) (tw_frame_queue pe)"

definition tw_channel_reader :: "('c, 'd, 'z, 'ab) pipeline_env \<Rightarrow> ('c, 'd) channel_reader_stage stage" where
  "tw_channel_reader pe = cr_stage (tw_channel_provider pe)"

definition tw_batch_stream :: "('c, 'd, 'z, 'ab) pipeline_env \<Rightarrow> ('c, 'd) batch_stream_stage stage" where
  "tw_batch_stream pe = bst_stage (tw_channel_reader pe)"

definition tw_batch_provider :: "('c, 'd, 'z, 'ab) pipeline_env \<Rightarrow> ('c, 'd) batch_provider_stage stage" where
  "tw_batch_provider pe = bp_stage (pe_registry pe) (tw_batch_stream pe)"

definition tw_attributes_queue :: "('c, 'd, 'z, 'ab) pipeline_env \<Rightarrow> ('c, 'd, 'ab) attributes_queue_stage stage" where
  "tw_attributes_queue pe = aq_stage (tw_batch_provider pe)"

text \<open>How each stage pulls from the one below it, from L1 blocks up to batches.\<close>

definition tw_next_data :: "('c, 'd, 'z, 'ab) pipeline_env \<Rightarrow> (('c, 'd) l1_retrieval_stage, bytes) op" where
  "tw_next_data pe = lr_next_data traversal_provider (pe_da_provider pe)"

definition tw_next_frame :: "('c, 'd, 'z, 'ab) pipeline_env \<Rightarrow> (('c, 'd) frame_queue_stage, frame) op" where
  "tw_next_frame pe = fq_next_frame (pe_registry pe) (tw_retrieval pe) (tw_next_data pe)"

definition tw_next_channel :: "('c, 'd, 'z, 'ab) pipeline_env \<Rightarrow> (('c, 'd) channel_provider_stage, bytes option) op" where
  "tw_next_channel pe = cp_next_data (pe_registry pe) (tw_frame_queue pe) (tw_next_frame pe)"

definition tw_batches :: "('c, 'd, 'z, 'ab) pipeline_env \<Rightarrow> ('c, 'd) batch_stream_stage next_batch_provider" where
  "tw_batches pe =
     bst_provider (pe_registry pe) (tw_channel_reader pe)
       (cr_provider (pe_registry pe) (tw_channel_provider pe) (tw_next_channel pe) (pe_decompressors pe)
         (pe_batch_codecs pe)) (pe_fetcher pe)"

definition tw_next_attributes ::
    "('c, 'd, 'z, 'ab) pipeline_env \<Rightarrow> l2_block_info \<Rightarrow> (('c, 'd, 'ab) attributes_queue_stage, attributes_with_parent) pop" where
  "tw_next_attributes pe =
     aq_next_attributes (tw_batch_provider pe)
       (bp_attributes_provider (pe_registry pe) (tw_batch_stream pe) (pe_fetcher pe) (pe_block_by_hash pe) (tw_batches pe))
       (pe_build pe)"

section \<open>The builder\<close>

record ('ab, 'c, 'l, 'd) pipeline_builder =
  pb_l2_chain_provider :: "'l option"
  pb_dap_source :: "'d option"
  pb_chain_provider :: "'c option"
  pb_builder :: "'ab option"
  pb_origin :: "block_info option"
  pb_rollup_config :: "rollup_config option"
  pb_da_batcher_sender_override :: "address option"

definition pb_new :: "('ab, 'c, 'l, 'd) pipeline_builder" where
  "pb_new =
     \<lparr>pb_l2_chain_provider = None, pb_dap_source = None, pb_chain_provider = None, pb_builder = None,
      pb_origin = None, pb_rollup_config = None, pb_da_batcher_sender_override = None\<rparr>"

text \<open>\<open>None\<close> is the panic on a field that is not set.\<close>

definition build_polled ::
    "('ab, 'c, 'l, 'd) pipeline_builder \<Rightarrow> (('c, 'd, 'ab) attributes_queue_stage, 'l) derivation_pipeline option" where
  "build_polled b =
     (case (pb_rollup_config b, pb_chain_provider b, pb_l2_chain_provider b, pb_dap_source b, pb_builder b, pb_origin b) of
        (Some cfg, Some chain_provider, Some l2_chain_provider, Some dap_source, Some attributes_builder, Some orig) \<Rightarrow>
          let l1_traversal = (pt_new chain_provider cfg)\<lparr>pt_block := Some orig\<rparr>;
              l1_traversal = (case gen_system_config (rc_genesis cfg) of
                  Some sys \<Rightarrow> l1_traversal\<lparr>pt_system_config := sys\<rparr> | None \<Rightarrow> l1_traversal);
              l1_retrieval = lr_with_da_batcher_sender_override (pb_da_batcher_sender_override b)
                (lr_new l1_traversal dap_source);
              frame_queue = fq_new l1_retrieval cfg;
              channel_provider = cp_new cfg frame_queue;
              channel_reader = cr_new channel_provider cfg;
              batch_stream = bst_new channel_reader cfg;
              batch_provider = bp_new cfg batch_stream;
              attributes = aq_new cfg batch_provider attributes_builder
          in Some (dp_new attributes cfg l2_chain_provider)
      | _ \<Rightarrow> None)"

section \<open>Where a reset resumes\<close>

definition walk_stops :: "rollup_config \<Rightarrow> u64 \<Rightarrow> u64 \<Rightarrow> l2_block_info \<Rightarrow> bool" where
  "walk_stops cfg timeout l1_origin_number b \<longleftrightarrow>
     bi_number (l2_block b) = bnh_number (gen_l2 (rc_genesis cfg)) \<or>
     bnh_number (l2_l1_origin b) + timeout \<le> l1_origin_number"

text \<open>The provider knows the parents along a chain that is listed from its newest block back.\<close>

fun serves_parents :: "'l l2_chain_provider \<Rightarrow> l2_block_info list \<Rightarrow> bool" where
  "serves_parents lcp (b # p # bs) \<longleftrightarrow>
     (\<forall>l. fst (lcp_l2_block_info_by_hash lcp (bi_parent_hash (l2_block b)) l) = Inr p) \<and> serves_parents lcp (p # bs)"
| "serves_parents lcp _ \<longleftrightarrow> True"

definition resume_block :: "rollup_config \<Rightarrow> u64 \<Rightarrow> u64 \<Rightarrow> l2_block_info list \<Rightarrow> l2_block_info" where
  "resume_block cfg timeout l1_origin_number chain =
     hd (dropWhile (\<lambda>b. \<not> walk_stops cfg timeout l1_origin_number b) chain)"

lemma walk_back_resumes:
  assumes "serves_parents lcp (b # bs)" and "list_ex (walk_stops cfg timeout n) (b # bs)"
  shows "\<exists>l'. walk_back lcp cfg timeout n b l = Some (Inr (resume_block cfg timeout n (b # bs)), l')"
  using assms
proof (induction bs arbitrary: b l)
  case Nil
  then show ?case by (subst walk_back.simps) (auto simp: walk_stops_def resume_block_def)
next
  case (Cons p bs)
  show ?case
  proof (cases "walk_stops cfg timeout n b")
    case True
    then show ?thesis by (subst walk_back.simps) (auto simp: walk_stops_def resume_block_def)
  next
    case False
    obtain l1 where l1: "lcp_l2_block_info_by_hash lcp (bi_parent_hash (l2_block b)) l = (Inr p, l1)"
      using Cons.prems(1) by (metis prod.collapse serves_parents.simps(1))
    have "\<exists>l'. walk_back lcp cfg timeout n p l1 = Some (Inr (resume_block cfg timeout n (p # bs)), l')"
      using Cons.prems False by (intro Cons.IH) auto
    then show ?thesis
      using False l1 by (subst walk_back.simps) (auto simp: walk_stops_def resume_block_def)
  qed
qed

text \<open>
  The timeout of a reset is read at a lower bound of the time of the L1 origin, so it is never the shorter one
  too early.
\<close>

lemma fork_active_mono: "fork_active reg cfg u t \<Longrightarrow> t \<le> t' \<Longrightarrow> fork_active reg cfg u t'"
  by (auto simp: fork_active_def split: option.splits)

lemma granite_active_mono: "is_granite_active reg cfg t \<Longrightarrow> t \<le> t' \<Longrightarrow> is_granite_active reg cfg t'"
  by (auto simp: Rollup_Config.fork_defs intro: fork_active_mono)

lemma reset_timeout_widens:
  assumes "rc_granite_channel_timeout cfg \<le> rc_channel_timeout cfg"
    and "sat_sub (bi_timestamp (l2_block head)) (max_sequencer_drift reg cfg (bi_timestamp (l2_block head))) \<le> t"
  shows "channel_timeout reg cfg t \<le> reset_timeout reg cfg head"
  using assms granite_active_mono [OF _ assms(2)]
  by (auto simp: reset_timeout_def channel_timeout_def Let_def)

lemma walk_stops_no_wrap:
  assumes "bnh_number (l2_l1_origin b) \<le> n" and "unat n + unat timeout < 2 ^ 64"
  shows "walk_stops cfg timeout n b \<longleftrightarrow> bi_number (l2_block b) = bnh_number (gen_l2 (rc_genesis cfg)) \<or>
    unat (bnh_number (l2_l1_origin b)) + unat timeout \<le> unat n"
proof -
  have "unat (bnh_number (l2_l1_origin b) + timeout) = unat (bnh_number (l2_l1_origin b)) + unat timeout"
    using assms by (intro unat_add_lem [THEN iffD1]) (simp add: word_le_nat_alt)
  then show ?thesis by (simp add: walk_stops_def word_le_nat_alt)
qed

lemma walk_back_splits:
  assumes "serves_parents lcp (b # bs)" and "list_ex (walk_stops cfg timeout n) (b # bs)"
  obtains newer resume older l' where "walk_back lcp cfg timeout n b l = Some (Inr resume, l')"
    "b # bs = newer @ resume # older" "walk_stops cfg timeout n resume"
    "\<forall>b \<in> set newer. \<not> walk_stops cfg timeout n b"
proof -
  let ?P = "\<lambda>b. \<not> walk_stops cfg timeout n b"
  obtain l' where l': "walk_back lcp cfg timeout n b l = Some (Inr (resume_block cfg timeout n (b # bs)), l')"
    using walk_back_resumes [OF assms] by blast
  have "dropWhile ?P (b # bs) \<noteq> []" using assms(2) by (auto simp: list_ex_iff)
  then obtain resume older where d: "dropWhile ?P (b # bs) = resume # older" by (cases "dropWhile ?P (b # bs)") auto
  then have "b # bs = takeWhile ?P (b # bs) @ resume # older" by (metis takeWhile_dropWhile_id)
  moreover have "walk_stops cfg timeout n resume" using d by (metis dropWhile_eq_Cons_conv)
  ultimately show thesis
    using l' d by (intro that [of resume l' "takeWhile ?P (b # bs)" older]) (auto simp: resume_block_def dest: set_takeWhileD)
qed

text \<open>
  C5. A reset goes back far enough for every open channel, and no further. When the provider knows the
  ancestors of the safe head down to the genesis block, whose L1 origins are not later than that of the safe
  head, and the configurations, the walk ends and gives the L1 origin and the configuration of one
  block of the chain. Unless that is the genesis block, no channel that has not timed out at the safe head's L1
  origin was opened before the L1 origin returned. Here the timeout is the one in force at the time of that
  L1 block, of which only the sequencer-drift bound is known; it may be shorter than the one the walk uses. Every block
  after the one found is past genesis and its L1 origin less than the timeout of the walk behind that of the safe head.
\<close>

theorem initial_reset_covers_window:
  fixes dp :: "('s, 'l) derivation_pipeline" and reg :: registry and head :: l2_block_info and orig :: block_info
  defines "cfg \<equiv> dp_rollup_config dp" and "n \<equiv> bnh_number (l2_l1_origin head)"
    and "t \<equiv> bi_timestamp (l2_block head)" and "genesis \<equiv> \<lambda>b. bi_number (l2_block b) = bnh_number (gen_l2 (rc_genesis (dp_rollup_config dp)))"
  assumes "serves_parents lcp (head # bs)" and "genesis (last (head # bs))"
    and "\<And>h l. fst (lcp_system_config_by_l2_hash lcp h cfg l) = Inr (config h)"
    and "\<forall>b \<in> set bs. bnh_number (l2_l1_origin b) \<le> n"
    and "unat n + unat (reset_timeout reg cfg head) < 2 ^ 64"
    and "rc_granite_channel_timeout cfg \<le> rc_channel_timeout cfg"
    and "bi_number orig = n" and "sat_sub t (max_sequencer_drift reg cfg t) \<le> bi_timestamp orig"
  shows "\<exists>newer resume older dp'. initial_reset reg lcp head dp =
      Some (Inr (l2_l1_origin resume, config (bi_hash (l2_block resume))), dp') \<and>
    head # bs = newer @ resume # older \<and>
    (genesis resume \<or> (\<forall>c. open_block_number c \<le> n \<and> \<not> timed_out reg cfg orig c \<longrightarrow>
      bnh_number (l2_l1_origin resume) \<le> open_block_number c)) \<and>
    (\<forall>b \<in> set newer. \<not> genesis b \<and>
      unat n < unat (bnh_number (l2_l1_origin b)) + unat (reset_timeout reg cfg head))"
proof -
  let ?T = "reset_timeout reg cfg head" and ?T' = "channel_timeout reg cfg (bi_timestamp orig)"
  have g: "genesis b \<longleftrightarrow> bi_number (l2_block b) = bnh_number (gen_l2 (rc_genesis cfg))" for b
    by (simp add: genesis_def cfg_def)
  have "walk_stops cfg ?T n (last (head # bs))" using assms(6) by (simp add: walk_stops_def g)
  then have ex: "list_ex (walk_stops cfg ?T n) (head # bs)"
    unfolding list_ex_iff using last_in_set [of "head # bs"] by blast
  obtain newer resume older l' where w:
    "walk_back lcp cfg ?T n head (dp_l2_chain_provider dp) = Some (Inr resume, l')"
    "head # bs = newer @ resume # older" "walk_stops cfg ?T n resume" "\<forall>b \<in> set newer. \<not> walk_stops cfg ?T n b"
    by (rule walk_back_splits [OF assms(5) ex])
  obtain l'' where c: "lcp_system_config_by_l2_hash lcp (bi_hash (l2_block resume)) cfg l' =
      (Inr (config (bi_hash (l2_block resume))), l'')"
    using assms(7) [of _ l'] by (metis prod.collapse)
  have i: "initial_reset reg lcp head dp =
      Some (Inr (l2_l1_origin resume, config (bi_hash (l2_block resume))), dp\<lparr>dp_l2_chain_provider := l''\<rparr>)"
    using w(1) c by (simp add: initial_reset_def Let_def pop_on_prev_def cfg_def n_def)
  have stops: "walk_stops cfg ?T n b \<longleftrightarrow> genesis b \<or> unat (bnh_number (l2_l1_origin b)) + unat ?T \<le> unat n"
    if "b \<in> set (newer @ resume # older)" for b
    using that assms(8) walk_stops_no_wrap [OF _ assms(9), of b cfg] unfolding w(2) [symmetric] by (auto simp: n_def g)
  have "unat ?T' \<le> unat ?T"
    using reset_timeout_widens [OF assms(10) assms(12) [unfolded t_def]] by (simp add: word_le_nat_alt)
  moreover have "unat (open_block_number c + ?T') = unat (open_block_number c) + unat ?T'"
    if "open_block_number c \<le> n" for c
    using that calculation assms(9) by (intro unat_add_lem [THEN iffD1]) (simp add: word_le_nat_alt)
  ultimately have "bnh_number (l2_l1_origin resume) \<le> open_block_number c"
    if "\<not> genesis resume" "open_block_number c \<le> n" "\<not> timed_out reg cfg orig c" for c
    using that w(3) stops [of resume] assms(11) by (simp add: timed_out_def word_le_nat_alt word_less_nat_alt not_less)
  then show ?thesis
    using i w(2,4) stops by (intro exI [of _ newer] exI [of _ resume] exI [of _ older] exI conjI) auto
qed

section \<open>A reset empties the stack\<close>

text \<open>
  What a stage promises of a reset: while it is live it knows its origin, and when the L1 provider
  at the bottom serves the block of the new origin, the reset succeeds and leaves the stage
  fresh at that block and configuration, and live.
\<close>

locale reset_stage =
  fixes stage :: "'s stage"
    and live :: "'s \<Rightarrow> bool"
    and serves :: "block_num_hash \<Rightarrow> block_info \<Rightarrow> 's \<Rightarrow> bool"
    and fresh :: "block_info \<Rightarrow> system_config \<Rightarrow> 's \<Rightarrow> bool"
  assumes live_origin: "live s \<Longrightarrow> st_origin stage s \<noteq> None"
    and fresh_origin: "fresh block sys s \<Longrightarrow> st_origin stage s = Some block"
    and resets: "live s \<Longrightarrow> serves l1_origin block s \<Longrightarrow>
      \<exists>s'. st_reset stage l1_origin sys s = (Inr (), s') \<and> live s' \<and> fresh block sys s'"

definition held :: "('s \<Rightarrow> 'p option) \<Rightarrow> ('p \<Rightarrow> bool) \<Rightarrow> 's \<Rightarrow> bool" where
  "held owner P s = (case owner s of None \<Rightarrow> False | Some p \<Rightarrow> P p)"

text \<open>A fresh stage: nothing is buffered, and the stage below is fresh.\<close>

definition pt_serves :: "'c chain_provider \<Rightarrow> block_num_hash \<Rightarrow> block_info \<Rightarrow> 'c polling_traversal \<Rightarrow> bool" where
  "pt_serves chp l1_origin block pt \<longleftrightarrow>
     fst (chp_block_info_by_number chp (bnh_number l1_origin) (pt_data_source pt)) = Inr block"

definition pt_fresh :: "block_info \<Rightarrow> system_config \<Rightarrow> 'c polling_traversal \<Rightarrow> bool" where
  "pt_fresh block sys pt \<longleftrightarrow> pt_block pt = Some block \<and> \<not> pt_done pt \<and> pt_system_config pt = sys"

definition lr_fresh :: "'d da_provider \<Rightarrow> ('p \<Rightarrow> bool) \<Rightarrow> block_info \<Rightarrow> ('d, 'p) l1_retrieval \<Rightarrow> bool" where
  "lr_fresh dap below block lr \<longleftrightarrow>
     below (lr_prev lr) \<and> lr_next lr = Some block \<and> lr_provider lr \<in> range (dap_clear dap)"

definition fq_fresh :: "('p \<Rightarrow> bool) \<Rightarrow> 'p frame_queue \<Rightarrow> bool" where
  "fq_fresh below fq \<longleftrightarrow> below (fq_prev fq) \<and> fq_queue fq = []"

definition cp_fresh :: "('p \<Rightarrow> bool) \<Rightarrow> 'p channel_provider \<Rightarrow> bool" where
  "cp_fresh below cp \<longleftrightarrow> held cp_owner below cp \<and>
     (case cp_channel_assembler cp of None \<Rightarrow> True | Some ca \<Rightarrow> ca_channel ca = None) \<and>
     (case cp_channel_bank cp of None \<Rightarrow> True | Some cb \<Rightarrow> cb_channels cb = [] \<and> cb_channel_queue cb = [])"

definition cr_fresh :: "('p \<Rightarrow> bool) \<Rightarrow> 'p channel_reader \<Rightarrow> bool" where
  "cr_fresh below cr \<longleftrightarrow> below (cr_prev cr) \<and> cr_next_batch cr = None"

definition bst_fresh :: "('p \<Rightarrow> bool) \<Rightarrow> 'p batch_stream \<Rightarrow> bool" where
  "bst_fresh below bst \<longleftrightarrow> below (bst_prev bst) \<and> bst_span bst = None \<and> bst_buffer bst = []"

definition bp_fresh :: "('p \<Rightarrow> bool) \<Rightarrow> block_info \<Rightarrow> 'p batch_provider \<Rightarrow> bool" where
  "bp_fresh below block bp \<longleftrightarrow> held bp_owner below bp \<and>
     (case bp_batch_validator bp of
        None \<Rightarrow> True
      | Some bv \<Rightarrow> bv_pending_batch bv = None \<and> bv_origin bv = Some block \<and> bv_l1_blocks bv = [block]) \<and>
     (case bp_batch_queue bp of
        None \<Rightarrow> True
      | Some bq \<Rightarrow> bq_origin bq = Some block \<and> bq_l1_blocks bq = [block] \<and> bq_batches bq = [] \<and> bq_next_spans bq = [])"

definition aq_fresh :: "('p \<Rightarrow> bool) \<Rightarrow> ('p, 'b) attributes_queue \<Rightarrow> bool" where
  "aq_fresh below aq \<longleftrightarrow> below (aq_prev aq) \<and> aq_batch aq = None \<and> \<not> aq_is_last_in_span aq"

interpretation pts: reset_stage "pt_stage reg abi chp" "\<lambda>pt. pt_block pt \<noteq> None" "pt_serves chp" pt_fresh
  for reg abi chp
  by unfold_locales
    (auto simp: pt_stage_def pt_fresh_def pt_serves_def pt_reset_def on_prev_def pt_update_origin_def
      split: prod.splits)

text \<open>Once the stage below knows its origin, the multiplexers hand it to one of their two stages.\<close>

lemma cp_update_live:
  assumes "cp_owner cp = Some p" and "st_origin prev_stage p \<noteq> None"
  shows "\<exists>cp'. cp_attempt_update reg prev_stage cp = (Inr (), cp') \<and> cp_prev cp' = None \<and>
    ((\<exists>ca. cp_channel_bank cp' = None \<and> cp_channel_assembler cp' = Some ca \<and> ca_prev ca = p) \<or>
     (\<exists>cb. cp_channel_bank cp' = Some cb \<and> cp_channel_assembler cp' = None \<and> cb_prev cb = p))"
  using assms(1)
  by (cases rule: cp_owner_cases)
    (use assms(2) in \<open>auto simp: cp_attempt_update_def cp_origin_def ca_origin_def cb_origin_def ca_new_def cb_new_def
      Let_def split: bool.split\<close>)

lemma bp_update_live:
  assumes "bp_owner bp = Some p" and "st_origin prev_stage p \<noteq> None"
  shows "\<exists>bp'. bp_attempt_update reg prev_stage bp = (Inr (), bp') \<and> bp_prev bp' = None \<and>
    ((\<exists>bv. bp_batch_queue bp' = None \<and> bp_batch_validator bp' = Some bv \<and> bv_prev bv = p) \<or>
     (\<exists>bq. bp_batch_queue bp' = Some bq \<and> bp_batch_validator bp' = None \<and> bq_prev bq = p))"
  using assms(1)
  by (cases rule: bp_owner_cases)
    (use assms(2) in \<open>auto simp: bp_attempt_update_def bp_origin_def bv_stage_def bq_stage_def bv_new_def bq_new_def
      Let_def\<close>)

context reset_stage
begin

text \<open>A stage that resets the one below and then clears its own buffers.\<close>

lemma over_stage:
  assumes "\<And>s. st_origin stage' s = st_origin stage (get s)"
    and "\<And>l1_origin sys s. st_reset stage' l1_origin sys s =
      op_then (on_prev get put (st_reset stage l1_origin sys) s) (\<lambda>_ s. (Inr (), clear s))"
    and "\<And>p s. get (clear (put p s)) = p"
    and "\<And>block sys p s. fresh block sys p \<Longrightarrow> fresh' block sys (clear (put p s))"
    and "\<And>block sys s. fresh' block sys s \<Longrightarrow> fresh block sys (get s)"
  shows "reset_stage stage' (\<lambda>s. live (get s)) (\<lambda>l1_origin block s. serves l1_origin block (get s)) fresh'"
proof
  fix s l1_origin block sys
  assume "live (get s)" "serves l1_origin block (get s)"
  then obtain p where "st_reset stage l1_origin sys (get s) = (Inr (), p)" "live p" "fresh block sys p"
    using resets by blast
  then show "\<exists>s'. st_reset stage' l1_origin sys s = (Inr (), s') \<and> live (get s') \<and> fresh' block sys s'"
    using assms(2-4) by (simp add: on_prev_def)
next
  fix block sys s
  assume "fresh' block sys s"
  then show "st_origin stage' s = Some block" using assms(1,5) fresh_origin by metis
qed (simp add: assms(1) live_origin)

lemma over_retrieval:
  "reset_stage (lr_stage stage dap) (\<lambda>lr. live (lr_prev lr)) (\<lambda>l1_origin block lr. serves l1_origin block (lr_prev lr))
     (\<lambda>block sys. lr_fresh dap (fresh block sys) block)"
  by (rule over_stage [where put = "\<lambda>p. lr_prev_update (\<lambda>_. p)" and
      clear = "\<lambda>lr. lr\<lparr>lr_provider := dap_clear dap (lr_provider lr), lr_next := st_origin stage (lr_prev lr)\<rparr>"])
    (auto simp: lr_stage_def lr_after_prev_def lr_fresh_def fresh_origin)

lemma over_frame_queue:
  "reset_stage (fq_stage stage) (\<lambda>fq. live (fq_prev fq)) (\<lambda>l1_origin block fq. serves l1_origin block (fq_prev fq))
     (\<lambda>block sys. fq_fresh (fresh block sys))"
  by (rule over_stage [where put = "\<lambda>p. fq_prev_update (\<lambda>_. p)" and clear = "fq_queue_update (\<lambda>_. [])"])
    (auto simp: fq_stage_def fq_origin_def fq_after_prev_def fq_fresh_def)

lemma over_channel_reader:
  "reset_stage (cr_stage stage) (\<lambda>cr. live (cr_prev cr)) (\<lambda>l1_origin block cr. serves l1_origin block (cr_prev cr))
     (\<lambda>block sys. cr_fresh (fresh block sys))"
  by (rule over_stage [where put = "\<lambda>p. cr_prev_update (\<lambda>_. p)" and clear = cr_next_channel])
    (auto simp: cr_stage_def cr_next_channel_def cr_fresh_def)

lemma over_batch_stream:
  "reset_stage (bst_stage stage) (\<lambda>bst. live (bst_prev bst)) (\<lambda>l1_origin block bst. serves l1_origin block (bst_prev bst))
     (\<lambda>block sys. bst_fresh (fresh block sys))"
  by (rule over_stage [where put = "\<lambda>p. bst_prev_update (\<lambda>_. p)" and
      clear = "\<lambda>bst. bst\<lparr>bst_buffer := [], bst_span := None\<rparr>"])
    (auto simp: bst_stage_def bst_after_prev_def bst_fresh_def)

lemma over_attributes_queue:
  "reset_stage (aq_stage stage) (\<lambda>aq. live (aq_prev aq)) (\<lambda>l1_origin block aq. serves l1_origin block (aq_prev aq))
     (\<lambda>block sys. aq_fresh (fresh block sys))"
  by (rule over_stage [where put = "\<lambda>p. aq_prev_update (\<lambda>_. p)" and
      clear = "\<lambda>aq. aq\<lparr>aq_batch := None, aq_is_last_in_span := False\<rparr>"])
    (auto simp: aq_stage_def aq_after_prev_def aq_fresh_def)

lemma over_channel_provider:
  "reset_stage (cp_stage reg stage) (held cp_owner live) (\<lambda>l1_origin block. held cp_owner (serves l1_origin block))
     (\<lambda>block sys. cp_fresh (fresh block sys))"
proof
  fix s :: "'s channel_provider" and l1_origin block sys
  assume "held cp_owner live s" "held cp_owner (serves l1_origin block) s"
  then obtain p where p: "cp_owner s = Some p" "live p" "serves l1_origin block p"
    by (auto simp: held_def split: option.splits)
  obtain p' where p': "st_reset stage l1_origin sys p = (Inr (), p')" "live p'" "fresh block sys p'"
    using resets p(2,3) by blast
  from cp_update_live [OF p(1) live_origin [OF p(2)], of reg] p'
  show "\<exists>s'. st_reset (cp_stage reg stage) l1_origin sys s = (Inr (), s') \<and> held cp_owner live s' \<and>
      cp_fresh (fresh block sys) s'"
    by (auto simp: cp_stage_def cp_dispatch_def ca_stage_def ca_after_prev_def cb_stage_def cb_after_prev_def
        on_prev_def held_def cp_owner_def cp_fresh_def)
qed (auto simp: cp_stage_def cp_fresh_def held_def fresh_origin cp_origin_owner split: option.splits dest!: live_origin)

lemma over_batch_provider:
  "reset_stage (bp_stage reg stage) (held bp_owner live) (\<lambda>l1_origin block. held bp_owner (serves l1_origin block))
     (\<lambda>block sys. bp_fresh (fresh block sys) block)"
proof
  fix s :: "'s batch_provider" and l1_origin block sys
  assume "held bp_owner live s" "held bp_owner (serves l1_origin block) s"
  then obtain p where p: "bp_owner s = Some p" "live p" "serves l1_origin block p"
    by (auto simp: held_def split: option.splits)
  obtain p' where p': "st_reset stage l1_origin sys p = (Inr (), p')" "live p'" "fresh block sys p'"
    using resets p(2,3) by blast
  from bp_update_live [OF p(1) live_origin [OF p(2)], of reg] p' fresh_origin [OF p'(3)]
  show "\<exists>s'. st_reset (bp_stage reg stage) l1_origin sys s = (Inr (), s') \<and> held bp_owner live s' \<and>
      bp_fresh (fresh block sys) block s'"
    by (auto simp: bp_stage_def bp_dispatch_def bv_stage_def bv_reset_def bq_stage_def bq_reset_def
        on_prev_def held_def bp_owner_def bp_fresh_def Let_def)
qed (auto simp: bp_stage_def bp_fresh_def held_def Let_def fresh_origin bp_origin_owner split: option.splits dest!: live_origin)

end

text \<open>The whole stack, from the traversal of L1 to the attributes queue.\<close>

definition tower_live :: "('c, 'd, 'ab) attributes_queue_stage \<Rightarrow> bool" where
  "tower_live aq =
     held bp_owner (\<lambda>bst. held cp_owner (\<lambda>fq. pt_block (lr_prev (fq_prev fq)) \<noteq> None) (cr_prev (bst_prev bst)))
       (aq_prev aq)"

definition tower_serves ::
    "('c, 'd, 'z, 'ab) pipeline_env \<Rightarrow> block_num_hash \<Rightarrow> block_info \<Rightarrow> ('c, 'd, 'ab) attributes_queue_stage \<Rightarrow> bool" where
  "tower_serves pe l1_origin block aq =
     held bp_owner (\<lambda>bst. held cp_owner
         (\<lambda>fq. pt_serves (pe_chain_provider pe) l1_origin block (lr_prev (fq_prev fq))) (cr_prev (bst_prev bst)))
       (aq_prev aq)"

definition tower_fresh ::
    "('c, 'd, 'z, 'ab) pipeline_env \<Rightarrow> block_info \<Rightarrow> system_config \<Rightarrow> ('c, 'd, 'ab) attributes_queue_stage \<Rightarrow> bool" where
  "tower_fresh pe block sys =
     aq_fresh (bp_fresh (bst_fresh (cr_fresh (cp_fresh (fq_fresh
       (lr_fresh (pe_da_provider pe) (pt_fresh block sys) block))))) block)"

interpretation tw: reset_stage "tw_attributes_queue pe" tower_live "tower_serves pe" "tower_fresh pe"
  for pe
  unfolding tower_live_def [abs_def] tower_serves_def [abs_def] tower_fresh_def [abs_def]
    tw_attributes_queue_def tw_batch_provider_def tw_batch_stream_def tw_channel_reader_def tw_channel_provider_def
    tw_frame_queue_def tw_retrieval_def tw_traversal_def
  by (intro reset_stage.over_attributes_queue reset_stage.over_batch_provider reset_stage.over_batch_stream
      reset_stage.over_channel_reader reset_stage.over_channel_provider reset_stage.over_frame_queue
      reset_stage.over_retrieval pts.reset_stage_axioms)

text \<open>
  C3. A reset signal resumes derivation. On a live stack, and with providers that know the ancestors
  of the safe head, the configuration at the block where the walk back ends and the L1 block it
  was derived from, the signal succeeds. Afterwards every stage of the stack, from the L1
  traversal to the attributes queue, has empty buffers; the traversal is at the L1 origin
  of that block with its configuration and has not handed the block out yet; the windows of
  the batch stage hold just that block. Attributes that were prepared before are kept.
\<close>

theorem reset_signal_resumes:
  fixes pe :: "('c, 'd, 'z, 'ab) pipeline_env" and dp :: "(('c, 'd, 'ab) attributes_queue_stage, 'l) derivation_pipeline"
    and head :: l2_block_info and bs :: "l2_block_info list"
  defines "cfg \<equiv> dp_rollup_config dp"
  defines "timeout \<equiv> reset_timeout (pe_registry pe) cfg head" and "n \<equiv> bnh_number (l2_l1_origin head)"
  defines "resume \<equiv> resume_block cfg timeout n (head # bs)"
  assumes "serves_parents lcp (head # bs)" and "list_ex (walk_stops cfg timeout n) (head # bs)"
    and "\<And>l. fst (lcp_system_config_by_l2_hash lcp (bi_hash (l2_block resume)) cfg l) = Inr sys"
    and "tower_live (dp_attributes dp)" and "tower_serves pe (l2_l1_origin resume) block (dp_attributes dp)"
  shows "\<exists>dp'. dp_signal (pe_registry pe) (tw_attributes_queue pe) lcp (SignalReset \<lparr>rs_l2_safe_head = head\<rparr>) dp =
      Some (Inr (), dp') \<and> tower_fresh pe block sys (dp_attributes dp') \<and> tower_live (dp_attributes dp') \<and>
    dp_origin (tw_attributes_queue pe) dp' = Some block \<and> dp_prepared dp' = dp_prepared dp"
proof -
  obtain l' where w: "walk_back lcp cfg timeout n head (dp_l2_chain_provider dp) = Some (Inr resume, l')"
    using walk_back_resumes [OF assms(5,6)] unfolding resume_def by blast
  obtain l'' where c: "lcp_system_config_by_l2_hash lcp (bi_hash (l2_block resume)) cfg l' = (Inr sys, l'')"
    using assms(7) [of l'] by (metis prod.collapse)
  let ?dp = "dp\<lparr>dp_l2_chain_provider := l''\<rparr>"
  have i: "initial_reset (pe_registry pe) lcp head dp = Some (Inr (l2_l1_origin resume, sys), ?dp)"
    using w c by (simp add: initial_reset_def Let_def pop_on_prev_def cfg_def timeout_def n_def)
  obtain aq where aq: "st_reset (tw_attributes_queue pe) (l2_l1_origin resume) sys (dp_attributes dp) = (Inr (), aq)"
    "tower_live aq" "tower_fresh pe block sys aq"
    using tw.resets [OF assms(8,9)] by blast
  then show ?thesis
    using i tw.fresh_origin [OF aq(3)]
    by (simp add: dp_signal_def on_prev_def allow_eof_def dp_origin_def)
qed

section \<open>Prepared attributes are sound\<close>

text \<open>
  A first transaction from which every block that starts with it is read back with the given L1
  origin and sequence number.
\<close>

definition reads_back :: "rlp \<Rightarrow> bytes \<Rightarrow> block_num_hash \<Rightarrow> u64 \<Rightarrow> bool" where
  "reads_back rlp tx0 epoch seq \<longleftrightarrow>
     (\<exists>d0. dep_decode_2718 rlp tx0 = Some (d0, []) \<and>
       (\<forall>bi genesis rest. bi_number bi \<noteq> bnh_number (gen_l2 genesis) \<longrightarrow>
         from_block_and_genesis \<lparr>ob_info = bi, ob_transactions =
             \<lparr>tx_type = DEPOSIT_TX_TYPE, tx_is_deposit = True, tx_encoded = tx0, tx_input = dt_input d0\<rparr> # rest\<rparr> genesis =
           Inr \<lparr>l2_block = bi, l2_l1_origin = epoch, l2_seq_num = seq\<rparr>))"

definition sound_attributes ::
    "registry \<Rightarrow> rollup_config \<Rightarrow> attr_env \<Rightarrow> attr_providers \<Rightarrow> attributes_with_parent \<Rightarrow> bool" where
  "sound_attributes reg cfg ae ap a \<longleftrightarrow>
     (let parent = awp_parent a; at = awp_attributes a; t = pa_timestamp (at_payload_attributes at) in
      t = l2_block_timestamp reg cfg (bi_number (l2_block parent) + 1) \<and> at_no_tx_pool at = Some True \<and>
      (\<exists>epoch header tx0 txs batch_txs.
         at_transactions at = Some ((tx0 # txs) @ batch_txs) \<and>
         list_all is_deposit_bytes (tx0 # txs) \<and> list_all (\<lambda>tx. tx \<noteq> [] \<and> \<not> is_deposit_bytes tx) batch_txs \<and>
         ap_header_by_hash ap (bnh_hash epoch) = Inr header \<and> epoch_links parent epoch header \<and>
         lh_timestamp header \<le> t \<and>
         (epoch_known ap epoch \<longrightarrow> reads_back (ae_rlp ae) tx0 epoch (next_seq_num parent epoch))))"

lemma prepare_reads_back:
  assumes "prepare_payload_attributes reg ae ap b l2_parent epoch = Inr at" and "at_transactions at = Some (tx0 # txs)"
    and "attr_env_ok ae" and "epoch_known ap epoch" and "configs_known ap b"
  shows "reads_back (ae_rlp ae) tx0 epoch (next_seq_num l2_parent epoch)"
proof -
  note binds = prepare_binds_block [OF assms(1,3-5)]
  have "bi_number (block_info_default\<lparr>bi_number := 1\<rparr>) \<noteq> bnh_number (gen_l2 chain_genesis_default)"
    by (simp add: chain_genesis_default_def)
  from binds [OF this, of "[]" "[]"] obtain d0 where d0: "dep_decode_2718 (ae_rlp ae) tx0 = Some (d0, [])"
    using assms(2) by auto
  then show ?thesis
    unfolding reads_back_def
    by (intro exI [of _ d0] conjI allI impI) (use binds [where more_txs = "[]"] assms(2) in fastforce)+
qed

lemma prepare_epoch:
  assumes "prepare_payload_attributes reg ae ap b l2_parent epoch = Inr at"
  shows "\<exists>header. ap_header_by_hash ap (bnh_hash epoch) = Inr header \<and> epoch_links l2_parent epoch header \<and>
    lh_timestamp header \<le> pa_timestamp (at_payload_attributes at)"
  using assms by (rule prepare_Inr) (auto dest: sab_epoch_Inr(1,2))

lemma works_sound:
  assumes "works_on stage (sab_build reg ae ap) parent b is_last sab (Inr a) aq'" and "clean_batch b"
    and "attr_env_ok ae" and "configs_known ap sab"
  shows "sound_attributes reg (sab_rollup_cfg sab) ae ap a"
proof -
  obtain template orig where t: "prepare_payload_attributes reg ae ap sab parent (sb_epoch b) = Inr template"
    and a: "a = awp_new (filled template (sb_transactions b)) parent (Some orig) is_last"
    using assms(1) by (auto simp: works_on_def dest!: sab_build_Inr)
  obtain tx0 txs where tx: "at_transactions template = Some (tx0 # txs)" "list_all is_deposit_bytes (tx0 # txs)"
    "pa_timestamp (at_payload_attributes template) = target_time reg (sab_rollup_cfg sab) parent"
    using template_deposits [OF t] by blast
  obtain header where h: "ap_header_by_hash ap (bnh_hash (sb_epoch b)) = Inr header"
    "epoch_links parent (sb_epoch b) header" "lh_timestamp header \<le> target_time reg (sab_rollup_cfg sab) parent"
    using prepare_epoch [OF t] tx(3) by auto
  have at: "awp_parent a = parent" "at_no_tx_pool (awp_attributes a) = Some True"
    "at_transactions (awp_attributes a) = Some ((tx0 # txs) @ sb_transactions b)"
    "pa_timestamp (at_payload_attributes (awp_attributes a)) = target_time reg (sab_rollup_cfg sab) parent"
    using tx by (simp_all add: a awp_new_def filled_def)
  show ?thesis
    unfolding sound_attributes_def Let_def at
    using tx(2) assms(2) h prepare_reads_back [OF t tx(1) assms(3) _ assms(4)]
    by (intro conjI refl exI [of _ "sb_epoch b"] exI [of _ header] exI [of _ tx0] exI [of _ txs]
        exI [of _ "sb_transactions b"]) (auto simp: clean_batch_def)
qed

text \<open>What the operations of a stage leave true.\<close>

definition stage_keeps :: "'s stage \<Rightarrow> ('s \<Rightarrow> bool) \<Rightarrow> bool" where
  "stage_keeps stage P \<longleftrightarrow>
     (\<forall>s. P s \<longrightarrow> P (snd (st_advance_origin stage s)) \<and> (\<forall>l1_origin sys. P (snd (st_reset stage l1_origin sys s))) \<and>
       P (snd (st_activate stage s)) \<and> P (snd (st_flush_channel stage s)))"

lemma bp_dispatch_configured:
  assumes "\<And>bv. bv_cfg (snd (f bv)) = bv_cfg bv" and "bp_configured cfg bp"
  shows "bp_configured cfg (snd (bp_dispatch reg prev_stage f g bp))"
proof -
  obtain r bp' where u: "bp_attempt_update reg prev_stage bp = (r, bp')" by fastforce
  have c: "bp_configured cfg bp'" by (rule bp_update_configured [OF assms(2) u])
  show ?thesis
  proof (cases r)
    case (Inr x)
    have "bv_cfg bv' = bv_cfg bv" if "f bv = (r', bv')" for bv r' bv' using assms(1) [of bv] that by simp
    then show ?thesis
      using u c Inr by (auto simp: bp_dispatch_def bp_configured_def split: option.splits prod.splits)
  qed (use u c in \<open>simp add: bp_dispatch_def\<close>)
qed

lemma bp_stage_configured: "stage_keeps (bp_stage reg prev_stage) (bp_configured cfg)"
  by (auto simp: stage_keeps_def bp_stage_def Let_def bv_stage_def bv_reset_def on_prev_def op_then_def
      intro!: bp_dispatch_configured split: prod.splits sum.splits)

lemma on_prev_snd [simp]: "snd (on_prev get put f s) = put (snd (f (get s))) s"
  by (simp add: on_prev_def split: prod.split)

lemma op_then_snd: "snd (op_then r (\<lambda>_ s. (Inr (), f s))) = (case fst r of Inl _ \<Rightarrow> snd r | Inr _ \<Rightarrow> f (snd r))"
  by (cases r; cases "fst r") auto

lemma aq_stage_keeps:
  assumes "stage_keeps prev_stage P"
  shows "stage_keeps (aq_stage prev_stage) (\<lambda>aq. queue_ok P clean aq \<and> aq_builder aq = sab)"
  using assms
  by (auto simp: stage_keeps_def aq_stage_def aq_after_prev_def op_then_snd queue_ok_def split: sum.split)

text \<open>
  The states of a pipeline over its life: built, stepped while its origin is at Holocene or
  later, signalled, and relieved of prepared attributes, in any order and for any cursor.
\<close>

inductive pipeline_reaches ::
    "('c, 'd, 'z, 'ab) pipeline_env \<Rightarrow> 'l l2_chain_provider \<Rightarrow> ('ab, 'c, 'l, 'd) pipeline_builder
     \<Rightarrow> (('c, 'd, 'ab) attributes_queue_stage, 'l) derivation_pipeline \<Rightarrow> bool"
  for pe lcp pb where
  built: "build_polled pb = Some dp \<Longrightarrow> pipeline_reaches pe lcp pb dp"
| stepped: "pipeline_reaches pe lcp pb dp \<Longrightarrow>
    bp_in_holocene (pe_registry pe) (tw_batch_stream pe) (aq_prev (dp_attributes dp)) \<Longrightarrow>
    dp_step (tw_attributes_queue pe) (tw_next_attributes pe) cursor dp = Some (r, dp') \<Longrightarrow>
    pipeline_reaches pe lcp pb dp'"
| signalled: "pipeline_reaches pe lcp pb dp \<Longrightarrow>
    dp_signal (pe_registry pe) (tw_attributes_queue pe) lcp sig dp = Some (r', dp') \<Longrightarrow> pipeline_reaches pe lcp pb dp'"
| taken: "pipeline_reaches pe lcp pb dp \<Longrightarrow> dp_next dp = (a, dp') \<Longrightarrow> pipeline_reaches pe lcp pb dp'"

definition pipeline_ok ::
    "rollup_config \<Rightarrow> 'ab \<Rightarrow> (attributes_with_parent \<Rightarrow> bool) \<Rightarrow> (('c, 'd, 'ab) attributes_queue_stage, 'l) derivation_pipeline
     \<Rightarrow> bool" where
  "pipeline_ok cfg sab sound dp \<longleftrightarrow>
     queue_ok (bp_configured cfg) clean_batch (dp_attributes dp) \<and> aq_builder (dp_attributes dp) = sab \<and>
     list_all sound (dp_prepared dp)"

lemma tower_keeps:
  "stage_keeps (tw_attributes_queue pe) (\<lambda>aq. queue_ok (bp_configured cfg) clean_batch aq \<and> aq_builder aq = sab)"
  unfolding tw_attributes_queue_def tw_batch_provider_def by (rule aq_stage_keeps [OF bp_stage_configured])

lemma built_ok:
  assumes "build_polled pb = Some dp" and "pb_rollup_config pb = Some cfg" and "pb_builder pb = Some sab"
  shows "pipeline_ok cfg sab sound dp"
  using assms
  by (auto simp: build_polled_def Let_def pipeline_ok_def queue_ok_def dp_new_def aq_new_def bp_new_def bp_configured_def
      split: option.splits)

lemma ok_allow_eof [simp]: "pipeline_ok cfg sab sound (snd (allow_eof x)) = pipeline_ok cfg sab sound (snd x)"
  by (cases x; cases "fst x") (auto simp: allow_eof_def)

lemma ok_l2_provider [simp]:
  "pipeline_ok cfg sab sound (dp\<lparr>dp_l2_chain_provider := l\<rparr>) = pipeline_ok cfg sab sound dp"
  by (simp add: pipeline_ok_def)

lemma ok_initial_reset:
  "initial_reset reg lcp head dp = Some (r, dp') \<Longrightarrow> pipeline_ok cfg sab sound dp \<Longrightarrow> pipeline_ok cfg sab sound dp'"
  by (auto simp: initial_reset_def Let_def pop_on_prev_def pop_then_def split: option.splits sum.splits prod.splits)

lemma ok_on_stage:
  assumes "pipeline_ok cfg sab sound dp"
  shows "pipeline_ok cfg sab sound (snd (dp_on_attributes (st_advance_origin (tw_attributes_queue pe)) dp))"
    and "pipeline_ok cfg sab sound (snd (dp_on_attributes (st_reset (tw_attributes_queue pe) l1_origin sys) dp))"
    and "pipeline_ok cfg sab sound (snd (dp_on_attributes (st_activate (tw_attributes_queue pe)) dp))"
    and "pipeline_ok cfg sab sound (snd (dp_on_attributes (st_flush_channel (tw_attributes_queue pe)) dp))"
  using assms tower_keeps [of pe cfg sab] by (simp_all add: pipeline_ok_def stage_keeps_def)

lemma signalled_ok:
  assumes "pipeline_ok cfg sab sound dp" and "dp_signal reg (tw_attributes_queue pe) lcp sig dp = Some (r, dp')"
  shows "pipeline_ok cfg sab sound dp'"
proof (cases sig)
  case (SignalReset rs)
  obtain r1 dp1 where i: "initial_reset reg lcp (rs_l2_safe_head rs) dp = Some (r1, dp1)"
    using assms(2) SignalReset by (cases "initial_reset reg lcp (rs_l2_safe_head rs) dp")
      (auto simp: dp_signal_def pop_then_def)
  have ok: "pipeline_ok cfg sab sound dp1" by (rule ok_initial_reset [OF i assms(1)])
  show ?thesis
  proof (cases r1)
    case (Inr x)
    then have "dp' = snd (allow_eof (dp_on_attributes (st_reset (tw_attributes_queue pe) (fst x) (snd x)) dp1))"
      using assms(2) SignalReset i by (auto simp: dp_signal_def split: prod.splits)
    then show ?thesis using ok_on_stage(2) [OF ok] by (simp del: on_prev_snd)
  qed (use assms(2) SignalReset i ok in \<open>auto simp: dp_signal_def\<close>)
next
  case (SignalActivation x)
  then have "dp' = snd (allow_eof (dp_on_attributes (st_activate (tw_attributes_queue pe)) dp))"
    using assms(2) by (auto simp: dp_signal_def)
  then show ?thesis using ok_on_stage(3) [OF assms(1)] by (simp del: on_prev_snd)
next
  case SignalFlushChannel
  then have "dp' = snd (dp_on_attributes (st_flush_channel (tw_attributes_queue pe)) dp)"
    using assms(2) by (auto simp: dp_signal_def)
  then show ?thesis using ok_on_stage(4) [OF assms(1)] by (simp del: on_prev_snd)
qed

lemma sab_build_same: "sab_build reg ae ap parent epoch b = Some (r, b') \<Longrightarrow> b' = b"
  by (auto simp: sab_build_def split: sum.splits failure.splits)

lemma aq_next_builder:
  assumes "aq_next_attributes prev_stage apr build_template parent aq = Some (r, aq')"
    and "\<And>parent epoch b r b'. build_template parent epoch b = Some (r, b') \<Longrightarrow> b' = b"
  shows "aq_builder aq' = aq_builder aq"
proof -
  have load: "aq_builder aq1 = aq_builder aq" if "aq_load_batch apr parent aq = Some (x, aq1)" for x aq1
    using that by (auto simp: aq_load_batch_def pop_then_def pop_on_prev_def split: option.splits sum.splits if_splits)
  have create: "aq_builder aq2 = aq_builder aq1" if "aq_create_next_attributes build_template b parent aq1 = Some (x, aq2)"
    for b aq1 x aq2
    using that
    by (auto simp: aq_create_next_attributes_def pop_then_def pop_on_prev_def Let_def
        split: option.splits sum.splits if_splits dest: assms(2))
  obtain x aq1 where l: "aq_load_batch apr parent aq = Some (x, aq1)"
    using assms(1) by (cases "aq_load_batch apr parent aq") (auto simp: aq_next_attributes_def pop_then_def)
  show ?thesis
  proof (cases x)
    case (Inr b)
    then obtain y aq2 where c: "aq_create_next_attributes build_template b parent aq1 = Some (y, aq2)"
      using assms(1) l by (cases "aq_create_next_attributes build_template b parent aq1")
        (auto simp: aq_next_attributes_def pop_then_def)
    then show ?thesis
      using assms(1) l Inr create [OF c] load [OF l]
      by (cases y) (auto simp: aq_next_attributes_def split: option.splits)
  qed (use assms(1) l load in \<open>auto simp: aq_next_attributes_def\<close>)
qed

lemma next_attributes_ok:
  assumes "queue_ok (bp_configured cfg) clean_batch aq" and "bp_in_holocene (pe_registry pe) (tw_batch_stream pe) (aq_prev aq)"
    and "pe_build pe = sab_build (pe_registry pe) ae ap" and "attr_env_ok ae" and "configs_known ap (aq_builder aq)"
    and "tw_next_attributes pe cursor aq = Some (r, aq')"
  shows "queue_ok (bp_configured cfg) clean_batch aq' \<and> aq_builder aq' = aq_builder aq \<and>
    (\<forall>a. r = Inr a \<longrightarrow> sound_attributes (pe_registry pe) (sab_rollup_cfg (aq_builder aq)) ae ap a)"
proof -
  note n = assms(6) [unfolded tw_next_attributes_def assms(3)]
  have ok: "queue_ok (bp_configured cfg) clean_batch aq'" by (rule bpc.next_queue_ok [OF assms(1,2) n])
  have b: "aq_builder aq' = aq_builder aq" by (rule aq_next_builder [OF n]) (auto dest: sab_build_same)
  show ?thesis
  proof (cases r)
    case (Inr a)
    obtain b is_last where "works_on (tw_batch_provider pe) (sab_build (pe_registry pe) ae ap) cursor b is_last
        (aq_builder aq) (Inr a) aq'" "clean_batch b"
      by (rule bpc.next_suits [OF assms(1,2) n]) (auto simp: Inr)
    from works_sound [OF this assms(4,5)] ok b Inr show ?thesis by simp
  qed (simp add: ok b)
qed

lemma stepped_ok:
  assumes "pipeline_ok cfg sab (sound_attributes (pe_registry pe) (sab_rollup_cfg sab) ae ap) dp"
    and "bp_in_holocene (pe_registry pe) (tw_batch_stream pe) (aq_prev (dp_attributes dp))"
    and "pe_build pe = sab_build (pe_registry pe) ae ap" and "attr_env_ok ae" and "configs_known ap sab"
    and "dp_step (tw_attributes_queue pe) (tw_next_attributes pe) cursor dp = Some (r, dp')"
  shows "pipeline_ok cfg sab (sound_attributes (pe_registry pe) (sab_rollup_cfg sab) ae ap) dp'"
proof -
  let ?ok = "pipeline_ok cfg sab (sound_attributes (pe_registry pe) (sab_rollup_cfg sab) ae ap)"
  obtain r1 aq1 where n: "tw_next_attributes pe cursor (dp_attributes dp) = Some (r1, aq1)"
    using assms(6) by (cases "tw_next_attributes pe cursor (dp_attributes dp)") (auto simp: dp_step_def pop_on_prev_def)
  have q: "queue_ok (bp_configured cfg) clean_batch aq1 \<and> aq_builder aq1 = sab \<and>
      (\<forall>a. r1 = Inr a \<longrightarrow> sound_attributes (pe_registry pe) (sab_rollup_cfg sab) ae ap a)"
    using next_attributes_ok [OF _ assms(2-4) _ n, of cfg] assms(1,5) by (simp add: pipeline_ok_def)
  then have ok: "?ok (dp\<lparr>dp_attributes := aq1\<rparr>)" using assms(1) by (simp add: pipeline_ok_def)
  show ?thesis
  proof (cases r1)
    case (Inr a)
    then have "dp' = dp\<lparr>dp_attributes := aq1, dp_prepared := dp_prepared dp @ [a]\<rparr>"
      using assms(6) n by (simp add: dp_step_def pop_on_prev_def)
    then show ?thesis using ok q Inr by (simp add: pipeline_ok_def)
  next
    case (Inl e)
    have "dp' = dp\<lparr>dp_attributes := aq1\<rparr> \<or>
        dp' = snd (dp_on_attributes (st_advance_origin (tw_attributes_queue pe)) (dp\<lparr>dp_attributes := aq1\<rparr>))"
      using assms(6) n Inl
      by (cases "dp_on_attributes (st_advance_origin (tw_attributes_queue pe)) (dp\<lparr>dp_attributes := aq1\<rparr>)")
        (simp add: dp_step_def pop_on_prev_def split: if_splits sum.splits)
    then show ?thesis using ok ok_on_stage(1) [OF ok, of pe] by (auto simp del: on_prev_snd)
  qed
qed

text \<open>
  C1. Soundness of derivation. In every state a pipeline reaches from its construction, by steps at or
  after Holocene for any cursors, by signals and by handing out prepared attributes, all
  prepared attributes are sound: they carry the time the schedule gives to the block after
  their parent, forbid the transaction pool, and consist of deposits, the first of which is
  the L1 information, followed by transactions that are not deposits; their L1 origin is that of
  the parent or a block on top of it and not newer than the block; and every block that starts
  with that first transaction is read back with this L1 origin and the next sequence number.
\<close>

theorem prepared_attributes_sound:
  assumes "pipeline_reaches pe lcp pb dp"
    and "pb_rollup_config pb = Some cfg" and "pb_builder pb = Some sab" and "sab_rollup_cfg sab = cfg"
    and "pe_build pe = sab_build (pe_registry pe) ae ap" and "attr_env_ok ae" and "configs_known ap sab"
  shows "list_all (sound_attributes (pe_registry pe) cfg ae ap) (dp_prepared dp)"
proof -
  have "pipeline_ok cfg sab (sound_attributes (pe_registry pe) (sab_rollup_cfg sab) ae ap) dp"
    using assms(1)
  proof induction
    case (built dp)
    then show ?case using assms(2,3) by (rule built_ok)
  next
    case (stepped dp cursor r dp')
    show ?case by (rule stepped_ok [OF stepped.IH stepped.hyps(2) assms(5-7) stepped.hyps(3)])
  next
    case (signalled dp sig r' dp')
    show ?case by (rule signalled_ok [OF signalled.IH signalled.hyps(2)])
  next
    case (taken dp a dp')
    then show ?case by (auto simp: dp_next_def pipeline_ok_def split: list.splits)
  qed
  then show ?thesis using assms(4) by (simp add: pipeline_ok_def)
qed

section \<open>A run\<close>

text \<open>
  A chain at Holocene whose batcher is silent: the pipeline reads the first L1 block and finds no
  data, advances to the second, and derives the empty batch that the sequencing window of one
  block forces.
\<close>

definition run_config :: rollup_config where
  "run_config = holocene_config\<lparr>rc_seq_window_size := 1\<rparr>"

definition run_l1 :: "u64 \<Rightarrow> block_info" where
  "run_l1 n = (if n = 1 then block_info_new B256_ZERO 1 (replicate 32 2) 3 else block_info_new (replicate 32 9) n B256_ZERO 100)"

definition run_builder :: "unit stateful_builder" where
  "run_builder = sample_builder\<lparr>sab_rollup_cfg := run_config\<rparr>"

definition run_env :: "(unit, unit, bytes, unit stateful_builder) pipeline_env" where
  "run_env =
     \<lparr>pe_registry = Map.empty, pe_abi = std_abi,
      pe_chain_provider = \<lparr>chp_block_info_by_number = \<lambda>n. Pair (Inr (run_l1 n)), chp_receipts_by_hash = \<lambda>_. Pair (Inr [])\<rparr>,
      pe_da_provider = \<lparr>dap_next = \<lambda>_ _. Pair (Inl (temp Eof)), dap_clear = id\<rparr>,
      pe_decompressors = plain_decompressors, pe_batch_codecs = sample_codecs,
      pe_fetcher = \<lparr>bvp_l2_block_info_by_number = \<lambda>_. None, bvp_block_by_number = \<lambda>_. None\<rparr>,
      pe_block_by_hash = \<lambda>_. Inl (temp Eof), pe_build = sab_build Map.empty sample_attr_env sample_providers\<rparr>"

definition run_pb :: "(unit stateful_builder, unit, unit, unit) pipeline_builder" where
  "run_pb =
     \<lparr>pb_l2_chain_provider = Some (), pb_dap_source = Some (), pb_chain_provider = Some (), pb_builder = Some run_builder,
      pb_origin = Some (run_l1 1), pb_rollup_config = Some run_config, pb_da_batcher_sender_override = None\<rparr>"

lemma run_env_simps [simp]:
  "pe_registry run_env = Map.empty" "pe_build run_env = sab_build Map.empty sample_attr_env sample_providers"
  by (simp_all add: run_env_def)

text \<open>The stages below the batch stage, at the origin \<open>orig\<close>.\<close>

definition run_fq :: "block_info \<Rightarrow> bool \<Rightarrow> (unit, unit) frame_queue_stage" where
  "run_fq orig seen = fq_new (lr_new \<lparr>pt_block = Some orig, pt_data_source = (), pt_done = seen,
     pt_system_config = system_config_default, pt_rollup_config = run_config\<rparr> ()) run_config"

definition run_bst :: "bool \<Rightarrow> block_info \<Rightarrow> bool \<Rightarrow> (unit, unit) batch_stream_stage" where
  "run_bst started orig seen =
     bst_new (cr_new (if started then \<lparr>cp_cfg = run_config, cp_prev = None, cp_channel_bank = None,
         cp_channel_assembler = Some (ca_new run_config (run_fq orig seen))\<rparr>
       else cp_new run_config (run_fq orig seen)) run_config) run_config"

lemma run_config_simps [simp]:
  "is_holocene_active Map.empty run_config t" "\<not> is_denim_active Map.empty run_config t"
  "rc_seq_window_size run_config = 1"
  "l2_block_timestamp Map.empty run_config n = sat_mul (sat_mul n 2) 1000 div 1000"
  by (simp_all add: run_config_def holocene_config_def is_holocene_active_def is_denim_active_def Pipeline_Types.fork_defs
      l2_block_timestamp_def l2_block_timestamp_millis_def denim_timestamp_schedule_def chain_genesis_default_def)

lemma run_origin: "st_origin (tw_batch_stream run_env) (run_bst started orig seen) = Some orig"
  by (simp add: tw_batch_stream_def bst_stage_def tw_channel_reader_def cr_stage_def tw_channel_provider_def cp_stage_def
      cp_origin_def ca_origin_def tw_frame_queue_def fq_stage_def fq_origin_def tw_retrieval_def lr_stage_def tw_traversal_def
      pt_stage_def run_bst_def run_fq_def bst_new_def cr_new_def cp_new_def ca_new_def fq_new_def lr_new_def)

lemma run_frames:
  "tw_next_frame run_env (run_fq orig False) = (Inl (temp Eof), run_fq orig True)"
  by (simp add: tw_next_frame_def fq_next_frame_def fq_load_frames_def tw_next_data_def lr_next_data_def lr_read_def
      traversal_provider_def pt_next_l1_block_def on_prev_def run_fq_def fq_new_def lr_new_def run_env_def)

lemma run_fq_origin: "st_origin (tw_frame_queue run_env) (run_fq orig seen) = Some orig"
  by (simp add: tw_frame_queue_def fq_stage_def fq_origin_def tw_retrieval_def lr_stage_def tw_traversal_def pt_stage_def
      run_fq_def fq_new_def lr_new_def)

lemma run_pull:
  "nbp_next_batch (tw_batches run_env) parent ws (run_bst started orig False) = Some (Inl (temp Eof), run_bst True orig True)"
proof -
  let ?cp = "\<lambda>started seen. if started then \<lparr>cp_cfg = run_config, cp_prev = None, cp_channel_bank = None,
         cp_channel_assembler = Some (ca_new run_config (run_fq orig seen))\<rparr>
       else cp_new run_config (run_fq orig seen)"
  have ch: "tw_next_channel run_env (?cp started False) = (Inl (temp Eof), ?cp True True)"
    using run_frames [of orig] run_fq_origin [of orig]
    by (simp add: tw_next_channel_def cp_next_data_def cp_dispatch_def cp_attempt_update_def cp_origin_def ca_origin_def
        Let_def ca_next_data_def ca_new_def cp_new_def on_prev_def run_env_def is_timed_out_def)
  have "bst_is_active (pe_registry run_env) (tw_channel_reader run_env) (run_bst started orig seen) = Inr True" for started seen
    using run_origin [of started orig seen] by (simp add: bst_is_active_def tw_batch_stream_def bst_stage_def run_bst_def
        bst_new_def run_env_def)
  moreover have "st_origin (tw_channel_reader run_env) (bst_prev (run_bst started orig False)) = Some orig"
    using run_origin [of started orig False] by (simp add: tw_batch_stream_def bst_stage_def)
  ultimately show ?thesis
    using ch
    by (simp add: tw_batches_def bst_provider_def bst_next_batch_def bst_pull_def on_prev_def cr_provider_def cr_read_batch_def
        cr_set_batch_reader_def cr_next_channel_def Let_def run_env_def run_bst_def bst_new_def cr_new_def)
qed

lemma run_advance:
  "st_advance_origin (tw_batch_stream run_env) (run_bst True (run_l1 1) True) = (Inr (), run_bst True (run_l1 2) False)"
  by (simp add: tw_batch_stream_def bst_stage_def tw_channel_reader_def cr_stage_def tw_channel_provider_def cp_stage_def
      cp_dispatch_def cp_attempt_update_def cp_origin_def ca_origin_def ca_stage_def tw_frame_queue_def fq_stage_def fq_origin_def
      tw_retrieval_def lr_stage_def tw_traversal_def pt_stage_def pt_advance_origin_def pt_update_origin_def
      pt_update_system_config_with_receipts_def run_bst_def run_fq_def
      bst_new_def cr_new_def cp_new_def ca_new_def fq_new_def lr_new_def on_prev_def run_env_def run_l1_def block_info_new_def
      Let_def update_with_receipts_def config_logs_def)

definition run_bp :: "block_info list \<Rightarrow> block_info \<Rightarrow> (unit, unit) batch_stream_stage \<Rightarrow> (unit, unit) batch_provider_stage" where
  "run_bp ws orig bst =
     \<lparr>bp_cfg = run_config, bp_prev = None, bp_batch_queue = None, bp_batch_validator =
        Some \<lparr>bv_cfg = run_config, bv_prev = bst, bv_pending_batch = None, bv_origin = Some orig, bv_l1_blocks = ws\<rparr>\<rparr>"

definition run_dp ::
    "(unit, unit) batch_provider_stage \<Rightarrow> ((unit, unit, unit stateful_builder) attributes_queue_stage, unit) derivation_pipeline" where
  "run_dp bp = dp_new (aq_new run_config bp run_builder) run_config ()"

lemma run_built: "build_polled run_pb = Some (run_dp (bp_new run_config (run_bst False (run_l1 1) False)))"
  by (simp add: build_polled_def run_pb_def run_dp_def run_bst_def run_fq_def Let_def pt_new_def lr_new_def
      lr_with_da_batcher_sender_override_def run_config_def holocene_config_def rollup_config_default_def
      chain_genesis_default_def)

lemma run_first_batch:
  "bp_next_batch Map.empty (tw_batch_stream run_env) fetcher by_hash (tw_batches run_env) sample_parent
     (bp_new run_config (run_bst False (run_l1 1) False)) =
   Some (Inl (temp Eof), run_bp [run_l1 1] (run_l1 1) (run_bst True (run_l1 1) True))"
  by (simp add: bp_next_batch_def bp_attempt_update_def bp_new_def bp_origin_def run_origin Let_def bv_new_def bv_next_batch_def
      update_origins_eq sync_window_def is_origin_behind_def advance_epoch_def bv_origin_behind_def run_pull pop_on_prev_def
      run_bp_def sample_parent_def l2_block_info_new_def block_info_new_def sample_epoch_def run_l1_def)

lemma run_advance_bp:
  "st_advance_origin (tw_batch_provider run_env) (run_bp ws orig (run_bst True (run_l1 1) True)) =
     (Inr (), run_bp ws orig (run_bst True (run_l1 2) False))"
  by (simp add: tw_batch_provider_def bp_stage_def bp_dispatch_def bp_attempt_update_def bp_origin_def bv_stage_def Let_def
      run_bp_def run_origin run_advance on_prev_def)

lemma run_forced_batch:
  "bp_next_batch Map.empty (tw_batch_stream run_env) fetcher by_hash (tw_batches run_env) sample_parent
     (run_bp [run_l1 1] (run_l1 1) (run_bst True (run_l1 2) False)) =
   Some (Inr (sample_batch\<lparr>sb_transactions := []\<rparr>),
     run_bp [run_l1 1, run_l1 2] (run_l1 2) (run_bst True (run_l1 2) True))"
  by (simp add: bp_next_batch_def bp_attempt_update_def bp_origin_def bv_stage_def run_origin Let_def bv_next_batch_def
      update_origins_eq sync_window_def is_origin_behind_def advance_epoch_def bv_origin_behind_def run_pull pop_on_prev_def
      bv_candidate_def bv_try_derive_empty_batch_def sample_batch_def block_info_id_def sat_mul_def
      run_bp_def sample_parent_def l2_block_info_new_def block_info_new_def sample_epoch_def run_l1_def)

lemma run_template:
  "\<exists>at. prepare_payload_attributes Map.empty sample_attr_env sample_providers run_builder sample_parent sample_epoch = Inr at"
proof -
  have "\<exists>sys. sab_system_config Map.empty sample_providers run_builder sample_parent refresh = Inr sys" for refresh
    by (simp add: sab_system_config_def sample_providers_def run_builder_def sample_builder_def sab_new_def)
  moreover have "builder_verdict Map.empty sample_attr_env (sab_rollup_cfg run_builder) sample_parent sample_epoch sample_header [] = None"
    by (simp add: builder_verdict_def run_builder_def Let_def epoch_links_def epoch_deposits_def sample_parent_def
        l2_block_info_new_def block_info_new_def sample_header_def sat_mul_def)
  ultimately show ?thesis
    using prepare_verdict [where epoch = sample_epoch and ae = sample_attr_env, OF _ sample_answers(2,3)]
    by (fastforce split: sum.splits failure.splits)
qed

lemma run_first_step:
  "dp_step (tw_attributes_queue run_env) (tw_next_attributes run_env) sample_parent
     (run_dp (bp_new run_config (run_bst False (run_l1 1) False))) =
   Some (AdvancedOrigin, run_dp (run_bp [run_l1 1] (run_l1 1) (run_bst True (run_l1 2) False)))"
  using run_first_batch run_advance_bp
  by (simp add: dp_step_def pop_on_prev_def tw_next_attributes_def aq_next_attributes_def aq_load_batch_def
      bp_attributes_provider_def run_dp_def dp_new_def aq_new_def on_prev_def tw_attributes_queue_def aq_stage_def)

lemma run_second_step:
  "\<exists>a dp. dp_step (tw_attributes_queue run_env) (tw_next_attributes run_env) sample_parent
     (run_dp (run_bp [run_l1 1] (run_l1 1) (run_bst True (run_l1 2) False))) = Some (PreparedAttributes, dp) \<and>
     dp_prepared dp = [a] \<and> awp_parent a = sample_parent"
proof -
  obtain at where at: "prepare_payload_attributes Map.empty sample_attr_env sample_providers run_builder sample_parent
      sample_epoch = Inr at"
    using run_template by blast
  have "st_origin (tw_batch_provider run_env) (run_bp ws orig (run_bst True b seen)) = Some b" for ws orig b seen
    by (simp add: tw_batch_provider_def bp_stage_def Let_def bp_origin_def run_bp_def bv_stage_def run_origin)
  moreover have "sb_epoch (sample_batch\<lparr>sb_transactions := []\<rparr>) = sample_epoch"
    "sb_parent_hash sample_batch = bi_hash (l2_block sample_parent)"
    by (simp_all add: sb_epoch_def sample_batch_def sample_epoch_def sample_parent_def l2_block_info_new_def block_info_new_def)
  ultimately show ?thesis
    using run_forced_batch at
    by (simp add: dp_step_def pop_on_prev_def tw_next_attributes_def aq_next_attributes_def aq_load_batch_def
        aq_create_next_attributes_def sab_build_def bp_attributes_provider_def run_dp_def dp_new_def aq_new_def Let_def
        awp_new_def split: option.splits)
qed

theorem prepared_attributes_sound_witness:
  "\<exists>dp a. pipeline_reaches run_env \<lparr>lcp_l2_block_info_by_hash = \<lambda>_. Pair (Inl (temp Eof)),
       lcp_system_config_by_l2_hash = \<lambda>_ _. Pair (Inl (temp Eof))\<rparr> run_pb dp \<and>
     dp_prepared dp = [a] \<and> awp_parent a = sample_parent \<and>
     sound_attributes Map.empty run_config sample_attr_env sample_providers a"
proof -
  let ?lcp = "\<lparr>lcp_l2_block_info_by_hash = \<lambda>_. Pair (Inl (temp Eof)), lcp_system_config_by_l2_hash = \<lambda>_ _. Pair (Inl (temp Eof))\<rparr>"
  let ?dp0 = "run_dp (bp_new run_config (run_bst False (run_l1 1) False))"
  let ?dp1 = "run_dp (run_bp [run_l1 1] (run_l1 1) (run_bst True (run_l1 2) False))"
  have h: "bp_in_holocene (pe_registry run_env) (tw_batch_stream run_env) (aq_prev (dp_attributes ?dp0))"
    "bp_in_holocene (pe_registry run_env) (tw_batch_stream run_env) (aq_prev (dp_attributes ?dp1))"
    by (simp_all add: bp_in_holocene_def bp_origin_def bv_stage_def run_dp_def dp_new_def aq_new_def bp_new_def run_bp_def
        run_origin)
  have "pipeline_reaches run_env ?lcp run_pb ?dp1"
    by (rule pipeline_reaches.stepped [OF pipeline_reaches.built [OF run_built] h(1) run_first_step])
  then obtain dp a where dp: "pipeline_reaches run_env ?lcp run_pb dp" "dp_prepared dp = [a]" "awp_parent a = sample_parent"
    using run_second_step pipeline_reaches.stepped [OF _ h(2)] by blast
  have "configs_known sample_providers run_builder"
    using sample_ok(3) by (simp add: configs_known_def run_builder_def)
  then show ?thesis
    using prepared_attributes_sound [OF dp(1), of run_config run_builder sample_attr_env sample_providers] dp sample_ok(1)
    by (auto simp: run_pb_def run_builder_def)
qed

theorem initial_reset_covers_window_witness:
  fixes gen b1 b2 b3 lcp cfg c
  defines "gen \<equiv> l2_block_info_new (block_info_new [0] 0 [] 0) \<lparr>bnh_number = 4, bnh_hash = []\<rparr> 0"
    and "b1 \<equiv> l2_block_info_new (block_info_new [1] 1 [0] 2) \<lparr>bnh_number = 40, bnh_hash = []\<rparr> 0"
    and "b2 \<equiv> l2_block_info_new (block_info_new [2] 2 [1] 4) \<lparr>bnh_number = 60, bnh_hash = []\<rparr> 0"
    and "b3 \<equiv> l2_block_info_new (block_info_new [3] 3 [2] 6) \<lparr>bnh_number = 100, bnh_hash = []\<rparr> 0"
    and "lcp \<equiv> \<lparr>lcp_l2_block_info_by_hash = \<lambda>h. Pair (Inr (if h = [2] then b2 else if h = [1] then b1 else gen)),
      lcp_system_config_by_l2_hash = \<lambda>h _. Pair (Inr (system_config_default\<lparr>sc_batcher_address := h\<rparr>))\<rparr>"
    and "cfg \<equiv> holocene_config\<lparr>rc_channel_timeout := 300\<rparr>"
    and "c \<equiv> channel_new [7] (block_info_new [] 55 [] 0)"
  shows "\<exists>dp'. initial_reset Map.empty lcp b3 (dp_new () cfg ()) =
      Some (Inr (l2_l1_origin b1, system_config_default\<lparr>sc_batcher_address := [1]\<rparr>), dp') \<and>
    \<not> timed_out Map.empty cfg (block_info_new [] 100 [] 5) c \<and>
    bnh_number (l2_l1_origin b1) \<le> open_block_number c"
proof -
  note defs = gen_def b1_def b2_def b3_def l2_block_info_new_def block_info_new_def
  have s: "serves_parents lcp [b3, b2, b1, gen]" by (simp add: lcp_def defs)
  have cfg: "dp_rollup_config (dp_new () cfg ()) = cfg" by (simp add: dp_new_def)
  have g: "bnh_number (gen_l2 (rc_genesis cfg)) = 0" "rc_granite_channel_timeout cfg = 50" "rc_channel_timeout cfg = 300"
    by (simp_all add: cfg_def holocene_config_def rollup_config_default_def chain_genesis_default_def
        GRANITE_CHANNEL_TIMEOUT_def)
  have "is_granite_active Map.empty cfg t" for t
    by (simp add: Rollup_Config.fork_defs fork_active_def upgrade_activation_timestamp_def cfg_upgrade_activation_def
        registry_activation_def activation_def cfg_def holocene_config_def)
  then have t: "channel_timeout Map.empty cfg t = 50" "is_fjord_active Map.empty cfg t" for t
    by (simp_all add: channel_timeout_def g is_fjord_active_def)
  have r: "reset_timeout Map.empty cfg b3 = 50" by (simp add: reset_timeout_def t Let_def)
  have m: "sat_sub (6 :: u64) (max_sequencer_drift Map.empty cfg 6) \<le> 5"
    by (simp add: max_sequencer_drift_def t FJORD_MAX_SEQUENCER_DRIFT_def DENIM_MAX_SEQUENCER_DRIFT_def sat_sub_def)
  have n: "\<not> timed_out Map.empty cfg (block_info_new [] 100 [] 5) c" "open_block_number c = 55"
    by (simp_all add: timed_out_def t c_def open_block_number_def channel_new_def block_info_new_def)
  have o: "bnh_number (l2_l1_origin b3) = 100" "bnh_number (l2_l1_origin b2) = 60" "bnh_number (l2_l1_origin b1) = 40"
    "bi_hash (l2_block b1) = [1]"
    by (simp_all add: defs)
  have last: "bi_number (l2_block gen) = 0"
    and le: "\<forall>b \<in> set [b2, b1, gen]. bnh_number (l2_l1_origin b) \<le> bnh_number (l2_l1_origin b3)"
    and wrap: "unat (bnh_number (l2_l1_origin b3)) + unat (reset_timeout Map.empty cfg b3) < 2 ^ 64"
    and num: "bi_number (block_info_new [] 100 [] 5) = bnh_number (l2_l1_origin b3)"
    and drift: "sat_sub (bi_timestamp (l2_block b3)) (max_sequencer_drift Map.empty cfg (bi_timestamp (l2_block b3)))
      \<le> bi_timestamp (block_info_new [] 100 [] 5)"
    unfolding r using m by (simp_all add: defs)
  have config: "fst (lcp_system_config_by_l2_hash lcp h cfg l) = Inr (system_config_default\<lparr>sc_batcher_address := h\<rparr>)" for h l
    by (simp add: lcp_def)
  have p: "\<not> bi_number (l2_block b) = bnh_number (gen_l2 (rc_genesis cfg))" if "b = b3 \<or> b = b2 \<or> b = b1" for b
    using that by (auto simp: g defs)
  have gl: "bi_number (l2_block (last [b3, b2, b1, gen])) = bnh_number (gen_l2 (rc_genesis cfg))"
    and gr: "rc_granite_channel_timeout cfg \<le> rc_channel_timeout cfg"
    by (simp_all add: last g)
  note w = initial_reset_covers_window [where dp = "dp_new () cfg ()" and orig = "block_info_new [] 100 [] 5", unfolded cfg,
      OF s gl config le wrap gr num drift]
  obtain newer resume older dp' where i: "initial_reset Map.empty lcp b3 (dp_new () cfg ()) =
      Some (Inr (l2_l1_origin resume, system_config_default\<lparr>sc_batcher_address := bi_hash (l2_block resume)\<rparr>), dp')"
    and split: "[b3, b2, b1, gen] = newer @ resume # older"
    and far: "bi_number (l2_block resume) = bnh_number (gen_l2 (rc_genesis cfg)) \<or>
      (\<forall>c. open_block_number c \<le> bnh_number (l2_l1_origin b3) \<and>
        \<not> timed_out Map.empty cfg (block_info_new [] 100 [] 5) c \<longrightarrow>
        bnh_number (l2_l1_origin resume) \<le> open_block_number c)"
    and near: "\<forall>b \<in> set newer. \<not> bi_number (l2_block b) = bnh_number (gen_l2 (rc_genesis cfg)) \<and>
      unat (bnh_number (l2_l1_origin b3)) < unat (bnh_number (l2_l1_origin b)) + unat (reset_timeout Map.empty cfg b3)"
    using w by blast
  have b1: "b1 \<notin> set newer" using near o r by auto
  have "bi_number (l2_block resume) = bnh_number (gen_l2 (rc_genesis cfg)) \<or> bnh_number (l2_l1_origin resume) \<le> 55"
    using far
  proof (rule disj_forward)
    assume "\<forall>c. open_block_number c \<le> bnh_number (l2_l1_origin b3) \<and>
        \<not> timed_out Map.empty cfg (block_info_new [] 100 [] 5) c \<longrightarrow>
        bnh_number (l2_l1_origin resume) \<le> open_block_number c"
    from spec [OF this, of c] show "bnh_number (l2_l1_origin resume) \<le> 55" using n o(1) by simp
  qed
  then have "resume \<noteq> b2 \<and> resume \<noteq> b3" using p [of b2] p [of b3] o(1,2) by auto
  then have "resume = b1" using split b1 by (auto simp: Cons_eq_append_conv)
  then show ?thesis using i(1) n o by simp
qed

theorem reset_signal_resumes_witness:
  "\<exists>dp. dp_signal Map.empty (tw_attributes_queue run_env)
      \<lparr>lcp_l2_block_info_by_hash = \<lambda>_. Pair (Inl (temp Eof)), lcp_system_config_by_l2_hash = \<lambda>_ _. Pair (Inr system_config_default)\<rparr>
      (SignalReset \<lparr>rs_l2_safe_head = l2_block_info_new block_info_default \<lparr>bnh_number = 2, bnh_hash = []\<rparr> 0\<rparr>)
      (run_dp (bp_new run_config (run_bst False (run_l1 1) False))) = Some (Inr (), dp) \<and>
    tower_fresh run_env (run_l1 2) system_config_default (dp_attributes dp) \<and>
    dp_origin (tw_attributes_queue run_env) dp = Some (run_l1 2)"
proof -
  let ?lcp = "\<lparr>lcp_l2_block_info_by_hash = \<lambda>_. Pair (Inl (temp Eof)), lcp_system_config_by_l2_hash = \<lambda>_ _. Pair (Inr system_config_default)\<rparr>"
  let ?head = "l2_block_info_new block_info_default \<lparr>bnh_number = 2, bnh_hash = []\<rparr> 0"
  let ?dp = "run_dp (bp_new run_config (run_bst False (run_l1 1) False))"
  have stop: "walk_stops (dp_rollup_config ?dp) t n ?head" for t n
    by (simp add: walk_stops_def run_dp_def dp_new_def run_config_def holocene_config_def rollup_config_default_def
        chain_genesis_default_def l2_block_info_new_def block_info_default_def block_info_new_def)
  then have r: "resume_block (dp_rollup_config ?dp) t n [?head] = ?head" for t n by (simp add: resume_block_def)
  have live: "tower_live (dp_attributes ?dp)"
    "tower_serves run_env (l2_l1_origin ?head) (run_l1 2) (dp_attributes ?dp)"
    by (simp_all add: tower_live_def tower_serves_def held_def bp_owner_def cp_owner_def pt_serves_def run_dp_def dp_new_def
        aq_new_def bp_new_def run_bst_def bst_new_def cr_new_def cp_new_def run_fq_def fq_new_def lr_new_def run_env_def
        l2_block_info_new_def)
  show ?thesis
    using reset_signal_resumes [of ?lcp ?head "[]" ?dp run_env system_config_default "run_l1 2"] stop live
    by (auto simp: r)
qed

end
