(* ===== verification/Spec2Isabelle.thy ===== *)
theory Spec2Isabelle
  imports Blobs L1_Info Pipeline
begin

text \<open>
  \<^bold>\<open>The derivation core of the Base rollup node.\<close>

  The repository is the Base node: a batcher that posts L2 transactions to L1, a consensus
  node that derives the L2 chain from L1, an execution client, a block builder, fault and
  validity proofs, and the tools around them. This development models the path from L1 data
  to L2 blocks, on which every node has to agree, and the parts of the batcher that write
  that data. All paths below are under \<open>src/crates/\<close>.

  \<^bold>\<open>Parts and how they interact.\<close> The batcher cuts a channel into frames, packs frames into
  blobs and posts them. The derivation pipeline is a tower of stages, each of which owns the
  one before it: traversal of L1 blocks, retrieval of their data, the frame queue, the channel
  stage (a bank before Holocene, an assembler from it on), the channel reader, the batch
  stream, the batch stage (a queue before Holocene, a validator from it on), and the
  attributes queue. Fork activation, block times, drift and size limits come from the rollup
  configuration and a process-wide registry of runtime overrides; the system configuration
  follows the logs of an L1 contract.

  \<^bold>\<open>Conventions.\<close> A \<open>uN\<close> is an \<open>N word\<close> and wraps as the release profile does; saturating and checked
  operations are spelled out; \<open>usize\<close> is \<open>nat\<close> for lengths and positions. Bytes, hashes and
  addresses are lists of \<open>u8\<close>. \<open>Result\<close> is a sum with the error on the left, \<open>Option\<close> an option; a
  panic is an outer \<open>None\<close> or \<open>Panic\<close>. An \<open>async fn(&mut self)\<close> is a function from the state to a result
  and the new state, and a stage is generic in the state of the previous stage, whose
  operations are arguments collected in the record \<open>stage\<close>. The registry is an argument \<open>reg\<close> of
  every function that reads it. The chain, blob and L2 providers are arguments too: what they
  answer during a call is a function of the request, with their errors already converted to
  those of the pipeline; the L2 provider of the pipeline itself and the L1 provider of the traversal
  have a state. Logging and metrics are left out.

  \<^bold>\<open>Theories, in order of dependence.\<close>

  \<^item> \<open>Prelude\<close>: machine integers, byte order, slices, the operations of \<open>Result\<close>.

  \<^item> \<open>Frames\<close> (\<open>consensus/protocol/src/frame.rs\<close>): frames and their wire format.
  C17, C22: parsing inverts packing, and what is
  accepted is well formed and complete; a lemma says which error is returned.

  \<^item> \<open>Blobs\<close> (\<open>batcher/blobs\<close>, \<open>consensus/derive/src/sources/blob_data.rs\<close>): the blob encoder and the two
  decoders. C16, C23: round trip, and the decoders agree on every
  blob. The proofs go through a reference layout of blocks of 128 bytes.

  \<^item> \<open>Blocks\<close> (\<open>consensus/protocol/src/block.rs\<close>): block references and genesis.

  \<^item> \<open>Channels\<close> (\<open>consensus/protocol/src/channel.rs\<close>): C10, C24,
  the channel invariant and assembly from frames in any order; a lemma says when a channel is ready.

  \<^item> \<open>Upgrades\<close> (\<open>common/genesis/src/chain/upgrade.rs\<close>): upgrades, schedules, runtime overrides and their registry as a
  state machine over registry operations, with lemmas on the active upgrade and on the watermark of the registry.

  \<^item> \<open>Rollup_Config\<close> (\<open>common/genesis/src/rollup.rs\<close>, \<open>schedule.rs\<close>): fork queries and block times.
  C21, C25: the runtime view equals the materialised
  configuration for every upgrade but Bedrock, and the cadence of blocks across Denim; a lemma decides Denim by block number.

  \<^item> \<open>L1_Info\<close> (\<open>common/consensus/src/info\<close>): the L1 info transaction in its four formats.
  C20: the origin written by a block builder is the one read back.

  \<^item> \<open>System_Config\<close> (\<open>common/genesis/src/system\<close>, \<open>updates\<close>): configuration updates from logs.
  C19, C31: what receipts with any mixture of updates, foreign logs and malformed events
  do to each field of the configuration, and that updates are read as written; a lemma shows that invalid Ecotone scalars are never installed. The ABI decoders of
  a third-party crate are a parameter with the hypothesis \<open>abi_ok\<close>.

  \<^item> \<open>Batches\<close> (\<open>consensus/protocol/src/batch\<close>): validity of singular and span batches.
  C13, C26: the acceptance conditions and stable verdicts; lemmas cover
  the extraction of singular batches and that the span check does not panic.

  \<^item> \<open>Span_Bits\<close>, \<open>Codecs\<close>, \<open>Span_Codec\<close>, \<open>Span_Txs\<close>, \<open>Span_Derive\<close> (\<open>consensus/protocol/src/batch\<close>: \<open>bits.rs\<close>, \<open>prefix.rs\<close>,
  \<open>payload.rs\<close>, \<open>transactions.rs\<close>, \<open>tx_data\<close>, \<open>raw.rs\<close>, \<open>span.rs\<close>, \<open>core.rs\<close>): the wire format of batches.
  Lemmas show that bit lists are big-endian numbers and that raw span batches are read
  back. C6: a span built from singular batches comes back as their blocks with
  every transaction. C18: decoding never panics and yields well-formed spans. Here a panic is
  the value \<open>Panicking\<close> of the error type \<open>failure\<close>. \<open>Codecs\<close> holds the parameters for variable-length integers and RLP,
  the hypotheses \<open>varint_ok\<close> and \<open>rlp_ok\<close> on them, and an instance of each that satisfies them; the readers of
  lists share the locale \<open>wire_codec\<close>.

  \<^item> \<open>Pipeline_Types\<close> (\<open>consensus/derive/src/errors\<close>): the errors of the pipeline and the operations of a stage.

  \<^item> \<open>L1_Traversal\<close>, \<open>Data_Sources\<close>, \<open>L1_Retrieval\<close> (\<open>consensus/derive/src/stages/traversal\<close>, \<open>sources\<close>, \<open>stages/l1_retrieval.rs\<close>): the walk
  along the L1 chain and the data of its blocks from calldata and blobs. C14: the
  origins are the blocks of the chain in order and the system configuration is the one their
  receipts make of it. C15: the data the batcher posted in a block, in order and once. The
  three data sources share the locale \<open>data_source\<close>.

  \<^item> \<open>Frame_Queue\<close>, \<open>Channel_Assembler\<close>, \<open>Channel_Bank\<close>, \<open>Channel_Provider\<close> (\<open>consensus/derive/src/stages\<close>): the stages between
  L1 data and channel data. C11, C27, C28, C29, C30. The interface of the frame queue is the locale
  \<open>frame_provider\<close>; the lemmas of the assembler are proved in it and interpreted on the frame queue.

  \<^item> \<open>Batch_Stream\<close>, \<open>L1_Window\<close>, \<open>Batch_Validator\<close>, \<open>Batch_Queue\<close>, \<open>Batch_Provider\<close> (\<open>consensus/derive/src/stages/batch\<close>): the stages
  that turn batches into singular batches on top of the safe head. C32: a span is unpacked
  into its singular batches. C7: what the validator hands out is on top of the safe
  head. C33, C34: the batch the queue takes, and that it does not
  panic. C35: the switch at Holocene. The window of L1 blocks is the locale \<open>window_stage\<close>,
  interpreted on the queue and on the validator.

  \<^item> \<open>Batch_Reader\<close>, \<open>Channel_Reader\<close> (\<open>consensus/protocol/src/brotli.rs\<close>, \<open>batch/reader.rs\<close>, \<open>consensus/derive/src/stages/channel/channel_reader.rs\<close>):
  decompression of a channel and reading of its batches. C37: the decompression loop
  returns, with the output cut at the limit. C12, C36: the batches of a channel are delivered in order; no panic, and a
  failing channel is dropped. What the stream needs of the reader is the locale \<open>batch_source\<close>.

  \<^item> \<open>Deposit_Txs\<close>, \<open>Deposit_Logs\<close>, \<open>Base_Time\<close>, \<open>Upgrade_Txs\<close> (\<open>common/consensus/src\<close>: \<open>transaction/deposit.rs\<close>, \<open>source.rs\<close>, \<open>base_time.rs\<close>;
  \<open>consensus/protocol/src/deposits.rs\<close>, \<open>consensus/upgrades/src\<close>): the transactions that the protocol itself puts into a
  block. A lemma shows that sources have different hashes unless the inputs hashed for them collide.
  C38, C39: user deposits from L1 logs. C40: the
  milliseconds of a Denim block. Keccak is a parameter without hypotheses.

  \<^item> \<open>Attributes\<close>, \<open>Attributes_Queue\<close> (\<open>consensus/derive/src/attributes/stateful.rs\<close>, \<open>stages/attributes_queue.rs\<close>, \<open>consensus/protocol/src/attributes.rs\<close>): payload
  attributes, their builder and the stage that feeds it. C9: when the builder succeeds and which error it
  returns. C8: a template says which block it is for. C4: the attributes
  made of a batch. What the stage needs of the batch stage is the locale \<open>batch_supplier\<close>, interpreted on the batch
  provider.

  \<^item> \<open>Pipeline\<close> (\<open>consensus/derive/src/pipeline\<close>, \<open>types/signals.rs\<close>, \<open>types/results.rs\<close>): steps, signals and the stack of all stages.
  C5: a reset goes back far enough for every channel that is still open. C3: a reset empties the whole stack. The contract of a
  reset is the locale \<open>reset_stage\<close>; each stage keeps it, and the stack is its interpretation. C1: the attributes prepared in
  any reachable state are sound, by rule induction over the life of a pipeline.

  \<^item> This theory: C2, from blocks in a span batch to the verifier's span batch across \<open>Span_Derive\<close>, \<open>Blobs\<close>, \<open>Frames\<close>,
  \<open>Frame_Queue\<close>, \<open>Channel_Assembler\<close> and \<open>Channel_Reader\<close>.

  \<^bold>\<open>Termination and bounds.\<close> Loops are structural or have a termination proof by a measure. The two
  exceptions are \<open>partial_function (option)\<close>: C37 shows that the decompression loop returns for every
  decompressor, because the output buffer grows up to the limit, and C5 that the walk back of a reset returns on a
  chain that reaches the genesis block. No function uses fuel, so there is no bound to choose.

  \<^bold>\<open>Correspondence.\<close> Every definition in the model sections keeps the name of the item of the source it
  translates, with a prefix for its type where names clash. The map of the manifest lists the types and
  operations; helpers that translate only a part of the lines of a listed item are left out of it.

  \<^bold>\<open>Not modelled.\<close> Serialisation derived by \<open>serde\<close>, logging, metrics and command lines; the execution
  client, the builder and the proof programs, which are built on crates whose source is not part of
  the repository; networking and RPC. Of the batcher, the building of channels, which writes
  singular batches through a compressor of another crate, and the submission of blobs are not modelled: the
  theorems take a compressed channel by what its decompression gives. The codecs of transaction envelopes and of the
  parts of an EIP-8130 transaction are code of the repository that is a parameter, with round-trip hypotheses.
\<close>

section \<open>From the batcher's blocks to the verifier's batches\<close>

lemma complete_frames_in_order:
  assumes "complete_frames cid fs"
  shows "frames_in_order fs"
proof -
  have "frame_number (fs ! i) + 1 = frame_number (fs ! Suc i)" if "Suc i < length fs" for i
    using assms that by (auto simp: complete_frames_def list_all_length dest: spec [of _ i] spec [of _ "Suc i"])
  then show ?thesis
    using complete_frames_nth [OF assms] by (auto simp: frames_in_order_iff in_order_def)
qed

text \<open>An empty frame queue whose previous stage yields packed frames behaves as one that holds them.\<close>

lemma fq_next_frame_loaded:
  assumes "fq_queue fq = []" "list_all frame_wf fs" "fs \<noteq> []" "frames_in_order fs"
    and "next_data (fq_prev fq) = (Inr (DERIVATION_VERSION_0 # concat (map frame_encode fs)), p)"
    and "st_origin l1 p = Some orig"
  shows "fq_next_frame reg l1 next_data fq =
    fq_next_frame reg l1 next_data (fq\<lparr>fq_prev := p, fq_queue := fs\<rparr>)"
proof -
  have "parse_frames (DERIVATION_VERSION_0 # concat (map frame_encode fs)) = Inr fs"
    using parse_loop_encode [OF assms(2), of "[]" "[]"] assms(3) by (simp add: parse_frames_def)
  then have "fq_load_frames reg l1 next_data fq = (Inr (), fq\<lparr>fq_prev := p, fq_queue := fs\<rparr>)"
    using assms prune_loop_valid [OF assms(4)]
    by (simp add: fq_load_frames_def on_prev_def fq_origin_def fq_prune_def Let_def)
  then show ?thesis
    using assms(3) by (simp add: fq_next_frame_def fq_load_frames_def)
qed

lemma ca_next_data_loaded:
  assumes "fq_next_frame reg l1 next_data fq = fq_next_frame reg l1 next_data fq'"
    and "fq_origin l1 fq = Some orig" and "fq_origin l1 fq' = Some orig"
  shows "ca_next_data reg (fq_stage l1) (fq_next_frame reg l1 next_data) (ca\<lparr>ca_prev := fq\<rparr>) =
    ca_next_data reg (fq_stage l1) (fq_next_frame reg l1 next_data) (ca\<lparr>ca_prev := fq'\<rparr>)"
proof -
  have "ca_origin (fq_stage l1) (ca\<lparr>ca_prev := fq\<rparr>) = Some orig"
    "ca_origin (fq_stage l1) (ca\<lparr>ca_prev := fq'\<rparr>) = Some orig"
    using assms(2,3) by (simp_all add: ca_origin_def fq_stage_def)
  moreover from this have "is_timed_out reg (fq_stage l1) (ca\<lparr>ca_prev := fq\<rparr>) =
      is_timed_out reg (fq_stage l1) (ca\<lparr>ca_prev := fq'\<rparr>)"
    by (simp add: is_timed_out_def split: option.split)
  ultimately show ?thesis
    using assms(1) by (simp add: ca_next_data_def on_prev_def Let_def split: option.split prod.split)
qed

text \<open>
  The frames of a channel, packed into one blob, are assembled into the data of the channel: "not
  enough data" until the last frame, and then the data.
\<close>

lemma packed_frames_decode:
  assumes "fs \<noteq> []" and "list_all frame_wf fs" and "1 + sum_list (map encoded_len fs) \<le> BLOB_MAX_DATA_SIZE"
  shows "\<exists>blob. encode_packed fs = Inr blob \<and>
    blob_data_decode \<lparr>bd_data = Some blob, bd_calldata = None\<rparr> = Inr (DERIVATION_VERSION_0 # concat (map frame_encode fs))"
proof -
  let ?d = "DERIVATION_VERSION_0 # concat (map frame_encode fs)"
  have "length ?d = 1 + sum_list (map encoded_len fs)"
    using assms(2) by (induction fs) (auto simp: length_frame_encode encoded_len_def frame_wf_def)
  then obtain blob where blob: "blob_encode ?d = Inr blob" "length blob = BYTES_PER_BLOB" "blob_decode blob = Inr ?d"
    using blob_roundtrip [of ?d] assms(3) by auto
  then show ?thesis
    using blob_data_decode_eq [of blob "\<lparr>bd_data = Some blob, bd_calldata = None\<rparr>"] by (simp add: encode_packed_def)
qed

lemma packed_frames_assemble:
  assumes "complete_frames cid fs" and "list_all frame_wf fs" and "fq_queue (ca_prev ca) = []"
    and "fits_channel reg (ca_cfg ca) orig fs"
    and "st_origin l1 (fq_prev (ca_prev ca)) = Some orig" and "st_origin l1 p = Some orig"
    and nd: "next_data (fq_prev (ca_prev ca)) = (Inr (DERIVATION_VERSION_0 # concat (map frame_encode fs)), p)"
  shows "\<exists>ca'. op_repeat (length fs) (ca_next_data reg (fq_stage l1) (fq_next_frame reg l1 next_data)) ca =
    (channel_results fs, ca') \<and> fq_queue (ca_prev ca') = [] \<and> ca_channel ca' = None \<and>
    st_origin (ca_stage (fq_stage l1)) ca' = Some orig"
proof -
  let ?fq = "ca_prev ca" and ?step = "ca_next_data reg (fq_stage l1) (fq_next_frame reg l1 next_data)"
  let ?fq' = "?fq\<lparr>fq_prev := p, fq_queue := fs\<rparr>"
  have ne: "fs \<noteq> []" using assms(1) by (simp add: complete_frames_def)
  have "?step (ca\<lparr>ca_prev := ?fq\<rparr>) = ?step (ca\<lparr>ca_prev := ?fq'\<rparr>)"
    using assms ne nd complete_frames_in_order [OF assms(1)]
    by (intro ca_next_data_loaded [where orig = orig] fq_next_frame_loaded) (auto simp: fq_origin_def)
  then have "op_repeat (length fs) ?step ca = op_repeat (length fs) ?step (ca\<lparr>ca_prev := ?fq'\<rparr>)"
    using ne by (cases fs) simp_all
  moreover have "\<exists>ca'. op_repeat (length fs - 0) ?step (ca\<lparr>ca_prev := ?fq'\<rparr>) = (drop 0 (channel_results fs), ca') \<and>
      fq_origin l1 (ca_prev ca') = Some orig \<and> fq_queue (ca_prev ca') = [] \<and> ca_cfg ca' = ca_cfg (ca\<lparr>ca_prev := ?fq'\<rparr>) \<and>
      ca_channel ca' = None"
    using assms ne
    by (intro fqp.assemble_from [where orig = orig and cid = cid]) (auto simp: fq_stage_def fq_origin_def assembling_def)
  ultimately show ?thesis by (auto simp: ca_stage_def ca_origin_def fq_stage_def)
qed

text \<open>While the stage below has no channel yet, the reader passes its answer on and stays as it is.\<close>

lemma cr_waits:
  assumes "cr_next_batch cr = None" and "op_repeat n next_data (cr_prev cr) = (replicate n (Inl e), p)"
  shows "op_repeat n (bsp_next_batch (cr_provider reg prev_stage next_data dc bc)) cr =
    (replicate n (Inl e), cr\<lparr>cr_prev := p\<rparr>)"
  using assms
proof (induction n arbitrary: cr)
  case (Suc n)
  obtain r p1 where p1: "next_data (cr_prev cr) = (r, p1)" by fastforce
  obtain rs p2 where p2: "op_repeat n next_data p1 = (rs, p2)" by fastforce
  have eq: "r = Inl e" "rs = replicate n (Inl e)" "p2 = p" using Suc.prems(2) p1 p2 by simp_all
  have "bsp_next_batch (cr_provider reg prev_stage next_data dc bc) cr = (Inl e, cr\<lparr>cr_prev := p1\<rparr>)"
    using Suc.prems(1) p1 eq
    by (simp add: cr_provider_def cr_read_batch_def cr_set_batch_reader_def on_prev_def cr_next_channel_def)
  then show ?case using Suc.IH [of "cr\<lparr>cr_prev := p1\<rparr>"] Suc.prems(1) p2 eq by simp
qed simp

lemma reader_assembles:
  assumes "cr_next_batch cr = None"
    and "op_repeat (length fs) next_data (cr_prev cr) = (channel_results fs, p)" and "fs \<noteq> []"
    and "st_origin prev_stage p = Some orig"
    and "decompresses dc (unat (max_rlp_bytes_per_channel reg (cr_cfg cr) (bi_timestamp orig)))
      (is_fjord_active reg (cr_cfg cr) (bi_timestamp orig)) (concat (map frame_data fs))
      (batch_payload (tc_rlp (bc_txs bc)) encs @ tail)"
    and "rlp_ok (tc_rlp (bc_txs bc))" and "list_all2 (decodes_to bc (cr_cfg cr)) encs bs"
    and "payload_end (tc_rlp (bc_txs bc)) tail"
  shows "\<exists>cr'. op_repeat (length fs + length bs) (bsp_next_batch (cr_provider reg prev_stage next_data dc bc)) cr =
    (replicate (length fs - 1) (Inl (temp NotEnoughData)) @ map Inr bs @ [Inl (temp NotEnoughData)], cr')"
proof -
  let ?f = "bsp_next_batch (cr_provider reg prev_stage next_data dc bc)"
  obtain n where n: "length fs = n + 1" using assms(3) by (cases fs) auto
  obtain rs p1 where p1: "op_repeat n next_data (cr_prev cr) = (rs, p1)" by fastforce
  obtain r p2 where p2: "next_data p1 = (r, p2)" by fastforce
  have "channel_results fs = rs @ [r] \<and> p = p2"
    using assms(2) p1 p2 unfolding n op_repeat_add by simp
  then have eq: "rs = replicate n (Inl (temp NotEnoughData))" "r = Inr (Some (concat (map frame_data fs)))" "p2 = p"
    using n by (auto simp: channel_results_def)
  have wait: "op_repeat n ?f cr = (replicate n (Inl (temp NotEnoughData)), cr\<lparr>cr_prev := p1\<rparr>)"
    by (rule cr_waits [OF assms(1) p1 [unfolded eq(1)]])
  obtain cr' where "op_repeat (Suc (length bs)) ?f (cr\<lparr>cr_prev := p1\<rparr>) = (map Inr bs @ [Inl (temp NotEnoughData)], cr')"
    using cr_delivers [of "cr\<lparr>cr_prev := p1\<rparr>" next_data "concat (map frame_data fs)" p prev_stage orig dc reg bc encs tail bs]
      assms p2 eq by (auto simp del: op_repeat.simps)
  then have "op_repeat (n + Suc (length bs)) ?f cr =
      (replicate n (Inl (temp NotEnoughData)) @ map Inr bs @ [Inl (temp NotEnoughData)], cr')"
    using wait unfolding op_repeat_add by (simp del: op_repeat.simps)
  then show ?thesis using n by (simp del: op_repeat.simps)
qed

text \<open>
  C2. L2 blocks survive the way through L1. Consecutive blocks are collected into one span
  batch; its encoding, compressed and cut into the frames of a channel, fits into one blob.
  Then the blob exists, the verifier's decoder recovers the packing, and the frame queue,
  the channel assembler and the channel reader, at an origin where the channel fits, answer
  "not enough data" for every frame but the last, then the span batch of exactly these blocks,
  with their timestamps, epochs and transactions, and then again "not enough data".
\<close>

theorem blocks_through_blob:
  fixes bc :: batch_codecs and cr :: "'p frame_queue channel_assembler channel_reader"
  defines "cfg \<equiv> cr_cfg cr" and "ca \<equiv> cr_prev cr"
  assumes "varint_ok (bc_varint bc)" and "rlp_ok (tc_rlp (bc_txs bc))" and "bes \<noteq> []"
    and "list_all (block_ok (bc_txs bc) (rc_l2_chain_id cfg)) bes"
    and "consecutive (rc_block_time cfg) (map fst bes)"
    and "length bes \<le> unat MAX_SPAN_BATCH_ELEMENTS"
    and "length (concat (map snd bes)) \<le> unat MAX_SPAN_BATCH_ELEMENTS" and "length seqs = length bes"
    and sp: "append_all (bc_txs bc) (zip (map fst bes) seqs)
      (span_builder_new (gen_l2_time (rc_genesis cfg)) (rc_l2_chain_id cfg)) = Inr sp"
    and enc: "batch_encode bc (Inr sp) = Inr enc" "length enc < 2 ^ 64"
    and "decompresses dc (unat (max_rlp_bytes_per_channel reg cfg (bi_timestamp orig)))
      (is_fjord_active reg cfg (bi_timestamp orig)) (concat (map frame_data fs))
      (rlp_bytes_encode (tc_rlp (bc_txs bc)) enc)"
    and "complete_frames cid fs" and "list_all frame_wf fs"
    and "1 + sum_list (map encoded_len fs) \<le> BLOB_MAX_DATA_SIZE"
    and "cr_next_batch cr = None" and "fq_queue (ca_prev ca) = []" and "fits_channel reg (ca_cfg ca) orig fs"
    and "st_origin st (fq_prev (ca_prev ca)) = Some orig" and "st_origin st p = Some orig"
  shows "\<exists>blob data. encode_packed fs = Inr blob \<and>
    blob_data_decode \<lparr>bd_data = Some blob, bd_calldata = None\<rparr> = Inr data \<and>
    (\<forall>next_data. next_data (fq_prev (ca_prev ca)) = (Inr data, p) \<longrightarrow>
      (\<exists>cr'. op_repeat (length fs + 1) (bsp_next_batch (cr_provider reg (ca_stage (fq_stage st))
          (ca_next_data reg (fq_stage st) (fq_next_frame reg st next_data)) dc bc)) cr =
        (replicate (length fs - 1) (Inl (temp NotEnoughData)) @
          [Inr (Span (span_of_singles (map fst bes))), Inl (temp NotEnoughData)], cr')))"
proof -
  let ?d = "DERIVATION_VERSION_0 # concat (map frame_encode fs)"
  let ?b = "Span (span_of_singles (map fst bes))"
  have ne: "fs \<noteq> []" using assms(15) by (simp add: complete_frames_def)
  obtain blob where blob: "encode_packed fs = Inr blob"
    "blob_data_decode \<lparr>bd_data = Some blob, bd_calldata = None\<rparr> = Inr ?d"
    using packed_frames_decode [OF ne assms(16,17)] by blast
  have "batch_decode bc cfg enc = Inr (?b, [])"
    using span_enc_dec [OF assms(3-10), of "[]"] sp enc(1) by simp
  then have dec: "list_all2 (decodes_to bc (cr_cfg cr)) [enc] [?b]"
    using enc(2) by (simp add: decodes_to_def cfg_def)
  have pay: "rlp_bytes_encode (tc_rlp (bc_txs bc)) enc = batch_payload (tc_rlp (bc_txs bc)) [enc] @ []"
    by (simp add: batch_payload_def)
  have "\<exists>cr'. op_repeat (length fs + length [?b]) (bsp_next_batch (cr_provider reg (ca_stage (fq_stage st))
          (ca_next_data reg (fq_stage st) (fq_next_frame reg st next_data)) dc bc)) cr =
        (replicate (length fs - 1) (Inl (temp NotEnoughData)) @ map Inr [?b] @ [Inl (temp NotEnoughData)], cr')"
    if nd: "next_data (fq_prev (ca_prev ca)) = (Inr ?d, p)" for next_data
  proof -
    obtain ca' where ca': "op_repeat (length fs) (ca_next_data reg (fq_stage st) (fq_next_frame reg st next_data)) (cr_prev cr) =
        (channel_results fs, ca')" "st_origin (ca_stage (fq_stage st)) ca' = Some orig"
      using packed_frames_assemble [where next_data = next_data, OF assms(15,16,19-22) nd] unfolding ca_def by blast
    show ?thesis
      by (rule reader_assembles [OF assms(18) ca'(1) ne ca'(2) assms(14) [unfolded pay cfg_def] assms(4) dec])
        (simp add: payload_end_def)
  qed
  then show ?thesis using blob by auto
qed

text \<open>The span of the sample blocks, as the channel of two frames in one blob.\<close>

lemma small_bytes: "leading_zeros 1 = 7" "leading_zeros 3 = 6"
  by (simp_all add: leading_zeros_def upt_rec bit_simps)

lemma leb128_length: "n < 128 \<Longrightarrow> length (leb128_encode n) = 1" "length (leb128_encode 21000) = 3"
  by (simp_all add: leb128_encode.simps)

lemma sample_encoding:
  "\<exists>sp enc. append_all (bc_txs sample_codecs) (zip (map fst sample_blocks) [0, 0])
        (span_builder_new (gen_l2_time (rc_genesis sample_config)) (rc_l2_chain_id sample_config)) = Inr sp \<and>
     batch_encode sample_codecs (Inr sp) = Inr enc \<and> length enc < 300"
proof -
  have "\<exists>sp. append_all (bc_txs sample_codecs) (zip (map fst sample_blocks) [0, 0])
        (span_builder_new (gen_l2_time (rc_genesis sample_config)) (rc_l2_chain_id sample_config)) = Inr sp \<and>
      (case batch_encode sample_codecs (Inr sp) of Inr enc \<Rightarrow> length enc < 300 | _ \<Rightarrow> False)"
    by (simp add: sample_blocks_def append_singular_batch_def span_builder_new_def sample_config_def sample_codecs_def
        add_txs_def add_tx_def add_envelope_def Let_def rollup_config_default_def chain_genesis_default_def
        span_txs_default_def sample_env_def data_of_envelope_def data_encode_def chain_check_def span_peek_def
        element_of_single_def bits_set_bit_def resize_from_right_def)
      (simp add: batch_encode_def span_encode_def Let_def bits_encode_def span_txs_encode_def
        encode_contract_creation_bits_def encode_protected_bits_def encode_tx_sigs_def y_parity_bits_def sig_bytes_def
        encode_tx_nonces_def encode_tx_gases_def encode_tx_tos_def encode_tx_data_def encode_eip8130_auth_data_def
        encode_prefix_def leb128_def bits_set_bit_def resize_from_right_def bits_buffer_len_def small_bytes leb128_length)
  then obtain sp where sp: "append_all (bc_txs sample_codecs) (zip (map fst sample_blocks) [0, 0])
        (span_builder_new (gen_l2_time (rc_genesis sample_config)) (rc_l2_chain_id sample_config)) = Inr sp"
    "case batch_encode sample_codecs (Inr sp) of Inr enc \<Rightarrow> length enc < 300 | _ \<Rightarrow> False"
    by blast
  then show ?thesis by (cases "batch_encode sample_codecs (Inr sp)") auto
qed

theorem blocks_through_blob_witness:
  "\<exists>enc fs blob data cr'.
    concat (map frame_data fs) = 0x78 # rlp_bytes_encode rlp_format enc \<and> encode_packed fs = Inr blob \<and>
    blob_data_decode \<lparr>bd_data = Some blob, bd_calldata = None\<rparr> = Inr data \<and>
    op_repeat 3 (bsp_next_batch (cr_provider Map.empty (ca_stage (fq_stage (fixed_stage block_info_default)))
        (ca_next_data Map.empty (fq_stage (fixed_stage block_info_default))
          (fq_next_frame Map.empty (fixed_stage block_info_default) (Pair (Inr data)))) plain_decompressors sample_codecs))
      (cr_new (ca_new sample_config (fq_new () sample_config)) sample_config) =
    ([Inl (temp NotEnoughData), Inr (Span (span_of_singles (map fst sample_blocks))), Inl (temp NotEnoughData)], cr')"
proof -
  obtain sp enc where sp: "append_all (bc_txs sample_codecs) (zip (map fst sample_blocks) [0, 0])
        (span_builder_new (gen_l2_time (rc_genesis sample_config)) (rc_l2_chain_id sample_config)) = Inr sp"
    and enc: "batch_encode sample_codecs (Inr sp) = Inr enc" "length enc < 300"
    using sample_encoding by blast
  let ?payload = "rlp_bytes_encode rlp_format enc"
  define fr where "fr = (\<lambda>n d l. \<lparr>frame_id = replicate 16 7, frame_number = n, frame_data = d, frame_is_last = l\<rparr>)"
  define fs where "fs = [fr 0 [0x78] False, fr 1 ?payload True]"
  let ?ca = "ca_new sample_config (fq_new () sample_config)"
  let ?cr = "cr_new ?ca sample_config" and ?l1 = "fixed_stage block_info_default" and ?o = block_info_default
  have len: "length ?payload \<le> 309" using rlp_format_compact enc(2) by (auto simp: rlp_compact_def dest!: spec [of _ enc])
  have 1: "complete_frames (replicate 16 7) fs" by (simp add: complete_frames_def fs_def fr_def)
  have 2: "list_all frame_wf fs" using len by (simp add: frame_wf_def FRAME_MAX_LEN_def fs_def fr_def)
  have 3: "1 + sum_list (map encoded_len fs) \<le> BLOB_MAX_DATA_SIZE"
    using len by (simp add: encoded_len_def ENCODED_OVERHEAD_def fs_def fr_def BLOB_MAX_DATA_SIZE_def)
  have 4: "fits_channel Map.empty (ca_cfg ?ca) ?o fs"
    using len by (simp add: fits_channel_def fs_def fr_def frame_size_def FRAME_OVERHEAD_ESTIMATE_def
        max_rlp_bytes_per_channel_def MAX_RLP_BYTES_PER_CHANNEL_FJORD_def
        MAX_RLP_BYTES_PER_CHANNEL_BEDROCK_def block_info_default_def block_info_new_def)
  have c: "cr_cfg ?cr = sample_config" "cr_prev ?cr = ?ca" "cr_next_batch ?cr = None" "fq_queue (ca_prev ?ca) = []"
    "tc_rlp (bc_txs sample_codecs) = rlp_format" "st_origin ?l1 q = Some ?o" "length enc < 2 ^ 64" for q
    using enc(2) by (simp_all add: cr_new_def ca_new_def fq_new_def sample_codecs_def fixed_stage_def)
  have "length ?payload \<le> unat (max_rlp_bytes_per_channel Map.empty sample_config (bi_timestamp ?o))"
    using len by (simp add: max_rlp_bytes_per_channel_def MAX_RLP_BYTES_PER_CHANNEL_FJORD_def
        MAX_RLP_BYTES_PER_CHANNEL_BEDROCK_def)
  then have d: "decompresses plain_decompressors (unat (max_rlp_bytes_per_channel Map.empty sample_config (bi_timestamp ?o)))
      (is_fjord_active Map.empty sample_config (bi_timestamp ?o)) (concat (map frame_data fs)) ?payload"
    by (simp add: fs_def fr_def plain_decompresses)
  note app = blocks_through_blob [where cr = ?cr and bc = sample_codecs and bes = sample_blocks and seqs = "[0, 0]" and st = ?l1
      and p = "()" and orig = ?o and reg = Map.empty and dc = plain_decompressors and fs = fs, unfolded c,
      OF sample_blocks_ok(3) sample_blocks_ok(4) [unfolded c] sample_blocks_ok(5,1,2,6,7,8) sp enc(1) c(7) d 1 2 3 refl refl 4 refl refl]
  have n: "length fs = 2" "concat (map frame_data fs) = 0x78 # ?payload" by (simp_all add: fs_def fr_def)
  obtain blob data where b: "encode_packed fs = Inr blob"
    "blob_data_decode \<lparr>bd_data = Some blob, bd_calldata = None\<rparr> = Inr data"
    and run: "\<And>next_data. next_data (fq_prev (ca_prev ?ca)) = (Inr data, ()) \<Longrightarrow>
      \<exists>cr'. op_repeat (length fs + 1) (bsp_next_batch (cr_provider Map.empty (ca_stage (fq_stage ?l1))
          (ca_next_data Map.empty (fq_stage ?l1) (fq_next_frame Map.empty ?l1 next_data)) plain_decompressors sample_codecs)) ?cr =
        (replicate (length fs - 1) (Inl (temp NotEnoughData)) @
          [Inr (Span (span_of_singles (map fst sample_blocks))), Inl (temp NotEnoughData)], cr')"
    using app by auto
  have "\<exists>cr'. op_repeat 3 (bsp_next_batch (cr_provider Map.empty (ca_stage (fq_stage ?l1))
          (ca_next_data Map.empty (fq_stage ?l1) (fq_next_frame Map.empty ?l1 (Pair (Inr data)))) plain_decompressors sample_codecs)) ?cr =
        ([Inl (temp NotEnoughData), Inr (Span (span_of_singles (map fst sample_blocks))), Inl (temp NotEnoughData)], cr')"
    using run [of "Pair (Inr data)"] by (simp add: n(1) eval_nat_numeral del: op_repeat.simps)
  then show ?thesis using b n(2) by blast
qed

end
